(* ===== verification/Prelude.thy ===== *)
theory Prelude
  imports Complex_Main "HOL-Library.Char_ord" "HOL-Library.List_Lexorder"
begin

text \<open>
  The part of the development every component shares: errors as values of a sum type,
  the sequencing operator of fallible code with its inversion rules, short-circuiting
  loops over fallible tests, and the theorem collections the component proofs use.

  A Python exception is a value of \<open>py_error\<close>; a function that may raise
  returns \<open>py_error + 'a\<close>. Messages are kept the way the source writes them: an
  f-string is the list of its pieces, literal text and interpolated values, so no
  number or timestamp formatting is invented for text that nothing reads back.
\<close>

section \<open>Errors as values\<close>

record datetime =
  dt_us :: int
  dt_off :: "int option"

datatype msg_part =
    Txt string
  | PyRepr string
  | Quoted string
  | Num int
  | FmtG rat
  | Iso datetime

type_synonym message = "msg_part list"

datatype py_error =
    ValueError message
  | TypeError message
  | KeyError string
  | OSError message
  | RuntimeError message
  | IntegrityError
  | SystemExit message

type_synonym 'a result = "py_error + 'a"

abbreviation value_error :: "string \<Rightarrow> 'a result" where
  "value_error s \<equiv> Inl (ValueError [Txt s])"

text \<open>\<open>except ValueError\<close>: the subclasses of pydantic and json are constructed as \<open>ValueError\<close>.\<close>

fun is_value_error :: "py_error \<Rightarrow> bool" where
  "is_value_error (ValueError _) = True"
| "is_value_error _ = False"

text \<open>\<open>str(exc)\<close> of a raised error.\<close>

fun error_text :: "py_error \<Rightarrow> message" where
  "error_text (ValueError m) = m"
| "error_text (TypeError m) = m"
| "error_text (KeyError k) = [PyRepr k]"
| "error_text (OSError m) = m"
| "error_text (RuntimeError m) = m"
| "error_text IntegrityError = [Txt ''UNIQUE constraint failed'']"
| "error_text (SystemExit m) = m"

text \<open>The text of a message without interpolated values.\<close>

fun literal_text :: "message \<Rightarrow> string" where
  "literal_text (Txt s # m) = s @ literal_text m"
| "literal_text (_ # m) = literal_text m"
| "literal_text [] = []"

named_theorems result_simps "inversion of fallible code"

fun rbind :: "'e + 'a \<Rightarrow> ('a \<Rightarrow> 'e + 'b) \<Rightarrow> 'e + 'b" where
  "rbind (Inl e) f = Inl e"
| "rbind (Inr x) f = f x"

lemma rbind_Inr_iff [result_simps]:
  "rbind r f = Inr y \<longleftrightarrow> (\<exists>x. r = Inr x \<and> f x = Inr y)"
  by (cases r) auto

lemma rbind_Inl_iff [result_simps]:
  "rbind r f = Inl e \<longleftrightarrow> r = Inl e \<or> (\<exists>x. r = Inr x \<and> f x = Inl e)"
  by (cases r) auto

lemma rbind_InrE:
  assumes "rbind r f = Inr y"
  obtains x where "r = Inr x" "f x = Inr y"
  using assms by (cases r) auto

lemma rbind_cong [fundef_cong]:
  "r = r' \<Longrightarrow> (\<And>x. r' = Inr x \<Longrightarrow> f x = f' x) \<Longrightarrow> rbind r f = rbind r' f'"
  by (cases r') auto

lemma rbind_assoc: "rbind (rbind r f) g = rbind r (\<lambda>x. rbind (f x) g)"
  by (cases r) auto

definition require :: "bool \<Rightarrow> message \<Rightarrow> unit result" where
  "require b m = (if b then Inr () else Inl (ValueError m))"

lemma require_Inr_iff [result_simps]: "require b m = Inr u \<longleftrightarrow> b"
  by (simp add: require_def)

lemma require_Inl_iff [result_simps]: "require b m = Inl e \<longleftrightarrow> \<not> b \<and> e = ValueError m"
  by (auto simp: require_def)

lemma require_simps [simp]:
  "require True m = Inr ()" "require False m = Inl (ValueError m)"
  by (simp_all add: require_def)

section \<open>Loops over fallible tests\<close>

text \<open>\<open>any(p(x) for x in xs)\<close> stops at the first true or raising test.\<close>

fun rany :: "('a \<Rightarrow> bool result) \<Rightarrow> 'a list \<Rightarrow> bool result" where
  "rany p [] = Inr False"
| "rany p (x # xs) = rbind (p x) (\<lambda>b. if b then Inr True else rany p xs)"

text \<open>\<open>[x for x in xs if p(x)]\<close>.\<close>

fun rfilter :: "('a \<Rightarrow> bool result) \<Rightarrow> 'a list \<Rightarrow> 'a list result" where
  "rfilter p [] = Inr []"
| "rfilter p (x # xs) =
     rbind (p x) (\<lambda>b. rbind (rfilter p xs) (\<lambda>ys. Inr (if b then x # ys else ys)))"

fun rmap :: "('a \<Rightarrow> 'b result) \<Rightarrow> 'a list \<Rightarrow> 'b list result" where
  "rmap f [] = Inr []"
| "rmap f (x # xs) = rbind (f x) (\<lambda>y. rbind (rmap f xs) (\<lambda>ys. Inr (y # ys)))"

lemma rany_TrueD: "rany p xs = Inr True \<Longrightarrow> \<exists>x \<in> set xs. p x = Inr True"
  by (induction xs) (auto simp: result_simps split: if_splits)

lemma rany_FalseD: "rany p xs = Inr False \<Longrightarrow> x \<in> set xs \<Longrightarrow> p x = Inr False"
  by (induction xs) (auto simp: result_simps split: if_splits)

lemma rany_pure [simp]: "rany (\<lambda>x. Inr (p x)) xs = Inr (\<exists>x \<in> set xs. p x)"
  by (induction xs) auto

lemma rfilter_mem:
  "rfilter p xs = Inr ys \<Longrightarrow> y \<in> set ys \<longleftrightarrow> y \<in> set xs \<and> p y = Inr True"
  by (induction xs arbitrary: ys) (auto simp: result_simps split: if_splits)

lemma rfilter_Nil_iff:
  "rfilter p xs = Inr ys \<Longrightarrow> ys = [] \<longleftrightarrow> (\<forall>x \<in> set xs. p x \<noteq> Inr True)"
  by (induction xs arbitrary: ys) (auto simp: result_simps split: if_splits)

lemma rfilter_total: "rfilter p xs = Inr ys \<Longrightarrow> x \<in> set xs \<Longrightarrow> \<exists>b. p x = Inr b"
  by (induction xs arbitrary: ys) (auto simp: result_simps split: if_splits)

lemma rfilter_pure [simp]: "rfilter (\<lambda>x. Inr (p x)) xs = Inr (filter p xs)"
  by (induction xs) auto

lemma rfilter_cong [fundef_cong]:
  "xs = ys \<Longrightarrow> (\<And>x. x \<in> set ys \<Longrightarrow> p x = q x) \<Longrightarrow> rfilter p xs = rfilter q ys"
  by (induction xs arbitrary: ys) auto

section \<open>Optional values and maps\<close>

text \<open>\<open>x or d\<close> on an optional value whose present values are all true.\<close>

fun or_else :: "'a option \<Rightarrow> 'a \<Rightarrow> 'a" where
  "or_else None d = d"
| "or_else (Some x) d = x"

text \<open>Association lists as Python dictionaries: insertion order, replacement in place.\<close>

fun dict_get :: "('k \<times> 'v) list \<Rightarrow> 'k \<Rightarrow> 'v option" where
  "dict_get [] k = None"
| "dict_get ((k', v) # d) k = (if k' = k then Some v else dict_get d k)"

fun dict_set :: "('k \<times> 'v) list \<Rightarrow> 'k \<Rightarrow> 'v \<Rightarrow> ('k \<times> 'v) list" where
  "dict_set [] k v = [(k, v)]"
| "dict_set ((k', w) # d) k v = (if k' = k then (k, v) # d else (k', w) # dict_set d k v)"

lemma dict_get_set [simp]: "dict_get (dict_set d k v) k' = (if k' = k then Some v else dict_get d k')"
  by (induction d) auto

lemma dict_set_keys: "fst ` set (dict_set d k v) = insert k (fst ` set d)"
  by (induction d k v rule: dict_set.induct) (simp_all add: insert_commute)

lemma dict_set_distinct: "distinct (map fst d) \<Longrightarrow> distinct (map fst (dict_set d k v))"
proof (induction d)
  case Nil
  then show ?case by simp
next
  case (Cons p d)
  obtain k' w where p: "p = (k', w)" by (cases p)
  have "k' \<noteq> k \<Longrightarrow> k' \<notin> fst ` set (dict_set d k v)"
    using Cons.prems by (simp add: dict_set_keys p)
  with Cons show ?case by (auto simp: p)
qed

lemma dict_get_map_of: "dict_get d k = map_of d k"
  by (induction d) auto

lemma dict_set_values:
  assumes "dict_get d k = Some v" "g v' = g v"
  shows "map (\<lambda>p. g (snd p)) (dict_set d k v') = map (\<lambda>p. g (snd p)) d"
  using assms by (induction d) auto

lemma dict_set_known_keys: "dict_get d k \<noteq> None \<Longrightarrow> map fst (dict_set d k v) = map fst d"
  by (induction d) auto

lemma dict_set_new: "dict_get d k = None \<Longrightarrow> dict_set d k v = d @ [(k, v)]"
  by (induction d) (auto split: if_splits)

lemma dict_get_None_keys: "dict_get d k = None \<longleftrightarrow> k \<notin> set (map fst d)"
  by (simp add: dict_get_map_of map_of_eq_None_iff)

text \<open>A counter over the rows of a table that satisfy a test.\<close>

definition count_rows :: "('a \<Rightarrow> bool) \<Rightarrow> 'a list \<Rightarrow> nat" where
  "count_rows p rows = length (filter p rows)"

lemma count_rows_Nil [simp]: "count_rows p [] = 0"
  by (simp add: count_rows_def)

lemma count_rows_Cons [simp]:
  "count_rows p (x # xs) = (if p x then Suc (count_rows p xs) else count_rows p xs)"
  by (simp add: count_rows_def)

lemma count_rows_append [simp]: "count_rows p (xs @ ys) = count_rows p xs + count_rows p ys"
  by (simp add: count_rows_def)

lemma count_rows_mono: "(\<And>x. p x \<Longrightarrow> q x) \<Longrightarrow> count_rows p xs \<le> count_rows q xs"
  by (induction xs) (auto intro: le_SucI)

lemma count_rows_disj:
  "(\<And>x. x \<in> set xs \<Longrightarrow> \<not> (p x \<and> q x)) \<Longrightarrow>
   count_rows (\<lambda>x. p x \<or> q x) xs = count_rows p xs + count_rows q xs"
  by (induction xs) auto

end
