(* ===== verification/PyText.thy ===== *)
theory PyText
  imports Prelude
begin

text \<open>
  The operations of Python's \<open>str\<close> the program uses, on strings as character lists.
  Text is ASCII: case conversion, digit and space tests are those of ASCII characters.
\<close>

section \<open>Characters\<close>

definition ord :: "char \<Rightarrow> nat" where
  "ord c = of_char c"

definition is_upper :: "char \<Rightarrow> bool" where
  "is_upper c \<longleftrightarrow> 65 \<le> ord c \<and> ord c \<le> 90"

definition is_lower :: "char \<Rightarrow> bool" where
  "is_lower c \<longleftrightarrow> 97 \<le> ord c \<and> ord c \<le> 122"

definition is_alpha :: "char \<Rightarrow> bool" where
  "is_alpha c \<longleftrightarrow> is_upper c \<or> is_lower c"

definition is_digit :: "char \<Rightarrow> bool" where
  "is_digit c \<longleftrightarrow> 48 \<le> ord c \<and> ord c \<le> 57"

definition is_space :: "char \<Rightarrow> bool" where
  "is_space c \<longleftrightarrow> ord c = 32 \<or> (9 \<le> ord c \<and> ord c \<le> 13) \<or> (28 \<le> ord c \<and> ord c \<le> 31)"

definition char_lower :: "char \<Rightarrow> char" where
  "char_lower c = (if is_upper c then char_of (ord c + 32) else c)"

definition char_upper :: "char \<Rightarrow> char" where
  "char_upper c = (if is_lower c then char_of (ord c - 32) else c)"

definition hex_value :: "char \<Rightarrow> nat option" where
  "hex_value c =
     (if is_digit c then Some (ord c - 48)
      else if 97 \<le> ord c \<and> ord c \<le> 102 then Some (ord c - 87)
      else if 65 \<le> ord c \<and> ord c \<le> 70 then Some (ord c - 55)
      else None)"

definition hex_digit :: "nat \<Rightarrow> char" where
  "hex_digit n = ''0123456789abcdef'' ! (n mod 16)"

lemma ord_char_of: "(n::nat) < 256 \<Longrightarrow> ord (char_of n) = n"
  by (simp add: ord_def)

lemma ord_inj: "ord c = ord d \<longleftrightarrow> c = d"
  by (simp add: ord_def)

text \<open>Code equations on the bits of a character: case is one bit.\<close>

lemma char_lower_code [code]:
  "char_lower (Char b0 b1 b2 b3 b4 b5 b6 b7) =
     (if is_upper (Char b0 b1 b2 b3 b4 b5 b6 b7) then Char b0 b1 b2 b3 b4 True b6 b7 else Char b0 b1 b2 b3 b4 b5 b6 b7)"
proof (cases "is_upper (Char b0 b1 b2 b3 b4 b5 b6 b7)")
  case True
  have le: "of_bool b \<le> (1::nat)" for b by simp
  from True have "ord (Char b0 b1 b2 b3 b4 True b6 b7) = ord (Char b0 b1 b2 b3 b4 b5 b6 b7) + 32"
    using le [of b0] le [of b1] le [of b2] le [of b3] le [of b4]
    by (cases b5; cases b6; cases b7; simp add: is_upper_def ord_def)
  then have "char_of (ord (Char b0 b1 b2 b3 b4 b5 b6 b7) + 32) = Char b0 b1 b2 b3 b4 True b6 b7"
    by (metis char_of_char ord_def)
  with True show ?thesis by (simp add: char_lower_def)
qed (simp add: char_lower_def)

lemma char_upper_code [code]:
  "char_upper (Char b0 b1 b2 b3 b4 b5 b6 b7) =
     (if is_lower (Char b0 b1 b2 b3 b4 b5 b6 b7) then Char b0 b1 b2 b3 b4 False b6 b7 else Char b0 b1 b2 b3 b4 b5 b6 b7)"
proof (cases "is_lower (Char b0 b1 b2 b3 b4 b5 b6 b7)")
  case True
  have le: "of_bool b \<le> (1::nat)" for b by simp
  from True have "ord (Char b0 b1 b2 b3 b4 False b6 b7) = ord (Char b0 b1 b2 b3 b4 b5 b6 b7) - 32"
    using le [of b0] le [of b1] le [of b2] le [of b3] le [of b4]
    by (cases b5; cases b6; cases b7; simp add: is_lower_def ord_def)
  then have "char_of (ord (Char b0 b1 b2 b3 b4 b5 b6 b7) - 32) = Char b0 b1 b2 b3 b4 False b6 b7"
    by (metis char_of_char ord_def)
  with True show ?thesis by (simp add: char_upper_def)
qed (simp add: char_upper_def)

lemma char_lower_idem [simp]: "char_lower (char_lower c) = char_lower c"
proof (cases "is_upper c")
  case True
  then have "ord (char_lower c) = ord c + 32"
    by (simp add: char_lower_def is_upper_def ord_char_of)
  with True have "\<not> is_upper (char_lower c)" by (simp add: is_upper_def)
  then show ?thesis by (simp add: char_lower_def [of "char_lower c"])
next
  case False
  then show ?thesis by (simp add: char_lower_def)
qed

section \<open>Strings\<close>

definition str_lower :: "string \<Rightarrow> string" where
  "str_lower s = map char_lower s"

definition str_upper :: "string \<Rightarrow> string" where
  "str_upper s = map char_upper s"

fun startswith :: "string \<Rightarrow> string \<Rightarrow> bool" where
  "startswith s [] = True"
| "startswith [] (p # ps) = False"
| "startswith (c # s) (p # ps) = (c = p \<and> startswith s ps)"

definition endswith :: "string \<Rightarrow> string \<Rightarrow> bool" where
  "endswith s p = startswith (rev s) (rev p)"

text \<open>\<open>sub in s\<close>.\<close>

fun contains :: "string \<Rightarrow> string \<Rightarrow> bool" where
  "contains [] p = (p = [])"
| "contains (c # s) p = (startswith (c # s) p \<or> contains s p)"

text \<open>\<open>s.find(c)\<close> as an optional index and \<open>s.partition(c)\<close> for one character.\<close>

fun partition_at :: "char \<Rightarrow> string \<Rightarrow> string \<times> string \<times> string" where
  "partition_at c [] = ([], [], [])"
| "partition_at c (x # s) =
     (if x = c then ([], [c], s)
      else (case partition_at c s of (a, sep, b) \<Rightarrow> (x # a, sep, b)))"

definition rpartition_at :: "char \<Rightarrow> string \<Rightarrow> string \<times> string \<times> string" where
  "rpartition_at c s =
     (case partition_at c (rev s) of (a, sep, b) \<Rightarrow>
        if sep = [] then ([], [], s) else (rev b, sep, rev a))"

fun split_on :: "char \<Rightarrow> string \<Rightarrow> string list" where
  "split_on c [] = [[]]"
| "split_on c (x # s) =
     (if x = c then [] # split_on c s
      else (case split_on c s of [] \<Rightarrow> [[x]] | w # ws \<Rightarrow> (x # w) # ws))"

definition rstrip_of :: "(char \<Rightarrow> bool) \<Rightarrow> string \<Rightarrow> string" where
  "rstrip_of p s = rev (dropWhile p (rev s))"

definition strip :: "string \<Rightarrow> string" where
  "strip s = rstrip_of is_space (dropWhile is_space s)"

definition removeprefix :: "string \<Rightarrow> string \<Rightarrow> string" where
  "removeprefix s p = (if startswith s p then drop (length p) s else s)"

fun join :: "string \<Rightarrow> string list \<Rightarrow> string" where
  "join sep [] = []"
| "join sep [w] = w"
| "join sep (w # ws) = w @ sep @ join sep ws"

definition all_digits :: "string \<Rightarrow> bool" where
  "all_digits s \<longleftrightarrow> s \<noteq> [] \<and> list_all is_digit s"

definition digits_value :: "string \<Rightarrow> nat" where
  "digits_value s = foldl (\<lambda>n c. 10 * n + (ord c - 48)) 0 s"

function (sequential) nat_str :: "nat \<Rightarrow> string" where
  "nat_str n = (if n < 10 then [char_of (48 + n)] else nat_str (n div 10) @ [char_of (48 + n mod 10)])"
  by pat_completeness auto
termination
  by (relation "measure (\<lambda>n. n)") auto

declare nat_str.simps [simp del]

definition int_str :: "int \<Rightarrow> string" where
  "int_str i = (if i < 0 then ''-'' @ nat_str (nat (- i)) else nat_str (nat i))"

text \<open>Zero-padded decimal and hexadecimal fields of a fixed width.\<close>

fun pad_nat :: "nat \<Rightarrow> nat \<Rightarrow> string" where
  "pad_nat 0 n = []"
| "pad_nat (Suc w) n = pad_nat w (n div 10) @ [char_of (48 + n mod 10)]"

fun hex_field :: "nat \<Rightarrow> nat \<Rightarrow> string" where
  "hex_field 0 n = []"
| "hex_field (Suc w) n = hex_field w (n div 16) @ [hex_digit n]"

section \<open>Facts about them\<close>

lemma startswith_iff: "startswith s p \<longleftrightarrow> (\<exists>t. s = p @ t)"
  by (induction s p rule: startswith.induct) auto

lemma startswith_refl [simp]: "startswith s s"
  by (simp add: startswith_iff)

lemma startswith_append [simp]: "startswith (p @ t) p"
  by (simp add: startswith_iff)

lemma contains_iff: "contains s p \<longleftrightarrow> (\<exists>a b. s = a @ p @ b)"
proof (induction s)
  case Nil
  then show ?case by auto
next
  case (Cons c s)
  show ?case
  proof
    assume "contains (c # s) p"
    then consider "startswith (c # s) p" | "contains s p" by auto
    then show "\<exists>a b. c # s = a @ p @ b"
    proof cases
      case 1
      then show ?thesis by (auto simp: startswith_iff intro: exI [of _ "[]"])
    next
      case 2
      with Cons.IH obtain a b where "s = a @ p @ b" by blast
      then have "c # s = (c # a) @ p @ b" by simp
      then show ?thesis by blast
    qed
  next
    assume "\<exists>a b. c # s = a @ p @ b"
    then obtain a b where ab: "c # s = a @ p @ b" by blast
    show "contains (c # s) p"
    proof (cases a)
      case Nil
      with ab have "startswith (c # s) p" by (simp add: startswith_iff)
      then show ?thesis by simp
    next
      case (Cons x xs)
      with ab have "s = xs @ p @ b" by simp
      with Cons.IH show ?thesis by auto
    qed
  qed
qed

lemma str_lower_idem [simp]: "str_lower (str_lower s) = str_lower s"
  by (simp add: str_lower_def)

lemma length_str_lower [simp]: "length (str_lower s) = length s"
  by (simp add: str_lower_def)

lemma str_lower_append [simp]: "str_lower (s @ t) = str_lower s @ str_lower t"
  by (simp add: str_lower_def)

lemma partition_at_append:
  "partition_at c s = (a, sep, b) \<Longrightarrow> s = a @ sep @ b"
  by (induction s arbitrary: a sep b) (auto split: if_splits prod.splits)

lemma partition_at_notin: "partition_at c s = (a, sep, b) \<Longrightarrow> c \<notin> set a"
  by (induction s arbitrary: a sep b) (auto split: if_splits prod.splits)

lemma partition_at_sep: "partition_at c s = (a, sep, b) \<Longrightarrow> sep = [] \<or> sep = [c]"
  by (induction s arbitrary: a sep b) (auto split: if_splits prod.splits)

lemma partition_at_fresh: "c \<notin> set a \<Longrightarrow> partition_at c (a @ c # b) = (a, [c], b)"
  by (induction a) auto

lemma partition_at_none: "c \<notin> set s \<Longrightarrow> partition_at c s = (s, [], [])"
  by (induction s) auto

lemma split_on_nonempty [simp]: "split_on c s \<noteq> []"
  by (induction s) (auto split: list.splits)

lemma length_hex_field [simp]: "length (hex_field w n) = w"
  by (induction w n rule: hex_field.induct) auto

lemma length_pad_nat [simp]: "length (pad_nat w n) = w"
  by (induction w n rule: pad_nat.induct) auto

lemma nat_str_nonempty [simp]: "nat_str n \<noteq> []"
  by (subst nat_str.simps) simp

lemma is_digit_char_of: "(n::nat) < 10 \<Longrightarrow> is_digit (char_of (48 + n))"
  by (simp add: is_digit_def ord_char_of)

lemma nat_str_digits: "list_all is_digit (nat_str n)"
proof (induction n rule: nat_str.induct)
  case (1 n)
  then show ?case
    by (subst nat_str.simps) (auto simp: is_digit_char_of)
qed

text \<open>Decimal printing and reading round trip.\<close>

lemma digits_value_snoc: "digits_value (s @ [c]) = 10 * digits_value s + (ord c - 48)"
  by (simp add: digits_value_def)

lemma digits_value_nat_str [simp]: "digits_value (nat_str n) = n"
proof (induction n rule: nat_str.induct)
  case (1 n)
  show ?case
  proof (cases "n < 10")
    case True
    then show ?thesis
      by (subst nat_str.simps) (simp add: digits_value_def ord_char_of)
  next
    case False
    with 1 have "digits_value (nat_str (n div 10)) = n div 10" by simp
    with False show ?thesis
      by (subst nat_str.simps) (simp add: digits_value_snoc ord_char_of)
  qed
qed

lemma nat_str_inj [simp]: "nat_str m = nat_str n \<longleftrightarrow> m = n"
  by (metis digits_value_nat_str)

end
