(* ===== verification/PyUrl.thy ===== *)
theory PyUrl
  imports PyText
begin

text \<open>
  What the program uses of \<open>ipaddress\<close> and \<open>urllib.parse\<close>: parsing of IPv4 and IPv6
  addresses and networks, membership of an address in a network, \<open>urlsplit\<close> /
  \<open>urlparse\<close> with \<open>hostname\<close> and \<open>port\<close>, and \<open>urlunsplit\<close>. A parse that raises
  \<open>ValueError\<close> is \<open>None\<close> in the address parsers (their callers never read the message)
  and an error value in the URL parsers.
\<close>

section \<open>IP addresses\<close>

datatype ip_address = IPv4 nat | IPv6 nat

datatype ip_network = Net4 nat nat | Net6 nat nat

definition parse_octet :: "string \<Rightarrow> nat option" where
  "parse_octet s =
     (if all_digits s \<and> length s \<le> 3 \<and> (s = ''0'' \<or> hd s \<noteq> CHR ''0'') \<and> digits_value s \<le> 255
      then Some (digits_value s) else None)"

fun parse_ipv4_int :: "string \<Rightarrow> nat option" where
  "parse_ipv4_int s =
     (case map parse_octet (split_on (CHR ''.'') s) of
        [Some a, Some b, Some c, Some d] \<Rightarrow> Some (((a * 256 + b) * 256 + c) * 256 + d)
      | _ \<Rightarrow> None)"

fun hex_string_value :: "nat \<Rightarrow> string \<Rightarrow> nat option" where
  "hex_string_value n [] = Some n"
| "hex_string_value n (c # s) =
     (case hex_value c of None \<Rightarrow> None | Some d \<Rightarrow> hex_string_value (16 * n + d) s)"

definition parse_hextet :: "string \<Rightarrow> nat option" where
  "parse_hextet s = (if s = [] \<or> 4 < length s then None else hex_string_value 0 s)"

fun parse_hextets :: "nat \<Rightarrow> string list \<Rightarrow> nat option" where
  "parse_hextets n [] = Some n"
| "parse_hextets n (p # ps) =
     (case parse_hextet p of None \<Rightarrow> None | Some v \<Rightarrow> parse_hextets (65536 * n + v) ps)"

text \<open>The interior empty parts: the positions of \<open>::\<close>.\<close>

definition skip_positions :: "string list \<Rightarrow> nat list" where
  "skip_positions parts = filter (\<lambda>i. parts ! i = []) [1..<length parts - 1]"

definition assemble_ipv6 :: "string list \<Rightarrow> nat option" where
  "assemble_ipv6 parts =
     (case skip_positions parts of
        [] \<Rightarrow> if length parts = 8 then parse_hextets 0 parts else None
      | [i] \<Rightarrow>
          let leading = (hd parts = []); trailing = (last parts = []);
              hi = (if leading then i - 1 else i);
              lo = (if trailing then length parts - i - 2 else length parts - i - 1)
          in if (leading \<and> 0 < hi) \<or> (trailing \<and> 0 < lo) \<or> 7 < hi + lo then None
             else (case parse_hextets 0 (take hi parts) of
                     None \<Rightarrow> None
                   | Some n \<Rightarrow>
                       parse_hextets (n * 65536 ^ (8 - (hi + lo))) (drop (length parts - lo) parts))
      | _ \<Rightarrow> None)"

definition expand_ipv4_tail :: "string list \<Rightarrow> string list option" where
  "expand_ipv4_tail parts =
     (if CHR ''.'' \<in> set (last parts)
      then (case parse_ipv4_int (last parts) of
              None \<Rightarrow> None
            | Some v \<Rightarrow> Some (butlast parts @ [hex_field 4 (v div 65536), hex_field 4 v]))
      else Some parts)"

definition parse_ipv6_int :: "string \<Rightarrow> nat option" where
  "parse_ipv6_int s =
     (let parts = split_on (CHR '':'') s
      in if length parts < 3 then None
         else (case expand_ipv4_tail parts of
                 None \<Rightarrow> None
               | Some ps \<Rightarrow> if 9 < length ps then None else assemble_ipv6 ps))"

text \<open>An IPv6 address may carry a non-empty scope id after \<open>%\<close>.\<close>

definition parse_ipv6 :: "string \<Rightarrow> nat option" where
  "parse_ipv6 s =
     (case partition_at (CHR ''%'') s of (address, sep, scope) \<Rightarrow>
        if sep \<noteq> [] \<and> (scope = [] \<or> CHR ''%'' \<in> set scope) then None
        else parse_ipv6_int address)"

definition parse_ip_address :: "string \<Rightarrow> ip_address option" where
  "parse_ip_address s =
     (if CHR ''/'' \<in> set s then None
      else case parse_ipv4_int s of
        Some v \<Rightarrow> Some (IPv4 v)
      | None \<Rightarrow> map_option IPv6 (parse_ipv6 s))"

text \<open>
  A netmask is a prefix length or, for IPv4, a dotted netmask or hostmask: ones followed by
  zeros, or the complement of such a number.
\<close>

definition prefix_length :: "nat \<Rightarrow> string \<Rightarrow> nat option" where
  "prefix_length mx s =
     (if all_digits s \<and> digits_value s \<le> mx then Some (digits_value s) else None)"

definition mask_prefix :: "nat \<Rightarrow> nat option" where
  "mask_prefix m = List.find (\<lambda>p. m = 2 ^ 32 - 2 ^ (32 - p)) [0..<33]"

definition ipv4_prefix :: "string \<Rightarrow> nat option" where
  "ipv4_prefix s =
     (case prefix_length 32 s of
        Some p \<Rightarrow> Some p
      | None \<Rightarrow>
          (case parse_ipv4_int s of
             None \<Rightarrow> None
           | Some m \<Rightarrow>
               (case mask_prefix m of
                  Some p \<Rightarrow> Some p
                | None \<Rightarrow> mask_prefix (2 ^ 32 - 1 - m))))"

text \<open>\<open>ip_network(s, strict=False)\<close>: the host bits are cleared.\<close>

definition mk_net4 :: "nat \<Rightarrow> nat \<Rightarrow> ip_network" where
  "mk_net4 a p = Net4 (a div 2 ^ (32 - p)) p"

definition mk_net6 :: "nat \<Rightarrow> nat \<Rightarrow> ip_network" where
  "mk_net6 a p = Net6 (a div 2 ^ (128 - p)) p"

definition parse_ip_network :: "string \<Rightarrow> ip_network option" where
  "parse_ip_network s =
     (case split_on (CHR ''/'') s of
        [address] \<Rightarrow>
          (case parse_ipv4_int address of
             Some a \<Rightarrow> Some (mk_net4 a 32)
           | None \<Rightarrow> map_option (\<lambda>a. mk_net6 a 128) (parse_ipv6 address))
      | [address, pfx] \<Rightarrow>
          (case (parse_ipv4_int address, ipv4_prefix pfx) of
             (Some a, Some p) \<Rightarrow> Some (mk_net4 a p)
           | _ \<Rightarrow>
               (case (parse_ipv6 address, prefix_length 128 pfx) of
                  (Some a, Some p) \<Rightarrow> Some (mk_net6 a p)
                | _ \<Rightarrow> None))
      | _ \<Rightarrow> None)"

fun ip_in_network :: "ip_address \<Rightarrow> ip_network \<Rightarrow> bool" where
  "ip_in_network (IPv4 a) (Net4 n p) = (a div 2 ^ (32 - p) = n)"
| "ip_in_network (IPv6 a) (Net6 n p) = (a div 2 ^ (128 - p) = n)"
| "ip_in_network _ _ = False"

section \<open>URLs\<close>

record split_url =
  url_scheme :: string
  url_netloc :: string
  url_path :: string
  url_query :: string
  url_fragment :: string

definition scheme_char :: "char \<Rightarrow> bool" where
  "scheme_char c \<longleftrightarrow> is_alpha c \<or> is_digit c \<or> c \<in> {CHR ''+'', CHR ''-'', CHR ''.''}"

definition clean_url :: "string \<Rightarrow> string" where
  "clean_url s =
     filter (\<lambda>c. ord c \<notin> {9, 10, 13}) (dropWhile (\<lambda>c. ord c \<le> 32) s)"

definition take_scheme :: "string \<Rightarrow> string \<times> string" where
  "take_scheme s =
     (case partition_at (CHR '':'') s of (a, sep, b) \<Rightarrow>
        if sep \<noteq> [] \<and> a \<noteq> [] \<and> is_alpha (hd a) \<and> list_all scheme_char a
        then (str_lower a, b) else ([], s))"

definition valid_bracketed :: "string \<Rightarrow> bool" where
  "valid_bracketed netloc =
     (let (_, _, b) = partition_at (CHR ''['') netloc;
          (host, _, _) = partition_at (CHR '']'') b
      in if startswith host ''v''
         then (case partition_at (CHR ''.'') (tl host) of (h, sep, r) \<Rightarrow>
                 h \<noteq> [] \<and> list_all (\<lambda>c. hex_value c \<noteq> None) h \<and> sep \<noteq> [] \<and> r \<noteq> [])
         else (case parse_ip_address host of Some (IPv6 _) \<Rightarrow> True | _ \<Rightarrow> False))"

definition take_netloc :: "string \<Rightarrow> (string \<times> string) result" where
  "take_netloc s =
     (if startswith s ''//''
      then (let rest = drop 2 s;
                netloc = takeWhile (\<lambda>c. c \<notin> {CHR ''/'', CHR ''?'', CHR ''#''}) rest;
                url = drop (length netloc) rest;
                lb = (CHR ''['' \<in> set netloc); rb = (CHR '']'' \<in> set netloc)
            in if lb \<noteq> rb then value_error ''Invalid IPv6 URL''
               else if lb \<and> \<not> valid_bracketed netloc then value_error ''Invalid bracketed host''
               else Inr (netloc, url))
      else Inr ([], s))"

definition urlsplit :: "string \<Rightarrow> split_url result" where
  "urlsplit s =
     (let (scheme, s1) = take_scheme (clean_url s)
      in rbind (take_netloc s1) (\<lambda>(netloc, s2).
           let (s3, _, fragment) = partition_at (CHR ''#'') s2;
               (path, _, query) = partition_at (CHR ''?'') s3
           in Inr \<lparr>url_scheme = scheme, url_netloc = netloc, url_path = path,
                   url_query = query, url_fragment = fragment\<rparr>))"

text \<open>\<open>urlparse\<close> also cuts the parameters off the last path segment of these schemes.\<close>

definition uses_params :: "string list" where
  "uses_params = [[], ''ftp'', ''hdl'', ''prospero'', ''http'', ''imap'', ''https'', ''shttp'', ''rtsp'',
     ''rtsps'', ''rtspu'', ''sip'', ''sips'', ''mms'', ''sftp'', ''tel'']"

definition cut_params :: "string \<Rightarrow> string" where
  "cut_params path =
     (case rpartition_at (CHR ''/'') path of (a, sep, b) \<Rightarrow>
        a @ sep @ fst (partition_at (CHR '';'') b))"

definition urlparse :: "string \<Rightarrow> split_url result" where
  "urlparse s =
     rbind (urlsplit s) (\<lambda>u.
       Inr (if url_scheme u \<in> set uses_params then u\<lparr>url_path := cut_params (url_path u)\<rparr> else u))"

definition hostinfo :: "split_url \<Rightarrow> string \<times> string" where
  "hostinfo u =
     (let (_, _, info) = rpartition_at (CHR ''@'') (url_netloc u);
          (_, br, bracketed) = partition_at (CHR ''['') info
      in if br \<noteq> []
         then (let (host, _, rest) = partition_at (CHR '']'') bracketed;
                   (_, _, port) = partition_at (CHR '':'') rest
               in (host, port))
         else (let (host, _, port) = partition_at (CHR '':'') info in (host, port)))"

definition url_hostname :: "split_url \<Rightarrow> string option" where
  "url_hostname u =
     (let h = fst (hostinfo u)
      in if h = [] then None
         else (case partition_at (CHR ''%'') h of (a, sep, zone) \<Rightarrow> Some (str_lower a @ sep @ zone)))"

definition url_port :: "split_url \<Rightarrow> nat option result" where
  "url_port u =
     (let p = snd (hostinfo u)
      in if p = [] then Inr None
         else if \<not> all_digits p
         then Inl (ValueError [Txt ''Port could not be cast to integer value as '', PyRepr p])
         else if 65535 < digits_value p then value_error ''Port out of range 0-65535''
         else Inr (Some (digits_value p)))"

text \<open>\<open>urlunsplit\<close> for the schemes of this program (all of them use a network location).\<close>

definition urlunsplit :: "split_url \<Rightarrow> string" where
  "urlunsplit u =
     (let path = url_path u;
          p1 = (if url_netloc u \<noteq> [] \<or> url_scheme u \<in> {''http'', ''https''} \<or> startswith path ''//''
                then ''//'' @ url_netloc u @
                  (if path \<noteq> [] \<and> \<not> startswith path ''/'' then ''/'' @ path else path)
                else path);
          p2 = (if url_scheme u = [] then p1 else url_scheme u @ '':'' @ p1);
          p3 = (if url_query u = [] then p2 else p2 @ ''?'' @ url_query u)
      in if url_fragment u = [] then p3 else p3 @ ''#'' @ url_fragment u)"

section \<open>Facts about them\<close>

lemma urlparse_scheme_netloc:
  assumes "urlparse s = Inr u"
  shows "\<exists>v. urlsplit s = Inr v \<and> url_netloc u = url_netloc v \<and> url_scheme u = url_scheme v"
  using assms by (auto simp: urlparse_def result_simps split: if_splits)

lemma url_port_bound: "url_port u = Inr (Some p) \<Longrightarrow> p \<le> 65535"
  by (auto simp: url_port_def Let_def split: if_splits)

lemma ip_in_network_version:
  "ip_in_network a n \<Longrightarrow> (\<exists>x y p. a = IPv4 x \<and> n = Net4 y p) \<or> (\<exists>x y p. a = IPv6 x \<and> n = Net6 y p)"
  by (induction a n rule: ip_in_network.induct) auto

end
