(* ===== verification/PyPath.thy ===== *)
theory PyPath
  imports PyUrl
begin

text \<open>
  Percent decoding (\<open>urllib.parse.unquote\<close>), path normalisation (\<open>posixpath.normpath\<close>) and
  reference resolution (\<open>urllib.parse.urljoin\<close>), as the proxy and target discovery use them.
  Decoded octets stay octets: where they are no valid UTF-8 text Python puts replacement characters,
  neither of which is a slash or a dot.
\<close>

fun unquote :: "string \<Rightarrow> string" where
  "unquote (c # a # b # s) =
     (if c = CHR ''%''
      then (case (hex_value a, hex_value b) of
              (Some x, Some y) \<Rightarrow> char_of (16 * x + y) # unquote s
            | _ \<Rightarrow> c # unquote (a # b # s))
      else c # unquote (a # b # s))"
| "unquote s = s"

text \<open>The component loop of \<open>normpath\<close>; \<open>rooted\<close> says that the path starts with a slash.\<close>

fun norm_comps :: "bool \<Rightarrow> string list \<Rightarrow> string list \<Rightarrow> string list" where
  "norm_comps rooted acc [] = acc"
| "norm_comps rooted acc (c # cs) =
     (if c = [] \<or> c = ''.'' then norm_comps rooted acc cs
      else if c \<noteq> ''..'' \<or> (\<not> rooted \<and> acc = []) \<or> (acc \<noteq> [] \<and> last acc = ''..'')
      then norm_comps rooted (acc @ [c]) cs
      else norm_comps rooted (butlast acc) cs)"

definition initial_slashes :: "string \<Rightarrow> string" where
  "initial_slashes p =
     (if startswith p ''//'' \<and> \<not> startswith p ''///'' then ''//''
      else if startswith p ''/'' then ''/'' else [])"

definition normpath :: "string \<Rightarrow> string" where
  "normpath p =
     (if p = [] then ''.''
      else (let root = initial_slashes p;
                q = root @ join ''/'' (norm_comps (root \<noteq> []) [] (split_on (CHR ''/'') p))
            in if q = [] then ''.'' else q))"

section \<open>\<open>urljoin\<close>\<close>

definition split_params :: "string \<Rightarrow> string \<times> string" where
  "split_params path =
     (case rpartition_at (CHR ''/'') path of (a, sep, b) \<Rightarrow>
        (case partition_at (CHR '';'') b of (c, _, params) \<Rightarrow> (a @ sep @ c, params)))"

text \<open>\<open>urlparse(url, scheme0)\<close> with the parameters of the last path segment.\<close>

definition urlparse_in :: "string \<Rightarrow> string \<Rightarrow> (split_url \<times> string) result" where
  "urlparse_in scheme0 s =
     rbind (urlsplit s) (\<lambda>u0.
       let u = (if url_scheme u0 = [] then u0\<lparr>url_scheme := scheme0\<rparr> else u0)
       in if url_scheme u \<in> set uses_params
          then (case split_params (url_path u) of (path, params) \<Rightarrow> Inr (u\<lparr>url_path := path\<rparr>, params))
          else Inr (u, []))"

definition urlunparse :: "split_url \<Rightarrow> string \<Rightarrow> string" where
  "urlunparse u params =
     urlunsplit (if params = [] then u else u\<lparr>url_path := url_path u @ '';'' @ params\<rparr>)"

definition uses_relative :: "string list" where
  "uses_relative = [[], ''ftp'', ''http'', ''gopher'', ''nntp'', ''imap'', ''wais'', ''file'', ''https'',
     ''shttp'', ''mms'', ''prospero'', ''rtsp'', ''rtsps'', ''rtspu'', ''sftp'', ''svn'', ''svn+ssh'',
     ''ws'', ''wss'']"

fun resolve_segments :: "string list \<Rightarrow> string list \<Rightarrow> string list" where
  "resolve_segments acc [] = acc"
| "resolve_segments acc (g # gs) =
     resolve_segments (if g = ''..'' then butlast acc else if g = ''.'' then acc else acc @ [g]) gs"

text \<open>\<open>segments[1:-1] = filter(None, segments[1:-1])\<close>.\<close>

definition squeeze :: "string list \<Rightarrow> string list" where
  "squeeze gs =
     (case gs of
        [] \<Rightarrow> []
      | [g] \<Rightarrow> [g]
      | g # rest \<Rightarrow> g # filter (\<lambda>x. x \<noteq> []) (butlast rest) @ [last rest])"

definition join_segments :: "string \<Rightarrow> string \<Rightarrow> string list" where
  "join_segments bpath path =
     (let parts = split_on (CHR ''/'') path;
          base = split_on (CHR ''/'') bpath
      in if startswith path ''/'' then parts
         else squeeze ((if last base = [] then base else butlast base) @ parts))"

definition resolved_path :: "string \<Rightarrow> string \<Rightarrow> string" where
  "resolved_path bpath path =
     (let gs = join_segments bpath path;
          r = resolve_segments [] gs @ (if last gs \<in> {''.'', ''..''} then [[]] else []);
          p = join ''/'' r
      in if p = [] then ''/'' else p)"

text \<open>Every scheme of \<open>uses_relative\<close> is in \<open>uses_netloc\<close>, so the network location is inherited.\<close>

definition urljoin :: "string \<Rightarrow> string \<Rightarrow> string result" where
  "urljoin base s =
     (if base = [] then Inr s
      else if s = [] then Inr base
      else rbind (urlparse_in [] base) (\<lambda>(b, bparams).
           rbind (urlparse_in (url_scheme b) s) (\<lambda>(u, params).
             if url_scheme u \<noteq> url_scheme b \<or> url_scheme u \<notin> set uses_relative then Inr s
             else if url_netloc u \<noteq> [] then Inr (urlunparse u params)
             else if url_path u = [] \<and> params = []
             then Inr (urlunparse (u\<lparr>url_netloc := url_netloc b, url_path := url_path b,
                         url_query := (if url_query u = [] then url_query b else url_query u)\<rparr>) bparams)
             else Inr (urlunparse (u\<lparr>url_netloc := url_netloc b,
                         url_path := resolved_path (url_path b) (url_path u)\<rparr>) params))))"

section \<open>Facts about them\<close>

text \<open>The normal form of a rooted path climbs nowhere.\<close>

lemma norm_comps_rooted:
  "''..'' \<notin> set acc \<Longrightarrow> ''..'' \<notin> set (norm_comps True acc cs)"
proof (induction cs arbitrary: acc)
  case (Cons c cs)
  have b: "''..'' \<notin> set (butlast acc)" using Cons.prems by (meson in_set_butlastD)
  have l: "last acc = ''..'' \<longrightarrow> acc = []" using Cons.prems last_in_set by fastforce
  show ?case
    using Cons.IH [OF Cons.prems] Cons.IH [OF b] Cons.IH [of "acc @ [c]"] Cons.prems l
    by (cases "c = ''..''") (simp_all only: norm_comps.simps, auto)
qed simp

end
