(* ===== verification/PyTime.thy ===== *)
theory PyTime
  imports PyText
begin

text \<open>
  Python's \<open>datetime\<close>: a point on the microsecond time line and, for an aware value, its
  UTC offset in seconds. Comparison and subtraction of aware values read the time line;
  \<open>isoformat\<close> reads the local wall clock. \<open>timedelta\<close> is a number of microseconds.
\<close>

definition aware :: "datetime \<Rightarrow> bool" where
  "aware d \<longleftrightarrow> dt_off d \<noteq> None"

definition utc :: "int \<Rightarrow> datetime" where
  "utc us = \<lparr>dt_us = us, dt_off = Some 0\<rparr>"

definition dt_less :: "datetime \<Rightarrow> datetime \<Rightarrow> bool" where
  "dt_less a b \<longleftrightarrow> dt_us a < dt_us b"

definition dt_le :: "datetime \<Rightarrow> datetime \<Rightarrow> bool" where
  "dt_le a b \<longleftrightarrow> dt_us a \<le> dt_us b"

definition dt_same :: "datetime \<Rightarrow> datetime \<Rightarrow> bool" where
  "dt_same a b \<longleftrightarrow> dt_us a = dt_us b"

definition seconds :: "int \<Rightarrow> int" where
  "seconds n = n * 1000000"

definition dt_plus :: "datetime \<Rightarrow> int \<Rightarrow> datetime" where
  "dt_plus d us = d\<lparr>dt_us := dt_us d + us\<rparr>"

definition dt_minus :: "datetime \<Rightarrow> datetime \<Rightarrow> int" where
  "dt_minus a b = dt_us a - dt_us b"

text \<open>\<open>min(a, b)\<close> keeps the first of two equal values.\<close>

definition dt_min :: "datetime \<Rightarrow> datetime \<Rightarrow> datetime" where
  "dt_min a b = (if dt_less b a then b else a)"

named_theorems time_simps "unfolding comparisons of timestamps"

declare dt_less_def [time_simps] dt_le_def [time_simps] dt_same_def [time_simps]
  dt_plus_def [time_simps] dt_minus_def [time_simps] dt_min_def [time_simps]
  seconds_def [time_simps] utc_def [time_simps] aware_def [time_simps]

lemma dt_plus_off [simp]: "dt_off (dt_plus d us) = dt_off d"
  by (simp add: dt_plus_def)

lemma dt_plus_us [simp]: "dt_us (dt_plus d us) = dt_us d + us"
  by (simp add: dt_plus_def)

lemma dt_min_us [simp]: "dt_us (dt_min a b) = min (dt_us a) (dt_us b)"
  by (simp add: dt_min_def dt_less_def)

section \<open>Calendar rendering\<close>

text \<open>Days since 1970-01-01 to (year, month, day) in the proleptic Gregorian calendar.\<close>

definition civil_of_days :: "int \<Rightarrow> int \<times> int \<times> int" where
  "civil_of_days z0 =
     (let z = z0 + 719468;
          era = z div 146097;
          doe = z mod 146097;
          yoe = (doe - doe div 1460 + doe div 36524 - doe div 146096) div 365;
          doy = doe - (365 * yoe + yoe div 4 - yoe div 100);
          mp = (5 * doy + 2) div 153;
          d = doy - (153 * mp + 2) div 5 + 1;
          m = (if mp < 10 then mp + 3 else mp - 9);
          y = yoe + era * 400 + (if m \<le> 2 then 1 else 0)
      in (y, m, d))"

definition pad :: "nat \<Rightarrow> int \<Rightarrow> string" where
  "pad w i = pad_nat w (nat i)"

definition wall_clock :: "datetime \<Rightarrow> string" where
  "wall_clock d =
     (let wall = dt_us d + or_else (dt_off d) 0 * 1000000;
          days = wall div 86400000000;
          us = wall mod 86400000000;
          (y, m, dd) = civil_of_days days;
          frac = us mod 1000000;
          s = us div 1000000
      in pad 4 y @ ''-'' @ pad 2 m @ ''-'' @ pad 2 dd @ ''T'' @ pad 2 (s div 3600) @ '':'' @
         pad 2 (s div 60 mod 60) @ '':'' @ pad 2 (s mod 60) @
         (if frac = 0 then [] else ''.'' @ pad 6 frac))"

definition offset_text :: "int \<Rightarrow> string" where
  "offset_text off =
     (let a = \<bar>off\<bar>
      in (if off < 0 then ''-'' else ''+'') @ pad 2 (a div 3600) @ '':'' @ pad 2 (a div 60 mod 60) @
         (if a mod 60 = 0 then [] else '':'' @ pad 2 (a mod 60)))"

definition isoformat :: "datetime \<Rightarrow> string" where
  "isoformat d = wall_clock d @ (case dt_off d of None \<Rightarrow> [] | Some off \<Rightarrow> offset_text off)"

text \<open>The JSON rendering of a datetime field by pydantic: as above, UTC written as \<open>Z\<close>.\<close>

definition json_datetime :: "datetime \<Rightarrow> string" where
  "json_datetime d =
     wall_clock d @
     (case dt_off d of None \<Rightarrow> [] | Some off \<Rightarrow> if off = 0 then ''Z'' else offset_text off)"

end
