(* ===== verification/PyJson.thy ===== *)
theory PyJson
  imports PyTime "HOL-Library.Multiset"
begin

text \<open>
  JSON values and their text as \<open>json.dumps\<close> writes it. Numbers carry their text;
  an object is the list of its members in insertion order. \<open>canonical_json\<close> is the
  program's canonical form (\<open>sort_keys=True\<close>, \<open>separators=(",", ":")\<close>), used under every
  digest and signature; \<open>compact_json\<close> is pydantic's \<open>model_dump_json()\<close>, which keeps the
  order of the fields. The last section proves that the canonical text determines the value.
\<close>

datatype json =
    JNull
  | JBool bool
  | JNum string
  | JStr string
  | JArr "json list"
  | JObj "(string \<times> json) list"

section \<open>Numbers\<close>

definition json_int :: "int \<Rightarrow> json" where
  "json_int i = JNum (int_str i)"

text \<open>
  A float is the decimal number its shortest representation denotes (Python's \<open>repr\<close>), so
  comparing two floats is comparing two of these numbers. \<open>frac_digits\<close> writes the digits
  after the point, \<open>float_repr\<close> the fixed-point form Python uses from 1e-4 up to 1e16.
\<close>

fun frac_digits :: "nat \<Rightarrow> rat \<Rightarrow> string" where
  "frac_digits 0 r = []"
| "frac_digits (Suc n) r =
     (if r = 0 then []
      else char_of (48 + nat \<lfloor>10 * r\<rfloor>) # frac_digits n (10 * r - of_int \<lfloor>10 * r\<rfloor>))"

definition float_repr :: "rat \<Rightarrow> string" where
  "float_repr r =
     (let i = \<lfloor>\<bar>r\<bar>\<rfloor>; f = \<bar>r\<bar> - of_int i
      in (if r < 0 then ''-'' else []) @ int_str i @ ''.'' @
         (if f = 0 then ''0'' else frac_digits 30 f))"

definition json_float :: "rat \<Rightarrow> json" where
  "json_float r = JNum (float_repr r)"

definition json_opt :: "('a \<Rightarrow> json) \<Rightarrow> 'a option \<Rightarrow> json" where
  "json_opt f x = (case x of None \<Rightarrow> JNull | Some y \<Rightarrow> f y)"

definition json_strs :: "string list \<Rightarrow> json" where
  "json_strs xs = JArr (map JStr xs)"

section \<open>Rendering\<close>

definition escape_char :: "char \<Rightarrow> string" where
  "escape_char c =
     (if c = CHR 0x22 then [CHR 0x5C, CHR 0x22]
      else if c = CHR 0x5C then [CHR 0x5C, CHR 0x5C]
      else if c = CHR 0x0A then [CHR 0x5C, CHR ''n'']
      else if c = CHR 0x0D then [CHR 0x5C, CHR ''r'']
      else if c = CHR 0x09 then [CHR 0x5C, CHR ''t'']
      else if c = CHR 0x08 then [CHR 0x5C, CHR ''b'']
      else if c = CHR 0x0C then [CHR 0x5C, CHR ''f'']
      else if ord c < 32 then [CHR 0x5C, CHR ''u''] @ hex_field 4 (ord c)
      else [c])"

fun escape_str :: "string \<Rightarrow> string" where
  "escape_str [] = []"
| "escape_str (c # s) = escape_char c @ escape_str s"

definition quote_str :: "string \<Rightarrow> string" where
  "quote_str s = CHR 0x22 # escape_str s @ [CHR 0x22]"

function render :: "string \<Rightarrow> string \<Rightarrow> json \<Rightarrow> string" where
  "render comma colon JNull = ''null''"
| "render comma colon (JBool b) = (if b then ''true'' else ''false'')"
| "render comma colon (JNum n) = n"
| "render comma colon (JStr s) = quote_str s"
| "render comma colon (JArr xs) = ''['' @ join comma (map (render comma colon) xs) @ '']''"
| "render comma colon (JObj kvs) =
     ''{'' @ join comma (map (\<lambda>kv. quote_str (fst kv) @ colon @ render comma colon (snd kv)) kvs) @ ''}''"
  by pat_completeness auto
termination
proof (relation "measure (\<lambda>(_, _, j). size j)", goal_cases)
  case (3 comma colon kvs kv)
  obtain k v where "kv = (k, v)" by (cases kv)
  with 3 show ?case
    by (induction kvs) auto
qed (auto simp: size_list_estimation' less_Suc_eq_le)

function sort_keys :: "json \<Rightarrow> json" where
  "sort_keys (JArr xs) = JArr (map sort_keys xs)"
| "sort_keys (JObj kvs) = JObj (sort_key fst (map (\<lambda>kv. (fst kv, sort_keys (snd kv))) kvs))"
| "sort_keys JNull = JNull"
| "sort_keys (JBool b) = JBool b"
| "sort_keys (JNum n) = JNum n"
| "sort_keys (JStr s) = JStr s"
  by pat_completeness auto
termination
proof (relation "measure size", goal_cases)
  case (3 kvs kv)
  obtain k v where "kv = (k, v)" by (cases kv)
  with 3 show ?case
    by (induction kvs) auto
qed (auto simp: size_list_estimation' less_Suc_eq_le)

definition canonical_json :: "json \<Rightarrow> string" where
  "canonical_json j = render '','' '':'' (sort_keys j)"

definition compact_json :: "json \<Rightarrow> string" where
  "compact_json j = render '','' '':'' j"

text \<open>\<open>data.get(key)\<close> and \<open>data.pop(key, None)\<close> on an object.\<close>

fun json_pop :: "string \<Rightarrow> json \<Rightarrow> json" where
  "json_pop k (JObj kvs) = JObj (filter (\<lambda>kv. fst kv \<noteq> k) kvs)"
| "json_pop k j = j"

section \<open>The canonical text determines the value\<close>

text \<open>
  Numbers are non-empty words over digits, sign, point and exponent. \<open>determined R x\<close> says
  that the rendering \<open>R x\<close> followed by the end of the text or a closing character can only
  be the rendering of \<open>x\<close>.
\<close>

definition num_char :: "char \<Rightarrow> bool" where
  "num_char c \<longleftrightarrow> is_digit c \<or> c \<in> {CHR ''+'', CHR ''-'', CHR ''.'', CHR ''e''}"

fun json_wf :: "json \<Rightarrow> bool" where
  "json_wf (JNum n) = (n \<noteq> [] \<and> list_all num_char n)"
| "json_wf (JArr xs) = list_all json_wf xs"
| "json_wf (JObj kvs) = list_all (\<lambda>kv. json_wf (snd kv)) kvs"
| "json_wf _ = True"

definition closed :: "string \<Rightarrow> bool" where
  "closed r \<longleftrightarrow> r = [] \<or> hd r \<in> {CHR '','', CHR '']'', CHR ''}''}"

definition determined :: "('a \<Rightarrow> bool) \<Rightarrow> ('a \<Rightarrow> string) \<Rightarrow> 'a \<Rightarrow> bool" where
  "determined P R x \<longleftrightarrow>
     (\<forall>y r r'. P y \<longrightarrow> closed r \<longrightarrow> closed r' \<longrightarrow> R x @ r = R y @ r' \<longrightarrow> x = y \<and> r = r')"

lemma hex_digit_eq: "hex_digit m = hex_digit n \<longleftrightarrow> m mod 16 = n mod 16"
proof -
  have d: "distinct ''0123456789abcdef''" by simp
  have "m mod 16 < length ''0123456789abcdef''" "n mod 16 < length ''0123456789abcdef''"
    by simp_all
  with d show ?thesis unfolding hex_digit_def by (simp only: nth_eq_iff_index_eq)
qed

lemma hex_field_inj: "hex_field w m = hex_field w n \<Longrightarrow> m < 16 ^ w \<Longrightarrow> n < 16 ^ w \<Longrightarrow> m = n"
proof (induction w arbitrary: m n)
  case 0
  then show ?case by simp
next
  case (Suc w)
  from Suc.prems have "hex_field w (m div 16) = hex_field w (n div 16)" "m mod 16 = n mod 16"
    by (auto simp: hex_digit_eq)
  moreover have "m div 16 < 16 ^ w" "n div 16 < 16 ^ w"
    using Suc.prems by (simp_all add: less_mult_imp_div_less mult.commute)
  ultimately have "m div 16 = n div 16" using Suc.IH by blast
  with \<open>m mod 16 = n mod 16\<close> show ?case by (metis div_mult_mod_eq)
qed

text \<open>A character's escape is a prefix code and never starts with the quote.\<close>

lemma escape_char_hd: "hd (escape_char c) \<noteq> CHR 0x22 \<and> escape_char c \<noteq> []"
  by (auto simp: escape_char_def)

lemma escape_char_cases:
  obtains (plain) "escape_char c = [c]" "c \<noteq> CHR 0x5C"
  | (control) "escape_char c = [CHR 0x5C, CHR ''u''] @ hex_field 4 (ord c)" "ord c < 32"
  | (short) d where "escape_char c = [CHR 0x5C, d]" "d \<noteq> CHR ''u''"
proof (cases "c \<in> {CHR 0x22, CHR 0x5C, CHR 0x0A, CHR 0x0D, CHR 0x09, CHR 0x08, CHR 0x0C}")
  case True
  with short show ?thesis by (auto simp: escape_char_def)
next
  case False
  with plain control show ?thesis by (cases "ord c < 32") (auto simp: escape_char_def)
qed

lemma hex_field_nonempty [simp]: "hex_field 4 n \<noteq> []"
  by (metis length_hex_field list.size(3) zero_neq_numeral)

lemma escape_char_short_inj:
  "escape_char c = [CHR 0x5C, d] \<Longrightarrow> escape_char c' = [CHR 0x5C, d] \<Longrightarrow> c = c'"
  by (auto simp: escape_char_def split: if_splits)

lemma length_hex_field_eq: "hex_field w m @ x = hex_field w n @ y \<longleftrightarrow> hex_field w m = hex_field w n \<and> x = y"
  by simp

lemma escape_char_prefix:
  assumes "escape_char c @ x = escape_char c' @ y"
  shows "c = c' \<and> x = y"
proof (cases c rule: escape_char_cases)
  case plain
  with assms show ?thesis
    by (cases c' rule: escape_char_cases) auto
next
  case control
  show ?thesis
  proof (cases c' rule: escape_char_cases)
    case plain
    with assms control show ?thesis by auto
  next
    case c': control
    with assms control have "hex_field 4 (ord c) = hex_field 4 (ord c')" "x = y" by auto
    with control c' have "ord c = ord c'" by (intro hex_field_inj [of 4]) auto
    with \<open>x = y\<close> show ?thesis by (simp add: ord_inj)
  next
    case (short d)
    with assms control show ?thesis by auto
  qed
next
  case (short d)
  show ?thesis
  proof (cases c' rule: escape_char_cases)
    case plain
    with assms short show ?thesis by auto
  next
    case control
    with assms short show ?thesis by auto
  next
    case s': (short d')
    with assms short have "d = d'" "x = y" by auto
    with short s' show ?thesis using escape_char_short_inj by blast
  qed
qed

lemma escape_str_prefix:
  "escape_str s @ CHR 0x22 # x = escape_str t @ CHR 0x22 # y \<Longrightarrow> s = t \<and> x = y"
proof (induction s arbitrary: t)
  case Nil
  show ?case
  proof (cases t)
    case Nil
    with Nil.prems show ?thesis by simp
  next
    case (Cons c t')
    with Nil.prems have "escape_char c @ escape_str t' @ CHR 0x22 # y = CHR 0x22 # x" by simp
    then have "hd (escape_char c) = CHR 0x22" using escape_char_hd [of c]
      by (metis hd_append2 list.sel(1))
    then show ?thesis using escape_char_hd by blast
  qed
next
  case (Cons c s)
  show ?case
  proof (cases t)
    case Nil
    with Cons.prems have "escape_char c @ escape_str s @ CHR 0x22 # x = CHR 0x22 # y" by simp
    then have "hd (escape_char c) = CHR 0x22" using escape_char_hd [of c]
      by (metis hd_append2 list.sel(1))
    then show ?thesis using escape_char_hd by blast
  next
    case t: (Cons c' t')
    with Cons.prems have "c = c'" "escape_str s @ CHR 0x22 # x = escape_str t' @ CHR 0x22 # y"
      by (auto dest: escape_char_prefix)
    with Cons.IH t show ?thesis by blast
  qed
qed

lemma quote_str_prefix: "quote_str s @ x = quote_str t @ y \<Longrightarrow> s = t \<and> x = y"
  by (auto simp: quote_str_def dest: escape_str_prefix)

text \<open>Numbers end where the number characters end.\<close>

lemma closed_not_num: "closed r \<Longrightarrow> r = [] \<or> \<not> num_char (hd r)"
  by (auto simp: closed_def num_char_def is_digit_def ord_def)

lemma num_prefix:
  assumes "list_all num_char m" "list_all num_char n" "closed r" "closed r'" "m @ r = n @ r'"
  shows "m = n \<and> r = r'"
proof -
  have tw: "takeWhile num_char (k @ q) = k" if "list_all num_char k" "closed q" for k q
    using that closed_not_num [of q] by (cases q) (auto simp: takeWhile_append list_all_iff)
  from tw [OF assms(1,3)] tw [OF assms(2,4)] assms(5) have "m = n" by simp
  with assms(5) show ?thesis by simp
qed

text \<open>A bracketed, comma-separated list of determined items is determined.\<close>

lemma join_Cons: "join sep (w # ws) = w @ (if ws = [] then [] else sep @ join sep ws)"
  by (cases ws) auto

lemma join_prefix:
  assumes "\<forall>x \<in> set xs. determined P R x" "list_all P ys"
    and hd: "\<And>x. R x \<noteq> [] \<and> hd (R x) \<noteq> c" and c: "c \<in> {CHR '']'', CHR ''}''}"
    and "join '','' (map R xs) @ c # r = join '','' (map R ys) @ c # r'"
  shows "xs = ys \<and> r = r'"
  using assms(1,2,5)
proof (induction xs arbitrary: ys)
  case Nil
  show ?case
  proof (cases ys)
    case Nil
    with Nil.prems show ?thesis by simp
  next
    case (Cons y ys')
    with Nil.prems hd [of y] show ?thesis by (cases "R y") (auto simp: join_Cons)
  qed
next
  case (Cons x xs)
  let ?rest = "\<lambda>zs q. (if zs = [] then [] else '','' @ join '','' (map R zs)) @ c # q"
  have cl: "closed (?rest zs q)" for zs q
    using c by (auto simp: closed_def)
  show ?case
  proof (cases ys)
    case Nil
    with Cons.prems hd [of x] show ?thesis by (cases "R x") (auto simp: join_Cons)
  next
    case y: (Cons y ys')
    with Cons.prems have eq: "R x @ ?rest xs r = R y @ ?rest ys' r'"
      by (simp add: join_Cons)
    have "determined P R x" "P y" using Cons.prems y by auto
    with eq cl have xy: "x = y" and rest: "?rest xs r = ?rest ys' r'"
      unfolding determined_def by blast+
    have ne: "CHR '','' \<noteq> c" using c by auto
    show ?thesis
    proof (cases "xs = [] \<or> ys' = []")
      case True
      with rest ne have "xs = [] \<and> ys' = [] \<and> r = r'" by (auto split: if_splits)
      with xy y show ?thesis by simp
    next
      case False
      with rest have "join '','' (map R xs) @ c # r = join '','' (map R ys') @ c # r'" by simp
      with Cons.IH [of ys'] Cons.prems y have "xs = ys' \<and> r = r'" by simp
      with xy y show ?thesis by simp
    qed
  qed
qed

abbreviation rend :: "json \<Rightarrow> string" where
  "rend \<equiv> render '','' '':''"

lemma num_head: "list_all num_char n \<Longrightarrow> n \<noteq> [] \<Longrightarrow> num_char (hd n)"
  by (cases n) auto

lemma rend_hd:
  "json_wf j \<Longrightarrow> rend j \<noteq> [] \<and> hd (rend j) \<notin> {CHR '']'', CHR ''}''}"
  by (cases j) (auto simp: quote_str_def num_char_def is_digit_def ord_def dest!: num_head)

text \<open>The first character tells the constructor.\<close>

definition json_tag :: "json \<Rightarrow> nat" where
  "json_tag j = (case j of JNull \<Rightarrow> 0 | JBool _ \<Rightarrow> 1 | JNum _ \<Rightarrow> 2 | JStr _ \<Rightarrow> 3 | JArr _ \<Rightarrow> 4 | JObj _ \<Rightarrow> 5)"

definition char_tag :: "char \<Rightarrow> nat" where
  "char_tag c =
     (if c = CHR ''n'' then 0 else if c \<in> {CHR ''t'', CHR ''f''} then 1 else if c = CHR 0x22 then 3
      else if c = CHR ''['' then 4 else if c = CHR ''{'' then 5 else 2)"

lemma num_char_tag: "num_char c \<Longrightarrow> char_tag c = 2"
  by (auto simp: char_tag_def num_char_def is_digit_def ord_def)

lemma rend_tag:
  assumes "json_wf j"
  shows "char_tag (hd (rend j)) = json_tag j"
proof (cases j)
  case (JNum n)
  with assms num_head [of n] show ?thesis by (simp add: num_char_tag json_tag_def)
qed (auto simp: json_tag_def quote_str_def char_tag_def)

lemma rend_same_tag:
  assumes "json_wf i" "json_wf j" "rend i @ r = rend j @ r'"
  shows "json_tag i = json_tag j"
proof -
  from assms have "hd (rend i) = hd (rend j)" by (metis hd_append2 rend_hd)
  with assms rend_tag show ?thesis by metis
qed

lemma rend_determined: "json_wf i \<Longrightarrow> determined json_wf rend i"
proof (induction i)
  case JNull
  show ?case unfolding determined_def
  proof (intro allI impI)
    fix y r r' assume a: "json_wf y" "rend JNull @ r = rend y @ r'"
    with rend_same_tag [of JNull y r r'] have "y = JNull"
      by (cases y) (auto simp: json_tag_def)
    with a show "JNull = y \<and> r = r'" by simp
  qed
next
  case (JBool b)
  show ?case unfolding determined_def
  proof (intro allI impI)
    fix y r r' assume a: "json_wf y" "rend (JBool b) @ r = rend y @ r'"
    with rend_same_tag [of "JBool b" y r r'] obtain c where "y = JBool c"
      by (cases y) (auto simp: json_tag_def)
    with a show "JBool b = y \<and> r = r'" by (auto split: if_splits)
  qed
next
  case (JNum n)
  show ?case unfolding determined_def
  proof (intro allI impI)
    fix y r r' assume a: "json_wf y" "closed r" "closed r'" "rend (JNum n) @ r = rend y @ r'"
    with JNum rend_same_tag [of "JNum n" y r r'] obtain m where "y = JNum m"
      by (cases y) (auto simp: json_tag_def)
    with a JNum num_prefix [of n m r r'] show "JNum n = y \<and> r = r'" by simp
  qed
next
  case (JStr s)
  show ?case unfolding determined_def
  proof (intro allI impI)
    fix y r r' assume a: "json_wf y" "rend (JStr s) @ r = rend y @ r'"
    with rend_same_tag [of "JStr s" y r r'] obtain t where "y = JStr t"
      by (cases y) (auto simp: json_tag_def)
    with a quote_str_prefix [of s r t r'] show "JStr s = y \<and> r = r'" by simp
  qed
next
  case (JArr xs)
  show ?case unfolding determined_def
  proof (intro allI impI)
    fix y r r' assume a: "json_wf y" "rend (JArr xs) @ r = rend y @ r'"
    with JArr rend_same_tag [of "JArr xs" y r r'] obtain ys where y: "y = JArr ys"
      by (cases y) (auto simp: json_tag_def)
    let ?R = "\<lambda>j. if json_wf j then rend j else ''x''"
    have same: "map ?R zs = map rend zs" if "list_all json_wf zs" for zs
      using that by (induction zs) auto
    have det: "\<forall>x \<in> set xs. determined json_wf ?R x"
      using JArr by (auto simp: determined_def list_all_iff)
    have hd: "?R x \<noteq> [] \<and> hd (?R x) \<noteq> CHR '']''" for x
      using rend_hd [of x] by auto
    from a y JArr.prems have "join '','' (map ?R xs) @ CHR '']'' # r = join '','' (map ?R ys) @ CHR '']'' # r'"
      by (simp add: same)
    from join_prefix [OF det _ hd _ this] a y show "JArr xs = y \<and> r = r'" by simp
  qed
next
  case (JObj kvs)
  show ?case unfolding determined_def
  proof (intro allI impI)
    fix y r r' assume a: "json_wf y" "rend (JObj kvs) @ r = rend y @ r'"
    with JObj rend_same_tag [of "JObj kvs" y r r'] obtain ys where y: "y = JObj ys"
      by (cases y) (auto simp: json_tag_def)
    let ?R = "\<lambda>kv. quote_str (fst kv) @ '':'' @ rend (snd kv)"
    have det: "\<forall>x \<in> set kvs. determined (\<lambda>kv. json_wf (snd kv)) ?R x"
    proof
      fix x assume x: "x \<in> set kvs"
      obtain k v where kv: "x = (k, v)" by (cases x)
      have "determined json_wf rend v"
        using JObj x kv by (auto simp: list_all_iff intro!: JObj.IH [of x v])
      then show "determined (\<lambda>kv. json_wf (snd kv)) ?R x"
        unfolding determined_def kv by (fastforce dest: quote_str_prefix)
    qed
    have hd: "?R x \<noteq> [] \<and> hd (?R x) \<noteq> CHR ''}''" for x
      by (simp add: quote_str_def)
    from a y have "join '','' (map ?R kvs) @ CHR ''}'' # r = join '','' (map ?R ys) @ CHR ''}'' # r'"
      by simp
    from join_prefix [OF det _ hd _ this] a y show "JObj kvs = y \<and> r = r'" by simp
  qed
qed

lemma json_wf_sort_keys [simp]: "json_wf (sort_keys j) = json_wf j"
  by (induction j) (auto simp: list_all_iff)

lemma canonical_json_inj:
  assumes "json_wf i" "json_wf j" "canonical_json i = canonical_json j"
  shows "sort_keys i = sort_keys j"
proof -
  have "determined json_wf rend (sort_keys i)" using assms by (simp add: rend_determined)
  moreover have "rend (sort_keys i) @ [] = rend (sort_keys j) @ []"
    using assms by (simp add: canonical_json_def)
  ultimately show ?thesis
    using assms unfolding determined_def by (auto simp: closed_def)
qed

section \<open>Members of an object\<close>

fun json_get :: "string \<Rightarrow> json \<Rightarrow> json option" where
  "json_get k (JObj kvs) = dict_get kvs k"
| "json_get k _ = None"

fun json_keys :: "json \<Rightarrow> string list" where
  "json_keys (JObj kvs) = map fst kvs"
| "json_keys _ = []"

lemma dict_get_perm:
  assumes "mset d = mset d'" "distinct (map fst d)"
  shows "dict_get d k = dict_get d' k"
proof -
  have "mset (map fst d') = mset (map fst d)" using assms(1) by simp
  then have "distinct (map fst d')" using assms(2) mset_eq_imp_distinct_iff by blast
  then have "map_of d = map_of d'"
    using assms(2) map_of_inject_set [of d d'] mset_eq_setD [OF assms(1)] by simp
  then show ?thesis by (simp add: dict_get_map_of)
qed

lemma dict_get_map_snd: "dict_get (map (\<lambda>kv. (fst kv, f (snd kv))) d) k = map_option f (dict_get d k)"
  by (induction d) auto

lemma json_get_sort_keys:
  assumes "distinct (json_keys j)"
  shows "json_get k (sort_keys j) = map_option sort_keys (json_get k j)"
proof (cases j)
  case (JObj kvs)
  let ?m = "map (\<lambda>kv. (fst kv, sort_keys (snd kv))) kvs"
  have "distinct (map fst ?m)" using assms JObj by (simp add: comp_def)
  then have "dict_get ?m k = dict_get (sort_key fst ?m) k"
    by (intro dict_get_perm) simp_all
  with JObj show ?thesis by (simp add: dict_get_map_snd)
qed auto

text \<open>Equal canonical texts have equal members.\<close>

lemma canonical_json_member:
  assumes "canonical_json i = canonical_json j" "json_wf i" "json_wf j"
    and "distinct (json_keys i)" "distinct (json_keys j)"
  shows "map_option sort_keys (json_get k i) = map_option sort_keys (json_get k j)"
  using canonical_json_inj [OF assms(2,3,1)] assms(4,5) by (metis json_get_sort_keys)

lemma num_char_digits: "list_all is_digit s \<Longrightarrow> list_all num_char s"
  by (auto simp: list_all_iff num_char_def)

lemma json_wf_int [simp]: "json_wf (json_int i)"
  by (auto simp: json_int_def int_str_def num_char_digits nat_str_digits num_char_def)

lemma json_int_inj [simp]: "json_int i = json_int j \<longleftrightarrow> i = j"
proof -
  have neg: "nat_str n \<noteq> CHR ''-'' # s" for n s
    using nat_str_digits [of n] by (auto simp: is_digit_def ord_def)
  show ?thesis
    using neg neg [symmetric] by (auto simp: json_int_def int_str_def)
qed

lemma sort_keys_int [simp]: "sort_keys (json_int i) = json_int i"
  by (simp add: json_int_def)

lemma json_wf_strs [simp]: "json_wf (json_strs xs)"
  by (simp add: json_strs_def list_all_iff)

lemma sort_keys_strs [simp]: "sort_keys (json_strs xs) = json_strs xs"
  by (simp add: json_strs_def)

lemma json_strs_inj [simp]: "json_strs xs = json_strs ys \<longleftrightarrow> xs = ys"
  by (auto simp: json_strs_def inj_map_eq_map inj_def)

lemma json_wf_opt_str [simp]: "json_wf (json_opt JStr x)"
  by (cases x) (simp_all add: json_opt_def)

lemma sort_keys_opt_str [simp]: "sort_keys (json_opt JStr x) = json_opt JStr x"
  by (cases x) (simp_all add: json_opt_def)

lemma json_opt_str_inj [simp]: "json_opt JStr x = json_opt JStr y \<longleftrightarrow> x = y"
  by (cases x; cases y) (simp_all add: json_opt_def)

lemma frac_digits_digits: "0 \<le> r \<Longrightarrow> r < 1 \<Longrightarrow> list_all is_digit (frac_digits n r)"
proof (induction n arbitrary: r)
  case 0
  then show ?case by simp
next
  case (Suc n)
  have b: "0 \<le> \<lfloor>10 * r\<rfloor>" "\<lfloor>10 * r\<rfloor> < 10" using Suc.prems by (simp_all add: floor_less_iff)
  then have d: "is_digit (char_of (48 + nat \<lfloor>10 * r\<rfloor>))" by (intro is_digit_char_of) linarith
  have "list_all is_digit (frac_digits n (10 * r - of_int \<lfloor>10 * r\<rfloor>))"
    by (rule Suc.IH) linarith+
  with d show ?case by simp
qed

lemma json_wf_float [simp]: "json_wf (json_float r)"
proof -
  let ?f = "\<bar>r\<bar> - of_int \<lfloor>\<bar>r\<bar>\<rfloor>"
  have "list_all is_digit (frac_digits 30 ?f)" by (rule frac_digits_digits) linarith+
  then show ?thesis
    using nat_str_digits num_char_digits
    by (auto simp: json_float_def float_repr_def Let_def int_str_def num_char_def is_digit_def ord_def)
qed

lemma sort_keys_float [simp]: "sort_keys (json_float r) = json_float r"
  by (simp add: json_float_def)

end
