(* ===== verification/Models.thy ===== *)
theory Models
  imports PyUrl PyJson
begin

text \<open>
  \<open>src/astp/models.py\<close>: the engagement contract (scope, method policy, constraints,
  program binding), test definitions, approvals, and the scope matcher \<open>_match_rule\<close>.
  Field validators of the pydantic models are the \<open>mk_...\<close> constructors and \<open>wf_...\<close>
  predicates; the JSON form of each model is its declared fields. A Python set that is only
  tested for membership is a set; the sets of \<open>RedactionProfile\<close>, which are serialised into
  the policy digest, are lists in the iteration order of the process.
\<close>

section \<open>Enumerations\<close>

datatype risk_class = PASSIVE | SAFE_ACTIVE | STATE_CHANGING | INTRUSIVE

datatype decision = ALLOW | DENY | APPROVAL_REQUIRED | INSUFFICIENT_CONTEXT

datatype exclusion_kind = PRODUCT_FAMILY | ORGANIZATION_FAMILY | ASSET_FAMILY

datatype operational_status = ONLINE | OFFLINE | UNKNOWN

datatype scope_kind = DOMAIN | WILDCARD_DOMAIN | URL_PREFIX | CIDR

fun risk_value :: "risk_class \<Rightarrow> string" where
  "risk_value PASSIVE = ''passive''"
| "risk_value SAFE_ACTIVE = ''safe_active''"
| "risk_value STATE_CHANGING = ''state_changing''"
| "risk_value INTRUSIVE = ''intrusive''"

fun decision_value :: "decision \<Rightarrow> string" where
  "decision_value ALLOW = ''allow''"
| "decision_value DENY = ''deny''"
| "decision_value APPROVAL_REQUIRED = ''approval_required''"
| "decision_value INSUFFICIENT_CONTEXT = ''insufficient_context''"

fun exclusion_value :: "exclusion_kind \<Rightarrow> string" where
  "exclusion_value PRODUCT_FAMILY = ''product_family''"
| "exclusion_value ORGANIZATION_FAMILY = ''organization_family''"
| "exclusion_value ASSET_FAMILY = ''asset_family''"

fun status_value :: "operational_status \<Rightarrow> string" where
  "status_value ONLINE = ''online''"
| "status_value OFFLINE = ''offline''"
| "status_value UNKNOWN = ''unknown''"

fun scope_kind_value :: "scope_kind \<Rightarrow> string" where
  "scope_kind_value DOMAIN = ''domain''"
| "scope_kind_value WILDCARD_DOMAIN = ''wildcard_domain''"
| "scope_kind_value URL_PREFIX = ''url_prefix''"
| "scope_kind_value CIDR = ''cidr''"

lemma risk_value_inj [simp]: "risk_value a = risk_value b \<longleftrightarrow> a = b"
  by (cases a; cases b) auto

lemma decision_value_inj [simp]: "decision_value a = decision_value b \<longleftrightarrow> a = b"
  by (cases a; cases b) auto

lemma status_value_inj [simp]: "status_value a = status_value b \<longleftrightarrow> a = b"
  by (cases a; cases b) auto

lemma scope_kind_value_inj [simp]: "scope_kind_value a = scope_kind_value b \<longleftrightarrow> a = b"
  by (cases a; cases b) auto

section \<open>The engagement contract\<close>

record exclusion_rule =
  excl_id :: string
  excl_kind :: exclusion_kind
  excl_value :: string
  excl_source_text :: "string option"

record program_binding =
  pb_program_id :: string
  pb_platform :: string
  pb_source_sha256 :: string
  pb_source_url :: "string option"
  pb_requires_online :: bool
  pb_max_age :: int
  pb_user_agent :: "string option"
  pb_excluded_findings :: "string list"

record attestation =
  att_id :: string
  att_program_id :: string
  att_source_sha256 :: string
  att_status :: operational_status
  att_observed_at :: datetime
  att_source_type :: string
  att_source_url :: "string option"
  att_note :: "string option"

record scope_rule =
  rule_kind :: scope_kind
  rule_value :: string

record scope_policy =
  allowed :: "scope_rule list"
  denied :: "scope_rule list"
  approval_required :: "scope_rule list"

record method_policy =
  mp_passive :: decision
  mp_safe_active :: decision
  mp_state_changing :: decision
  mp_intrusive :: decision

record asset_constraint =
  ac_selector :: scope_rule
  ac_allowed_paths :: "string list"
  ac_denied_paths :: "string list"
  ac_allowed_ports :: "int list"
  ac_allowed_methods :: "string list"
  ac_allowed_identities :: "string list"
  ac_max_rps :: "rat option"

record redaction_profile =
  red_headers :: "string list"
  red_query_parameters :: "string list"
  red_body_fields :: "string list"

record constraints =
  con_max_rps :: rat
  con_no_dos :: bool
  con_no_social_engineering :: bool
  con_no_data_destruction :: bool
  con_assets :: "asset_constraint list"
  con_redaction :: redaction_profile
  con_exclusions :: "exclusion_rule list"

record engagement =
  eng_id :: string
  eng_name :: string
  eng_scope :: scope_policy
  eng_methods :: method_policy
  eng_constraints :: constraints
  eng_program :: "program_binding option"

record test_definition =
  test_id :: string
  test_title :: string
  test_category :: string
  test_risk :: risk_class
  test_required_context :: "string list"
  test_evidence_required :: "string list"
  test_description :: string

record approval =
  apr_id :: string
  apr_engagement_id :: string
  apr_actor :: string
  apr_issued_at :: datetime
  apr_expires_at :: datetime
  apr_targets :: "scope_rule list"
  apr_test_ids :: "string list"
  apr_risk_classes :: "risk_class list"
  apr_identities :: "string list"
  apr_max_rps :: "rat option"
  apr_reason :: string

section \<open>Validators\<close>

text \<open>\<open>gt=0, le=1000\<close> on a rate.\<close>

definition valid_rate :: "rat \<Rightarrow> bool" where
  "valid_rate r \<longleftrightarrow> 0 < r \<and> r \<le> 1000"

definition valid_opt_rate :: "rat option \<Rightarrow> bool" where
  "valid_opt_rate x = (case x of None \<Rightarrow> True | Some r \<Rightarrow> valid_rate r)"

definition mk_program_binding :: "program_binding \<Rightarrow> program_binding result" where
  "mk_program_binding b =
     rbind (require (30 \<le> pb_max_age b \<and> pb_max_age b \<le> 3600)
              [Txt ''operational_attestation_max_age_seconds out of range'']) (\<lambda>_. Inr b)"

definition require_attestation_timezone :: "attestation \<Rightarrow> attestation result" where
  "require_attestation_timezone a =
     rbind (require (aware (att_observed_at a)) [Txt ''observed_at must include a timezone''])
       (\<lambda>_. Inr a)"

definition mk_scope_rule :: "scope_kind \<Rightarrow> string \<Rightarrow> scope_rule result" where
  "mk_scope_rule k v =
     (let v' = strip v
      in rbind (require (v' \<noteq> []) [Txt ''scope value cannot be empty''])
           (\<lambda>_. Inr \<lparr>rule_kind = k, rule_value = v'\<rparr>))"

definition normalize_methods :: "string list \<Rightarrow> string list" where
  "normalize_methods ms = map str_upper ms"

definition normalize_paths :: "string list \<Rightarrow> string list" where
  "normalize_paths ps = map (\<lambda>p. if startswith p ''/'' then p else ''/'' @ p) ps"

definition mk_asset_constraint :: "asset_constraint \<Rightarrow> asset_constraint result" where
  "mk_asset_constraint c =
     rbind (require (\<not> (\<exists>p \<in> set (ac_allowed_ports c). p < 1 \<or> 65535 < p))
              [Txt ''ports must be between 1 and 65535'']) (\<lambda>_.
     rbind (require (valid_opt_rate (ac_max_rps c)) [Txt ''rate out of range'']) (\<lambda>_.
     Inr (c\<lparr>ac_allowed_methods := normalize_methods (ac_allowed_methods c),
            ac_allowed_paths := normalize_paths (ac_allowed_paths c),
            ac_denied_paths := normalize_paths (ac_denied_paths c)\<rparr>)))"

definition normalize_names :: "string list \<Rightarrow> string list" where
  "normalize_names vs = remdups (map (\<lambda>v. str_lower (strip v)) (filter (\<lambda>v. strip v \<noteq> []) vs))"

definition mk_redaction_profile :: "redaction_profile \<Rightarrow> redaction_profile" where
  "mk_redaction_profile r =
     \<lparr>red_headers = normalize_names (red_headers r),
      red_query_parameters = normalize_names (red_query_parameters r),
      red_body_fields = normalize_names (red_body_fields r)\<rparr>"

definition mk_constraints :: "constraints \<Rightarrow> constraints result" where
  "mk_constraints c =
     rbind (require (valid_rate (con_max_rps c)) [Txt ''rate out of range'']) (\<lambda>_. Inr c)"

definition mk_approval :: "approval \<Rightarrow> approval result" where
  "mk_approval a =
     rbind (require (aware (apr_issued_at a) \<and> aware (apr_expires_at a))
              [Txt ''approval timestamps must include a timezone'']) (\<lambda>_.
     rbind (require (valid_opt_rate (apr_max_rps a)) [Txt ''rate out of range'']) (\<lambda>_.
     rbind (require (\<not> dt_le (apr_expires_at a) (apr_issued_at a))
              [Txt ''approval expires_at must be after issued_at'']) (\<lambda>_.
     rbind (require (apr_targets a \<noteq> []) [Txt ''approval must bind at least one target'']) (\<lambda>_.
     Inr a))))"

text \<open>\<open>ApprovalArtifact.is_active\<close> at an explicit instant.\<close>

definition is_active :: "approval \<Rightarrow> datetime \<Rightarrow> bool" where
  "is_active a current \<longleftrightarrow>
     dt_le (apr_issued_at a) current \<and> dt_less current (apr_expires_at a)"

section \<open>Decisions of the method policy\<close>

fun decision_for :: "method_policy \<Rightarrow> risk_class \<Rightarrow> decision" where
  "decision_for m PASSIVE = mp_passive m"
| "decision_for m SAFE_ACTIVE = mp_safe_active m"
| "decision_for m STATE_CHANGING = mp_state_changing m"
| "decision_for m INTRUSIVE = mp_intrusive m"

definition default_methods :: method_policy where
  "default_methods =
     \<lparr>mp_passive = ALLOW, mp_safe_active = ALLOW, mp_state_changing = APPROVAL_REQUIRED,
      mp_intrusive = DENY\<rparr>"

definition default_constraints :: constraints where
  "default_constraints =
     \<lparr>con_max_rps = 2, con_no_dos = True, con_no_social_engineering = True,
      con_no_data_destruction = True, con_assets = [],
      con_redaction = \<lparr>red_headers = [], red_query_parameters = [], red_body_fields = []\<rparr>,
      con_exclusions = []\<rparr>"

section \<open>Scope matching\<close>

text \<open>\<open>target if "://" in target else f"https://{target}"\<close>.\<close>

definition with_scheme :: "string \<Rightarrow> string" where
  "with_scheme target = (if contains target ''://'' then target else ''https://'' @ target)"

definition match_host :: "string \<Rightarrow> string result" where
  "match_host target =
     rbind (urlparse (with_scheme target)) (\<lambda>u.
       Inr (rstrip_of (\<lambda>c. c = CHR ''.'') (str_lower (or_else (url_hostname u) []))))"

definition strip_dots :: "string \<Rightarrow> string" where
  "strip_dots s = rstrip_of (\<lambda>c. c = CHR ''.'') s"

definition match_rule :: "string \<Rightarrow> scope_rule \<Rightarrow> bool result" where
  "match_rule target rule =
     rbind (match_host target) (\<lambda>host.
       Inr (case rule_kind rule of
              DOMAIN \<Rightarrow> host = strip_dots (str_lower (rule_value rule))
            | WILDCARD_DOMAIN \<Rightarrow>
                (let suffix = strip_dots (removeprefix (str_lower (rule_value rule)) ''*.'')
                 in host = suffix \<or> endswith host (''.'' @ suffix))
            | URL_PREFIX \<Rightarrow> startswith target (rule_value rule)
            | CIDR \<Rightarrow>
                (case (parse_ip_address host, parse_ip_network (rule_value rule)) of
                   (Some a, Some n) \<Rightarrow> ip_in_network a n
                 | _ \<Rightarrow> False)))"

definition target_in_scope :: "string \<Rightarrow> scope_policy \<Rightarrow> bool result" where
  "target_in_scope target scope =
     rbind (rany (match_rule target) (denied scope)) (\<lambda>d.
       if d then Inr False else rany (match_rule target) (allowed scope))"

section \<open>The evaluation without artifacts\<close>

record evaluation_request =
  ev_target :: string
  ev_available_context :: "string set"
  ev_approved :: bool

record evaluation_result =
  evr_decision :: decision
  evr_target_in_scope :: bool
  evr_missing_context :: "string list"
  evr_reasons :: "message list"

definition missing_context :: "string list \<Rightarrow> string set \<Rightarrow> string list" where
  "missing_context required available = sort (remdups (filter (\<lambda>c. c \<notin> available) required))"

definition evaluate_test ::
  "engagement \<Rightarrow> test_definition \<Rightarrow> evaluation_request \<Rightarrow> evaluation_result result" where
  "evaluate_test eng test req =
     rbind (target_in_scope (ev_target req) (eng_scope eng)) (\<lambda>in_scope.
       if \<not> in_scope then
         Inr \<lparr>evr_decision = DENY, evr_target_in_scope = False, evr_missing_context = [],
              evr_reasons = [[Txt ''Target is outside the authorized scope or explicitly denied.'']]\<rparr>
       else
         (let missing = missing_context (test_required_context test) (ev_available_context req)
          in if missing \<noteq> [] then
               Inr \<lparr>evr_decision = INSUFFICIENT_CONTEXT, evr_target_in_scope = True,
                    evr_missing_context = missing,
                    evr_reasons = [[Txt ''Required context is missing; execution must not proceed.'']]\<rparr>
             else
               (let policy = decision_for (eng_methods eng) (test_risk test);
                    approved = (policy = APPROVAL_REQUIRED \<and> ev_approved req);
                    final = (if approved then ALLOW else policy);
                    reasons = (if approved then [[Txt ''Explicit approval supplied for this evaluation.'']] else [])
                in Inr \<lparr>evr_decision = final, evr_target_in_scope = True, evr_missing_context = [],
                        evr_reasons = reasons @
                          [[Txt ''Risk class '', Quoted (risk_value (test_risk test)), Txt '' maps to '',
                            Quoted (decision_value final), Txt ''.'']]\<rparr>)))"

section \<open>JSON forms (\<open>model_dump(mode="json")\<close>)\<close>

definition exclusion_json :: "exclusion_rule \<Rightarrow> json" where
  "exclusion_json r = JObj
     [(''id'', JStr (excl_id r)), (''kind'', JStr (exclusion_value (excl_kind r))),
      (''value'', JStr (excl_value r)), (''source_text'', json_opt JStr (excl_source_text r))]"

definition binding_json :: "program_binding \<Rightarrow> json" where
  "binding_json b = JObj
     [(''program_id'', JStr (pb_program_id b)), (''platform'', JStr (pb_platform b)),
      (''source_content_sha256'', JStr (pb_source_sha256 b)),
      (''source_url'', json_opt JStr (pb_source_url b)),
      (''requires_online'', JBool (pb_requires_online b)),
      (''operational_attestation_max_age_seconds'', json_int (pb_max_age b)),
      (''recommended_user_agent'', json_opt JStr (pb_user_agent b)),
      (''excluded_finding_types'', json_strs (pb_excluded_findings b))]"

definition rule_json :: "scope_rule \<Rightarrow> json" where
  "rule_json r = JObj [(''kind'', JStr (scope_kind_value (rule_kind r))), (''value'', JStr (rule_value r))]"

definition scope_json :: "scope_policy \<Rightarrow> json" where
  "scope_json s = JObj
     [(''allowed'', JArr (map rule_json (allowed s))), (''denied'', JArr (map rule_json (denied s))),
      (''approval_required'', JArr (map rule_json (approval_required s)))]"

definition methods_json :: "method_policy \<Rightarrow> json" where
  "methods_json m = JObj
     [(''passive'', JStr (decision_value (mp_passive m))),
      (''safe_active'', JStr (decision_value (mp_safe_active m))),
      (''state_changing'', JStr (decision_value (mp_state_changing m))),
      (''intrusive'', JStr (decision_value (mp_intrusive m)))]"

definition asset_json :: "asset_constraint \<Rightarrow> json" where
  "asset_json c = JObj
     [(''selector'', rule_json (ac_selector c)),
      (''allowed_paths'', json_strs (ac_allowed_paths c)),
      (''denied_paths'', json_strs (ac_denied_paths c)),
      (''allowed_ports'', JArr (map json_int (ac_allowed_ports c))),
      (''allowed_http_methods'', json_strs (ac_allowed_methods c)),
      (''allowed_identities'', json_strs (ac_allowed_identities c)),
      (''max_requests_per_second'', json_opt json_float (ac_max_rps c))]"

definition redaction_json :: "redaction_profile \<Rightarrow> json" where
  "redaction_json r = JObj
     [(''sensitive_headers'', json_strs (red_headers r)),
      (''sensitive_query_parameters'', json_strs (red_query_parameters r)),
      (''sensitive_body_fields'', json_strs (red_body_fields r))]"

definition constraints_json :: "constraints \<Rightarrow> json" where
  "constraints_json c = JObj
     [(''max_requests_per_second'', json_float (con_max_rps c)), (''no_dos'', JBool (con_no_dos c)),
      (''no_social_engineering'', JBool (con_no_social_engineering c)),
      (''no_data_destruction'', JBool (con_no_data_destruction c)),
      (''assets'', JArr (map asset_json (con_assets c))),
      (''redaction'', redaction_json (con_redaction c)),
      (''semantic_exclusions'', JArr (map exclusion_json (con_exclusions c)))]"

definition engagement_json :: "engagement \<Rightarrow> json" where
  "engagement_json e = JObj
     [(''id'', JStr (eng_id e)), (''name'', JStr (eng_name e)), (''scope'', scope_json (eng_scope e)),
      (''methods'', methods_json (eng_methods e)),
      (''constraints'', constraints_json (eng_constraints e)),
      (''program'', json_opt binding_json (eng_program e))]"

definition test_json :: "test_definition \<Rightarrow> json" where
  "test_json t = JObj
     [(''id'', JStr (test_id t)), (''title'', JStr (test_title t)), (''category'', JStr (test_category t)),
      (''risk_class'', JStr (risk_value (test_risk t))),
      (''required_context'', json_strs (test_required_context t)),
      (''evidence_required'', json_strs (test_evidence_required t)),
      (''description'', JStr (test_description t))]"

section \<open>Facts about scope matching\<close>

lemma missing_context_Nil [simp]:
  "missing_context required available = [] \<longleftrightarrow> set required \<subseteq> available"
proof -
  have "missing_context required available = [] \<longleftrightarrow> set (missing_context required available) = {}"
    by simp
  also have "\<dots> \<longleftrightarrow> set required \<subseteq> available"
    unfolding missing_context_def by auto
  finally show ?thesis .
qed

lemma missing_context_set: "set (missing_context required available) = set required - available"
  unfolding missing_context_def by auto

text \<open>Whether matching raises depends on the target alone.\<close>

lemma match_rule_error_iff: "(\<exists>e. match_rule t r = Inl e) \<longleftrightarrow> (\<exists>e. match_host t = Inl e)"
  by (auto simp: match_rule_def result_simps)

lemma target_in_scope_True:
  "target_in_scope t s = Inr True \<Longrightarrow>
   (\<exists>r \<in> set (allowed s). match_rule t r = Inr True) \<and>
   (\<forall>r \<in> set (denied s). match_rule t r \<noteq> Inr True)"
  unfolding target_in_scope_def
  by (auto simp: result_simps split: if_splits dest: rany_TrueD)
     (metis Inr_inject rany_FalseD)

lemma decision_for_default: "decision_for default_methods r = ALLOW \<Longrightarrow> r = PASSIVE \<or> r = SAFE_ACTIVE"
  by (cases r) (auto simp: default_methods_def)

text \<open>Once the host of the target is known, matching a rule cannot raise.\<close>

lemma match_rule_pure: "match_host t = Inr h \<Longrightarrow> \<exists>p. match_rule t = (\<lambda>r. Inr (p r))"
  by (rule exI [of _ "\<lambda>r. match_rule t r = Inr True"]) (auto simp: match_rule_def fun_eq_iff)

lemma match_rule_raises: "match_host t = Inl e \<Longrightarrow> match_rule t r = Inl e"
  by (simp add: match_rule_def)

text \<open>The canonical JSON determines the scope rules.\<close>

lemma rule_json_inj [simp]: "rule_json r = rule_json r' \<longleftrightarrow> r = r'"
  by (cases r; cases r') (auto simp: rule_json_def)

lemma sort_keys_rule [simp]: "sort_keys (rule_json r) = rule_json r"
  by (simp add: rule_json_def)

lemma sort_keys_scope:
  "sort_keys (scope_json s) = sort_keys (scope_json s') \<longleftrightarrow> s = s'"
  by (cases s; cases s') (auto simp: scope_json_def inj_map_eq_map inj_def)

end
