(* ===== verification/DetectorRegistry.thy ===== *)
theory DetectorRegistry
  imports Models
begin

text \<open>
  \<open>src/astp/detector_registry.py\<close>: the capability records of the detectors and the built-in
  registry. A capability says what a detector needs (identities, out-of-band callbacks, a
  browser), what it may do (state changes, redirects) and whether its runtime is qualified
  for the field.
\<close>

datatype vulnerability_family =
    F_REFLECTED_XSS | F_STORED_XSS | F_DOM_XSS | F_SECRETS_EXPOSURE
   | F_SENSITIVE_INFORMATION_DISCLOSURE | F_SECURITY_MISCONFIGURATION | F_KNOWN_CVE | F_IDOR
   | F_BROKEN_ACCESS_CONTROL | F_AUTHENTICATION_BYPASS | F_PRIVILEGE_ESCALATION
   | F_SESSION_MANAGEMENT | F_OAUTH_OIDC | F_MFA_2FA | F_CORS | F_OPEN_REDIRECT
   | F_SQL_INJECTION | F_COMMAND_INJECTION | F_PATH_TRAVERSAL | F_LFI_RFI | F_SSRF | F_XXE
   | F_SSTI | F_DNS_MISCONFIGURATION | F_SUBDOMAIN_TAKEOVER | F_CACHE_POISONING
   | F_CACHE_DECEPTION | F_REQUEST_SMUGGLING | F_RACE_CONDITION | F_BUSINESS_LOGIC
   | F_ENDPOINT_DISCOVERY | F_PARAMETER_DISCOVERY | F_TLS_POSTURE

datatype runtime_state = R_UNAVAILABLE | R_INSTALLED | R_QUALIFIED

datatype proof_requirement =
    PROOF_OBSERVATION | PROOF_REPRODUCTION | PROOF_BROWSER_EXECUTION | PROOF_DIFFERENTIAL_AUTHORIZATION
  | PROOF_DATABASE_BEHAVIOR | PROOF_OAST_CALLBACK | PROOF_VULNERABLE_VERSION

fun family_value :: "vulnerability_family \<Rightarrow> string" where
  "family_value F_REFLECTED_XSS = ''reflected_xss''"
| "family_value F_STORED_XSS = ''stored_xss''"
| "family_value F_DOM_XSS = ''dom_xss''"
| "family_value F_SECRETS_EXPOSURE = ''secrets_exposure''"
| "family_value F_SENSITIVE_INFORMATION_DISCLOSURE = ''sensitive_information_disclosure''"
| "family_value F_SECURITY_MISCONFIGURATION = ''security_misconfiguration''"
| "family_value F_KNOWN_CVE = ''known_cve''"
| "family_value F_IDOR = ''idor''"
| "family_value F_BROKEN_ACCESS_CONTROL = ''broken_access_control''"
| "family_value F_AUTHENTICATION_BYPASS = ''authentication_bypass''"
| "family_value F_PRIVILEGE_ESCALATION = ''privilege_escalation''"
| "family_value F_SESSION_MANAGEMENT = ''session_management''"
| "family_value F_OAUTH_OIDC = ''oauth_oidc''"
| "family_value F_MFA_2FA = ''mfa_2fa''"
| "family_value F_CORS = ''cors''"
| "family_value F_OPEN_REDIRECT = ''open_redirect''"
| "family_value F_SQL_INJECTION = ''sql_injection''"
| "family_value F_COMMAND_INJECTION = ''command_injection''"
| "family_value F_PATH_TRAVERSAL = ''path_traversal''"
| "family_value F_LFI_RFI = ''lfi_rfi''"
| "family_value F_SSRF = ''ssrf''"
| "family_value F_XXE = ''xxe''"
| "family_value F_SSTI = ''ssti''"
| "family_value F_DNS_MISCONFIGURATION = ''dns_misconfiguration''"
| "family_value F_SUBDOMAIN_TAKEOVER = ''subdomain_takeover''"
| "family_value F_CACHE_POISONING = ''cache_poisoning''"
| "family_value F_CACHE_DECEPTION = ''cache_deception''"
| "family_value F_REQUEST_SMUGGLING = ''request_smuggling''"
| "family_value F_RACE_CONDITION = ''race_condition''"
| "family_value F_BUSINESS_LOGIC = ''business_logic''"
| "family_value F_ENDPOINT_DISCOVERY = ''endpoint_discovery''"
| "family_value F_PARAMETER_DISCOVERY = ''parameter_discovery''"
| "family_value F_TLS_POSTURE = ''tls_posture''"

record capability =
  cap_detector_id :: string
  cap_family :: vulnerability_family
  cap_engine :: string
  cap_operation :: string
  cap_protocols :: "string list"
  cap_risk_class :: risk_class
  cap_active :: bool
  cap_state_changing :: bool
  cap_destructive :: bool
  cap_availability_impact :: bool
  cap_oast_required :: bool
  cap_authentication_required :: bool
  cap_identities_required :: int
  cap_browser_required :: bool
  cap_max_requests :: int
  cap_max_concurrency :: int
  cap_follows_redirects :: bool
  cap_proof :: proof_requirement
  cap_autonomous :: bool
  cap_required_runtime :: "string option"
  cap_runtime_state :: runtime_state
  cap_field_ready :: bool
  cap_nightly :: bool
  cap_version :: string
  cap_provenance :: string

text \<open>\<open>_cap\<close>: the keyword defaults are those of the source; \<open>**changes\<close> are record updates.\<close>

definition cap ::
  "string \<Rightarrow> vulnerability_family \<Rightarrow> string \<Rightarrow> string \<Rightarrow> proof_requirement \<Rightarrow> bool \<Rightarrow> int \<Rightarrow>
   string option \<Rightarrow> runtime_state \<Rightarrow> bool \<Rightarrow> bool \<Rightarrow> capability" where
  "cap detector_id family engine operation proof active requests runtime state field nightly =
     \<lparr>cap_detector_id = detector_id, cap_family = family, cap_engine = engine,
      cap_operation = operation, cap_protocols = [''http'', ''https''],
      cap_risk_class = (if active then SAFE_ACTIVE else PASSIVE), cap_active = active,
      cap_state_changing = False, cap_destructive = False, cap_availability_impact = False,
      cap_oast_required = False, cap_authentication_required = False, cap_identities_required = 0,
      cap_browser_required = False, cap_max_requests = requests, cap_max_concurrency = 1,
      cap_follows_redirects = False, cap_proof = proof, cap_autonomous = field,
      cap_required_runtime = runtime, cap_runtime_state = state, cap_field_ready = field,
      cap_nightly = nightly, cap_version = ''m52.1'', cap_provenance = ''builtin:m52''\<rparr>"

definition builtin_detector_registry :: "capability list" where
  "builtin_detector_registry =
    [(cap ''astp.http-observation-field.v1'' F_SECURITY_MISCONFIGURATION ''astp''
       ''http.observation.field'' PROOF_OBSERVATION False 30 (Some ''counting-proxy'') R_QUALIFIED True False)
       \<lparr>cap_follows_redirects := True\<rparr>,
     cap ''astp.http-posture.v1'' F_SECURITY_MISCONFIGURATION ''astp''
       ''http_posture'' PROOF_OBSERVATION False 1 None R_QUALIFIED True True,
     cap ''astp.secret-exposure.v1'' F_SECRETS_EXPOSURE ''astp''
       ''static_secret_analysis'' PROOF_REPRODUCTION False 1 None R_QUALIFIED True True,
     cap ''astp.bounded-discovery.v1'' F_ENDPOINT_DISCOVERY ''astp''
       ''bounded_discovery'' PROOF_OBSERVATION False 1 None R_QUALIFIED True True,
     cap ''nmap.discovery.v1'' F_ENDPOINT_DISCOVERY ''nmap''
       ''external.nmap.discovery'' PROOF_OBSERVATION True 32 (Some ''security-tools'') R_QUALIFIED False False,
     cap ''nuclei.exposure-safe.v1'' F_SENSITIVE_INFORMATION_DISCLOSURE ''nuclei''
       ''external.nuclei.safe'' PROOF_REPRODUCTION True 20 (Some ''nuclei'') R_UNAVAILABLE False False,
     cap ''nuclei.astp-lab-cve.v1'' F_KNOWN_CVE ''nuclei''
       ''external.nuclei.safe'' PROOF_VULNERABLE_VERSION True 1 (Some ''nuclei'') R_QUALIFIED True False,
     cap ''nuclei.misconfiguration-safe.v1'' F_SECURITY_MISCONFIGURATION ''nuclei''
       ''external.nuclei.safe'' PROOF_REPRODUCTION True 20 (Some ''nuclei'') R_UNAVAILABLE False False,
     cap ''nuclei.cve-readonly-safe.v1'' F_KNOWN_CVE ''nuclei''
       ''external.nuclei.safe'' PROOF_VULNERABLE_VERSION True 20 (Some ''nuclei'') R_UNAVAILABLE False False,
     cap ''zap.passive-field.v1'' F_SECURITY_MISCONFIGURATION ''zap''
       ''external.zap.passive-field'' PROOF_REPRODUCTION True 50 (Some ''zap'') R_INSTALLED False False,
     cap ''dalfox.reflected-bounded.v1'' F_REFLECTED_XSS ''dalfox''
       ''dalfox.reflected-bounded'' PROOF_BROWSER_EXECUTION True 25 (Some ''dalfox'') R_QUALIFIED True False,
     cap ''dalfox.dom-analysis.v1'' F_DOM_XSS ''dalfox''
       ''dalfox.dom-analysis'' PROOF_BROWSER_EXECUTION False 1 (Some ''dalfox'') R_INSTALLED False False,
     cap ''ffuf.discovery-bounded.v1'' F_ENDPOINT_DISCOVERY ''ffuf''
       ''ffuf.discovery-bounded.v1'' PROOF_OBSERVATION True 4 (Some ''ffuf'') R_QUALIFIED True False,
     cap ''sqlmap.detect-bounded.v1'' F_SQL_INJECTION ''sqlmap''
       ''sqlmap.detect-bounded.v1'' PROOF_DATABASE_BEHAVIOR True 50 (Some ''sqlmap'') R_QUALIFIED True False,
     (cap ''playwright.dom-navigation-field.v1'' F_DOM_XSS ''playwright''
       ''browser.field-navigate'' PROOF_BROWSER_EXECUTION True 1 (Some ''playwright'') R_QUALIFIED True False)
       \<lparr>cap_browser_required := True\<rparr>,
     (cap ''playwright.auth-field.v1'' F_SESSION_MANAGEMENT ''playwright''
       ''browser.auth-workflow'' PROOF_BROWSER_EXECUTION True 20 (Some ''playwright'') R_QUALIFIED False False)
       \<lparr>cap_browser_required := True, cap_authentication_required := True\<rparr>,
     (cap ''astp.idor-differential.v1'' F_IDOR ''astp''
       ''differential_authorization'' PROOF_DIFFERENTIAL_AUTHORIZATION True 3 None R_QUALIFIED True False)
       \<lparr>cap_authentication_required := True, cap_identities_required := 2\<rparr>,
     (cap ''astp.ssrf-oast.v1'' F_SSRF ''astp''
       ''oast_verification'' PROOF_OAST_CALLBACK True 2 None R_QUALIFIED True False)
       \<lparr>cap_oast_required := True\<rparr>]"

lemma builtin_ids_distinct: "distinct (map cap_detector_id builtin_detector_registry)"
  by (simp add: builtin_detector_registry_def cap_def)

text \<open>What the built-in registry commits to: nothing state-changing, field-ready only when qualified.\<close>

definition safe_capability :: "capability \<Rightarrow> bool" where
  "safe_capability c \<longleftrightarrow>
     \<not> cap_state_changing c \<and> \<not> cap_destructive c \<and> \<not> cap_availability_impact c \<and>
     cap_risk_class c \<in> {PASSIVE, SAFE_ACTIVE} \<and> (cap_active c \<longleftrightarrow> cap_risk_class c = SAFE_ACTIVE) \<and>
     (cap_field_ready c \<longrightarrow> cap_runtime_state c = R_QUALIFIED) \<and>
     (cap_nightly c \<longrightarrow> cap_field_ready c \<and> \<not> cap_active c) \<and>
     1 \<le> cap_max_requests c \<and> cap_max_requests c \<le> 50 \<and> cap_max_concurrency c = 1"

lemma builtin_safe: "list_all safe_capability builtin_detector_registry"
  by (simp add: builtin_detector_registry_def cap_def safe_capability_def)

end
