(* ===== verification/PyHash.thy ===== *)
theory PyHash
  imports PyText "HOL-Library.Word"
begin

text \<open>
  Python's \<open>hashlib.sha256\<close> and \<open>hmac.new(..., hashlib.sha256)\<close>, with the
  hexadecimal rendering the program compares and stores. Nothing in the development
  assumes that the hash has no collisions: theorems about integrity say that either the
  data agree or the two hashed texts are a collision.
\<close>

unbundle bit_operations_syntax

section \<open>SHA-256\<close>

type_synonym u32 = "32 word"

definition rotr32 :: "nat \<Rightarrow> u32 \<Rightarrow> u32" where
  "rotr32 n x = drop_bit n x OR push_bit (32 - n) x"

definition sha_round_constants :: "u32 list" where
  "sha_round_constants =
    [1116352408, 1899447441, 3049323471, 3921009573, 961987163, 1508970993, 2453635748, 2870763221,
     3624381080, 310598401, 607225278, 1426881987, 1925078388, 2162078206, 2614888103, 3248222580,
     3835390401, 4022224774, 264347078, 604807628, 770255983, 1249150122, 1555081692, 1996064986,
     2554220882, 2821834349, 2952996808, 3210313671, 3336571891, 3584528711, 113926993, 338241895,
     666307205, 773529912, 1294757372, 1396182291, 1695183700, 1986661051, 2177026350, 2456956037,
     2730485921, 2820302411, 3259730800, 3345764771, 3516065817, 3600352804, 4094571909, 275423344,
     430227734, 506948616, 659060556, 883997877, 958139571, 1322822218, 1537002063, 1747873779,
     1955562222, 2024104815, 2227730452, 2361852424, 2428436474, 2756734187, 3204031479, 3329325298]"

definition sha_initial :: "u32 list" where
  "sha_initial =
    [1779033703, 3144134277, 1013904242, 2773480762, 1359893119, 2600822924, 528734635, 1541459225]"

fun be_word :: "nat list \<Rightarrow> u32" where
  "be_word bs = foldl (\<lambda>w b. push_bit 8 w OR word_of_nat b) 0 bs"

fun words_of_bytes :: "nat list \<Rightarrow> u32 list" where
  "words_of_bytes (a # b # c # d # bs) = be_word [a, b, c, d] # words_of_bytes bs"
| "words_of_bytes bs = []"

fun be_bytes :: "nat \<Rightarrow> nat \<Rightarrow> nat list" where
  "be_bytes 0 n = []"
| "be_bytes (Suc k) n = be_bytes k (n div 256) @ [n mod 256]"

definition sha_pad :: "nat list \<Rightarrow> nat list" where
  "sha_pad bs =
     bs @ [128] @ replicate ((119 - length bs mod 64) mod 64) 0 @ be_bytes 8 (8 * length bs)"

text \<open>The message schedule, newest word first.\<close>

fun schedule_extend :: "nat \<Rightarrow> u32 list \<Rightarrow> u32 list" where
  "schedule_extend 0 ws = ws"
| "schedule_extend (Suc n) ws =
     (let a = ws ! 14; b = ws ! 1;
          s0 = rotr32 7 a XOR rotr32 18 a XOR drop_bit 3 a;
          s1 = rotr32 17 b XOR rotr32 19 b XOR drop_bit 10 b
      in schedule_extend n ((s1 + ws ! 6 + s0 + ws ! 15) # ws))"

definition sha_schedule :: "u32 list \<Rightarrow> u32 list" where
  "sha_schedule block = rev (schedule_extend 48 (rev block))"

fun sha_round :: "u32 list \<Rightarrow> u32 \<times> u32 \<Rightarrow> u32 list" where
  "sha_round [a, b, c, d, e, f, g, h] (k, w) =
     (let s1 = rotr32 6 e XOR rotr32 11 e XOR rotr32 25 e;
          ch = (e AND f) XOR (NOT e AND g);
          t1 = h + s1 + ch + k + w;
          s0 = rotr32 2 a XOR rotr32 13 a XOR rotr32 22 a;
          maj = (a AND b) XOR (a AND c) XOR (b AND c)
      in [t1 + (s0 + maj), a, b, c, d + t1, e, f, g])"
| "sha_round s _ = s"

definition sha_block :: "u32 list \<Rightarrow> u32 list \<Rightarrow> u32 list" where
  "sha_block st block =
     map2 (+) st (foldl sha_round st (zip sha_round_constants (sha_schedule block)))"

fun sha_blocks :: "u32 list \<Rightarrow> u32 list \<Rightarrow> nat \<Rightarrow> u32 list" where
  "sha_blocks st ws 0 = st"
| "sha_blocks st ws (Suc n) = sha_blocks (sha_block st (take 16 ws)) (drop 16 ws) n"

definition sha256_words :: "nat list \<Rightarrow> u32 list" where
  "sha256_words bs =
     (let ws = words_of_bytes (sha_pad bs) in sha_blocks sha_initial ws (length ws div 16))"

definition str_bytes :: "string \<Rightarrow> nat list" where
  "str_bytes s = map ord s"

definition sha256_hex :: "string \<Rightarrow> string" where
  "sha256_hex s = concat (map (\<lambda>w. hex_field 8 (unat w)) (sha256_words (str_bytes s)))"

section \<open>HMAC\<close>

definition words_bytes :: "u32 list \<Rightarrow> nat list" where
  "words_bytes ws = concat (map (\<lambda>w. be_bytes 4 (unat w)) ws)"

definition hmac_key :: "nat list \<Rightarrow> nat list" where
  "hmac_key k =
     (let k' = (if 64 < length k then words_bytes (sha256_words k) else k)
      in k' @ replicate (64 - length k') 0)"

definition xor_byte :: "nat \<Rightarrow> nat \<Rightarrow> nat" where
  "xor_byte a b = unat ((word_of_nat a :: 8 word) XOR word_of_nat b)"

definition hmac_sha256_hex :: "string \<Rightarrow> string \<Rightarrow> string" where
  "hmac_sha256_hex key msg =
     (let k = hmac_key (str_bytes key);
          inner = words_bytes (sha256_words (map (xor_byte 54) k @ str_bytes msg))
      in concat (map (\<lambda>w. hex_field 8 (unat w))
           (sha256_words (map (xor_byte 92) k @ inner))))"

section \<open>Shape of a digest\<close>

lemma length_sha_round [simp]: "length st = 8 \<Longrightarrow> length (sha_round st kw) = 8"
  by (induction st kw rule: sha_round.induct) (auto simp: Let_def)

lemma length_foldl_sha_round: "length st = 8 \<Longrightarrow> length (foldl sha_round st xs) = 8"
  by (induction xs arbitrary: st) auto

lemma length_sha_blocks: "length st = 8 \<Longrightarrow> length (sha_blocks st ws n) = 8"
  by (induction n arbitrary: st ws) (auto simp: sha_block_def length_foldl_sha_round)

lemma length_sha256_words [simp]: "length (sha256_words bs) = 8"
  by (simp add: sha256_words_def Let_def length_sha_blocks sha_initial_def)

lemma length_concat_fields: "length (concat (map (\<lambda>w. hex_field 8 (f w)) ws)) = 8 * length ws"
  by (induction ws) auto

lemma length_sha256_hex [simp]: "length (sha256_hex s) = 64"
  by (simp add: sha256_hex_def length_concat_fields)

lemma length_hmac_sha256_hex [simp]: "length (hmac_sha256_hex k m) = 64"
  by (simp add: hmac_sha256_hex_def Let_def length_concat_fields)

end
