(* ===== verification/DetectorPolicy.thy ===== *)
theory DetectorPolicy
  imports DetectorRegistry PyHash
begin

text \<open>
  \<open>src/astp/detector_policy.py\<close> and \<open>src/astp/detector_run_permit.py\<close>: the gate that decides
  whether a detector may run on a target, and the signed permit that bounds one run. The
  signature covers pydantic's compact JSON of the payload, fields in declaration order.
\<close>

section \<open>The policy gate\<close>

datatype mention = M_EXPLICITLY_ALLOWED | M_EXPLICITLY_DENIED | M_NOT_MENTIONED | M_REQUIRES_CONTEXT

datatype decision_code =
    D_ALLOWED | D_EXPLICITLY_DENIED | D_BLOCKED_SCOPE | D_BLOCKED_SEMANTIC_EXCLUSION
  | D_BLOCKED_OPERATIONAL | D_BLOCKED_PREREQUISITE | D_BLOCKED_BUDGET | D_BLOCKED_RUNTIME
  | D_REQUIRES_REVIEW

fun mention_value :: "mention \<Rightarrow> string" where
  "mention_value M_EXPLICITLY_ALLOWED = ''explicitly_allowed''"
| "mention_value M_EXPLICITLY_DENIED = ''explicitly_denied''"
| "mention_value M_NOT_MENTIONED = ''not_mentioned''"
| "mention_value M_REQUIRES_CONTEXT = ''requires_context''"

record policy_context =
  dx_disposition :: mention
  dx_denials :: "string list"
  dx_target_in_scope :: bool
  dx_semantic_review :: bool
  dx_operational :: bool
  dx_identities :: int
  dx_oast :: bool
  dx_browser :: bool
  dx_remaining_requests :: int
  dx_provenance :: "string list"

record policy_decision =
  dd_detector_id :: string
  dd_code :: decision_code
  dd_allowed :: bool
  dd_reason :: string
  dd_evidence :: "string list"
  dd_provenance :: "string list"

definition policy_result ::
  "capability \<Rightarrow> policy_context \<Rightarrow> decision_code \<Rightarrow> string \<Rightarrow> policy_decision" where
  "policy_result c x code reason =
     \<lparr>dd_detector_id = cap_detector_id c, dd_code = code, dd_allowed = (code = D_ALLOWED),
      dd_reason = reason, dd_evidence = dx_denials x, dd_provenance = dx_provenance x\<rparr>"

definition decide_detector :: "capability \<Rightarrow> policy_context \<Rightarrow> policy_decision" where
  "decide_detector c x =
     (if dx_disposition x = M_EXPLICITLY_DENIED \<or> dx_denials x \<noteq> [] then
        policy_result c x D_EXPLICITLY_DENIED
          ''an explicit tool/technique or applicable general prohibition blocks execution''
      else if \<not> dx_target_in_scope x then
        policy_result c x D_BLOCKED_SCOPE ''target is not unambiguously in scope''
      else if \<not> dx_semantic_review x then
        policy_result c x D_BLOCKED_SEMANTIC_EXCLUSION
          ''target-bound semantic exclusion review is incomplete''
      else if \<not> dx_operational x then
        policy_result c x D_BLOCKED_OPERATIONAL ''program operational gate failed''
      else if cap_runtime_state c \<noteq> R_QUALIFIED \<or> \<not> cap_field_ready c then
        policy_result c x D_BLOCKED_RUNTIME ''runtime is unavailable, unqualified, or not field-ready''
      else if dx_identities x < cap_identities_required c then
        policy_result c x D_BLOCKED_PREREQUISITE ''required identities are unavailable''
      else if cap_oast_required c \<and> \<not> dx_oast x then
        policy_result c x D_BLOCKED_PREREQUISITE ''OAST provider is unavailable''
      else if cap_browser_required c \<and> \<not> dx_browser x then
        policy_result c x D_BLOCKED_PREREQUISITE ''qualified browser runtime is unavailable''
      else if dx_remaining_requests x \<le> 0 then
        policy_result c x D_BLOCKED_BUDGET ''no request budget remains''
      else if dx_disposition x = M_REQUIRES_CONTEXT then
        policy_result c x D_REQUIRES_REVIEW ''policy requires additional factual context''
      else
        policy_result c x D_ALLOWED
          ''no applicable explicit prohibition; all scope, operational, prerequisite, runtime, and budget gates passed'')"

text \<open>\<open>model_dump_json()\<close> of the context.\<close>

definition context_json :: "policy_context \<Rightarrow> json" where
  "context_json x = JObj
     [(''disposition'', JStr (mention_value (dx_disposition x))),
      (''applicable_general_denials'', json_strs (dx_denials x)),
      (''target_in_scope'', JBool (dx_target_in_scope x)),
      (''semantic_review_complete'', JBool (dx_semantic_review x)),
      (''operational'', JBool (dx_operational x)), (''available_identities'', json_int (dx_identities x)),
      (''oast_available'', JBool (dx_oast x)), (''browser_available'', JBool (dx_browser x)),
      (''remaining_requests'', json_int (dx_remaining_requests x)),
      (''provenance'', json_strs (dx_provenance x))]"

section \<open>Detector-run permits\<close>

record run_permit_payload =
  rp_permit_id :: string
  rp_campaign_id :: string
  rp_program_id :: string
  rp_program_revision :: string
  rp_detector_id :: string
  rp_operation :: string
  rp_allowed_origin :: string
  rp_allowed_path_prefix :: string
  rp_allowed_methods :: "string list"
  rp_max_requests :: int
  rp_max_concurrency :: int
  rp_max_rps :: rat
  rp_issued_at :: datetime
  rp_expires_at :: datetime
  rp_policy_digest :: string
  rp_semantic_digest :: string
  rp_action_id :: string
  rp_detector_run_id :: string

record signed_run_permit =
  sr_key_id :: string
  sr_payload :: run_permit_payload
  sr_signature :: string

definition mk_run_permit_payload :: "run_permit_payload \<Rightarrow> run_permit_payload result" where
  "mk_run_permit_payload p =
     rbind (require (1 \<le> rp_max_requests p \<and> rp_max_requests p \<le> 10000)
              [Txt ''max_requests out of range'']) (\<lambda>_.
     rbind (require (1 \<le> rp_max_concurrency p \<and> rp_max_concurrency p \<le> 16)
              [Txt ''max_concurrency out of range'']) (\<lambda>_.
     rbind (require (0 < rp_max_rps p \<and> rp_max_rps p \<le> 100) [Txt ''max_rps out of range'']) (\<lambda>_.
       Inr p)))"

definition run_payload_json :: "run_permit_payload \<Rightarrow> json" where
  "run_payload_json p = JObj
     [(''permit_id'', JStr (rp_permit_id p)), (''campaign_id'', JStr (rp_campaign_id p)),
      (''program_id'', JStr (rp_program_id p)), (''program_revision'', JStr (rp_program_revision p)),
      (''detector_id'', JStr (rp_detector_id p)), (''operation'', JStr (rp_operation p)),
      (''allowed_origin'', JStr (rp_allowed_origin p)),
      (''allowed_path_prefix'', JStr (rp_allowed_path_prefix p)),
      (''allowed_methods'', json_strs (rp_allowed_methods p)),
      (''max_requests'', json_int (rp_max_requests p)),
      (''max_concurrency'', json_int (rp_max_concurrency p)), (''max_rps'', json_float (rp_max_rps p)),
      (''issued_at'', JStr (json_datetime (rp_issued_at p))),
      (''expires_at'', JStr (json_datetime (rp_expires_at p))),
      (''policy_digest'', JStr (rp_policy_digest p)),
      (''semantic_review_digest'', JStr (rp_semantic_digest p)),
      (''action_id'', JStr (rp_action_id p)), (''detector_run_id'', JStr (rp_detector_run_id p))]"

definition run_permit_mac :: "string \<Rightarrow> run_permit_payload \<Rightarrow> string" where
  "run_permit_mac key p = hmac_sha256_hex key (compact_json (run_payload_json p))"

text \<open>\<open>ttl\<close> is in microseconds.\<close>

definition issue_detector_run_permit ::
  "run_permit_payload \<Rightarrow> string \<Rightarrow> int option \<Rightarrow> signed_run_permit" where
  "issue_detector_run_permit payload key ttl =
     (let p = (case ttl of None \<Rightarrow> payload
               | Some d \<Rightarrow> payload\<lparr>rp_expires_at := dt_plus (rp_issued_at payload) d\<rparr>)
      in \<lparr>sr_key_id = ''detector-run-v1'', sr_payload = p, sr_signature = run_permit_mac key p\<rparr>)"

definition verify_run_permit ::
  "signed_run_permit \<Rightarrow> string \<Rightarrow> datetime option \<Rightarrow> datetime \<Rightarrow> signed_run_permit result" where
  "verify_run_permit sp key now clock =
     (if run_permit_mac key (sr_payload sp) \<noteq> sr_signature sp
      then value_error ''invalid detector-run permit signature''
      else
        (let current = or_else now clock
         in if dt_less current (rp_issued_at (sr_payload sp)) \<or> dt_le (rp_expires_at (sr_payload sp)) current
            then value_error ''detector-run permit is not currently valid''
            else Inr sp))"

section \<open>Lemmas of the component\<close>

lemma policy_result_allowed [simp]: "dd_allowed (policy_result c x code r) \<longleftrightarrow> code = D_ALLOWED"
  by (simp add: policy_result_def)

lemma decide_detector_allowed:
  "dd_allowed (decide_detector c x) \<longleftrightarrow>
     dx_disposition x \<notin> {M_EXPLICITLY_DENIED, M_REQUIRES_CONTEXT} \<and> dx_denials x = [] \<and>
     dx_target_in_scope x \<and> dx_semantic_review x \<and> dx_operational x \<and>
     cap_runtime_state c = R_QUALIFIED \<and> cap_field_ready c \<and>
     cap_identities_required c \<le> dx_identities x \<and>
     (cap_oast_required c \<longrightarrow> dx_oast x) \<and> (cap_browser_required c \<longrightarrow> dx_browser x) \<and>
     0 < dx_remaining_requests x"
  by (auto simp: decide_detector_def)

lemma verify_run_permit_Inr:
  "verify_run_permit sp key now clock = Inr q \<longleftrightarrow>
     q = sp \<and> sr_signature sp = run_permit_mac key (sr_payload sp) \<and>
     dt_us (rp_issued_at (sr_payload sp)) \<le> dt_us (or_else now clock) \<and>
     dt_us (or_else now clock) < dt_us (rp_expires_at (sr_payload sp))"
  by (auto simp: verify_run_permit_def Let_def time_simps)

lemma issue_run_permit_payload:
  "sr_payload (issue_detector_run_permit p key None) = p"
  "sr_signature (issue_detector_run_permit p key ttl) =
     run_permit_mac key (sr_payload (issue_detector_run_permit p key ttl))"
  by (auto simp: issue_detector_run_permit_def Let_def split: option.splits)

end
