(* ===== verification/Scheduler.thy ===== *)
theory Scheduler
  imports DetectorPolicy "HOL-Library.Product_Lexorder"
begin

text \<open>
  \<open>src/astp/orchestrator_scheduler.py\<close>: ranking of detector opportunities, their fair
  interleaving over programs, retries, idempotency keys and rate ceilings. Scores and costs
  are exact rational numbers; the jitter of a retry (\<open>random.Random(seed).random()\<close>) is the
  argument \<open>jitter\<close>, a function of the seed with values in [0, 1).
\<close>

record opportunity =
  op_program_id :: string
  op_detector_id :: string
  op_target :: string
  op_family :: vulnerability_family
  op_reason :: string
  op_signals :: "string list"
  op_expected_requests :: int
  op_cost :: rat
  op_expected_value :: rat
  op_risk_score :: rat
  op_remaining_budget :: int
  op_runtime_available :: bool
  op_decision :: policy_decision
  op_score :: rat

section \<open>Ranking\<close>

definition family_frequency :: "vulnerability_family \<Rightarrow> int" where
  "family_frequency f =
     (if f = F_IDOR then 9 else if f = F_REFLECTED_XSS then 8 else if f = F_SQL_INJECTION then 8
      else if f = F_SECRETS_EXPOSURE then 8 else if f = F_SECURITY_MISCONFIGURATION then 5 else 6)"

text \<open>To the nearest integer, ties to the even one; \<open>round(x, 3)\<close> does it with thousandths.\<close>

definition half_even :: "rat \<Rightarrow> int" where
  "half_even x =
     (let k = \<lfloor>x\<rfloor>; r = x - of_int k
      in if r < 1/2 then k else if 1/2 < r then k + 1 else if even k then k else k + 1)"

definition round3 :: "rat \<Rightarrow> rat" where
  "round3 x = of_int (half_even (1000 * x)) / 1000"

definition rank_opportunity ::
  "capability \<Rightarrow> string \<Rightarrow> string \<Rightarrow> string list \<Rightarrow> policy_decision \<Rightarrow> int \<Rightarrow> int \<Rightarrow> rat \<Rightarrow> opportunity" where
  "rank_opportunity c program_id target signals decision remaining previous_negative time_ratio =
     (let frequency = family_frequency (cap_family c);
          n = rat_of_int (int (length signals));
          confidence = min 1 (1/4 + n * (1/5));
          cost = rat_of_int (cap_max_requests c) / rat_of_int (max 1 remaining);
          score = round3 (rat_of_int frequency * confidence + min n 3 - cost * 2
                    - rat_of_int previous_negative * (3/2) + max 0 (min 1 time_ratio));
          score' = (if dd_allowed decision then score else -100)
      in \<lparr>op_program_id = program_id, op_detector_id = cap_detector_id c, op_target = target,
          op_family = cap_family c,
          op_reason = ''deterministic frequency, signal, proof proximity, request cost, and prior-negative ranking'',
          op_signals = signals, op_expected_requests = cap_max_requests c, op_cost = cost,
          op_expected_value = rat_of_int frequency, op_risk_score = 5,
          op_remaining_budget = remaining, op_runtime_available = cap_field_ready c,
          op_decision = decision, op_score = score'\<rparr>)"

definition signal_detectors :: "(string \<times> string) list" where
  "signal_detectors =
     [(''known_cve'', ''nuclei.astp-lab-cve.v1''), (''bounded_discovery'', ''ffuf.discovery-bounded.v1''),
      (''reflected_parameter'', ''dalfox.reflected-bounded.v1''),
      (''sql_parameter'', ''sqlmap.detect-bounded.v1''),
      (''dom_xss'', ''playwright.dom-navigation-field.v1''),
      (''secret_material'', ''astp.secret-exposure.v1''),
      (''object_authorization'', ''astp.idor-differential.v1''), (''ssrf_callback'', ''astp.ssrf-oast.v1'')]"

text \<open>\<open>list(dict.fromkeys(xs))\<close>: the first occurrence of each element.\<close>

definition dedup :: "'a list \<Rightarrow> 'a list" where
  "dedup xs = rev (remdups (rev xs))"

text \<open>\<open>{item.detector_id: item for item in registry}\<close>.\<close>

definition by_detector_id :: "capability list \<Rightarrow> (string \<times> capability) list" where
  "by_detector_id reg = foldl (\<lambda>d c. dict_set d (cap_detector_id c) c) [] reg"

definition opportunities_from_signals ::
  "string \<Rightarrow> string \<Rightarrow> string list \<Rightarrow> capability list \<Rightarrow> policy_context \<Rightarrow> int \<Rightarrow> opportunity list" where
  "opportunities_from_signals program_id target signals reg context remaining =
     (let by_id = by_detector_id reg;
          found = concat (map (\<lambda>s.
            case dict_get signal_detectors s of
              None \<Rightarrow> []
            | Some did \<Rightarrow>
                (case dict_get by_id did of
                   None \<Rightarrow> []
                 | Some c \<Rightarrow>
                     [rank_opportunity c program_id target [s] (decide_detector c context) remaining 0 1]))
            (dedup signals))
      in sort_key (\<lambda>o'. (- op_score o', op_detector_id o')) found)"

section \<open>Weighted round robin\<close>

type_synonym lanes = "(string \<times> opportunity list) list"

text \<open>\<open>per_program.setdefault(id, []).append(item)\<close>.\<close>

definition add_lane :: "lanes \<Rightarrow> opportunity \<Rightarrow> lanes" where
  "add_lane d o' = dict_set d (op_program_id o') (or_else (dict_get d (op_program_id o')) [] @ [o'])"

definition build_lanes :: "opportunity list \<Rightarrow> lanes" where
  "build_lanes os =
     foldl add_lane []
       (filter (\<lambda>o'. dd_allowed (op_decision o'))
          (sort_key (\<lambda>o'. (- op_score o', op_detector_id o', op_target o')) os))"

definition dict_del :: "('k \<times> 'v) list \<Rightarrow> 'k \<Rightarrow> ('k \<times> 'v) list" where
  "dict_del d k = filter (\<lambda>p. fst p \<noteq> k) d"

text \<open>One program's turn: pop the first opportunity, drop an empty lane.\<close>

definition lane_turn :: "string \<Rightarrow> lanes \<Rightarrow> opportunity list \<Rightarrow> lanes \<times> opportunity list" where
  "lane_turn p d out =
     (case dict_get d p of
        None \<Rightarrow> (d, out)
      | Some rows \<Rightarrow>
          (let out' = (if rows = [] then out else out @ [hd rows]);
               rows' = tl rows
           in (if rows' = [] then dict_del d p else dict_set d p rows', out')))"

fun lane_pass :: "int \<Rightarrow> string list \<Rightarrow> lanes \<Rightarrow> opportunity list \<Rightarrow> lanes \<times> opportunity list" where
  "lane_pass limit [] d out = (d, out)"
| "lane_pass limit (p # ps) d out =
     (case lane_turn p d out of
        (d', out') \<Rightarrow> if limit \<le> int (length out') then (d', out') else lane_pass limit ps d' out')"

text \<open>The opportunities left in the lanes, and the lanes.\<close>

definition lane_weight :: "lanes \<Rightarrow> nat" where
  "lane_weight d = (\<Sum>p \<leftarrow> d. length (snd p) + 1)"

lemma dict_del_weight: "lane_weight (dict_del d k) \<le> lane_weight d"
  by (induction d) (auto simp: lane_weight_def dict_del_def)

lemma dict_del_weight_less: "dict_get d k = Some v \<Longrightarrow> lane_weight (dict_del d k) < lane_weight d"
proof (induction d)
  case (Cons p d)
  obtain k' v' where p: "p = (k', v')" by (cases p)
  show ?case
  proof (cases "k' = k")
    case True
    have "lane_weight (dict_del d k) \<le> lane_weight d" by (rule dict_del_weight)
    with True p show ?thesis by (simp add: lane_weight_def dict_del_def)
  next
    case False
    with Cons p show ?thesis by (simp add: lane_weight_def dict_del_def)
  qed
qed simp

lemma dict_set_weight:
  "dict_get d k = Some v \<Longrightarrow> lane_weight (dict_set d k w) + length v = lane_weight d + length w"
  by (induction d) (auto simp: lane_weight_def split: if_splits)

lemma lane_turn_weight: "lane_turn p d out = (d', out') \<Longrightarrow> lane_weight d' \<le> lane_weight d"
proof -
  assume t: "lane_turn p d out = (d', out')"
  show ?thesis
  proof (cases "dict_get d p")
    case None
    with t show ?thesis by (simp add: lane_turn_def)
  next
    case (Some rows)
    show ?thesis
    proof (cases "tl rows = []")
      case True
      with t Some show ?thesis by (auto simp: lane_turn_def Let_def dict_del_weight)
    next
      case False
      have "lane_weight (dict_set d p (tl rows)) + length rows = lane_weight d + length (tl rows)"
        by (rule dict_set_weight [OF Some])
      with t Some False show ?thesis by (auto simp: lane_turn_def Let_def)
    qed
  qed
qed

lemma lane_turn_weight_less:
  assumes "lane_turn p d out = (d', out')" "dict_get d p \<noteq> None"
  shows "lane_weight d' < lane_weight d"
proof -
  from assms(2) obtain rows where Some: "dict_get d p = Some rows" by auto
  show ?thesis
  proof (cases "tl rows = []")
    case True
    with assms(1) Some dict_del_weight_less [OF Some] show ?thesis
      by (auto simp: lane_turn_def Let_def)
  next
    case False
    then have "rows \<noteq> []" by auto
    have "lane_weight (dict_set d p (tl rows)) + length rows = lane_weight d + length (tl rows)"
      by (rule dict_set_weight [OF Some])
    with assms(1) Some False \<open>rows \<noteq> []\<close> show ?thesis
      by (cases rows) (auto simp: lane_turn_def Let_def)
  qed
qed

lemma lane_pass_weight: "lane_pass limit ps d out = (d', out') \<Longrightarrow> lane_weight d' \<le> lane_weight d"
proof (induction limit ps d out rule: lane_pass.induct)
  case (2 limit p ps d out)
  obtain d1 out1 where t: "lane_turn p d out = (d1, out1)" by fastforce
  with lane_turn_weight [OF t] 2 show ?case by (fastforce split: if_splits)
qed simp

lemma lane_pass_weight_less:
  assumes "lane_pass limit (sort (map fst d)) d out = (d', out')" "d \<noteq> []"
  shows "lane_weight d' < lane_weight d"
proof -
  from assms(2) obtain p ps where ps: "sort (map fst d) = p # ps"
    by (cases "sort (map fst d)") (auto dest: arg_cong [where f = length])
  then have "p \<in> set (sort (map fst d))" by simp
  then have "dict_get d p \<noteq> None" by (simp add: dict_get_None_keys)
  obtain d1 out1 where t: "lane_turn p d out = (d1, out1)" by fastforce
  from lane_turn_weight_less [OF t \<open>dict_get d p \<noteq> None\<close>] assms(1) ps t show ?thesis
    by (auto split: if_splits dest!: lane_pass_weight)
qed

function lane_rounds :: "int \<Rightarrow> lanes \<Rightarrow> opportunity list \<Rightarrow> opportunity list" where
  "lane_rounds limit d out =
     (if d = [] \<or> limit \<le> int (length out) then out
      else (case lane_pass limit (sort (map fst d)) d out of (d', out') \<Rightarrow> lane_rounds limit d' out'))"
  by pat_completeness auto
termination
proof (relation "measure (\<lambda>(limit, d, out). lane_weight d)", goal_cases)
  case (2 limit d out)
  obtain d' out' where "lane_pass limit (sort (map fst d)) d out = (d', out')" by fastforce
  with 2 lane_pass_weight_less [OF this] show ?case by simp
qed simp

declare lane_rounds.simps [simp del]

definition weighted_round_robin :: "opportunity list \<Rightarrow> int \<Rightarrow> opportunity list" where
  "weighted_round_robin os limit = lane_rounds limit (build_lanes os) []"

section \<open>Retries, keys and rates\<close>

record retry_decision =
  rt_retry :: bool
  rt_next_at :: "datetime option"
  rt_reason :: message

definition retryable_kinds :: "string list" where
  "retryable_kinds =
     [''dns_temporary'', ''connection_reset'', ''http_transient'', ''runtime_startup'',
      ''tool_temporary'', ''rate_limited'']"

text \<open>The delay in seconds; a \<open>timedelta\<close> keeps whole microseconds.\<close>

definition retry_delay :: "(string \<Rightarrow> rat) \<Rightarrow> string \<Rightarrow> nat \<Rightarrow> rat option \<Rightarrow> rat" where
  "retry_delay jitter kind attempt after =
     (case after of
        Some s \<Rightarrow> s
      | None \<Rightarrow> rat_of_int (min 300 (2 ^ attempt)) + jitter (kind @ '':'' @ nat_str attempt))"

definition schedule_retry ::
  "(string \<Rightarrow> rat) \<Rightarrow> string \<Rightarrow> nat \<Rightarrow> datetime option \<Rightarrow> rat option \<Rightarrow> datetime \<Rightarrow> retry_decision" where
  "schedule_retry jitter kind attempt now after clock =
     (if kind \<notin> set retryable_kinds
      then \<lparr>rt_retry = False, rt_next_at = None, rt_reason = [Txt kind, Txt '' is not retryable'']\<rparr>
      else \<lparr>rt_retry = True,
            rt_next_at = Some (dt_plus (or_else now clock)
              (half_even (retry_delay jitter kind attempt after * 1000000))),
            rt_reason = [Txt ''bounded exponential backoff'']\<rparr>)"

text \<open>\<open>"|".join(f"{key}={parts[key] or ''}" for key in sorted(parts))\<close> and its digest.\<close>

definition idempotency_payload :: "(string \<times> string option) list \<Rightarrow> string" where
  "idempotency_payload parts =
     join ''|'' (map (\<lambda>p. fst p @ ''='' @ or_else (snd p) []) (sort_key fst parts))"

definition canonical_idempotency_key :: "(string \<times> string option) list \<Rightarrow> string" where
  "canonical_idempotency_key parts = sha256_hex (idempotency_payload parts)"

definition effective_rate :: "rat option list \<Rightarrow> rat result" where
  "effective_rate ceilings =
     (case concat (map (\<lambda>c. case c of None \<Rightarrow> [] | Some v \<Rightarrow> [v]) ceilings) of
        [] \<Rightarrow> value_error ''at least one conservative rate ceiling is required''
      | v # vs \<Rightarrow> Inr (foldl min v vs))"

end
