(* ===== verification/TransitionSystem.thy ===== *)
theory TransitionSystem
  imports Prelude
begin

text \<open>
  The contract of a transition table, which \<open>orchestrator_models.py\<close> uses for campaigns and
  for actions: a dictionary from a state to the states that may follow it. The locales state
  which states are final and, where the table has no cycle, a rank; their lemmas are about
  every history a table admits.
\<close>

text \<open>A list of states, each reached from the one before by the table.\<close>

fun table_path :: "('s \<Rightarrow> 's list) \<Rightarrow> 's \<Rightarrow> 's list \<Rightarrow> bool" where
  "table_path nxt s [] = True"
| "table_path nxt s (t # ts) = (t \<in> set (nxt s) \<and> table_path nxt t ts)"

definition table_reach :: "('s \<Rightarrow> 's list) \<Rightarrow> 's \<Rightarrow> 's \<Rightarrow> bool" where
  "table_reach nxt s t \<longleftrightarrow> (\<exists>ts. table_path nxt s ts \<and> t = last (s # ts))"

lemma table_path_append:
  "table_path nxt s (ts @ us) \<longleftrightarrow> table_path nxt s ts \<and> table_path nxt (last (s # ts)) us"
  by (induction ts arbitrary: s) auto

lemma table_reach_refl [simp]: "table_reach nxt s s"
  unfolding table_reach_def by (intro exI [of _ "[]"]) simp

lemma table_reach_step: "table_reach nxt s t \<Longrightarrow> u \<in> set (nxt t) \<Longrightarrow> table_reach nxt s u"
  unfolding table_reach_def by (metis last.simps last_snoc append_Cons snoc_eq_iff_butlast
      table_path.simps table_path_append)

lemma table_reach_trans:
  assumes "table_reach nxt s t" "table_reach nxt t u"
  shows "table_reach nxt s u"
proof -
  from assms obtain ts us where "table_path nxt s ts" "t = last (s # ts)"
    "table_path nxt t us" "u = last (t # us)" by (auto simp: table_reach_def)
  then have "table_path nxt s (ts @ us)" "u = last (s # ts @ us)"
    by (auto simp: table_path_append split: if_splits)
  then show ?thesis unfolding table_reach_def by blast
qed

locale transition_table =
  fixes nxt :: "'s \<Rightarrow> 's list"
    and final :: "'s \<Rightarrow> bool"
  assumes final_stuck: "final s \<Longrightarrow> nxt s = []"
    and stuck_final: "nxt s = [] \<Longrightarrow> final s"
begin

lemma final_path: "final s \<Longrightarrow> table_path nxt s ts \<longleftrightarrow> ts = []"
  by (cases ts) (auto simp: final_stuck)

lemma final_reach: "final s \<Longrightarrow> table_reach nxt s t \<longleftrightarrow> t = s"
  by (auto simp: table_reach_def final_path)

text \<open>A state entered only from one other state is preceded by it on every path.\<close>

lemma path_predecessor:
  assumes "\<And>s. t \<in> set (nxt s) \<Longrightarrow> s = p"
    and "table_path nxt s (us @ t # vs)"
  shows "last (s # us) = p"
  using assms by (simp add: table_path_append)

end

locale ranked_table = transition_table +
  fixes rank :: "'s \<Rightarrow> nat"
  assumes rank_less: "t \<in> set (nxt s) \<Longrightarrow> rank s < rank t"
begin

lemma path_ranks: "table_path nxt s ts \<Longrightarrow> t \<in> set ts \<Longrightarrow> rank s < rank t"
proof (induction ts arbitrary: s)
  case (Cons u us)
  from Cons.prems(1) have "u \<in> set (nxt s)" "table_path nxt u us" by simp_all
  with rank_less [of u s] Cons show ?case by fastforce
qed simp

text \<open>No state is entered twice, and the path is no longer than the ranks allow.\<close>

lemma path_distinct: "table_path nxt s ts \<Longrightarrow> distinct (s # ts)"
proof (induction ts arbitrary: s)
  case (Cons u us)
  with path_ranks [OF Cons.prems] show ?case by auto
qed simp

lemma path_bound: "table_path nxt s ts \<Longrightarrow> rank s + length ts \<le> rank (last (s # ts))"
proof (induction ts arbitrary: s)
  case (Cons u us)
  then have "rank s < rank u" "rank u + length us \<le> rank (last (u # us))"
    using rank_less by simp_all
  then show ?case by simp
qed simp

end

end
