(* ===== verification/OrchestratorModels.thy ===== *)
theory OrchestratorModels
  imports TransitionSystem PyJson
begin

text \<open>
  \<open>src/astp/orchestrator_models.py\<close>: the states of campaigns, programs and actions, the two
  transition tables and the configuration of an autonomous campaign. A \<open>timedelta\<close> is its
  number of microseconds. The transition-table locales are interpreted on both tables.
\<close>

datatype campaign_state =
    C_CREATED | C_PREFLIGHT | C_READY | C_RUNNING | C_PAUSING | C_PAUSED | C_DRAINING
  | C_COMPLETED | C_PARTIALLY_COMPLETED | C_BLOCKED | C_FAILED | C_CANCELLED

datatype program_state =
    P_DISCOVERED | P_SYNCING | P_POLICY_REVIEW | P_WAITING_OPERATIONAL | P_WAITING_PREREQUISITE
  | P_READY | P_PLANNING | P_RUNNING | P_REPLANNING | P_BLOCKED | P_EXHAUSTED | P_COMPLETED
  | P_FAILED | P_SKIPPED

datatype action_state =
    A_DISCOVERED | A_UNPLANNED | A_PLANNED | A_AUTHORIZED | A_PERMIT_ISSUED | A_STARTING
  | A_EXECUTING | A_EVIDENCE_RECORDED | A_VERIFIED | A_COMPLETED | A_BLOCKED | A_FAILED
  | A_UNKNOWN_OUTCOME | A_SUPERSEDED

datatype readiness = FULL_UNATTENDED_READY | DEGRADED_COVERAGE | READINESS_BLOCKED

fun campaign_value :: "campaign_state \<Rightarrow> string" where
  "campaign_value C_CREATED = ''created''"
| "campaign_value C_PREFLIGHT = ''preflight''"
| "campaign_value C_READY = ''ready''"
| "campaign_value C_RUNNING = ''running''"
| "campaign_value C_PAUSING = ''pausing''"
| "campaign_value C_PAUSED = ''paused''"
| "campaign_value C_DRAINING = ''draining''"
| "campaign_value C_COMPLETED = ''completed''"
| "campaign_value C_PARTIALLY_COMPLETED = ''partially_completed''"
| "campaign_value C_BLOCKED = ''blocked''"
| "campaign_value C_FAILED = ''failed''"
| "campaign_value C_CANCELLED = ''cancelled''"

fun action_value :: "action_state \<Rightarrow> string" where
  "action_value A_DISCOVERED = ''discovered''"
| "action_value A_UNPLANNED = ''unplanned''"
| "action_value A_PLANNED = ''planned''"
| "action_value A_AUTHORIZED = ''authorized''"
| "action_value A_PERMIT_ISSUED = ''permit_issued''"
| "action_value A_STARTING = ''starting''"
| "action_value A_EXECUTING = ''executing''"
| "action_value A_EVIDENCE_RECORDED = ''evidence_recorded''"
| "action_value A_VERIFIED = ''verified''"
| "action_value A_COMPLETED = ''completed''"
| "action_value A_BLOCKED = ''blocked''"
| "action_value A_FAILED = ''failed''"
| "action_value A_UNKNOWN_OUTCOME = ''unknown_outcome''"
| "action_value A_SUPERSEDED = ''superseded''"

fun readiness_value :: "readiness \<Rightarrow> string" where
  "readiness_value FULL_UNATTENDED_READY = ''full_unattended_ready''"
| "readiness_value DEGRADED_COVERAGE = ''degraded_coverage''"
| "readiness_value READINESS_BLOCKED = ''blocked''"

definition evaluate_readiness :: "bool \<Rightarrow> bool \<Rightarrow> readiness" where
  "evaluate_readiness required_blocked optional_unavailable =
     (if required_blocked then READINESS_BLOCKED
      else if optional_unavailable then DEGRADED_COVERAGE
      else FULL_UNATTENDED_READY)"

fun campaign_transitions :: "campaign_state \<Rightarrow> campaign_state list" where
  "campaign_transitions C_CREATED = [C_PREFLIGHT, C_CANCELLED]"
| "campaign_transitions C_PREFLIGHT = [C_READY, C_BLOCKED, C_FAILED]"
| "campaign_transitions C_READY = [C_RUNNING, C_CANCELLED]"
| "campaign_transitions C_RUNNING =
     [C_PAUSING, C_DRAINING, C_COMPLETED, C_PARTIALLY_COMPLETED, C_FAILED]"
| "campaign_transitions C_PAUSING = [C_PAUSED, C_FAILED]"
| "campaign_transitions C_PAUSED = [C_PREFLIGHT, C_CANCELLED]"
| "campaign_transitions C_DRAINING = [C_COMPLETED, C_PARTIALLY_COMPLETED, C_PAUSED]"
| "campaign_transitions _ = []"

fun action_transitions :: "action_state \<Rightarrow> action_state list" where
  "action_transitions A_DISCOVERED = [A_UNPLANNED, A_BLOCKED]"
| "action_transitions A_UNPLANNED = [A_PLANNED, A_BLOCKED]"
| "action_transitions A_PLANNED = [A_AUTHORIZED, A_BLOCKED, A_SUPERSEDED]"
| "action_transitions A_AUTHORIZED = [A_PERMIT_ISSUED, A_BLOCKED]"
| "action_transitions A_PERMIT_ISSUED = [A_STARTING, A_BLOCKED, A_UNKNOWN_OUTCOME]"
| "action_transitions A_STARTING = [A_EXECUTING, A_FAILED, A_UNKNOWN_OUTCOME]"
| "action_transitions A_EXECUTING = [A_EVIDENCE_RECORDED, A_FAILED, A_UNKNOWN_OUTCOME]"
| "action_transitions A_EVIDENCE_RECORDED = [A_VERIFIED, A_FAILED]"
| "action_transitions A_VERIFIED = [A_COMPLETED, A_BLOCKED]"
| "action_transitions _ = []"

definition validate_transition ::
  "('s \<Rightarrow> string) \<Rightarrow> 's \<Rightarrow> 's \<Rightarrow> ('s \<Rightarrow> 's list) \<Rightarrow> unit result" where
  "validate_transition value_of previous new table =
     require (new \<in> set (table previous))
       [Txt ''invalid state transition: '', Txt (value_of previous), Txt '' -> '', Txt (value_of new)]"

record campaign_config =
  cf_campaign_id :: string
  cf_platforms :: "string list"
  cf_selected_program_ids :: "string list"
  cf_include_all :: bool
  cf_max_duration :: int
  cf_global_action_budget :: int
  cf_global_request_budget :: int
  cf_per_program_action_budget :: int
  cf_per_program_request_budget :: int
  cf_per_detector_budget :: int
  cf_max_concurrent_programs :: int
  cf_max_concurrent_actions :: int
  cf_max_errors_global :: int
  cf_max_errors_per_program :: int
  cf_max_consecutive_failures :: int
  cf_max_rounds_per_program :: int
  cf_max_new_targets_per_round :: int
  cf_max_discovery_depth :: int
  cf_max_detector_iterations :: int
  cf_default_rate_ceiling :: rat
  cf_report_interval :: int
  cf_checkpoint_interval :: int
  cf_operational_refresh_interval :: int
  cf_program_refresh_interval :: int
  cf_runtime_health_interval :: int
  cf_stop_when_no_progress :: int
  cf_minimum_remaining :: int
  cf_dry_run :: bool
  cf_execute :: bool
  cf_resume_if_safe :: bool

text \<open>The field constraints and the validator of \<open>AutonomousCampaignConfig\<close>.\<close>

definition mk_campaign_config :: "campaign_config \<Rightarrow> campaign_config result" where
  "mk_campaign_config c =
     rbind (require
       (1 \<le> cf_global_action_budget c \<and> 1 \<le> cf_global_request_budget c \<and>
        1 \<le> cf_per_program_action_budget c \<and> 1 \<le> cf_per_program_request_budget c \<and>
        1 \<le> cf_per_detector_budget c \<and>
        1 \<le> cf_max_concurrent_programs c \<and> cf_max_concurrent_programs c \<le> 8 \<and>
        1 \<le> cf_max_concurrent_actions c \<and> cf_max_concurrent_actions c \<le> 4 \<and>
        1 \<le> cf_max_errors_global c \<and> 1 \<le> cf_max_errors_per_program c \<and>
        1 \<le> cf_max_consecutive_failures c \<and> 1 \<le> cf_max_rounds_per_program c \<and>
        1 \<le> cf_max_new_targets_per_round c \<and> 0 \<le> cf_max_discovery_depth c \<and>
        1 \<le> cf_max_detector_iterations c \<and>
        0 < cf_default_rate_ceiling c \<and> cf_default_rate_ceiling c \<le> 5 \<and>
        1 \<le> cf_stop_when_no_progress c)
       [Txt ''campaign configuration out of range'']) (\<lambda>_.
     rbind (require (cf_execute c \<noteq> cf_dry_run c)
              [Txt ''exactly one of execute or dry_run must be true'']) (\<lambda>_.
     rbind (require (cf_selected_program_ids c \<noteq> [] \<or> cf_include_all c)
              [Txt ''select programs or include all ready programs'']) (\<lambda>_. Inr c)))"

section \<open>The tables as transition systems\<close>

definition campaign_final :: "campaign_state \<Rightarrow> bool" where
  "campaign_final s \<longleftrightarrow> s \<in> {C_COMPLETED, C_PARTIALLY_COMPLETED, C_BLOCKED, C_FAILED, C_CANCELLED}"

definition action_final :: "action_state \<Rightarrow> bool" where
  "action_final s \<longleftrightarrow> s \<in> {A_COMPLETED, A_BLOCKED, A_FAILED, A_UNKNOWN_OUTCOME, A_SUPERSEDED}"

fun action_rank :: "action_state \<Rightarrow> nat" where
  "action_rank A_DISCOVERED = 0"
| "action_rank A_UNPLANNED = 1"
| "action_rank A_PLANNED = 2"
| "action_rank A_AUTHORIZED = 3"
| "action_rank A_PERMIT_ISSUED = 4"
| "action_rank A_STARTING = 5"
| "action_rank A_EXECUTING = 6"
| "action_rank A_EVIDENCE_RECORDED = 7"
| "action_rank A_VERIFIED = 8"
| "action_rank _ = 9"

interpretation campaign_table: transition_table campaign_transitions campaign_final
proof
  fix s
  show "campaign_final s \<Longrightarrow> campaign_transitions s = []" by (cases s) (simp_all add: campaign_final_def)
  show "campaign_transitions s = [] \<Longrightarrow> campaign_final s" by (cases s) (simp_all add: campaign_final_def)
qed

interpretation action_table: ranked_table action_transitions action_final action_rank
proof
  fix s t
  show "action_final s \<Longrightarrow> action_transitions s = []" by (cases s) (simp_all add: action_final_def)
  show "action_transitions s = [] \<Longrightarrow> action_final s" by (cases s) (simp_all add: action_final_def)
  show "t \<in> set (action_transitions s) \<Longrightarrow> action_rank s < action_rank t" by (cases s) auto
qed

lemma running_only_from_ready: "C_RUNNING \<in> set (campaign_transitions s) \<Longrightarrow> s = C_READY"
  by (cases s) auto

lemma ready_only_from_preflight: "C_READY \<in> set (campaign_transitions s) \<Longrightarrow> s = C_PREFLIGHT"
  by (cases s) auto

lemma executing_only_from_starting: "A_EXECUTING \<in> set (action_transitions s) \<Longrightarrow> s = A_STARTING"
  by (cases s) auto

lemma starting_only_from_permit: "A_STARTING \<in> set (action_transitions s) \<Longrightarrow> s = A_PERMIT_ISSUED"
  by (cases s) auto

lemma permit_only_from_authorized: "A_PERMIT_ISSUED \<in> set (action_transitions s) \<Longrightarrow> s = A_AUTHORIZED"
  by (cases s) auto

lemma action_rank_le: "action_rank s \<le> 9"
  by (cases s) simp_all

end
