(* ===== verification/Files.thy ===== *)
theory Files
  imports Prelude
begin

text \<open>
  Files as the program reads them. A JSON document is missing, holds text its loader
  rejects (with the error the loader raises), or holds a value; a JSON-lines journal is
  missing or a list of lines, each blank, rejected by the record model, or a record.
  Writing through a temporary file and \<open>os.replace\<close> is one update of the document.
\<close>

datatype 'a json_file = Missing | Broken message | Parsed 'a

datatype 'r log_line = Blank | Malformed message | Line 'r

type_synonym 'r log_file = "'r log_line list option"

text \<open>\<open>if not path.exists(): return default; return model_validate(json.loads(...))\<close>.\<close>

fun load_or :: "'a \<Rightarrow> 'a json_file \<Rightarrow> 'a result" where
  "load_or d Missing = Inr d"
| "load_or d (Broken m) = Inl (ValueError m)"
| "load_or d (Parsed x) = Inr x"

text \<open>The non-blank lines and the records of a journal without malformed lines.\<close>

fun log_lines :: "'r log_file \<Rightarrow> 'r log_line list" where
  "log_lines None = []"
| "log_lines (Some ls) = filter (\<lambda>l. l \<noteq> Blank) ls"

fun append_line :: "'r log_file \<Rightarrow> 'r \<Rightarrow> 'r log_file" where
  "append_line None r = Some [Line r]"
| "append_line (Some ls) r = Some (ls @ [Line r])"

lemma log_lines_append [simp]: "log_lines (append_line f r) = log_lines f @ [Line r]"
  by (cases f) simp_all

text \<open>
  \<open>enumerate(text.splitlines(), start=1)\<close>: blank lines are skipped, a rejected line raises
  the reader's error for its number.
\<close>

fun read_log :: "(int \<Rightarrow> message) \<Rightarrow> int \<Rightarrow> 'r log_line list \<Rightarrow> 'r list result" where
  "read_log err n [] = Inr []"
| "read_log err n (Blank # ls) = read_log err (n + 1) ls"
| "read_log err n (Malformed m # ls) = Inl (ValueError (err n))"
| "read_log err n (Line r # ls) = rbind (read_log err (n + 1) ls) (\<lambda>rs. Inr (r # rs))"

fun read_log_file :: "(int \<Rightarrow> message) \<Rightarrow> 'r log_file \<Rightarrow> 'r list result" where
  "read_log_file err None = Inr []"
| "read_log_file err (Some ls) = read_log err 1 ls"

lemma read_log_append:
  "read_log err n ls = Inr rs \<Longrightarrow> read_log err n (ls @ [Line r]) = Inr (rs @ [r])"
  by (induction err n ls arbitrary: rs rule: read_log.induct) (auto simp: result_simps)

lemma read_log_file_append:
  "read_log_file err f = Inr rs \<Longrightarrow> read_log_file err (append_line f r) = Inr (rs @ [r])"
  by (cases f) (auto simp: read_log_append)

lemma read_log_lines:
  "read_log err n ls = Inr rs \<Longrightarrow> filter (\<lambda>l. l \<noteq> Blank) ls = map Line rs"
  by (induction err n ls arbitrary: rs rule: read_log.induct) (auto simp: result_simps)

lemma read_log_file_lines: "read_log_file err f = Inr rs \<Longrightarrow> log_lines f = map Line rs"
  by (cases f) (auto simp: read_log_lines)

text \<open>A stateful operation that ended with a value or an error, and the state it left.\<close>

type_synonym ('s, 'a) outcome = "'a result \<times> 's"

fun obind :: "('s, 'a) outcome \<Rightarrow> ('a \<Rightarrow> 's \<Rightarrow> ('s, 'b) outcome) \<Rightarrow> ('s, 'b) outcome" where
  "obind (Inl e, s) f = (Inl e, s)"
| "obind (Inr x, s) f = f x s"

lemma obind_Inr_iff [result_simps]:
  "obind r f = (Inr y, s') \<longleftrightarrow> (\<exists>x s. r = (Inr x, s) \<and> f x s = (Inr y, s'))"
  by (cases r; cases "fst r") auto

lemma obind_cong [fundef_cong]:
  "r = r' \<Longrightarrow> (\<And>x s. r' = (Inr x, s) \<Longrightarrow> f x s = f' x s) \<Longrightarrow> obind r f = obind r' f'"
  by (cases r'; cases "fst r'") auto

text \<open>A fallible computation that does not touch the state.\<close>

definition olift :: "'a result \<Rightarrow> 's \<Rightarrow> ('s, 'a) outcome" where
  "olift r s = (r, s)"

lemma olift_simps [simp]: "olift r s = (r, s)"
  by (simp add: olift_def)

end
