(* ===== verification/OrchestratorStore.thy ===== *)
theory OrchestratorStore
  imports OrchestratorModels Files
begin

text \<open>
  \<open>src/astp/orchestrator_store.py\<close>: the campaign database. Tables are dictionaries on their
  primary keys (events and checkpoints are lists, their ids the positions); a TEXT column
  that holds an enum value is kept as the enum. Each \<open>with self.connect()\<close> block is one
  transaction; a method made of several leaves the earlier ones committed when a later one
  raises, and the model returns that state with the error.
\<close>

record campaign_row =
  cw_state :: campaign_state
  cw_config :: campaign_config
  cw_created_at :: string
  cw_updated_at :: string

record action_row =
  aw_campaign_id :: string
  aw_program_id :: string
  aw_state :: action_state
  aw_idempotency_key :: string
  aw_permit_id :: "string option"
  aw_evidence_id :: "string option"
  aw_retry_count :: int
  aw_next_retry_at :: "string option"

record orch_event =
  oe_campaign_id :: string
  oe_event :: string
  oe_payload :: string
  oe_created_at :: string

record checkpoint_row =
  cp_campaign_id :: string
  cp_reason :: string
  cp_created_at :: string

type_synonym counters = "string \<Rightarrow> int"

record orch_db =
  od_campaigns :: "(string \<times> campaign_row) list"
  od_programs :: "((string \<times> string) \<times> program_state) list"
  od_actions :: "(string \<times> action_row) list"
  od_events :: "orch_event list"
  od_counters :: "(string \<times> counters) list"
  od_checkpoints :: "checkpoint_row list"

definition empty_db :: orch_db where
  "empty_db = \<lparr>od_campaigns = [], od_programs = [], od_actions = [], od_events = [], od_counters = [],
               od_checkpoints = []\<rparr>"

definition accounting_fields :: "string list" where
  "accounting_fields =
     [''permits_issued'', ''permits_consumed'', ''network_actions'', ''requests'', ''failed_before_io'',
      ''unknown_outcomes'', ''evidence'', ''findings'', ''detector_runs_started'',
      ''detector_runs_completed'', ''requests_attempted'', ''requests_forwarded'',
      ''responses_received'', ''requests_blocked_before_io'', ''requests_failed_after_io'',
      ''permits_expired'', ''permits_revoked'']"

text \<open>\<open>json.dumps(payload, sort_keys=True, default=str)\<close>.\<close>

definition spaced_json :: "json \<Rightarrow> string" where
  "spaced_json j = render '', '' '': '' (sort_keys j)"

definition secret_terms :: "string list" where
  "secret_terms = [quote_str ''authorization'', quote_str ''cookie'', quote_str ''password'']"

definition store_event ::
  "orch_db \<Rightarrow> string \<Rightarrow> string \<Rightarrow> json \<Rightarrow> datetime \<Rightarrow> (orch_db, unit) outcome" where
  "store_event db cid name payload now =
     (let safe = spaced_json payload
      in if \<exists>t \<in> set secret_terms. contains t (str_lower safe)
         then (value_error ''secret-like event fields are prohibited'', db)
         else (Inr (), db\<lparr>od_events := od_events db @
                 [\<lparr>oe_campaign_id = cid, oe_event = name, oe_payload = safe,
                   oe_created_at = isoformat now\<rparr>]\<rparr>))"

definition create_campaign :: "orch_db \<Rightarrow> campaign_config \<Rightarrow> datetime \<Rightarrow> (orch_db, unit) outcome" where
  "create_campaign db config now =
     (let cid = cf_campaign_id config
      in if dict_get (od_campaigns db) cid \<noteq> None \<or> dict_get (od_counters db) cid \<noteq> None
         then (Inl IntegrityError, db)
         else store_event
                (db\<lparr>od_campaigns := dict_set (od_campaigns db) cid
                       \<lparr>cw_state = C_CREATED, cw_config = config, cw_created_at = isoformat now,
                        cw_updated_at = isoformat now\<rparr>,
                    od_counters := dict_set (od_counters db) cid (\<lambda>_. 0)\<rparr>)
                cid ''campaign.created'' (JObj [(''dry_run'', JBool (cf_dry_run config))]) now)"

definition campaign_state_of :: "orch_db \<Rightarrow> string \<Rightarrow> campaign_state result" where
  "campaign_state_of db cid =
     (case dict_get (od_campaigns db) cid of
        None \<Rightarrow> value_error ''unknown campaign''
      | Some row \<Rightarrow> Inr (cw_state row))"

record state_transition =
  tn_entity_type :: string
  tn_entity_id :: string
  tn_previous :: campaign_state
  tn_state :: campaign_state
  tn_timestamp :: datetime
  tn_reason :: string
  tn_actor :: string

definition transition_json :: "state_transition \<Rightarrow> json" where
  "transition_json t = JObj
     [(''entity_type'', JStr (tn_entity_type t)), (''entity_id'', JStr (tn_entity_id t)),
      (''previous_state'', JStr (campaign_value (tn_previous t))),
      (''state'', JStr (campaign_value (tn_state t))),
      (''timestamp'', JStr (json_datetime (tn_timestamp t))), (''reason'', JStr (tn_reason t)),
      (''actor'', JStr (tn_actor t)), (''related_action_id'', JNull), (''permit_id'', JNull),
      (''evidence_id'', JNull)]"

definition set_campaign_state :: "orch_db \<Rightarrow> string \<Rightarrow> campaign_state \<Rightarrow> datetime \<Rightarrow> orch_db" where
  "set_campaign_state db cid s now =
     (case dict_get (od_campaigns db) cid of
        None \<Rightarrow> db
      | Some row \<Rightarrow>
          db\<lparr>od_campaigns := dict_set (od_campaigns db) cid
               (row\<lparr>cw_state := s, cw_updated_at := isoformat now\<rparr>)\<rparr>)"

definition transition_campaign ::
  "orch_db \<Rightarrow> string \<Rightarrow> campaign_state \<Rightarrow> string \<Rightarrow> string \<Rightarrow> datetime \<Rightarrow> (orch_db, state_transition) outcome" where
  "transition_campaign db cid s reason actor now =
     obind (olift (campaign_state_of db cid) db) (\<lambda>previous db.
     obind (olift (validate_transition campaign_value previous s campaign_transitions) db) (\<lambda>_ db.
     let t = \<lparr>tn_entity_type = ''campaign'', tn_entity_id = cid, tn_previous = previous, tn_state = s,
              tn_timestamp = now, tn_reason = reason, tn_actor = actor\<rparr>
     in obind (store_event (set_campaign_state db cid s now) cid ''campaign.state'' (transition_json t) now)
          (\<lambda>_ db. (Inr t, db))))"

definition create_action ::
  "orch_db \<Rightarrow> string \<Rightarrow> string \<Rightarrow> string \<Rightarrow> string \<Rightarrow> bool \<times> orch_db" where
  "create_action db aid cid pid key =
     (if dict_get (od_actions db) aid \<noteq> None \<or>
         (\<exists>row \<in> snd ` set (od_actions db). aw_idempotency_key row = key)
      then (False, db)
      else (True, db\<lparr>od_actions := dict_set (od_actions db) aid
              \<lparr>aw_campaign_id = cid, aw_program_id = pid, aw_state = A_DISCOVERED,
               aw_idempotency_key = key, aw_permit_id = None, aw_evidence_id = None,
               aw_retry_count = 0, aw_next_retry_at = None\<rparr>\<rparr>))"

definition action_state_of :: "orch_db \<Rightarrow> string \<Rightarrow> action_state result" where
  "action_state_of db aid =
     (case dict_get (od_actions db) aid of
        None \<Rightarrow> value_error ''unknown action''
      | Some row \<Rightarrow> Inr (aw_state row))"

text \<open>\<open>COALESCE(?, column)\<close>.\<close>

definition coalesce :: "'a option \<Rightarrow> 'a option \<Rightarrow> 'a option" where
  "coalesce new old = (case new of None \<Rightarrow> old | Some x \<Rightarrow> Some x)"

definition set_action_state ::
  "orch_db \<Rightarrow> string \<Rightarrow> action_row \<Rightarrow> action_state \<Rightarrow> string option \<Rightarrow> string option \<Rightarrow> orch_db" where
  "set_action_state db aid row s permit_id evidence_id =
     db\<lparr>od_actions := dict_set (od_actions db) aid
          (row\<lparr>aw_state := s, aw_permit_id := coalesce permit_id (aw_permit_id row),
               aw_evidence_id := coalesce evidence_id (aw_evidence_id row)\<rparr>)\<rparr>"

definition transition_action ::
  "orch_db \<Rightarrow> string \<Rightarrow> action_state \<Rightarrow> string option \<Rightarrow> string option \<Rightarrow> datetime \<Rightarrow> (orch_db, unit) outcome" where
  "transition_action db aid s permit_id evidence_id now =
     (case dict_get (od_actions db) aid of
        None \<Rightarrow> (value_error ''unknown action'', db)
      | Some row \<Rightarrow>
          obind (olift (validate_transition action_value (aw_state row) s action_transitions) db) (\<lambda>_ db.
            store_event (set_action_state db aid row s permit_id evidence_id)
              (aw_campaign_id row) ''action.state''
              (JObj [(''action_id'', JStr aid), (''previous'', JStr (action_value (aw_state row))),
                     (''state'', JStr (action_value s))]) now))"

text \<open>\<open>UPDATE counters ... WHERE campaign_id = ?\<close>: no effect on an unknown campaign.\<close>

definition update_counters :: "orch_db \<Rightarrow> string \<Rightarrow> (counters \<Rightarrow> counters) \<Rightarrow> orch_db" where
  "update_counters db cid f =
     (case dict_get (od_counters db) cid of
        None \<Rightarrow> db
      | Some c \<Rightarrow> db\<lparr>od_counters := dict_set (od_counters db) cid (f c)\<rparr>)"

definition add_to :: "string \<Rightarrow> int \<Rightarrow> counters \<Rightarrow> counters" where
  "add_to field n c = c(field := c field + n)"

definition increment :: "orch_db \<Rightarrow> string \<Rightarrow> string \<Rightarrow> int \<Rightarrow> (orch_db, unit) outcome" where
  "increment db cid field amount =
     (if field \<notin> set accounting_fields then (value_error ''unknown accounting field'', db)
      else (Inr (), update_counters db cid (add_to field amount)))"

record accounting =
  acc_attempted :: int
  acc_forwarded :: int
  acc_responses :: int
  acc_blocked :: int
  acc_failed :: int
  acc_unknown :: int

definition accounting_ok :: "accounting \<Rightarrow> bool" where
  "accounting_ok a \<longleftrightarrow>
     acc_attempted a = acc_forwarded a + acc_blocked a \<and>
     acc_forwarded a = acc_responses a + acc_failed a + acc_unknown a"

definition accounting_json :: "accounting \<Rightarrow> int \<Rightarrow> json" where
  "accounting_json a budget = JObj
     [(''requests_attempted'', json_int (acc_attempted a)), (''requests_forwarded'', json_int (acc_forwarded a)),
      (''responses_received'', json_int (acc_responses a)),
      (''requests_blocked_before_io'', json_int (acc_blocked a)),
      (''requests_failed_after_io'', json_int (acc_failed a)),
      (''unknown_outcomes'', json_int (acc_unknown a)), (''authorized_budget'', json_int budget)]"

definition add_accounting :: "accounting \<Rightarrow> counters \<Rightarrow> counters" where
  "add_accounting a c =
     add_to ''requests'' (acc_forwarded a)
      (add_to ''unknown_outcomes'' (acc_unknown a)
      (add_to ''requests_failed_after_io'' (acc_failed a)
      (add_to ''requests_blocked_before_io'' (acc_blocked a)
      (add_to ''responses_received'' (acc_responses a)
      (add_to ''requests_forwarded'' (acc_forwarded a)
      (add_to ''requests_attempted'' (acc_attempted a)
      (add_to ''detector_runs_completed'' 1 c)))))))"

definition reconcile_detector_run ::
  "orch_db \<Rightarrow> string \<Rightarrow> accounting \<Rightarrow> int \<Rightarrow> datetime \<Rightarrow> (orch_db, unit) outcome" where
  "reconcile_detector_run db cid a budget now =
     (if budget < acc_forwarded a
      then (value_error ''forwarded requests exceed detector-run authorization'', db)
      else if \<not> accounting_ok a
      then (value_error ''detector-run request accounting invariant failed'', db)
      else store_event (update_counters db cid (add_accounting a)) cid
             ''detector_run.accounting_reconciled'' (accounting_json a budget) now)"

definition store_checkpoint :: "orch_db \<Rightarrow> string \<Rightarrow> string \<Rightarrow> datetime \<Rightarrow> (orch_db, unit) outcome" where
  "store_checkpoint db cid reason now =
     store_event (db\<lparr>od_checkpoints := od_checkpoints db @
         [\<lparr>cp_campaign_id = cid, cp_reason = reason, cp_created_at = isoformat now\<rparr>]\<rparr>)
       cid ''checkpoint.saved'' (JObj [(''reason'', JStr reason)]) now"

record snapshot =
  ss_campaign :: "string \<times> campaign_row"
  ss_counters :: counters
  ss_programs :: "((string \<times> string) \<times> program_state) list"
  ss_actions :: "(string \<times> action_row) list"

definition store_snapshot :: "orch_db \<Rightarrow> string \<Rightarrow> snapshot result" where
  "store_snapshot db cid =
     (case dict_get (od_campaigns db) cid of
        None \<Rightarrow> Inl (TypeError [Txt ''NoneType is not iterable''])
      | Some row \<Rightarrow>
          (case dict_get (od_counters db) cid of
             None \<Rightarrow> Inl (TypeError [Txt ''NoneType is not iterable''])
           | Some c \<Rightarrow>
               Inr \<lparr>ss_campaign = (cid, row), ss_counters = c,
                    ss_programs = filter (\<lambda>p. fst (fst p) = cid) (od_programs db),
                    ss_actions = filter (\<lambda>a. aw_campaign_id (snd a) = cid) (od_actions db)\<rparr>))"

section \<open>Sequences of store operations\<close>

text \<open>The mutating methods; a caller may go on after an error.\<close>

datatype store_op =
    CreateCampaign campaign_config
  | TransitionCampaign string campaign_state string string
  | CreateAction string string string string
  | TransitionAction string action_state "string option" "string option"
  | Increment string string int
  | Reconcile string accounting int
  | Event string string json
  | Checkpoint string string

fun store_step :: "store_op \<Rightarrow> datetime \<Rightarrow> orch_db \<Rightarrow> orch_db" where
  "store_step (CreateCampaign c) now db = snd (create_campaign db c now)"
| "store_step (TransitionCampaign cid s r a) now db = snd (transition_campaign db cid s r a now)"
| "store_step (CreateAction aid cid pid key) now db = snd (create_action db aid cid pid key)"
| "store_step (TransitionAction aid s p e) now db = snd (transition_action db aid s p e now)"
| "store_step (Increment cid f n) now db = snd (increment db cid f n)"
| "store_step (Reconcile cid a b) now db = snd (reconcile_detector_run db cid a b now)"
| "store_step (Event cid n p) now db = snd (store_event db cid n p now)"
| "store_step (Checkpoint cid r) now db = snd (store_checkpoint db cid r now)"

fun store_run :: "(store_op \<times> datetime) list \<Rightarrow> orch_db \<Rightarrow> orch_db" where
  "store_run [] db = db"
| "store_run ((op, now) # ops) db = store_run ops (store_step op now db)"

section \<open>Lemmas of the store\<close>

lemma store_event_frame:
  "store_event db cid n p now = (r, db') \<Longrightarrow>
   od_campaigns db' = od_campaigns db \<and> od_actions db' = od_actions db \<and>
   od_counters db' = od_counters db \<and> (\<exists>es. od_events db' = od_events db @ es)"
  by (auto simp: store_event_def Let_def split: if_splits)

lemma store_event_snd [simp]:
  "od_campaigns (snd (store_event db cid n p now)) = od_campaigns db"
  "od_actions (snd (store_event db cid n p now)) = od_actions db"
  "od_counters (snd (store_event db cid n p now)) = od_counters db"
  by (simp_all add: store_event_def Let_def)

lemma store_event_events: "\<exists>es. od_events (snd (store_event db cid n p now)) = od_events db @ es"
  by (simp add: store_event_def Let_def)

lemma set_campaign_state_frame [simp]:
  "od_actions (set_campaign_state db cid s now) = od_actions db"
  "od_counters (set_campaign_state db cid s now) = od_counters db"
  "od_events (set_campaign_state db cid s now) = od_events db"
  by (auto simp: set_campaign_state_def split: option.splits)

lemma update_counters_frame [simp]:
  "od_campaigns (update_counters db cid f) = od_campaigns db"
  "od_actions (update_counters db cid f) = od_actions db"
  "od_events (update_counters db cid f) = od_events db"
  by (auto simp: update_counters_def split: option.splits)

lemma obind_pair_snd: "snd (obind r (\<lambda>_ db. (Inr t, db))) = snd r"
  by (cases r; cases "fst r") auto

text \<open>The database after a transition of a campaign or an action.\<close>

lemma transition_campaign_db:
  "snd (transition_campaign db cid s reason actor now) =
     (case dict_get (od_campaigns db) cid of
        None \<Rightarrow> db
      | Some row \<Rightarrow>
          if s \<in> set (campaign_transitions (cw_state row))
          then snd (store_event (set_campaign_state db cid s now) cid ''campaign.state''
                 (transition_json \<lparr>tn_entity_type = ''campaign'', tn_entity_id = cid,
                    tn_previous = cw_state row, tn_state = s, tn_timestamp = now,
                    tn_reason = reason, tn_actor = actor\<rparr>) now)
          else db)"
  by (auto simp: transition_campaign_def campaign_state_of_def validate_transition_def require_def
      Let_def obind_pair_snd split: option.splits)

lemma transition_action_db:
  "od_actions (snd (transition_action db aid s p e now)) =
     (case dict_get (od_actions db) aid of
        None \<Rightarrow> od_actions db
      | Some row \<Rightarrow>
          if s \<in> set (action_transitions (aw_state row))
          then od_actions (set_action_state db aid row s p e) else od_actions db)"
  by (auto simp: transition_action_def validate_transition_def require_def split: option.splits)

lemma transition_action_frame [simp]:
  "od_campaigns (snd (transition_action db aid s p e now)) = od_campaigns db"
  "od_counters (snd (transition_action db aid s p e now)) = od_counters db"
  by (auto simp: transition_action_def validate_transition_def require_def set_action_state_def
      split: option.splits)

text \<open>What one operation does to an existing action and to an existing campaign.\<close>

lemma store_step_action:
  assumes "dict_get (od_actions db) aid = Some row"
  shows "\<exists>row'. dict_get (od_actions (store_step op now db)) aid = Some row' \<and>
    (aw_state row' = aw_state row \<or> aw_state row' \<in> set (action_transitions (aw_state row))) \<and>
    aw_idempotency_key row' = aw_idempotency_key row \<and> aw_campaign_id row' = aw_campaign_id row"
proof (cases op)
  case (TransitionAction a s p e)
  with assms show ?thesis
    by (cases "a = aid") (auto simp: transition_action_db set_action_state_def split: option.splits)
next
  case (TransitionCampaign c s r a)
  with assms show ?thesis by (auto simp: transition_campaign_db split: option.splits)
next
  case (CreateAction a c p k)
  with assms show ?thesis by (auto simp: create_action_def)
qed (use assms in \<open>auto simp: create_campaign_def increment_def reconcile_detector_run_def
  store_checkpoint_def Let_def\<close>)

lemma store_step_campaign:
  assumes "dict_get (od_campaigns db) cid = Some row"
  shows "\<exists>row'. dict_get (od_campaigns (store_step op now db)) cid = Some row' \<and>
    (cw_state row' = cw_state row \<or> cw_state row' \<in> set (campaign_transitions (cw_state row))) \<and>
    cw_config row' = cw_config row"
proof (cases op)
  case (TransitionCampaign c s r a)
  with assms show ?thesis
    by (cases "c = cid") (auto simp: transition_campaign_db set_campaign_state_def split: option.splits)
next
  case (CreateCampaign c)
  with assms show ?thesis by (auto simp: create_campaign_def Let_def)
next
  case (CreateAction a c p k)
  with assms show ?thesis by (auto simp: create_action_def)
qed (use assms in \<open>auto simp: increment_def reconcile_detector_run_def store_checkpoint_def Let_def\<close>)

lemma store_run_action:
  "dict_get (od_actions db) aid = Some row \<Longrightarrow>
   \<exists>row'. dict_get (od_actions (store_run ops db)) aid = Some row' \<and>
     table_reach action_transitions (aw_state row) (aw_state row') \<and>
     aw_idempotency_key row' = aw_idempotency_key row"
proof (induction ops arbitrary: db row)
  case Nil
  then show ?case by auto
next
  case (Cons o' ops)
  obtain op now where o': "o' = (op, now)" by (cases o')
  from store_step_action [OF Cons.prems, of op now] obtain row1 where r1:
    "dict_get (od_actions (store_step op now db)) aid = Some row1"
    "aw_state row1 = aw_state row \<or> aw_state row1 \<in> set (action_transitions (aw_state row))"
    "aw_idempotency_key row1 = aw_idempotency_key row" by blast
  have "table_reach action_transitions (aw_state row) (aw_state row1)"
    using r1(2) table_reach_step [OF table_reach_refl] by auto
  with Cons.IH [OF r1(1)] r1(3) o' show ?case by (auto intro: table_reach_trans)
qed

lemma store_run_campaign:
  "dict_get (od_campaigns db) cid = Some row \<Longrightarrow>
   \<exists>row'. dict_get (od_campaigns (store_run ops db)) cid = Some row' \<and>
     table_reach campaign_transitions (cw_state row) (cw_state row') \<and> cw_config row' = cw_config row"
proof (induction ops arbitrary: db row)
  case Nil
  then show ?case by auto
next
  case (Cons o' ops)
  obtain op now where o': "o' = (op, now)" by (cases o')
  from store_step_campaign [OF Cons.prems, of op now] obtain row1 where r1:
    "dict_get (od_campaigns (store_step op now db)) cid = Some row1"
    "cw_state row1 = cw_state row \<or> cw_state row1 \<in> set (campaign_transitions (cw_state row))"
    "cw_config row1 = cw_config row" by blast
  have "table_reach campaign_transitions (cw_state row) (cw_state row1)"
    using r1(2) table_reach_step [OF table_reach_refl] by auto
  with Cons.IH [OF r1(1)] r1(3) o' show ?case by (auto intro: table_reach_trans)
qed

text \<open>Actions are unique by id and by idempotency key.\<close>

definition actions_unique :: "orch_db \<Rightarrow> bool" where
  "actions_unique db \<longleftrightarrow>
     distinct (map fst (od_actions db)) \<and> distinct (map (\<lambda>a. aw_idempotency_key (snd a)) (od_actions db))"

lemma actions_unique_step:
  assumes "actions_unique db"
  shows "actions_unique (store_step op now db)"
proof (cases op)
  case (TransitionAction a s p e)
  show ?thesis
  proof (cases "dict_get (od_actions db) a")
    case None
    with assms TransitionAction show ?thesis by (simp add: actions_unique_def transition_action_db)
  next
    case (Some row)
    then have k: "map fst (dict_set (od_actions db) a v) = map fst (od_actions db)" for v
      by (simp add: dict_set_known_keys)
    have i: "map (\<lambda>p. aw_idempotency_key (snd p)) (dict_set (od_actions db) a v) =
        map (\<lambda>p. aw_idempotency_key (snd p)) (od_actions db)"
      if "aw_idempotency_key v = aw_idempotency_key row" for v
      using dict_set_values [of "od_actions db" a row aw_idempotency_key v] Some that by simp
    from Some assms TransitionAction show ?thesis
      by (simp add: actions_unique_def transition_action_db set_action_state_def k i)
  qed
next
  case (CreateAction a c p k)
  show ?thesis
  proof (cases "dict_get (od_actions db) a \<noteq> None \<or>
      (\<exists>row \<in> snd ` set (od_actions db). aw_idempotency_key row = k)")
    case True
    with assms CreateAction show ?thesis by (simp add: create_action_def)
  next
    case False
    then have "dict_get (od_actions db) a = None" "a \<notin> fst ` set (od_actions db)"
      "k \<notin> (\<lambda>p. aw_idempotency_key (snd p)) ` set (od_actions db)"
      by (auto simp: dict_get_None_keys)
    with False assms CreateAction show ?thesis
      by (simp add: create_action_def actions_unique_def dict_set_new)
  qed
next
  case (TransitionCampaign c s r a)
  with assms show ?thesis by (auto simp: actions_unique_def transition_campaign_db split: option.splits)
qed (use assms in \<open>simp_all add: actions_unique_def create_campaign_def increment_def
  reconcile_detector_run_def store_checkpoint_def Let_def\<close>)

lemma actions_unique_run: "actions_unique db \<Longrightarrow> actions_unique (store_run ops db)"
  by (induction ops db rule: store_run.induct) (simp_all add: actions_unique_step)

text \<open>The request accounting of a campaign.\<close>

definition counters_balanced :: "counters \<Rightarrow> bool" where
  "counters_balanced c \<longleftrightarrow>
     c ''requests_attempted'' = c ''requests_forwarded'' + c ''requests_blocked_before_io'' \<and>
     c ''requests_forwarded'' =
       c ''responses_received'' + c ''requests_failed_after_io'' + c ''unknown_outcomes'' \<and>
     c ''requests'' = c ''requests_forwarded''"

definition request_fields :: "string list" where
  "request_fields =
     [''requests_attempted'', ''requests_forwarded'', ''requests_blocked_before_io'',
      ''responses_received'', ''requests_failed_after_io'', ''unknown_outcomes'', ''requests'']"

lemma add_to_other [simp]: "f \<noteq> g \<Longrightarrow> add_to f n c g = c g"
  by (simp add: add_to_def)

lemma add_to_same [simp]: "add_to f n c f = c f + n"
  by (simp add: add_to_def)

lemma add_accounting_balanced:
  "counters_balanced c \<Longrightarrow> accounting_ok a \<Longrightarrow> counters_balanced (add_accounting a c)"
  by (simp add: counters_balanced_def accounting_ok_def add_accounting_def)

lemma add_to_balanced:
  "counters_balanced c \<Longrightarrow> f \<notin> set request_fields \<Longrightarrow> counters_balanced (add_to f n c)"
  by (auto simp: counters_balanced_def request_fields_def)

text \<open>Every counter row balances.\<close>

definition db_balanced :: "orch_db \<Rightarrow> bool" where
  "db_balanced db \<longleftrightarrow> (\<forall>cid c. dict_get (od_counters db) cid = Some c \<longrightarrow> counters_balanced c)"

lemma update_counters_balanced:
  assumes "db_balanced db" "\<And>c. counters_balanced c \<Longrightarrow> counters_balanced (f c)"
  shows "db_balanced (update_counters db cid f)"
  using assms by (auto simp: db_balanced_def update_counters_def split: option.splits)

lemma db_balanced_event [simp]: "db_balanced (snd (store_event db cid n p now)) = db_balanced db"
  by (simp add: db_balanced_def)

text \<open>An operation that does not increment a request counter by hand.\<close>

fun accounting_op :: "store_op \<Rightarrow> bool" where
  "accounting_op (Increment cid f n) = (f \<notin> set request_fields)"
| "accounting_op _ = True"

lemma balanced_step:
  assumes "db_balanced db" "accounting_op op"
  shows "db_balanced (store_step op now db)"
proof (cases op)
  case (Increment cid f n)
  with assms show ?thesis
    by (auto simp: increment_def intro!: update_counters_balanced add_to_balanced)
next
  case (Reconcile cid a b)
  with assms show ?thesis
    by (auto simp: reconcile_detector_run_def intro!: update_counters_balanced add_accounting_balanced)
next
  case (CreateCampaign c)
  with assms show ?thesis
    by (auto simp: create_campaign_def Let_def db_balanced_def counters_balanced_def)
next
  case (TransitionCampaign c s r a)
  with assms show ?thesis by (auto simp: db_balanced_def transition_campaign_db split: option.splits)
qed (use assms in \<open>simp_all add: db_balanced_def create_action_def store_checkpoint_def\<close>)

lemma balanced_run:
  "db_balanced db \<Longrightarrow> list_all (\<lambda>o'. accounting_op (fst o')) ops \<Longrightarrow> db_balanced (store_run ops db)"
  by (induction ops db rule: store_run.induct) (simp_all add: balanced_step)

text \<open>The event log only grows.\<close>

lemma store_step_events: "\<exists>es. od_events (store_step op now db) = od_events db @ es"
proof (cases op)
  case (TransitionAction a s p e)
  then show ?thesis
    using store_event_events
    by (auto simp: transition_action_def validate_transition_def require_def set_action_state_def
        store_event_def Let_def split: option.splits)
next
  case (TransitionCampaign c s r a)
  then show ?thesis
    using store_event_events [of "set_campaign_state db c s now"]
    by (auto simp: transition_campaign_db split: option.splits)
qed (auto simp: store_event_def create_campaign_def create_action_def increment_def
  reconcile_detector_run_def store_checkpoint_def Let_def)

lemma store_run_events: "\<exists>es. od_events (store_run ops db) = od_events db @ es"
proof (induction ops db rule: store_run.induct)
  case (2 op now ops db)
  with store_step_events [of op now db] show ?case by (metis append_assoc store_run.simps(2))
qed simp

end
