(* ===== verification/OperationalLease.thy ===== *)
theory OperationalLease
  imports Models PyHash
begin

text \<open>
  \<open>src/astp/operational_lease.py\<close>: bounded assessment leases over a program's ONLINE
  attestation (\<open>build_operational_lease\<close>, \<open>lease_is_valid\<close>) and the durable store that
  issues, renews, revokes and checks them (\<open>OperationalLeaseStore\<close>). The store's file is
  its decoded content: a schema version and a dictionary from lease ids to entries.
\<close>

definition MAX_ASSESSMENT_LEASE_SECONDS :: int where
  "MAX_ASSESSMENT_LEASE_SECONDS = 1800"

definition LEASE_STORE_SCHEMA_VERSION :: int where
  "LEASE_STORE_SCHEMA_VERSION = 1"

record lease =
  ls_schema_version :: string
  ls_id :: string
  ls_program_id :: string
  ls_source_sha256 :: string
  ls_attestation_id :: string
  ls_attestation_observed_at :: datetime
  ls_status :: operational_status
  ls_assessment_id :: string
  ls_preflight_hash :: string
  ls_valid_from :: datetime
  ls_valid_until :: datetime
  ls_lease_hash :: string

text \<open>The validators of \<open>ProgramOperationalLease\<close>.\<close>

definition mk_lease :: "lease \<Rightarrow> lease result" where
  "mk_lease l =
     rbind (require (aware (ls_attestation_observed_at l) \<and> aware (ls_valid_from l) \<and> aware (ls_valid_until l))
              [Txt ''operational lease timestamps must include a timezone'']) (\<lambda>_.
     rbind (require (\<not> dt_le (ls_valid_until l) (ls_valid_from l))
              [Txt ''operational lease valid_until must be after valid_from'']) (\<lambda>_. Inr l))"

definition canonical_hash :: "json \<Rightarrow> string" where
  "canonical_hash payload = sha256_hex (canonical_json payload)"

text \<open>The hashed payload: every field but the id and the hash.\<close>

definition lease_payload :: "lease \<Rightarrow> json" where
  "lease_payload l = JObj
     [(''schema_version'', JStr (ls_schema_version l)),
      (''program_id'', JStr (ls_program_id l)),
      (''source_content_sha256'', JStr (ls_source_sha256 l)),
      (''attestation_id'', JStr (ls_attestation_id l)),
      (''attestation_observed_at'', JStr (isoformat (ls_attestation_observed_at l))),
      (''status'', JStr (status_value (ls_status l))),
      (''assessment_id'', JStr (ls_assessment_id l)),
      (''preflight_report_hash'', JStr (ls_preflight_hash l)),
      (''valid_from'', JStr (isoformat (ls_valid_from l))),
      (''valid_until'', JStr (isoformat (ls_valid_until l)))]"

definition lease_id_of :: "string \<Rightarrow> string" where
  "lease_id_of digest = ''oplease-'' @ take 12 digest"

definition build_operational_lease ::
  "engagement \<Rightarrow> attestation \<Rightarrow> string \<Rightarrow> string \<Rightarrow> datetime \<Rightarrow> int \<Rightarrow> lease result" where
  "build_operational_lease eng att assessment_id preflight_hash valid_from ttl =
     (case eng_program eng of
        None \<Rightarrow> value_error ''engagement does not require an operational program gate''
      | Some b \<Rightarrow>
          rbind (require (pb_requires_online b)
                   [Txt ''engagement does not require an operational program gate'']) (\<lambda>_.
          rbind (require (strip assessment_id \<noteq> [] \<and> strip preflight_hash \<noteq> [])
                   [Txt ''operational lease requires assessment and preflight bindings'']) (\<lambda>_.
          rbind (require (\<not> (ttl < 30 \<or> MAX_ASSESSMENT_LEASE_SECONDS < ttl))
                   [Txt ''assessment operational lease TTL must be between 30 and '',
                    Num MAX_ASSESSMENT_LEASE_SECONDS, Txt '' seconds'']) (\<lambda>_.
          rbind (require (att_status att = ONLINE)
                   [Txt ''assessment operational lease requires an ONLINE attestation'']) (\<lambda>_.
          rbind (require (att_program_id att = pb_program_id b \<and> att_source_sha256 att = pb_source_sha256 b)
                   [Txt ''attestation is bound to a different program revision'']) (\<lambda>_.
          rbind (require (aware valid_from) [Txt ''lease valid_from must include a timezone'']) (\<lambda>_.
            let fresh_until = dt_plus (att_observed_at att) (seconds (pb_max_age b)) in
          rbind (require (\<not> (dt_less valid_from (dt_plus (att_observed_at att) (- seconds 30))
                              \<or> dt_le fresh_until valid_from))
                   [Txt ''operational lease can only originate while the attestation is fresh'']) (\<lambda>_.
            let l = \<lparr>ls_schema_version = ''1'', ls_id = [], ls_program_id = pb_program_id b,
                     ls_source_sha256 = pb_source_sha256 b, ls_attestation_id = att_id att,
                     ls_attestation_observed_at = att_observed_at att, ls_status = ONLINE,
                     ls_assessment_id = assessment_id, ls_preflight_hash = preflight_hash,
                     ls_valid_from = valid_from, ls_valid_until = dt_plus valid_from (seconds ttl),
                     ls_lease_hash = []\<rparr>;
                digest = canonical_hash (lease_payload l)
            in mk_lease (l\<lparr>ls_id := lease_id_of digest, ls_lease_hash := digest\<rparr>)))))))))"

text \<open>The checks of \<open>lease_is_valid\<close> in order; each early return is one branch.\<close>

definition lease_is_valid ::
  "lease \<Rightarrow> engagement \<Rightarrow> attestation \<Rightarrow> datetime \<Rightarrow> bool \<times> message" where
  "lease_is_valid l eng att current =
     (if \<not> aware current then
        (False, [Txt ''operational lease validation requires a timezone-aware clock''])
      else case eng_program eng of
        None \<Rightarrow> (False, [Txt ''engagement does not require an operational program gate''])
      | Some b \<Rightarrow>
          if \<not> pb_requires_online b then
            (False, [Txt ''engagement does not require an operational program gate''])
          else if strip (ls_assessment_id l) = [] \<or> strip (ls_preflight_hash l) = [] then
            (False, [Txt ''operational lease requires assessment and preflight bindings''])
          else if ls_status l \<noteq> ONLINE \<or> att_status att \<noteq> ONLINE then
            (False, [Txt ''lease and source attestation must both be ONLINE''])
          else if ls_attestation_id l \<noteq> att_id att then
            (False, [Txt ''operational lease is bound to a different attestation''])
          else if ls_program_id l \<noteq> pb_program_id b \<or> ls_source_sha256 l \<noteq> pb_source_sha256 b
                  \<or> att_program_id att \<noteq> pb_program_id b \<or> att_source_sha256 att \<noteq> pb_source_sha256 b then
            (False, [Txt ''operational lease is bound to a different program revision''])
          else if \<not> dt_same (ls_attestation_observed_at l) (att_observed_at att) then
            (False, [Txt ''operational lease attestation timestamp binding does not match''])
          else
            (let duration = dt_minus (ls_valid_until l) (ls_valid_from l);
                 fresh_until = dt_plus (att_observed_at att) (seconds (pb_max_age b))
             in if duration < seconds 30 \<or> seconds MAX_ASSESSMENT_LEASE_SECONDS < duration then
                  (False, [Txt ''operational lease duration exceeds issuance bounds''])
                else if dt_less (ls_valid_from l) (dt_plus (att_observed_at att) (- seconds 30))
                        \<or> dt_le fresh_until (ls_valid_from l) then
                  (False, [Txt ''operational lease did not originate while the attestation was fresh''])
                else if ls_schema_version l \<noteq> ''1'' then
                  (False, [Txt ''unsupported operational lease schema version''])
                else if dt_less current (ls_valid_from l) then
                  (False, [Txt ''operational lease is not active yet''])
                else if dt_le (ls_valid_until l) current then
                  (False, [Txt ''operational lease is stale and must be refreshed''])
                else
                  (let expected = canonical_hash (lease_payload l)
                   in if ls_lease_hash l \<noteq> expected \<or> ls_id l \<noteq> lease_id_of expected then
                        (False, [Txt ''operational lease integrity check failed''])
                      else (True, [Txt ''bounded assessment operational lease is valid'']))))"

section \<open>The durable store\<close>

datatype lease_status = LActive | LSuperseded | LRevoked

record lease_entry =
  le_status :: lease_status
  le_lease :: lease
  le_superseded_by :: "string option"
  le_renewed_from :: "string option"

record lease_store =
  st_schema :: int
  st_leases :: "(string \<times> lease_entry) list"

definition lease_json :: "lease \<Rightarrow> json" where
  "lease_json l = JObj
     [(''schema_version'', JStr (ls_schema_version l)), (''id'', JStr (ls_id l)),
      (''program_id'', JStr (ls_program_id l)),
      (''source_content_sha256'', JStr (ls_source_sha256 l)),
      (''attestation_id'', JStr (ls_attestation_id l)),
      (''attestation_observed_at'', JStr (json_datetime (ls_attestation_observed_at l))),
      (''status'', JStr (status_value (ls_status l))),
      (''assessment_id'', JStr (ls_assessment_id l)),
      (''preflight_report_hash'', JStr (ls_preflight_hash l)),
      (''valid_from'', JStr (json_datetime (ls_valid_from l))),
      (''valid_until'', JStr (json_datetime (ls_valid_until l))),
      (''lease_hash'', JStr (ls_lease_hash l))]"

text \<open>Equality of two stored entries is equality of their JSON.\<close>

definition same_entry :: "lease_entry \<Rightarrow> lease_entry \<Rightarrow> bool" where
  "same_entry a b \<longleftrightarrow>
     le_status a = le_status b \<and> lease_json (le_lease a) = lease_json (le_lease b) \<and>
     le_superseded_by a = le_superseded_by b \<and> le_renewed_from a = le_renewed_from b"

definition active_entry :: "lease \<Rightarrow> lease_entry" where
  "active_entry l =
     \<lparr>le_status = LActive, le_lease = l, le_superseded_by = None, le_renewed_from = None\<rparr>"

text \<open>\<open>__init__\<close>: a missing file is created empty; \<open>_read\<close> checks the schema version.\<close>

definition open_lease_store :: "lease_store option \<Rightarrow> lease_store" where
  "open_lease_store file =
     or_else file \<lparr>st_schema = LEASE_STORE_SCHEMA_VERSION, st_leases = []\<rparr>"

definition read_leases :: "lease_store \<Rightarrow> (string \<times> lease_entry) list result" where
  "read_leases s =
     rbind (require (st_schema s = LEASE_STORE_SCHEMA_VERSION)
              [Txt ''unsupported operational lease store schema'']) (\<lambda>_. Inr (st_leases s))"

definition issue_lease ::
  "lease_store \<Rightarrow> engagement \<Rightarrow> attestation \<Rightarrow> string \<Rightarrow> string \<Rightarrow> datetime \<Rightarrow> int \<Rightarrow>
   (lease \<times> lease_store) result" where
  "issue_lease s eng att assessment_id preflight_hash valid_from ttl =
     rbind (build_operational_lease eng att assessment_id preflight_hash valid_from ttl) (\<lambda>l.
     rbind (read_leases s) (\<lambda>d.
     rbind (require (case dict_get d (ls_id l) of
                       None \<Rightarrow> True | Some e \<Rightarrow> same_entry e (active_entry l))
              [Txt ''operational lease store collision'']) (\<lambda>_.
     Inr (l, s\<lparr>st_leases := dict_set d (ls_id l) (active_entry l)\<rparr>))))"

definition recover_lease :: "lease_store \<Rightarrow> string \<Rightarrow> lease result" where
  "recover_lease s lease_id =
     rbind (read_leases s) (\<lambda>d.
       case dict_get d lease_id of
         None \<Rightarrow> value_error ''unknown operational lease''
       | Some e \<Rightarrow> mk_lease (le_lease e))"

definition require_valid_lease ::
  "lease_store \<Rightarrow> lease \<Rightarrow> engagement \<Rightarrow> attestation \<Rightarrow> datetime \<Rightarrow> unit result" where
  "require_valid_lease s l eng att now =
     rbind (read_leases s) (\<lambda>d.
       case dict_get d (ls_id l) of
         None \<Rightarrow> value_error ''operational lease is not active in durable state''
       | Some e \<Rightarrow>
           rbind (require (le_status e = LActive)
                    [Txt ''operational lease is not active in durable state'']) (\<lambda>_.
           rbind (require (lease_json (le_lease e) = lease_json l)
                    [Txt ''operational lease differs from durable state'']) (\<lambda>_.
           (case lease_is_valid l eng att now of (valid, reason) \<Rightarrow> require valid reason))))"

definition renew_lease ::
  "lease_store \<Rightarrow> string \<Rightarrow> engagement \<Rightarrow> attestation \<Rightarrow> datetime \<Rightarrow> int \<Rightarrow>
   (lease \<times> lease_store) result" where
  "renew_lease s lease_id eng att valid_from ttl =
     rbind (recover_lease s lease_id) (\<lambda>previous.
     rbind (require_valid_lease s previous eng att valid_from) (\<lambda>_.
     rbind (build_operational_lease eng att (ls_assessment_id previous) (ls_preflight_hash previous)
              valid_from ttl) (\<lambda>renewed.
     rbind (read_leases s) (\<lambda>d.
       case dict_get d lease_id of
         None \<Rightarrow> Inl (KeyError lease_id)
       | Some e \<Rightarrow>
           (let d1 = dict_set d lease_id
                       (e\<lparr>le_status := LSuperseded, le_superseded_by := Some (ls_id renewed)\<rparr>);
                d2 = dict_set d1 (ls_id renewed)
                       ((active_entry renewed)\<lparr>le_renewed_from := Some lease_id\<rparr>)
            in Inr (renewed, s\<lparr>st_leases := d2\<rparr>))))))"

definition revoke_lease :: "lease_store \<Rightarrow> string \<Rightarrow> lease_store result" where
  "revoke_lease s lease_id =
     rbind (read_leases s) (\<lambda>d.
       case dict_get d lease_id of
         None \<Rightarrow> value_error ''unknown operational lease''
       | Some e \<Rightarrow>
           Inr (s\<lparr>st_leases := dict_set d lease_id (e\<lparr>le_status := LRevoked\<rparr>)\<rparr>))"

section \<open>Lemmas of the component\<close>

lemma lease_payload_id_hash [simp]:
  "lease_payload (l\<lparr>ls_id := i, ls_lease_hash := h\<rparr>) = lease_payload l"
  by (simp add: lease_payload_def)

text \<open>What a successful build fixes.\<close>

lemma build_operational_leaseD:
  assumes "build_operational_lease eng att a p vf ttl = Inr l"
  shows "\<exists>b. eng_program eng = Some b \<and> pb_requires_online b \<and>
      strip a \<noteq> [] \<and> strip p \<noteq> [] \<and> 30 \<le> ttl \<and> ttl \<le> 1800 \<and>
      att_status att = ONLINE \<and> att_program_id att = pb_program_id b \<and>
      att_source_sha256 att = pb_source_sha256 b \<and> aware vf \<and>
      dt_us (att_observed_at att) - 30000000 \<le> dt_us vf \<and>
      dt_us vf < dt_us (att_observed_at att) + pb_max_age b * 1000000 \<and>
      l = \<lparr>ls_schema_version = ''1'', ls_id = lease_id_of (canonical_hash (lease_payload l)),
           ls_program_id = pb_program_id b, ls_source_sha256 = pb_source_sha256 b,
           ls_attestation_id = att_id att, ls_attestation_observed_at = att_observed_at att,
           ls_status = ONLINE, ls_assessment_id = a, ls_preflight_hash = p, ls_valid_from = vf,
           ls_valid_until = dt_plus vf (seconds ttl),
           ls_lease_hash = canonical_hash (lease_payload l)\<rparr>"
  using assms
  by (auto simp: build_operational_lease_def Let_def mk_lease_def result_simps time_simps
        MAX_ASSESSMENT_LEASE_SECONDS_def lease_payload_def split: option.splits)

lemma lease_is_validD:
  assumes "fst (lease_is_valid l eng att now)"
  shows "\<exists>b. eng_program eng = Some b \<and> pb_requires_online b \<and> aware now \<and>
      ls_status l = ONLINE \<and> att_status att = ONLINE \<and> ls_attestation_id l = att_id att \<and>
      ls_program_id l = pb_program_id b \<and> att_program_id att = pb_program_id b \<and>
      ls_source_sha256 l = pb_source_sha256 b \<and> att_source_sha256 att = pb_source_sha256 b \<and>
      dt_us (ls_valid_from l) \<le> dt_us now \<and> dt_us now < dt_us (ls_valid_until l) \<and>
      30000000 \<le> dt_us (ls_valid_until l) - dt_us (ls_valid_from l) \<and>
      dt_us (ls_valid_until l) - dt_us (ls_valid_from l) \<le> 1800000000 \<and>
      dt_us (att_observed_at att) - 30000000 \<le> dt_us (ls_valid_from l) \<and>
      dt_us (ls_valid_from l) < dt_us (att_observed_at att) + pb_max_age b * 1000000 \<and>
      ls_lease_hash l = canonical_hash (lease_payload l) \<and>
      ls_id l = lease_id_of (ls_lease_hash l)"
  using assms
  by (auto simp: lease_is_valid_def Let_def time_simps MAX_ASSESSMENT_LEASE_SECONDS_def
      split: if_splits option.splits)

text \<open>A freshly built lease is valid throughout its window.\<close>

lemma build_then_valid:
  assumes b: "build_operational_lease eng att a p vf ttl = Inr l"
    and now: "aware now" "dt_us vf \<le> dt_us now" "dt_us now < dt_us vf + ttl * 1000000"
  shows "fst (lease_is_valid l eng att now)"
proof -
  obtain bd where bd: "eng_program eng = Some bd" "pb_requires_online bd" "strip a \<noteq> []"
      "strip p \<noteq> []" "30 \<le> ttl" "ttl \<le> 1800" "att_status att = ONLINE"
      "att_program_id att = pb_program_id bd" "att_source_sha256 att = pb_source_sha256 bd"
      "dt_us (att_observed_at att) - 30000000 \<le> dt_us vf"
      "dt_us vf < dt_us (att_observed_at att) + pb_max_age bd * 1000000"
    and l: "l = \<lparr>ls_schema_version = ''1'', ls_id = lease_id_of (canonical_hash (lease_payload l)),
           ls_program_id = pb_program_id bd, ls_source_sha256 = pb_source_sha256 bd,
           ls_attestation_id = att_id att, ls_attestation_observed_at = att_observed_at att,
           ls_status = ONLINE, ls_assessment_id = a, ls_preflight_hash = p, ls_valid_from = vf,
           ls_valid_until = dt_plus vf (seconds ttl),
           ls_lease_hash = canonical_hash (lease_payload l)\<rparr>"
    using build_operational_leaseD [OF b] by blast
  define h where "h = canonical_hash (lease_payload l)"
  have fields: "ls_schema_version l = ''1''" "ls_id l = lease_id_of h"
      "ls_program_id l = pb_program_id bd" "ls_source_sha256 l = pb_source_sha256 bd"
      "ls_attestation_id l = att_id att" "ls_attestation_observed_at l = att_observed_at att"
      "ls_status l = ONLINE" "ls_assessment_id l = a" "ls_preflight_hash l = p"
      "ls_valid_from l = vf" "ls_valid_until l = dt_plus vf (seconds ttl)" "ls_lease_hash l = h"
    by (subst l, simp add: h_def)+
  show ?thesis
    using bd now
    by (simp add: lease_is_valid_def fields Let_def h_def [symmetric] time_simps
        MAX_ASSESSMENT_LEASE_SECONDS_def)
qed

text \<open>The durable state decides: only an active entry with the same content passes.\<close>

lemma require_valid_leaseD:
  assumes "require_valid_lease s l eng att now = Inr u"
  shows "\<exists>e. dict_get (st_leases s) (ls_id l) = Some e \<and> le_status e = LActive \<and>
      lease_json (le_lease e) = lease_json l \<and> fst (lease_is_valid l eng att now)"
  using assms
  by (auto simp: require_valid_lease_def read_leases_def result_simps split: option.splits prod.splits)

lemma require_valid_leaseI:
  assumes "st_schema s = LEASE_STORE_SCHEMA_VERSION" "dict_get (st_leases s) (ls_id l) = Some e"
    and "le_status e = LActive" "lease_json (le_lease e) = lease_json l"
    and "fst (lease_is_valid l eng att now)"
  shows "require_valid_lease s l eng att now = Inr ()"
  using assms
  by (cases "lease_is_valid l eng att now") (simp add: require_valid_lease_def read_leases_def)

lemma issue_leaseD:
  assumes "issue_lease s eng att a p vf ttl = Inr (l, s')"
  shows "build_operational_lease eng att a p vf ttl = Inr l \<and>
      st_schema s = LEASE_STORE_SCHEMA_VERSION \<and>
      s' = s\<lparr>st_leases := dict_set (st_leases s) (ls_id l) (active_entry l)\<rparr> \<and>
      (\<forall>e. dict_get (st_leases s) (ls_id l) = Some e \<longrightarrow> same_entry e (active_entry l))"
  using assms
  by (auto simp: issue_lease_def read_leases_def result_simps split: option.splits)

lemma revoke_leaseD:
  assumes "revoke_lease s i = Inr s'"
  shows "\<exists>e. dict_get (st_leases s) i = Some e \<and> st_schema s = LEASE_STORE_SCHEMA_VERSION \<and>
      s' = s\<lparr>st_leases := dict_set (st_leases s) i (e\<lparr>le_status := LRevoked\<rparr>)\<rparr>"
  using assms by (auto simp: revoke_lease_def read_leases_def result_simps split: option.splits)

end
