(* ===== verification/Authorization.thy ===== *)
theory Authorization
  imports OperationalLease
begin

text \<open>
  \<open>src/astp/authorization.py\<close>: the gate sequence of \<open>authorize_test\<close>. Each gate
  returns the checks it appends and, when it decides, the decision; \<open>authorize_test\<close>
  composes them in the source's order. \<open>datetime.now(UTC)\<close> is the argument \<open>clock\<close>,
  the durable lease store of a request is its decoded file.
\<close>

datatype check_status = PASS | FAIL | REVIEW

record check =
  chk_name :: string
  chk_status :: check_status
  chk_message :: message

definition mk_check :: "string \<Rightarrow> check_status \<Rightarrow> message \<Rightarrow> check" where
  "mk_check n s m = \<lparr>chk_name = n, chk_status = s, chk_message = m\<rparr>"

text \<open>
  \<open>operational_lease_store_path\<close>: absent, or a path whose file is missing, unreadable
  (an \<open>OSError\<close> or a decoding error with its message) or holds a store.
\<close>

datatype store_file = NoFile | BadFile message | StoreFile lease_store

record auth_request =
  rq_target :: string
  rq_available_context :: "string set"
  rq_approvals :: "approval list"
  rq_http_method :: "string option"
  rq_identity :: "string option"
  rq_rps :: "rat option"
  rq_excl_clears :: "string set"
  rq_excl_matches :: "string set"
  rq_attestation :: "attestation option"
  rq_lease :: "lease option"
  rq_lease_store :: "store_file option"
  rq_now :: "datetime option"

record auth_result =
  ar_decision :: decision
  ar_checks :: "check list"
  ar_missing_context :: "string list"
  ar_approval_ids :: "string list"
  ar_effective_rps :: "rat option"
  ar_attestation_id :: "string option"
  ar_valid_until :: "datetime option"

definition auth_stop :: "decision \<Rightarrow> check list \<Rightarrow> auth_result" where
  "auth_stop d cs =
     \<lparr>ar_decision = d, ar_checks = cs, ar_missing_context = [], ar_approval_ids = [],
      ar_effective_rps = None, ar_attestation_id = None, ar_valid_until = None\<rparr>"

section \<open>Rules, paths and ports of a target\<close>

definition matching_rules :: "string \<Rightarrow> scope_rule list \<Rightarrow> scope_rule list result" where
  "matching_rules target rules = rfilter (match_rule target) rules"

definition matching_asset_constraints ::
  "string \<Rightarrow> asset_constraint list \<Rightarrow> asset_constraint list result" where
  "matching_asset_constraints target cs = rfilter (\<lambda>c. match_rule target (ac_selector c)) cs"

definition target_path :: "string \<Rightarrow> string result" where
  "target_path target =
     rbind (urlparse (with_scheme target)) (\<lambda>u.
       Inr (if url_path u = [] then ''/'' else url_path u))"

definition target_port :: "string \<Rightarrow> nat result" where
  "target_port target =
     rbind (urlparse (with_scheme target)) (\<lambda>u.
     rbind (url_port u) (\<lambda>p.
       Inr (case p of Some n \<Rightarrow> n | None \<Rightarrow> if url_scheme u = ''https'' then 443 else 80)))"

definition path_matches :: "string \<Rightarrow> string \<Rightarrow> bool" where
  "path_matches path pfx =
     (if pfx = ''/'' then True
      else (let normalized = rstrip_of (\<lambda>c. c = CHR ''/'') pfx
            in path = normalized \<or> startswith path (normalized @ ''/'')))"

section \<open>Approvals\<close>

definition approval_matches ::
  "approval \<Rightarrow> engagement \<Rightarrow> test_definition \<Rightarrow> auth_request \<Rightarrow> datetime \<Rightarrow> bool result" where
  "approval_matches a eng test req clock =
     (let now = or_else (rq_now req) clock
      in if apr_engagement_id a \<noteq> eng_id eng \<or> \<not> is_active a now then Inr False
         else rbind (rany (match_rule (rq_target req)) (apr_targets a)) (\<lambda>m.
           Inr (if \<not> m then False
                else if apr_test_ids a \<noteq> [] \<and> test_id test \<notin> set (apr_test_ids a) then False
                else if apr_risk_classes a \<noteq> [] \<and> test_risk test \<notin> set (apr_risk_classes a) then False
                else if apr_identities a \<noteq> [] \<and> rq_identity req \<notin> Some ` set (apr_identities a) then False
                else \<not> (case (apr_max_rps a, rq_rps req) of
                          (Some cap, Some r) \<Rightarrow> cap < r
                        | _ \<Rightarrow> False))))"

definition valid_approvals ::
  "engagement \<Rightarrow> test_definition \<Rightarrow> auth_request \<Rightarrow> datetime \<Rightarrow> approval list result" where
  "valid_approvals eng test req clock =
     rfilter (\<lambda>a. approval_matches a eng test req clock) (rq_approvals req)"

section \<open>The asset-constraint gate\<close>

text \<open>\<open>x.upper() if x else None\<close>: an empty method counts as absent.\<close>

definition upper_method :: "string option \<Rightarrow> string option" where
  "upper_method m =
     (case m of None \<Rightarrow> None | Some s \<Rightarrow> if s = [] then None else Some (str_upper s))"

text \<open>One round of the loop over matching constraints: \<open>None\<close> goes on to the next one.\<close>

definition check_constraint ::
  "string \<Rightarrow> nat \<Rightarrow> string option \<Rightarrow> string option \<Rightarrow> asset_constraint \<Rightarrow> (decision \<times> check) option" where
  "check_constraint path port http_method ident c =
     (if \<exists>p \<in> set (ac_denied_paths c). path_matches path p then
        Some (DENY, mk_check ''path_policy'' FAIL
          [Txt ''Path '', Quoted path, Txt '' matches an explicit asset-level deny rule.''])
      else if ac_allowed_paths c \<noteq> [] \<and> \<not> (\<exists>p \<in> set (ac_allowed_paths c). path_matches path p) then
        Some (DENY, mk_check ''path_policy'' FAIL
          [Txt ''Path '', Quoted path, Txt '' is outside the asset's allowed path prefixes.''])
      else if ac_allowed_ports c \<noteq> [] \<and> int port \<notin> set (ac_allowed_ports c) then
        Some (DENY, mk_check ''port_policy'' FAIL
          [Txt ''Port '', Num (int port), Txt '' is not authorized for this asset.''])
      else if ac_allowed_methods c \<noteq> [] \<and> http_method = None then
        Some (INSUFFICIENT_CONTEXT, mk_check ''http_method_policy'' REVIEW
          [Txt ''HTTP method is required to evaluate this asset policy.''])
      else if ac_allowed_methods c \<noteq> [] \<and> http_method \<notin> Some ` set (ac_allowed_methods c) then
        Some (DENY, mk_check ''http_method_policy'' FAIL
          [Txt ''HTTP method '', Quoted (or_else http_method []), Txt '' is not authorized for this asset.''])
      else if ac_allowed_identities c \<noteq> [] \<and> ident = None then
        Some (INSUFFICIENT_CONTEXT, mk_check ''identity_policy'' REVIEW
          [Txt ''Identity is required to evaluate this asset policy.''])
      else if ac_allowed_identities c \<noteq> [] \<and> ident \<notin> Some ` set (ac_allowed_identities c) then
        Some (DENY, mk_check ''identity_policy'' FAIL
          [Txt ''Identity '', Quoted (or_else ident []), Txt '' is not authorized for this asset.''])
      else None)"

fun check_constraints ::
  "string \<Rightarrow> nat \<Rightarrow> string option \<Rightarrow> string option \<Rightarrow> asset_constraint list \<Rightarrow> (decision \<times> check) option" where
  "check_constraints path port http_method ident [] = None"
| "check_constraints path port http_method ident (c # cs) =
     (case check_constraint path port http_method ident c of
        Some r \<Rightarrow> Some r
      | None \<Rightarrow> check_constraints path port http_method ident cs)"

definition check_asset_constraints ::
  "engagement \<Rightarrow> auth_request \<Rightarrow> (decision option \<times> check list) result" where
  "check_asset_constraints eng req =
     rbind (matching_asset_constraints (rq_target req) (con_assets (eng_constraints eng))) (\<lambda>matching.
       if matching = [] then Inr (None, [])
       else
         rbind (target_path (rq_target req)) (\<lambda>path.
         rbind (target_port (rq_target req)) (\<lambda>port.
           Inr (case check_constraints path port (upper_method (rq_http_method req)) (rq_identity req) matching of
                  Some (d, c) \<Rightarrow> (Some d, [c])
                | None \<Rightarrow>
                    (None, [mk_check ''asset_constraints'' PASS
                       [Txt ''Target satisfies all matching asset-level constraints.'']])))))"

section \<open>The operational gate\<close>

text \<open>
  The lease branch of a stale attestation: \<open>None\<close> when the durable store accepts the lease,
  otherwise the reason. Opening a missing store creates it empty, so it knows no lease.
\<close>

definition lease_reason ::
  "auth_request \<Rightarrow> lease \<Rightarrow> engagement \<Rightarrow> attestation \<Rightarrow> datetime \<Rightarrow> message option" where
  "lease_reason req l eng att current =
     (case rq_lease_store req of
        None \<Rightarrow> Some [Txt ''durable operational lease authority is required'']
      | Some (BadFile m) \<Rightarrow> Some m
      | Some NoFile \<Rightarrow>
          (case require_valid_lease (open_lease_store None) l eng att current of
             Inl e \<Rightarrow> Some (error_text e) | Inr _ \<Rightarrow> None)
      | Some (StoreFile s) \<Rightarrow>
          (case require_valid_lease (open_lease_store (Some s)) l eng att current of
             Inl e \<Rightarrow> Some (error_text e) | Inr _ \<Rightarrow> None))"

definition op_check :: "check_status \<Rightarrow> message \<Rightarrow> check" where
  "op_check s m = mk_check ''program_operational_status'' s m"

definition stale_gate ::
  "auth_request \<Rightarrow> engagement \<Rightarrow> attestation \<Rightarrow> datetime \<Rightarrow> datetime \<Rightarrow>
   (decision option \<times> string option \<times> datetime option) \<times> check list" where
  "stale_gate req eng att current valid_until =
     (let stale = op_check REVIEW [Txt ''Program-status attestation is stale and must be refreshed.'']
      in case rq_lease req of
           None \<Rightarrow> ((Some INSUFFICIENT_CONTEXT, Some (att_id att), Some valid_until), [stale])
         | Some l \<Rightarrow>
             (case lease_reason req l eng att current of
                None \<Rightarrow>
                  ((None, Some (att_id att), Some (ls_valid_until l)),
                   [op_check PASS
                      [Txt ''Program remains authorized under bounded assessment operational lease '',
                       Txt (ls_id l), Txt '' until '', Iso (ls_valid_until l), Txt ''.'']])
              | Some reason \<Rightarrow>
                  ((Some INSUFFICIENT_CONTEXT, Some (att_id att), Some valid_until),
                   [mk_check ''program_operational_lease'' REVIEW reason, stale])))"

definition check_program_operational_gate ::
  "engagement \<Rightarrow> auth_request \<Rightarrow> datetime \<Rightarrow>
   (decision option \<times> string option \<times> datetime option) \<times> check list" where
  "check_program_operational_gate eng req clock =
     (case eng_program eng of
        None \<Rightarrow> ((None, None, None), [])
      | Some b \<Rightarrow>
        if \<not> pb_requires_online b then ((None, None, None), [])
        else (case rq_attestation req of
          None \<Rightarrow>
            ((Some INSUFFICIENT_CONTEXT, None, None),
             [op_check REVIEW [Txt ''A fresh ONLINE program-status attestation is required.'']])
        | Some att \<Rightarrow>
            if att_program_id att \<noteq> pb_program_id b \<or> att_source_sha256 att \<noteq> pb_source_sha256 b then
              ((Some INSUFFICIENT_CONTEXT, Some (att_id att), None),
               [op_check REVIEW [Txt ''Program-status attestation is bound to a different program revision.'']])
            else
              (let current = or_else (rq_now req) clock
               in if dt_less (dt_plus current (seconds 30)) (att_observed_at att) then
                    ((Some INSUFFICIENT_CONTEXT, Some (att_id att), None),
                     [op_check REVIEW [Txt ''Program-status attestation timestamp is unexpectedly in the future.'']])
                  else
                    (let valid_until = dt_plus (att_observed_at att) (seconds (pb_max_age b))
                     in if dt_le valid_until current then stale_gate req eng att current valid_until
                        else if att_status att = OFFLINE then
                          ((Some DENY, Some (att_id att), Some valid_until),
                           [op_check FAIL [Txt ''Program is attested OFFLINE; target execution is prohibited.'']])
                        else if att_status att \<noteq> ONLINE then
                          ((Some INSUFFICIENT_CONTEXT, Some (att_id att), Some valid_until),
                           [op_check REVIEW [Txt ''Program operational status is not known to be ONLINE.'']])
                        else
                          ((None, Some (att_id att), Some valid_until),
                           [op_check PASS
                              [Txt ''Program is freshly attested ONLINE; attestation '', Txt (att_id att),
                               Txt '' is valid until '', Iso valid_until, Txt ''.'']])))))"

section \<open>The semantic-exclusion gate\<close>

definition sorted_ids :: "string set \<Rightarrow> string" where
  "sorted_ids ids = join '', '' (sorted_list_of_set ids)"

definition check_semantic_exclusions ::
  "engagement \<Rightarrow> auth_request \<Rightarrow> decision option \<times> check list" where
  "check_semantic_exclusions eng req =
     (let exclusions = con_exclusions (eng_constraints eng);
          chk = mk_check ''semantic_exclusions''
      in if exclusions = [] then (None, [])
         else
           (let known = excl_id ` set exclusions;
                contradictory = rq_excl_clears req \<inter> rq_excl_matches req;
                unknown = (rq_excl_clears req \<union> rq_excl_matches req) - known;
                matched = filter (\<lambda>r. excl_id r \<in> rq_excl_matches req) exclusions;
                missing = filter (\<lambda>r. excl_id r \<notin> rq_excl_clears req) exclusions
            in if contradictory \<noteq> {} then
                 (Some INSUFFICIENT_CONTEXT,
                  [chk REVIEW [Txt ''Conflicting semantic exclusion assessments were supplied for: '',
                               Txt (sorted_ids contradictory)]])
               else if unknown \<noteq> {} then
                 (Some INSUFFICIENT_CONTEXT,
                  [chk REVIEW [Txt ''Unknown semantic exclusion IDs were supplied: '',
                               Txt (sorted_ids unknown)]])
               else if matched \<noteq> [] then
                 (Some DENY,
                  [chk FAIL [Txt ''Target matches a semantic deny guardrail: '',
                             Txt (join '', '' (map excl_id matched))]])
               else if missing \<noteq> [] then
                 (Some INSUFFICIENT_CONTEXT,
                  [chk REVIEW [Txt ''Target has not been reviewed against semantic deny guardrails: '',
                               Txt (join '', '' (map excl_id missing))]])
               else
                 (None,
                  [chk PASS [Txt ''Target was explicitly cleared against every semantic deny guardrail.'']])))"

section \<open>The effective rate\<close>

definition opt_list :: "'a option \<Rightarrow> 'a list" where
  "opt_list x = (case x of None \<Rightarrow> [] | Some y \<Rightarrow> [y])"

text \<open>\<open>min(limits)\<close> over the engagement's limit, the matching assets' and the approvals'.\<close>

definition effective_rate_limit ::
  "engagement \<Rightarrow> auth_request \<Rightarrow> approval list \<Rightarrow> rat result" where
  "effective_rate_limit eng req approvals =
     rbind (matching_asset_constraints (rq_target req) (con_assets (eng_constraints eng))) (\<lambda>matching.
       Inr (foldl min (con_max_rps (eng_constraints eng))
              (concat (map (\<lambda>c. opt_list (ac_max_rps c)) matching) @
               concat (map (\<lambda>a. opt_list (apr_max_rps a)) approvals))))"

section \<open>The decision\<close>

text \<open>The target-scope gate once no deny rule matches: allow rules, then approval-required rules.\<close>

definition scope_gate ::
  "scope_rule list \<Rightarrow> scope_rule list \<Rightarrow> approval list \<Rightarrow> decision option \<times> check list" where
  "scope_gate allow conditional approvals =
     (let chk = mk_check ''target_scope''
      in if conditional \<noteq> [] \<and> allow = [] then
           (if approvals = [] then
              (Some APPROVAL_REQUIRED,
               [chk REVIEW [Txt ''Target is conditionally authorized and needs a matching approval artifact.'']])
            else
              (None, [chk PASS [Txt ''A valid bounded approval satisfies the target-level condition.'']]))
         else if allow \<noteq> [] then
           (None, [chk PASS [Txt ''Target matches an explicit allow rule.'']])
         else
           (Some DENY, [chk FAIL [Txt ''Target does not match an authorized scope rule.'']]))"

definition risk_gate ::
  "engagement \<Rightarrow> test_definition \<Rightarrow> approval list \<Rightarrow> decision option \<times> check list" where
  "risk_gate eng test approvals =
     (let policy = decision_for (eng_methods eng) (test_risk test);
          chk = mk_check ''risk_policy''
      in if policy = DENY then
           (Some DENY, [chk FAIL [Txt ''Risk class '', Quoted (risk_value (test_risk test)), Txt '' is denied by policy.'']])
         else if policy = APPROVAL_REQUIRED \<and> approvals = [] then
           (Some APPROVAL_REQUIRED,
            [chk REVIEW [Txt ''Risk class '', Quoted (risk_value (test_risk test)),
                         Txt '' requires a matching approval artifact.'']])
         else
           (None,
            [chk PASS
               (if policy = ALLOW then [Txt ''Risk policy allows this test.'']
                else [Txt ''A valid bounded approval satisfies the risk-policy condition.''])]))"

definition rate_gate :: "auth_request \<Rightarrow> rat \<Rightarrow> bool \<times> check list" where
  "rate_gate req effective =
     (let chk = mk_check ''rate_limit''
      in case rq_rps req of
           Some r \<Rightarrow>
             if effective < r then
               (False, [chk FAIL [Txt ''Requested rate '', FmtG r, Txt '' req/s exceeds the effective limit of '',
                                  FmtG effective, Txt '' req/s.'']])
             else (True, [chk PASS [Txt ''Effective maximum rate is '', FmtG effective, Txt '' req/s.'']])
         | None \<Rightarrow> (True, [chk PASS [Txt ''Effective maximum rate is '', FmtG effective, Txt '' req/s.'']]))"

text \<open>The last gates: required context, risk policy, rate.\<close>

definition final_gates ::
  "engagement \<Rightarrow> test_definition \<Rightarrow> auth_request \<Rightarrow> approval list \<Rightarrow>
   string option \<Rightarrow> datetime option \<Rightarrow> check list \<Rightarrow> auth_result result" where
  "final_gates eng test req approvals aid until cs =
     (let missing = missing_context (test_required_context test) (rq_available_context req)
      in if missing \<noteq> [] then
           Inr ((auth_stop INSUFFICIENT_CONTEXT
                   (cs @ [mk_check ''required_context'' FAIL [Txt ''Required test context is missing.'']]))
                \<lparr>ar_missing_context := missing\<rparr>)
         else
           (let cs' = cs @ [mk_check ''required_context'' PASS [Txt ''All required test context is available.'']]
            in case risk_gate eng test approvals of
                 (Some d, rc) \<Rightarrow> Inr (auth_stop d (cs' @ rc))
               | (None, rc) \<Rightarrow>
                   rbind (effective_rate_limit eng req approvals) (\<lambda>effective.
                     case rate_gate req effective of (ok, tc) \<Rightarrow>
                       Inr (if ok then
                              \<lparr>ar_decision = ALLOW, ar_checks = cs' @ rc @ tc, ar_missing_context = [],
                               ar_approval_ids = map apr_id approvals, ar_effective_rps = Some effective,
                               ar_attestation_id = aid, ar_valid_until = until\<rparr>
                            else
                              \<lparr>ar_decision = DENY, ar_checks = cs' @ rc @ tc, ar_missing_context = [],
                               ar_approval_ids = map apr_id approvals, ar_effective_rps = Some effective,
                               ar_attestation_id = None, ar_valid_until = None\<rparr>))))"

text \<open>The gates between scope and context: operational status, semantic exclusions, assets.\<close>

definition middle_gates ::
  "engagement \<Rightarrow> test_definition \<Rightarrow> auth_request \<Rightarrow> datetime \<Rightarrow> approval list \<Rightarrow> check list \<Rightarrow>
   auth_result result" where
  "middle_gates eng test req clock approvals cs =
     (case check_program_operational_gate eng req clock of
        ((Some d, aid, until), oc) \<Rightarrow>
          Inr ((auth_stop d (cs @ oc))\<lparr>ar_attestation_id := aid, ar_valid_until := until\<rparr>)
      | ((None, aid, until), oc) \<Rightarrow>
          (case check_semantic_exclusions eng req of
             (Some d, sc) \<Rightarrow> Inr (auth_stop d (cs @ oc @ sc))
           | (None, sc) \<Rightarrow>
               rbind (check_asset_constraints eng req) (\<lambda>r.
                 case r of
                   (Some d, ac) \<Rightarrow> Inr (auth_stop d (cs @ oc @ sc @ ac))
                 | (None, ac) \<Rightarrow>
                     final_gates eng test req approvals aid until (cs @ oc @ sc @ ac))))"

definition authorize_test ::
  "engagement \<Rightarrow> test_definition \<Rightarrow> auth_request \<Rightarrow> datetime \<Rightarrow> auth_result result" where
  "authorize_test eng test req clock =
     rbind (valid_approvals eng test req clock) (\<lambda>approvals.
     rbind (matching_rules (rq_target req) (denied (eng_scope eng))) (\<lambda>den.
       if den \<noteq> [] then
         Inr (auth_stop DENY [mk_check ''target_scope'' FAIL [Txt ''Target matches an explicit deny rule.'']])
       else
         rbind (matching_rules (rq_target req) (allowed (eng_scope eng))) (\<lambda>allow.
         rbind (matching_rules (rq_target req) (approval_required (eng_scope eng))) (\<lambda>conditional.
           case scope_gate allow conditional approvals of
             (Some d, cs) \<Rightarrow> Inr (auth_stop d cs)
           | (None, cs) \<Rightarrow> middle_gates eng test req clock approvals cs))))"

definition from_evaluation_request :: "evaluation_request \<Rightarrow> auth_request" where
  "from_evaluation_request r =
     \<lparr>rq_target = ev_target r, rq_available_context = ev_available_context r, rq_approvals = [],
      rq_http_method = None, rq_identity = None, rq_rps = None, rq_excl_clears = {},
      rq_excl_matches = {}, rq_attestation = None, rq_lease = None, rq_lease_store = None, rq_now = None\<rparr>"

section \<open>Lemmas of the component\<close>

text \<open>What each gate guarantees when it lets the request pass.\<close>

lemma scope_gate_pass:
  "scope_gate allow conditional approvals = (None, cs) \<Longrightarrow>
   allow \<noteq> [] \<or> (conditional \<noteq> [] \<and> approvals \<noteq> [])"
  by (auto simp: scope_gate_def Let_def split: if_splits)

lemma scope_gate_stop: "scope_gate allow conditional approvals = (Some d, cs) \<Longrightarrow> d \<noteq> ALLOW"
  by (auto simp: scope_gate_def Let_def split: if_splits)

lemma risk_gate_pass:
  "risk_gate eng test approvals = (None, cs) \<Longrightarrow>
   decision_for (eng_methods eng) (test_risk test) \<noteq> DENY \<and>
   (decision_for (eng_methods eng) (test_risk test) = APPROVAL_REQUIRED \<longrightarrow> approvals \<noteq> [])"
  by (auto simp: risk_gate_def Let_def split: if_splits)

lemma risk_gate_stop: "risk_gate eng test approvals = (Some d, cs) \<Longrightarrow> d \<noteq> ALLOW"
  by (auto simp: risk_gate_def Let_def split: if_splits)

lemma rate_gate_pass:
  "rate_gate req effective = (True, cs) \<Longrightarrow> rq_rps req = Some r \<Longrightarrow> r \<le> effective"
  by (auto simp: rate_gate_def Let_def split: option.splits if_splits)

lemma semantic_gate_pass:
  assumes "check_semantic_exclusions eng req = (None, cs)"
    and "r \<in> set (con_exclusions (eng_constraints eng))"
  shows "excl_id r \<in> rq_excl_clears req \<and> excl_id r \<notin> rq_excl_matches req"
  using assms
  by (auto simp: check_semantic_exclusions_def Let_def filter_empty_conv split: if_splits)

lemma semantic_gate_stop: "check_semantic_exclusions eng req = (Some d, cs) \<Longrightarrow> d \<noteq> ALLOW"
  by (auto simp: check_semantic_exclusions_def Let_def split: if_splits)

lemma check_constraint_stop: "check_constraint p port m i c = Some (d, k) \<Longrightarrow> d \<noteq> ALLOW"
  by (auto simp: check_constraint_def split: if_splits)

lemma check_constraints_stop: "check_constraints p port m i cs = Some (d, k) \<Longrightarrow> d \<noteq> ALLOW"
  by (induction cs) (auto split: option.splits dest: check_constraint_stop)

lemma check_constraints_pass:
  "check_constraints p port m i cs = None \<Longrightarrow> c \<in> set cs \<Longrightarrow> check_constraint p port m i c = None"
  by (induction cs) (auto split: option.splits)

lemma check_constraint_pass:
  assumes "check_constraint path port m i c = None"
  shows "(\<forall>p \<in> set (ac_denied_paths c). \<not> path_matches path p) \<and>
      (ac_allowed_paths c = [] \<or> (\<exists>p \<in> set (ac_allowed_paths c). path_matches path p)) \<and>
      (ac_allowed_ports c = [] \<or> int port \<in> set (ac_allowed_ports c)) \<and>
      (ac_allowed_methods c = [] \<or> m \<in> Some ` set (ac_allowed_methods c)) \<and>
      (ac_allowed_identities c = [] \<or> i \<in> Some ` set (ac_allowed_identities c))"
  using assms by (auto simp: check_constraint_def split: if_splits)

lemma operational_gate_stop:
  "check_program_operational_gate eng req clock = ((Some d, aid, u), cs) \<Longrightarrow> d \<noteq> ALLOW"
  by (auto simp: check_program_operational_gate_def stale_gate_def Let_def
      split: option.splits if_splits)

lemma foldl_min_le:
  fixes x :: "'a::linorder"
  shows "foldl min x ys \<le> x \<and> (\<forall>y \<in> set ys. foldl min x ys \<le> y)"
proof (induction ys arbitrary: x)
  case Nil
  then show ?case by simp
next
  case (Cons y ys)
  from Cons.IH [of "min x y"] show ?case by auto
qed

lemma foldl_min_mem:
  fixes x :: "'a::linorder"
  shows "foldl min x ys = x \<or> foldl min x ys \<in> set ys"
proof (induction ys arbitrary: x)
  case Nil
  then show ?case by simp
next
  case (Cons y ys)
  from Cons.IH [of "min x y"] show ?case by (auto simp: min_def split: if_splits)
qed

text \<open>The only way to \<open>ALLOW\<close> is through every gate.\<close>

lemma asset_gate_stop: "check_asset_constraints eng req = Inr (Some d, cs) \<Longrightarrow> d \<noteq> ALLOW"
  by (auto simp: check_asset_constraints_def result_simps split: if_splits option.splits prod.splits
      dest: check_constraints_stop)

lemma final_gates_allow:
  assumes run: "final_gates eng test req approvals aid until cs = Inr r" and allow: "ar_decision r = ALLOW"
  shows "set (test_required_context test) \<subseteq> rq_available_context req \<and>
      (\<exists>rc. risk_gate eng test approvals = (None, rc)) \<and>
      (\<exists>effective tc. effective_rate_limit eng req approvals = Inr effective \<and>
         rate_gate req effective = (True, tc) \<and> ar_effective_rps r = Some effective) \<and>
      ar_approval_ids r = map apr_id approvals \<and> ar_attestation_id r = aid \<and> ar_valid_until r = until"
proof (cases "missing_context (test_required_context test) (rq_available_context req) = []")
  case False
  with run allow show ?thesis by (auto simp: final_gates_def auth_stop_def Let_def)
next
  case ctx: True
  obtain d rc where risk: "risk_gate eng test approvals = (d, rc)" by (cases "risk_gate eng test approvals")
  show ?thesis
  proof (cases d)
    case (Some dd)
    with run risk ctx allow show ?thesis
      by (auto simp: final_gates_def auth_stop_def Let_def dest: risk_gate_stop)
  next
    case None
    from run risk ctx None obtain e where e: "effective_rate_limit eng req approvals = Inr e"
      by (auto simp: final_gates_def Let_def result_simps)
    obtain ok tc where rate: "rate_gate req e = (ok, tc)" by (cases "rate_gate req e")
    with run risk ctx None e allow show ?thesis
      by (auto simp: final_gates_def Let_def split: if_splits)
  qed
qed

lemma middle_gates_allow:
  assumes run: "middle_gates eng test req clock approvals cs = Inr r" and allow: "ar_decision r = ALLOW"
  shows "\<exists>aid until oc sc ac cs'. check_program_operational_gate eng req clock = ((None, aid, until), oc) \<and>
      check_semantic_exclusions eng req = (None, sc) \<and> check_asset_constraints eng req = Inr (None, ac) \<and>
      final_gates eng test req approvals aid until cs' = Inr r"
proof -
  obtain d aid until oc where op: "check_program_operational_gate eng req clock = ((d, aid, until), oc)"
    by (metis prod.collapse)
  with run allow have d: "d = None"
    by (cases d) (auto simp: middle_gates_def auth_stop_def dest: operational_gate_stop)
  obtain d2 sc where sem: "check_semantic_exclusions eng req = (d2, sc)"
    by (cases "check_semantic_exclusions eng req")
  with run allow op d have d2: "d2 = None"
    by (cases d2) (auto simp: middle_gates_def auth_stop_def dest: semantic_gate_stop)
  from run op d sem d2 obtain d3 ac where asset: "check_asset_constraints eng req = Inr (d3, ac)"
    by (auto simp: middle_gates_def result_simps)
  with run allow op d sem d2 have d3: "d3 = None"
    by (cases d3) (auto simp: middle_gates_def auth_stop_def dest: asset_gate_stop)
  from run op d sem d2 asset d3
  have "final_gates eng test req approvals aid until (cs @ oc @ sc @ ac) = Inr r"
    by (simp add: middle_gates_def)
  with op d sem d2 asset d3 show ?thesis by blast
qed

lemma authorize_test_allow:
  assumes run: "authorize_test eng test req clock = Inr r" and allow: "ar_decision r = ALLOW"
  shows "\<exists>approvals al cond cs.
      valid_approvals eng test req clock = Inr approvals \<and>
      matching_rules (rq_target req) (denied (eng_scope eng)) = Inr [] \<and>
      matching_rules (rq_target req) (allowed (eng_scope eng)) = Inr al \<and>
      matching_rules (rq_target req) (approval_required (eng_scope eng)) = Inr cond \<and>
      scope_gate al cond approvals = (None, cs) \<and>
      middle_gates eng test req clock approvals cs = Inr r"
proof -
  from run obtain approvals den
    where v: "valid_approvals eng test req clock = Inr approvals"
      and den: "matching_rules (rq_target req) (denied (eng_scope eng)) = Inr den"
    by (auto simp: authorize_test_def result_simps)
  with run allow have "den = []"
    by (auto simp: authorize_test_def auth_stop_def split: if_splits)
  with run v den obtain al cond
    where a: "matching_rules (rq_target req) (allowed (eng_scope eng)) = Inr al"
      and c: "matching_rules (rq_target req) (approval_required (eng_scope eng)) = Inr cond"
    by (auto simp: authorize_test_def result_simps)
  obtain d cs where g: "scope_gate al cond approvals = (d, cs)" by (cases "scope_gate al cond approvals")
  with run allow v den a c \<open>den = []\<close> have "d = None"
    by (cases d) (auto simp: authorize_test_def auth_stop_def dest: scope_gate_stop)
  with run v den a c g \<open>den = []\<close> show ?thesis
    by (simp add: authorize_test_def)
qed

end
