(* ===== verification/Permits.thy ===== *)
theory Permits
  imports Authorization
begin

text \<open>
  \<open>src/astp/permits.py\<close>: signed execution permits. A permit binds one exact action
  (target, method, identity, rate) to the policy digest it was issued under;
  \<open>issue_execution_permit\<close> signs one only for an \<open>ALLOW\<close> decision and
  \<open>verify_execution_permit\<close> rechecks every binding. \<open>uuid4()\<close> and \<open>datetime.now(UTC)\<close> are
  the arguments \<open>uuid\<close> and \<open>clock\<close>.
\<close>

definition PERMIT_SCHEMA_VERSION :: string where
  "PERMIT_SCHEMA_VERSION = ''3''"

definition MAX_PERMIT_TTL_SECONDS :: int where
  "MAX_PERMIT_TTL_SECONDS = 900"

definition MIN_SIGNING_KEY_BYTES :: nat where
  "MIN_SIGNING_KEY_BYTES = 32"

datatype permit_check_status = PPass | PFail

record permit_check =
  pc_name :: string
  pc_status :: permit_check_status
  pc_message :: message

definition pcheck :: "string \<Rightarrow> permit_check_status \<Rightarrow> message \<Rightarrow> permit_check" where
  "pcheck n s m = \<lparr>pc_name = n, pc_status = s, pc_message = m\<rparr>"

record permit_payload =
  pp_schema_version :: string
  pp_permit_id :: string
  pp_key_id :: "string option"
  pp_issuer :: string
  pp_engagement_id :: string
  pp_test_id :: string
  pp_risk_class :: risk_class
  pp_target :: string
  pp_http_method :: "string option"
  pp_identity :: "string option"
  pp_max_rps :: rat
  pp_approval_ids :: "string list"
  pp_attestation_id :: "string option"
  pp_policy_digest :: string
  pp_issued_at :: datetime
  pp_expires_at :: datetime

text \<open>The validators of \<open>ExecutionPermitPayload\<close>.\<close>

definition mk_permit_payload :: "permit_payload \<Rightarrow> permit_payload result" where
  "mk_permit_payload p =
     rbind (require (valid_rate (pp_max_rps p)) [Txt ''rate out of range'']) (\<lambda>_.
     rbind (require (aware (pp_issued_at p) \<and> aware (pp_expires_at p))
              [Txt ''permit timestamps must include a timezone'']) (\<lambda>_.
     rbind (require (\<not> dt_le (pp_expires_at p) (pp_issued_at p))
              [Txt ''permit expires_at must be after issued_at'']) (\<lambda>_. Inr p)))"

record signed_permit =
  sp_algorithm :: string
  sp_payload :: permit_payload
  sp_signature :: string

record verification_request =
  vq_target :: string
  vq_http_method :: "string option"
  vq_identity :: "string option"
  vq_rps :: "rat option"
  vq_now :: "datetime option"

record verification_result =
  vr_valid :: bool
  vr_checks :: "permit_check list"

section \<open>Digests and signatures\<close>

definition policy_payload :: "engagement \<Rightarrow> test_definition \<Rightarrow> json" where
  "policy_payload eng test = JObj [(''engagement'', engagement_json eng), (''test'', test_json test)]"

definition policy_digest :: "engagement \<Rightarrow> test_definition \<Rightarrow> string" where
  "policy_digest eng test = sha256_hex (canonical_json (policy_payload eng test))"

definition signing_key :: "string \<Rightarrow> string result" where
  "signing_key key =
     rbind (require (\<not> length key < MIN_SIGNING_KEY_BYTES)
              [Txt ''permit signing key must contain at least '', Num (int MIN_SIGNING_KEY_BYTES), Txt '' bytes''])
       (\<lambda>_. Inr key)"

definition payload_json :: "permit_payload \<Rightarrow> json" where
  "payload_json p = JObj
     [(''schema_version'', JStr (pp_schema_version p)), (''permit_id'', JStr (pp_permit_id p)),
      (''key_id'', json_opt JStr (pp_key_id p)), (''issuer'', JStr (pp_issuer p)),
      (''engagement_id'', JStr (pp_engagement_id p)), (''test_id'', JStr (pp_test_id p)),
      (''risk_class'', JStr (risk_value (pp_risk_class p))), (''target'', JStr (pp_target p)),
      (''http_method'', json_opt JStr (pp_http_method p)), (''identity'', json_opt JStr (pp_identity p)),
      (''max_requests_per_second'', json_float (pp_max_rps p)),
      (''approval_ids'', json_strs (pp_approval_ids p)),
      (''operational_attestation_id'', json_opt JStr (pp_attestation_id p)),
      (''policy_digest'', JStr (pp_policy_digest p)),
      (''issued_at'', JStr (json_datetime (pp_issued_at p))),
      (''expires_at'', JStr (json_datetime (pp_expires_at p)))]"

text \<open>Older schema versions leave the fields they did not have out of the signed data.\<close>

definition signed_data :: "permit_payload \<Rightarrow> json" where
  "signed_data p =
     (let d0 = payload_json p;
          d1 = (if pp_schema_version p = ''1'' then json_pop ''key_id'' d0 else d0)
      in if pp_schema_version p \<in> {''1'', ''2''} then json_pop ''operational_attestation_id'' d1 else d1)"

definition permit_signature :: "permit_payload \<Rightarrow> string \<Rightarrow> string result" where
  "permit_signature p key =
     rbind (signing_key key) (\<lambda>k. Inr (hmac_sha256_hex k (canonical_json (signed_data p))))"

section \<open>Issuance\<close>

text \<open>The earlier of the TTL and the end of the operational window.\<close>

definition permit_expiry :: "datetime \<Rightarrow> int \<Rightarrow> datetime option \<Rightarrow> datetime" where
  "permit_expiry current ttl until =
     (let e0 = dt_plus current (seconds ttl)
      in case until of None \<Rightarrow> e0 | Some u \<Rightarrow> dt_min e0 u)"

definition issue_execution_permit ::
  "engagement \<Rightarrow> test_definition \<Rightarrow> auth_request \<Rightarrow> string \<Rightarrow> int \<Rightarrow> string \<Rightarrow> string \<Rightarrow>
   datetime option \<Rightarrow> string \<Rightarrow> datetime \<Rightarrow> signed_permit result" where
  "issue_execution_permit eng test req key ttl issuer key_id now uuid clock =
     rbind (authorize_test eng test req clock) (\<lambda>auth.
     rbind (require (ar_decision auth = ALLOW)
              [Txt ''execution permits can only be issued when policy evaluation returns ALLOW'']) (\<lambda>_.
     case ar_effective_rps auth of
       None \<Rightarrow> value_error ''authorization result is missing an effective rate limit''
     | Some rate \<Rightarrow>
         rbind (require (\<not> (ttl < 1 \<or> MAX_PERMIT_TTL_SECONDS < ttl))
                  [Txt ''permit TTL must be between 1 and '', Num MAX_PERMIT_TTL_SECONDS, Txt '' seconds'']) (\<lambda>_.
         let current = or_else now clock;
             expires = permit_expiry current ttl (ar_valid_until auth)
         in rbind (require (\<not> dt_le expires current)
                     [Txt ''program operational attestation expires before permit issuance'']) (\<lambda>_.
            rbind (mk_permit_payload
                     \<lparr>pp_schema_version = PERMIT_SCHEMA_VERSION, pp_permit_id = uuid,
                      pp_key_id = Some key_id, pp_issuer = issuer, pp_engagement_id = eng_id eng,
                      pp_test_id = test_id test, pp_risk_class = test_risk test,
                      pp_target = rq_target req, pp_http_method = upper_method (rq_http_method req),
                      pp_identity = rq_identity req, pp_max_rps = rate,
                      pp_approval_ids = sort (ar_approval_ids auth),
                      pp_attestation_id = ar_attestation_id auth,
                      pp_policy_digest = policy_digest eng test,
                      pp_issued_at = current, pp_expires_at = expires\<rparr>) (\<lambda>payload.
            rbind (permit_signature payload key) (\<lambda>sig.
              Inr \<lparr>sp_algorithm = ''hmac-sha256'', sp_payload = payload, sp_signature = sig\<rparr>))))))"

section \<open>Verification\<close>

datatype keys = SingleKey string | KeyRing "(string \<times> string) list"

text \<open>The key a permit is checked with, or the failed check.\<close>

definition select_key :: "permit_payload \<Rightarrow> keys \<Rightarrow> permit_check + string" where
  "select_key p ks =
     (case ks of
        SingleKey k \<Rightarrow> Inr k
      | KeyRing ring \<Rightarrow>
          (case pp_key_id p of
             None \<Rightarrow>
               (case ring of
                  [(_, k)] \<Rightarrow> Inr k
                | _ \<Rightarrow> Inl (pcheck ''key_id'' PFail
                         [Txt ''Legacy permit has no key_id and keyring is ambiguous.'']))
           | Some kid \<Rightarrow>
               (case dict_get ring kid of
                  Some k \<Rightarrow> Inr k
                | None \<Rightarrow> Inl (pcheck ''key_id'' PFail
                           [Txt ''No verification key is available for key_id '', PyRepr kid, Txt ''.'']))))"

definition rejected :: "permit_check list \<Rightarrow> verification_result" where
  "rejected cs = \<lparr>vr_valid = False, vr_checks = cs\<rparr>"

text \<open>The checks after the signature, each appended in turn; the first failure returns.\<close>

definition verify_bindings ::
  "signed_permit \<Rightarrow> engagement \<Rightarrow> test_definition \<Rightarrow> verification_request \<Rightarrow> datetime \<Rightarrow>
   permit_check list \<Rightarrow> verification_result" where
  "verify_bindings permit eng test req clock c0 =
     (let p = sp_payload permit;
          now = or_else (vq_now req) clock;
          c1 = c0 @ [pcheck ''time_window'' PPass [Txt ''Permit is inside its validity window.'']];
          c2 = c1 @ [pcheck ''policy_digest'' PPass [Txt ''Current policy matches the permit's policy digest.'']];
          c3 = c2 @ [pcheck ''action_binding'' PPass [Txt ''Requested action matches the permit binding.'']]
      in if dt_less now (pp_issued_at p) \<or> dt_le (pp_expires_at p) now then
           rejected (c0 @ [pcheck ''time_window'' PFail [Txt ''Permit is not active at the requested time.'']])
         else if pp_engagement_id p \<noteq> eng_id eng \<or> pp_test_id p \<noteq> test_id test then
           rejected (c1 @ [pcheck ''binding'' PFail [Txt ''Permit is bound to a different engagement or test.'']])
         else if pp_risk_class p \<noteq> test_risk test then
           rejected (c1 @ [pcheck ''binding'' PFail
             [Txt ''Permit risk class does not match the current test definition.'']])
         else if pp_policy_digest p \<noteq> policy_digest eng test then
           rejected (c1 @ [pcheck ''policy_digest'' PFail
             [Txt ''Current policy or test definition differs from permit issuance.'']])
         else if pp_target p \<noteq> vq_target req \<or> pp_http_method p \<noteq> upper_method (vq_http_method req)
                 \<or> pp_identity p \<noteq> vq_identity req then
           rejected (c2 @ [pcheck ''action_binding'' PFail
             [Txt ''Requested target, HTTP method, or identity differs from the permit.'']])
         else
           (case vq_rps req of
              Some r \<Rightarrow>
                if pp_max_rps p < r then
                  rejected (c3 @ [pcheck ''rate_limit'' PFail
                    [Txt ''Requested rate '', FmtG r, Txt '' req/s exceeds permit limit '',
                     FmtG (pp_max_rps p), Txt '' req/s.'']])
                else
                  \<lparr>vr_valid = True, vr_checks = c3 @ [pcheck ''rate_limit'' PPass
                    [Txt ''Requested rate is within the permit's maximum of '', FmtG (pp_max_rps p), Txt '' req/s.'']]\<rparr>
            | None \<Rightarrow>
                \<lparr>vr_valid = True, vr_checks = c3 @ [pcheck ''rate_limit'' PPass
                  [Txt ''Requested rate is within the permit's maximum of '', FmtG (pp_max_rps p), Txt '' req/s.'']]\<rparr>))"

definition verify_execution_permit ::
  "signed_permit \<Rightarrow> engagement \<Rightarrow> test_definition \<Rightarrow> verification_request \<Rightarrow> keys \<Rightarrow> datetime \<Rightarrow>
   verification_result result" where
  "verify_execution_permit permit eng test req ks clock =
     (case select_key (sp_payload permit) ks of
        Inl c \<Rightarrow> Inr (rejected [c])
      | Inr key \<Rightarrow>
          rbind (permit_signature (sp_payload permit) key) (\<lambda>expected.
            Inr (if expected \<noteq> sp_signature permit
                 then rejected [pcheck ''signature'' PFail [Txt ''Permit signature is invalid.'']]
                 else verify_bindings permit eng test req clock
                        [pcheck ''signature'' PPass [Txt ''Permit signature is valid.'']])))"

section \<open>Lemmas of the component\<close>

lemma rejected_valid [simp]: "vr_valid (rejected cs) = False"
  by (simp add: rejected_def)

lemma verify_bindings_valid:
  "vr_valid (verify_bindings permit eng test req clock c0) \<longleftrightarrow>
     (let p = sp_payload permit; now = or_else (vq_now req) clock
      in dt_us (pp_issued_at p) \<le> dt_us now \<and> dt_us now < dt_us (pp_expires_at p) \<and>
         pp_engagement_id p = eng_id eng \<and> pp_test_id p = test_id test \<and>
         pp_risk_class p = test_risk test \<and> pp_policy_digest p = policy_digest eng test \<and>
         pp_target p = vq_target req \<and> pp_http_method p = upper_method (vq_http_method req) \<and>
         pp_identity p = vq_identity req \<and>
         (\<forall>r. vq_rps req = Some r \<longrightarrow> r \<le> pp_max_rps p))"
  by (auto simp: verify_bindings_def Let_def time_simps split: option.splits)

lemma verify_valid_iff:
  assumes "verify_execution_permit permit eng test req ks clock = Inr v"
  shows "vr_valid v \<longleftrightarrow>
     (\<exists>key. select_key (sp_payload permit) ks = Inr key \<and>
        permit_signature (sp_payload permit) key = Inr (sp_signature permit) \<and>
        vr_valid (verify_bindings permit eng test req clock
          [pcheck ''signature'' PPass [Txt ''Permit signature is valid.'']]))"
  using assms
  by (auto simp: verify_execution_permit_def result_simps split: sum.splits if_splits)

lemma permit_signature_error:
  "(\<exists>e. permit_signature p key = Inl e) \<longleftrightarrow> length key < MIN_SIGNING_KEY_BYTES"
  by (auto simp: permit_signature_def signing_key_def result_simps)

lemma permit_signature_Inr:
  "permit_signature p key = Inr s \<longleftrightarrow>
     MIN_SIGNING_KEY_BYTES \<le> length key \<and> s = hmac_sha256_hex key (canonical_json (signed_data p))"
  by (auto simp: permit_signature_def signing_key_def result_simps)

text \<open>What issuance fixes.\<close>

lemma permit_expiry_le_ttl: "dt_us (permit_expiry c ttl u) \<le> dt_us c + ttl * 1000000"
  by (cases u) (auto simp: permit_expiry_def Let_def time_simps)

lemma permit_expiry_le_until: "dt_us (permit_expiry c ttl (Some u)) \<le> dt_us u"
  by (auto simp: permit_expiry_def Let_def time_simps)

lemma issue_execution_permitD:
  assumes "issue_execution_permit eng test req key ttl issuer key_id now uuid clock = Inr sp"
  shows "\<exists>auth rate.
     authorize_test eng test req clock = Inr auth \<and> ar_decision auth = ALLOW \<and>
     ar_effective_rps auth = Some rate \<and> valid_rate rate \<and> 1 \<le> ttl \<and> ttl \<le> 900 \<and>
     permit_signature (sp_payload sp) key = Inr (sp_signature sp) \<and>
     dt_us (pp_issued_at (sp_payload sp)) < dt_us (pp_expires_at (sp_payload sp)) \<and>
     sp_payload sp =
       \<lparr>pp_schema_version = ''3'', pp_permit_id = uuid, pp_key_id = Some key_id, pp_issuer = issuer,
        pp_engagement_id = eng_id eng, pp_test_id = test_id test, pp_risk_class = test_risk test,
        pp_target = rq_target req, pp_http_method = upper_method (rq_http_method req),
        pp_identity = rq_identity req, pp_max_rps = rate, pp_approval_ids = sort (ar_approval_ids auth),
        pp_attestation_id = ar_attestation_id auth, pp_policy_digest = policy_digest eng test,
        pp_issued_at = or_else now clock,
        pp_expires_at = permit_expiry (or_else now clock) ttl (ar_valid_until auth)\<rparr>"
  using assms
  by (auto simp: issue_execution_permit_def mk_permit_payload_def Let_def result_simps
      MAX_PERMIT_TTL_SECONDS_def PERMIT_SCHEMA_VERSION_def dt_le_def
      split: option.splits)

section \<open>The fields of an issued permit\<close>

lemma issue_execution_permit_fields:
  assumes "issue_execution_permit eng test req key ttl issuer key_id now uuid clock = Inr sp"
  shows "permit_signature (sp_payload sp) key = Inr (sp_signature sp)"
    "pp_key_id (sp_payload sp) = Some key_id" "pp_permit_id (sp_payload sp) = uuid"
    "pp_engagement_id (sp_payload sp) = eng_id eng"
    "pp_test_id (sp_payload sp) = test_id test" "pp_risk_class (sp_payload sp) = test_risk test"
    "pp_target (sp_payload sp) = rq_target req" "pp_identity (sp_payload sp) = rq_identity req"
    "pp_http_method (sp_payload sp) = upper_method (rq_http_method req)"
    "pp_policy_digest (sp_payload sp) = policy_digest eng test"
  using issue_execution_permitD [OF assms] by auto

section \<open>The signed data and the policy payload as JSON\<close>

lemma signed_data_wf: "json_wf (signed_data p)"
  by (simp add: signed_data_def payload_json_def Let_def)

lemma signed_data_keys: "distinct (json_keys (signed_data p))"
  by (simp add: signed_data_def payload_json_def Let_def)

lemma signed_data_get:
  "json_get ''schema_version'' (signed_data p) = Some (JStr (pp_schema_version p))"
  "json_get ''permit_id'' (signed_data p) = Some (JStr (pp_permit_id p))"
  "json_get ''engagement_id'' (signed_data p) = Some (JStr (pp_engagement_id p))"
  "json_get ''test_id'' (signed_data p) = Some (JStr (pp_test_id p))"
  "json_get ''risk_class'' (signed_data p) = Some (JStr (risk_value (pp_risk_class p)))"
  "json_get ''target'' (signed_data p) = Some (JStr (pp_target p))"
  "json_get ''http_method'' (signed_data p) = Some (json_opt JStr (pp_http_method p))"
  "json_get ''identity'' (signed_data p) = Some (json_opt JStr (pp_identity p))"
  "json_get ''policy_digest'' (signed_data p) = Some (JStr (pp_policy_digest p))"
  "json_get ''issued_at'' (signed_data p) = Some (JStr (json_datetime (pp_issued_at p)))"
  "json_get ''expires_at'' (signed_data p) = Some (JStr (json_datetime (pp_expires_at p)))"
  by (simp_all add: signed_data_def payload_json_def Let_def)

lemma engagement_json_wf: "json_wf (engagement_json e)"
  by (auto simp: engagement_json_def scope_json_def rule_json_def methods_json_def constraints_json_def
      asset_json_def redaction_json_def exclusion_json_def json_opt_def binding_json_def list_all_iff
      split: option.splits)

lemma test_json_wf: "json_wf (test_json t)"
  by (simp add: test_json_def)

text \<open>Equal policy payloads agree on what the policy engine reads first.\<close>

lemma policy_payload_determines:
  assumes "canonical_json (policy_payload eng test) = canonical_json (policy_payload eng' test')"
  shows "eng_scope eng' = eng_scope eng \<and> eng_methods eng' = eng_methods eng \<and>
    test_risk test' = test_risk test \<and> test_required_context test' = test_required_context test"
proof -
  have wf: "json_wf (policy_payload e t)" for e t
    by (simp add: policy_payload_def engagement_json_wf test_json_wf)
  have keys: "distinct (json_keys (policy_payload e t))" for e t by (simp add: policy_payload_def)
  have "map_option sort_keys (json_get k (policy_payload eng test)) =
        map_option sort_keys (json_get k (policy_payload eng' test'))" for k
    by (rule canonical_json_member [OF assms wf wf keys keys])
  from this [of "''engagement''"] this [of "''test''"]
  have j: "sort_keys (engagement_json eng) = sort_keys (engagement_json eng')"
      "sort_keys (test_json test) = sort_keys (test_json test')"
    by (simp_all add: policy_payload_def)
  have "distinct (json_keys (engagement_json e))" "distinct (json_keys (test_json t))" for e t
    by (simp_all add: engagement_json_def test_json_def)
  with j have m: "map_option sort_keys (json_get k (engagement_json eng)) =
        map_option sort_keys (json_get k (engagement_json eng'))"
      "map_option sort_keys (json_get k (test_json test)) = map_option sort_keys (json_get k (test_json test'))" for k
    by (metis json_get_sort_keys)+
  from m(1) [of "''scope''"] m(1) [of "''methods''"] m(2) [of "''risk_class''"] m(2) [of "''required_context''"]
  show ?thesis
    by (cases "eng_methods eng"; cases "eng_methods eng'")
      (auto simp: engagement_json_def test_json_def sort_keys_scope methods_json_def)
qed

end
