(* ===== verification/DetectorExecution.thy ===== *)
theory DetectorExecution
  imports Scheduler OrchestratorStore Permits Files
begin

text \<open>
  \<open>src/astp/detector_execution.py\<close>: the service that runs one detector. \<open>execute\<close> checks every
  gate, reserves the budget, issues a bounded run permit, rechecks the authority, calls the
  adapter and settles the reservation and the journal on every way out. The adapter, the
  lease validator and the journal are parameters; \<open>read_store 0\<close> and \<open>read_store 1\<close> are the
  lease store as the first and the second authority check find it.
\<close>

section \<open>Data\<close>

datatype run_status = RUN_COMPLETED | RUN_BLOCKED_BEFORE_IO | RUN_FAILED | RUN_UNKNOWN_OUTCOME

datatype proof_state =
  PS_OBSERVED | PS_SUSPECTED | PS_CANDIDATE | PS_REPRODUCED | PS_CONFIRMED | PS_IMPACT | PS_BLOCKED

text \<open>\<open>DetectorAccounting\<close>: the request counters of \<open>accounting\<close> and the byte counts.\<close>

record run_accounting = accounting +
  acc_request_bytes :: int
  acc_response_bytes :: int

definition zero_accounting :: run_accounting where
  "zero_accounting =
     \<lparr>acc_attempted = 0, acc_forwarded = 0, acc_responses = 0, acc_blocked = 0, acc_failed = 0,
      acc_unknown = 0, acc_request_bytes = 0, acc_response_bytes = 0\<rparr>"

definition validate_invariants :: "run_accounting \<Rightarrow> int \<Rightarrow> unit result" where
  "validate_invariants a limit =
     (if limit < acc_forwarded a
      then value_error ''proxy forwarded more requests than authorized''
      else if acc_attempted a \<noteq> acc_forwarded a + acc_blocked a
      then value_error ''attempted request accounting does not reconcile''
      else if acc_forwarded a \<noteq> acc_responses a + acc_failed a + acc_unknown a
      then value_error ''forwarded request accounting does not reconcile''
      else Inr ())"

record artifacts_ref =
  da_worker_receipt :: json
  da_raw_output :: "string option"
  da_evidence_ids :: "string list"

record adapter_result =
  ao_accounting :: run_accounting
  ao_artifacts :: artifacts_ref
  ao_proof_state :: proof_state
  ao_satisfied :: bool
  ao_candidate_id :: "string option"
  ao_finding_id :: "string option"
  ao_network_started :: bool
  ao_response_uncertain :: bool

record adapter_error =
  ae_category :: string
  ae_accounting :: run_accounting
  ae_network_started :: bool
  ae_retryable :: bool
  ae_blocked_before_io :: bool

text \<open>What the \<open>try\<close> block of \<open>execute\<close> can raise.\<close>

datatype run_exception = AdapterError adapter_error | OtherError py_error

record execution_request =
  xr_campaign_id :: string
  xr_campaign_active :: bool
  xr_program_id :: string
  xr_program_revision :: string
  xr_current_revision :: string
  xr_target :: string
  xr_opportunity :: opportunity
  xr_detector :: capability
  xr_runtime_id :: string
  xr_runtime_digest :: string
  xr_qualification_digest :: string
  xr_engagement :: engagement
  xr_test :: "test_definition option"
  xr_permit :: "signed_permit option"
  xr_attestation :: "attestation option"
  xr_lease :: "lease option"
  xr_store_path :: "string option"
  xr_target_in_scope :: bool
  xr_semantic_complete :: bool
  xr_policy_context :: policy_context
  xr_identity_refs :: "string list"
  xr_global_remaining :: int
  xr_program_remaining :: int
  xr_detector_remaining :: int
  xr_max_rps :: rat
  xr_proof :: proof_requirement
  xr_attempt :: int
  xr_parent_candidate :: "string option"
  xr_http_method :: string
  xr_path_prefix :: "string option"

record run_result =
  rr_run_id :: string
  rr_action_id :: string
  rr_detector_id :: string
  rr_runtime_id :: string
  rr_target :: string
  rr_status :: run_status
  rr_started_at :: datetime
  rr_finished_at :: datetime
  rr_authorization :: "signed_run_permit option"
  rr_accounting :: run_accounting
  rr_artifacts :: artifacts_ref
  rr_proof_before :: proof_state
  rr_proof_after :: proof_state
  rr_satisfied :: bool
  rr_candidate_id :: "string option"
  rr_finding_id :: "string option"
  rr_failure_category :: "string option"
  rr_retryable :: bool
  rr_message :: "message option"

section \<open>The budget store\<close>

record reservation =
  rv_campaign :: string
  rv_program :: string
  rv_detector :: string
  rv_reserved :: int
  rv_consumed :: int
  rv_state :: string

type_synonym budget_table = "(string \<times> reservation) list"

definition budget_reserve ::
  "budget_table \<Rightarrow> string \<Rightarrow> execution_request \<Rightarrow> int \<Rightarrow> (budget_table, unit) outcome" where
  "budget_reserve t run_id req amount =
     (if min (min (xr_global_remaining req) (xr_program_remaining req)) (xr_detector_remaining req) < amount
      then (value_error ''insufficient detector execution budget'', t)
      else if dict_get t run_id \<noteq> None then (Inl IntegrityError, t)
      else (Inr (), dict_set t run_id
             \<lparr>rv_campaign = xr_campaign_id req, rv_program = xr_program_id req,
              rv_detector = cap_detector_id (xr_detector req), rv_reserved = amount,
              rv_consumed = 0, rv_state = ''reserved''\<rparr>))"

text \<open>\<open>reconcile\<close> and \<open>close_failed\<close>: only an open reservation can be settled, within its amount.\<close>

definition budget_settle ::
  "budget_table \<Rightarrow> string \<Rightarrow> int \<Rightarrow> string \<Rightarrow> string \<Rightarrow> (budget_table, unit) outcome" where
  "budget_settle t run_id consumed new_state err =
     (case dict_get t run_id of
        None \<Rightarrow> (value_error err, t)
      | Some row \<Rightarrow>
          if rv_state row \<noteq> ''reserved'' \<or> rv_reserved row < consumed then (value_error err, t)
          else (Inr (), dict_set t run_id (row\<lparr>rv_consumed := consumed, rv_state := new_state\<rparr>)))"

definition budget_reconcile :: "budget_table \<Rightarrow> string \<Rightarrow> int \<Rightarrow> (budget_table, unit) outcome" where
  "budget_reconcile t run_id consumed =
     budget_settle t run_id consumed ''committed'' ''budget reservation reconciliation failed''"

definition budget_close_failed :: "budget_table \<Rightarrow> string \<Rightarrow> int \<Rightarrow> bool \<Rightarrow> (budget_table, unit) outcome" where
  "budget_close_failed t run_id consumed uncertain =
     budget_settle t run_id consumed (if uncertain then ''unknown_outcome'' else ''failed'')
       ''failed budget reservation reconciliation failed''"

section \<open>The service\<close>

record 'j journal_ops =
  jo_create_action :: "execution_request \<Rightarrow> string \<Rightarrow> 'j \<Rightarrow> ('j, unit) outcome"
  jo_authorization :: "execution_request \<Rightarrow> string \<Rightarrow> string \<Rightarrow> 'j \<Rightarrow> ('j, unit) outcome"
  jo_starting :: "execution_request \<Rightarrow> string \<Rightarrow> 'j \<Rightarrow> ('j, unit) outcome"
  jo_result :: "execution_request \<Rightarrow> run_result \<Rightarrow> 'j \<Rightarrow> ('j, unit) outcome"

type_synonym 'w adapter =
  "execution_request \<Rightarrow> signed_run_permit \<Rightarrow> 'w \<Rightarrow> (run_exception + adapter_result) \<times> 'w"

record ('j, 'w) service =
  sv_key :: string
  sv_adapters :: "(string \<times> 'w adapter) list"
  sv_journal :: "'j journal_ops option"
  sv_lease_validator :: "(execution_request \<Rightarrow> bool result) option"
  sv_read_store :: "nat \<Rightarrow> string \<Rightarrow> store_file"

text \<open>The durable state: reservations, run directories with their files, journal, outside world.\<close>

record ('j, 'w) exec_state =
  xs_budgets :: budget_table
  xs_authorizations :: "(string \<times> signed_run_permit) list"
  xs_results :: "(string \<times> run_result) list"
  xs_journal :: 'j
  xs_world :: 'w

text \<open>\<open>except (OSError, ValueError)\<close>.\<close>

fun is_os_or_value_error :: "py_error \<Rightarrow> bool" where
  "is_os_or_value_error (ValueError _) = True"
| "is_os_or_value_error (OSError _) = True"
| "is_os_or_value_error _ = False"

definition require_current_lease ::
  "(string \<Rightarrow> store_file) \<Rightarrow> execution_request \<Rightarrow> datetime \<Rightarrow> unit result" where
  "require_current_lease read req now =
     (case eng_program (xr_engagement req) of
        None \<Rightarrow> Inr ()
      | Some binding \<Rightarrow>
          if \<not> pb_requires_online binding then Inr ()
          else if pb_program_id binding \<noteq> xr_program_id req
          then value_error ''operational engagement belongs to a different program''
          else
            (case (xr_attestation req, xr_lease req, xr_store_path req) of
               (Some att, Some l, Some path) \<Rightarrow>
                 if path = [] then value_error ''real operational lease authority is required''
                 else
                   (case read path of
                      NoFile \<Rightarrow> value_error ''operational lease durable state is missing''
                    | BadFile m \<Rightarrow> Inl (ValueError m)
                    | StoreFile s \<Rightarrow>
                        rbind (require_valid_lease (open_lease_store (Some s)) l (xr_engagement req) att now)
                          (\<lambda>_. Inr ()))
             | _ \<Rightarrow> value_error ''real operational lease authority is required''))"

definition require_upstream_permit :: "string \<Rightarrow> execution_request \<Rightarrow> datetime \<Rightarrow> unit result" where
  "require_upstream_permit key req now =
     (case eng_program (xr_engagement req) of
        None \<Rightarrow> Inr ()
      | Some _ \<Rightarrow>
          (case (xr_test req, xr_permit req) of
             (Some test, Some permit) \<Rightarrow>
               rbind (require (valid_rate (xr_max_rps req)) [Txt ''rate out of range'']) (\<lambda>_.
               rbind (verify_execution_permit permit (xr_engagement req) test
                        \<lparr>vq_target = xr_target req, vq_http_method = Some (xr_http_method req),
                         vq_identity = (case xr_identity_refs req of [i] \<Rightarrow> Some i | _ \<Rightarrow> None),
                         vq_rps = Some (xr_max_rps req), vq_now = Some now\<rparr>
                        (SingleKey key) now) (\<lambda>v.
               require (vr_valid v) [Txt ''signed upstream execution permit is invalid'']))
           | _ \<Rightarrow> value_error ''signed upstream execution permit is required''))"

definition run_key :: "execution_request \<Rightarrow> string" where
  "run_key req = compact_json (JArr
     [JStr (xr_campaign_id req), JStr (xr_program_id req), JStr (xr_program_revision req),
      JStr (cap_detector_id (xr_detector req)), JStr (xr_target req), json_int (xr_attempt req)])"

definition run_digest :: "execution_request \<Rightarrow> string" where
  "run_digest req = sha256_hex (run_key req)"

definition run_id_of :: "execution_request \<Rightarrow> string" where
  "run_id_of req = ''detector-run-'' @ take 16 (run_digest req)"

definition action_id_of :: "execution_request \<Rightarrow> string" where
  "action_id_of req = ''action-'' @ take 16 (drop 16 (run_digest req))"

text \<open>The gates before any reservation, in order; a run with a blocker does no I/O.\<close>

definition authority_check :: "('j, 'w) service \<Rightarrow> nat \<Rightarrow> execution_request \<Rightarrow> datetime \<Rightarrow> unit result" where
  "authority_check svc k req now =
     rbind (require_current_lease (sv_read_store svc k) req now) (\<lambda>_.
       require_upstream_permit (sv_key svc) req now)"

definition gate_blockers :: "('j, 'w) service \<Rightarrow> execution_request \<Rightarrow> datetime \<Rightarrow> message list result" where
  "gate_blockers svc req started =
     (let decision = decide_detector (xr_detector req) (xr_policy_context req);
          block = (\<lambda>b m. if b then [m] else [])
      in rbind (case authority_check svc 0 req started of
                  Inr _ \<Rightarrow> Inr []
                | Inl e \<Rightarrow> if is_os_or_value_error e then Inr [error_text e] else Inl e) (\<lambda>authority.
         Inr (block (\<not> xr_campaign_active req) [Txt ''campaign is not active''] @
              block (xr_program_revision req \<noteq> xr_current_revision req) [Txt ''program revision changed''] @
              authority @
              block (op_detector_id (xr_opportunity req) \<noteq> cap_detector_id (xr_detector req))
                [Txt ''opportunity detector binding mismatch''] @
              block (op_program_id (xr_opportunity req) \<noteq> xr_program_id req)
                [Txt ''opportunity program binding mismatch''] @
              block (op_target (xr_opportunity req) \<noteq> xr_target req)
                [Txt ''opportunity target binding mismatch''] @
              block (\<not> dd_allowed decision) [Txt (dd_reason decision)] @
              block (\<not> xr_target_in_scope req) [Txt ''target is outside scope''] @
              block (\<not> xr_semantic_complete req) [Txt ''semantic review is incomplete''] @
              block (cap_runtime_state (xr_detector req) \<noteq> R_QUALIFIED \<or> \<not> cap_field_ready (xr_detector req))
                [Txt ''runtime is not field-ready''] @
              block (\<not> startswith (xr_runtime_digest req) ''sha256:'' \<or>
                     xr_qualification_digest req \<noteq> xr_runtime_digest req)
                [Txt ''runtime digest/qualification binding missing''] @
              block (dict_get (sv_adapters svc) (cap_detector_id (xr_detector req)) = None)
                [Txt ''typed detector adapter is unavailable''])))"

fun join_with :: "string \<Rightarrow> message list \<Rightarrow> message" where
  "join_with sep [] = []"
| "join_with sep [m] = m"
| "join_with sep (m # ms) = m @ Txt sep # join_with sep ms"

definition no_artifacts :: artifacts_ref where
  "no_artifacts = \<lparr>da_worker_receipt = JObj [], da_raw_output = None, da_evidence_ids = []\<rparr>"

text \<open>A \<open>DetectorRunResult\<close> with the fields every exit sets and the defaults of the others.\<close>

definition base_result ::
  "execution_request \<Rightarrow> run_status \<Rightarrow> datetime \<Rightarrow> datetime \<Rightarrow> signed_run_permit option \<Rightarrow> run_result" where
  "base_result req status started finished permit =
     \<lparr>rr_run_id = run_id_of req, rr_action_id = action_id_of req,
      rr_detector_id = cap_detector_id (xr_detector req), rr_runtime_id = xr_runtime_id req,
      rr_target = xr_target req, rr_status = status, rr_started_at = started,
      rr_finished_at = finished, rr_authorization = permit, rr_accounting = zero_accounting,
      rr_artifacts = no_artifacts, rr_proof_before = PS_OBSERVED, rr_proof_after = PS_OBSERVED,
      rr_satisfied = False, rr_candidate_id = None, rr_finding_id = None,
      rr_failure_category = None, rr_retryable = False, rr_message = None\<rparr>"

definition with_failure :: "run_result \<Rightarrow> string \<Rightarrow> message \<Rightarrow> run_result" where
  "with_failure r category m = r\<lparr>rr_failure_category := Some category, rr_message := Some m\<rparr>"

definition execution_ceiling :: "execution_request \<Rightarrow> int" where
  "execution_ceiling req =
     min (min (min (cap_max_requests (xr_detector req)) (xr_global_remaining req))
           (xr_program_remaining req)) (xr_detector_remaining req)"

definition lease_expiry :: "execution_request \<Rightarrow> datetime \<Rightarrow> datetime" where
  "lease_expiry req started =
     dt_min (dt_plus started (seconds 120))
       (case xr_lease req of Some l \<Rightarrow> ls_valid_until l | None \<Rightarrow> dt_plus started (seconds 120))"

definition or_slash :: "string \<Rightarrow> string" where
  "or_slash s = (if s = [] then ''/'' else s)"

definition run_permit_for ::
  "execution_request \<Rightarrow> int \<Rightarrow> datetime \<Rightarrow> string \<Rightarrow> signed_run_permit result" where
  "run_permit_for req limit started key =
     rbind (urlsplit (xr_target req)) (\<lambda>parsed.
     rbind (mk_run_permit_payload
       \<lparr>rp_permit_id = ''permit-'' @ take 20 (run_digest req), rp_campaign_id = xr_campaign_id req,
        rp_program_id = xr_program_id req, rp_program_revision = xr_program_revision req,
        rp_detector_id = cap_detector_id (xr_detector req),
        rp_operation = cap_operation (xr_detector req),
        rp_allowed_origin = url_scheme parsed @ ''://'' @ url_netloc parsed,
        rp_allowed_path_prefix =
          (case xr_path_prefix req of
             Some p \<Rightarrow> if p = [] then or_slash (url_path parsed) else p
           | None \<Rightarrow> or_slash (url_path parsed)),
        rp_allowed_methods = [xr_http_method req], rp_max_requests = limit,
        rp_max_concurrency = cap_max_concurrency (xr_detector req), rp_max_rps = xr_max_rps req,
        rp_issued_at = started, rp_expires_at = lease_expiry req started,
        rp_policy_digest = sha256_hex (compact_json (context_json (xr_policy_context req))),
        rp_semantic_digest = sha256_hex (xr_program_revision req @ '':'' @ xr_target req @ '':'' @
          (if xr_semantic_complete req then ''True'' else ''False'')),
        rp_action_id = action_id_of req, rp_detector_run_id = run_id_of req\<rparr>) (\<lambda>payload.
     Inr (issue_detector_run_permit payload key None)))"

section \<open>Effects\<close>

fun xbind :: "('e + 'a) \<times> 's \<Rightarrow> ('a \<Rightarrow> 's \<Rightarrow> ('e + 'b) \<times> 's) \<Rightarrow> ('e + 'b) \<times> 's" where
  "xbind (Inl e, s) f = (Inl e, s)"
| "xbind (Inr x, s) f = f x s"

fun as_other :: "('s, 'a) outcome \<Rightarrow> (run_exception + 'a) \<times> 's" where
  "as_other (Inl e, s) = (Inl (OtherError e), s)"
| "as_other (Inr x, s) = (Inr x, s)"

definition journal_do ::
  "('j, 'w) service \<Rightarrow> ('j journal_ops \<Rightarrow> 'j \<Rightarrow> ('j, unit) outcome) \<Rightarrow> ('j, 'w) exec_state \<Rightarrow>
   (('j, 'w) exec_state, unit) outcome" where
  "journal_do svc f st =
     (case sv_journal svc of
        None \<Rightarrow> (Inr (), st)
      | Some ops \<Rightarrow> (case f ops (xs_journal st) of (r, j) \<Rightarrow> (r, st\<lparr>xs_journal := j\<rparr>)))"

definition budget_do ::
  "(budget_table \<Rightarrow> (budget_table, unit) outcome) \<Rightarrow> ('j, 'w) exec_state \<Rightarrow>
   (('j, 'w) exec_state, unit) outcome" where
  "budget_do f st = (case f (xs_budgets st) of (r, t) \<Rightarrow> (r, st\<lparr>xs_budgets := t\<rparr>))"

text \<open>Write \<open>result.json\<close>, then tell the journal.\<close>

definition persist_and_report ::
  "('j, 'w) service \<Rightarrow> execution_request \<Rightarrow> run_result \<Rightarrow> ('j, 'w) exec_state \<Rightarrow>
   (('j, 'w) exec_state, run_result) outcome" where
  "persist_and_report svc req r st =
     obind (journal_do svc (\<lambda>ops. jo_result ops req r)
              (st\<lparr>xs_results := dict_set (xs_results st) (rr_run_id r) r\<rparr>))
       (\<lambda>_ st. (Inr r, st))"

text \<open>\<open>type(exc).__name__\<close>.\<close>

fun exception_name :: "py_error \<Rightarrow> string" where
  "exception_name (ValueError _) = ''ValueError''"
| "exception_name (TypeError _) = ''TypeError''"
| "exception_name (KeyError _) = ''KeyError''"
| "exception_name (OSError _) = ''OSError''"
| "exception_name (RuntimeError _) = ''RuntimeError''"
| "exception_name IntegrityError = ''IntegrityError''"
| "exception_name (SystemExit _) = ''SystemExit''"

section \<open>The \<open>try\<close> block and its handlers\<close>

definition lease_still_current ::
  "('j, 'w) service \<Rightarrow> execution_request \<Rightarrow> datetime \<Rightarrow> bool result" where
  "lease_still_current svc req started =
     (case rbind (authority_check svc 1 req started) (\<lambda>_.
             case sv_lease_validator svc of None \<Rightarrow> Inr True | Some v \<Rightarrow> v req) of
        Inr b \<Rightarrow> Inr b
      | Inl e \<Rightarrow> if is_os_or_value_error e then Inr False else Inl e)"

text \<open>After a successful adapter call: validate, settle, persist, report.\<close>

definition success_result ::
  "execution_request \<Rightarrow> signed_run_permit \<Rightarrow> datetime \<Rightarrow> datetime \<Rightarrow> adapter_result \<Rightarrow> run_result" where
  "success_result req permit started finished output =
     (base_result req (if ao_response_uncertain output then RUN_UNKNOWN_OUTCOME else RUN_COMPLETED)
        started finished (Some permit))
       \<lparr>rr_accounting := ao_accounting output, rr_artifacts := ao_artifacts output,
        rr_proof_before :=
          (case xr_parent_candidate req of
             Some c \<Rightarrow> if c = [] then PS_OBSERVED else PS_CANDIDATE
           | None \<Rightarrow> PS_OBSERVED),
        rr_proof_after := ao_proof_state output, rr_satisfied := ao_satisfied output,
        rr_candidate_id := ao_candidate_id output, rr_finding_id := ao_finding_id output\<rparr>"

definition settle_output ::
  "('j, 'w) service \<Rightarrow> execution_request \<Rightarrow> signed_run_permit \<Rightarrow> int \<Rightarrow> datetime \<Rightarrow> datetime \<Rightarrow>
   adapter_result \<Rightarrow> ('j, 'w) exec_state \<Rightarrow> (('j, 'w) exec_state, run_result) outcome" where
  "settle_output svc req permit limit started finished output st =
     obind (olift (validate_invariants (ao_accounting output) limit) st) (\<lambda>_ st.
     obind (budget_do (\<lambda>t.
              if ao_response_uncertain output
              then budget_close_failed t (run_id_of req) (acc_forwarded (ao_accounting output)) True
              else budget_reconcile t (run_id_of req) (acc_forwarded (ao_accounting output))) st) (\<lambda>_ st.
     persist_and_report svc req (success_result req permit started finished output) st))"

definition launch ::
  "('j, 'w) service \<Rightarrow> execution_request \<Rightarrow> 'w adapter \<Rightarrow> signed_run_permit \<Rightarrow> int \<Rightarrow> datetime \<Rightarrow> datetime \<Rightarrow>
   ('j, 'w) exec_state \<Rightarrow> (run_exception + run_result) \<times> ('j, 'w) exec_state" where
  "launch svc req adapter permit limit started finished st =
     (case lease_still_current svc req started of
        Inl e \<Rightarrow> (Inl (OtherError e), st)
      | Inr False \<Rightarrow>
          as_other (obind (budget_do (\<lambda>t. budget_close_failed t (run_id_of req) 0 False) st) (\<lambda>_ st.
            persist_and_report svc req
              (with_failure (base_result req RUN_BLOCKED_BEFORE_IO started finished (Some permit))
                 ''lease_revoked_before_launch'' [Txt ''operational lease is no longer current'']) st))
      | Inr True \<Rightarrow>
          xbind (as_other (journal_do svc (\<lambda>ops. jo_starting ops req (action_id_of req)) st)) (\<lambda>_ st.
            case adapter req permit (xs_world st) of
              (Inl exc, w) \<Rightarrow> (Inl exc, st\<lparr>xs_world := w\<rparr>)
            | (Inr output, w) \<Rightarrow>
                as_other (settle_output svc req permit limit started finished output (st\<lparr>xs_world := w\<rparr>))))"

definition handle_adapter_error ::
  "('j, 'w) service \<Rightarrow> execution_request \<Rightarrow> signed_run_permit \<Rightarrow> datetime \<Rightarrow> datetime \<Rightarrow> adapter_error \<Rightarrow>
   ('j, 'w) exec_state \<Rightarrow> (('j, 'w) exec_state, run_result) outcome" where
  "handle_adapter_error svc req permit started finished exc st =
     (let a = ae_accounting exc;
          uncertain = (ae_network_started exc \<and> acc_responses a < acc_forwarded a)
      in obind (budget_do (\<lambda>t. budget_close_failed t (run_id_of req) (acc_forwarded a) uncertain) st) (\<lambda>_ st.
         let status = (if uncertain then RUN_UNKNOWN_OUTCOME
                       else if ae_blocked_before_io exc then RUN_BLOCKED_BEFORE_IO else RUN_FAILED);
             r = (with_failure (base_result req status started finished (Some permit))
                    (ae_category exc) [Txt (ae_category exc)])
                   \<lparr>rr_accounting := a, rr_retryable := ae_retryable exc \<and> \<not> uncertain\<rparr>
         in persist_and_report svc req r st))"

definition handle_other_error ::
  "('j, 'w) service \<Rightarrow> execution_request \<Rightarrow> signed_run_permit \<Rightarrow> datetime \<Rightarrow> datetime \<Rightarrow> py_error \<Rightarrow>
   ('j, 'w) exec_state \<Rightarrow> (('j, 'w) exec_state, run_result) outcome" where
  "handle_other_error svc req permit started finished e st =
     obind (budget_do (\<lambda>t. budget_close_failed t (run_id_of req) 0 True) st) (\<lambda>_ st.
       persist_and_report svc req
         (with_failure (base_result req RUN_UNKNOWN_OUTCOME started finished (Some permit))
            ''adapter_failure'' [Txt (exception_name e)]) st)"

definition run_guarded ::
  "('j, 'w) service \<Rightarrow> execution_request \<Rightarrow> 'w adapter \<Rightarrow> signed_run_permit \<Rightarrow> int \<Rightarrow> datetime \<Rightarrow> datetime \<Rightarrow>
   ('j, 'w) exec_state \<Rightarrow> (('j, 'w) exec_state, run_result) outcome" where
  "run_guarded svc req adapter permit limit started finished st =
     (case launch svc req adapter permit limit started finished st of
        (Inr r, st) \<Rightarrow> (Inr r, st)
      | (Inl (AdapterError exc), st) \<Rightarrow> handle_adapter_error svc req permit started finished exc st
      | (Inl (OtherError e), st) \<Rightarrow> handle_other_error svc req permit started finished e st)"

text \<open>Reserve, create the action, issue and store the permit, tell the journal.\<close>

definition prepare_run ::
  "('j, 'w) service \<Rightarrow> execution_request \<Rightarrow> int \<Rightarrow> datetime \<Rightarrow> ('j, 'w) exec_state \<Rightarrow>
   (('j, 'w) exec_state, signed_run_permit) outcome" where
  "prepare_run svc req limit started st =
     obind (budget_do (\<lambda>t. budget_reserve t (run_id_of req) req limit) st) (\<lambda>_ st.
     obind (journal_do svc (\<lambda>ops. jo_create_action ops req (action_id_of req)) st) (\<lambda>_ st.
     obind (olift (run_permit_for req limit started (sv_key svc)) st) (\<lambda>permit st.
     obind (if dict_get (xs_authorizations st) (run_id_of req) \<noteq> None
            then (Inl (OSError [Txt ''File exists'']), st)
            else (Inr (), st\<lparr>xs_authorizations := dict_set (xs_authorizations st) (run_id_of req) permit\<rparr>))
       (\<lambda>_ st.
     obind (journal_do svc (\<lambda>ops. jo_authorization ops req (action_id_of req)
              (rp_permit_id (sr_payload permit))) st) (\<lambda>_ st.
     (Inr permit, st))))))"

definition execute ::
  "('j, 'w) service \<Rightarrow> execution_request \<Rightarrow> datetime option \<Rightarrow> datetime \<Rightarrow> datetime \<Rightarrow>
   ('j, 'w) exec_state \<Rightarrow> (('j, 'w) exec_state, run_result) outcome" where
  "execute svc req now clock finished st =
     (let started = or_else now clock; limit = execution_ceiling req
      in obind (olift (gate_blockers svc req started) st) (\<lambda>blockers st.
         case (blockers, dict_get (sv_adapters svc) (cap_detector_id (xr_detector req))) of
           ([], Some adapter) \<Rightarrow>
             if limit \<le> 0 then
               (Inr (with_failure (base_result req RUN_BLOCKED_BEFORE_IO started finished None)
                  ''budget'' [Txt ''no request budget remains'']), st)
             else
               obind (prepare_run svc req limit started st) (\<lambda>permit st.
                 run_guarded svc req adapter permit limit started finished st)
         | _ \<Rightarrow>
             (Inr (with_failure (base_result req RUN_BLOCKED_BEFORE_IO started finished None)
                ''pre_io_gate'' (join_with ''; '' blockers)), st)))"

section \<open>Lemmas: the gates\<close>

lemma os_or_value_text: "(if is_os_or_value_error e then Inr [error_text e] else Inl e) = Inr xs \<Longrightarrow> xs \<noteq> []"
  by (auto split: if_splits)

lemma gate_blockers_Nil:
  assumes "gate_blockers svc req started = Inr []"
  shows "authority_check svc 0 req started = Inr () \<and> xr_campaign_active req \<and>
    xr_program_revision req = xr_current_revision req \<and>
    op_detector_id (xr_opportunity req) = cap_detector_id (xr_detector req) \<and>
    op_program_id (xr_opportunity req) = xr_program_id req \<and>
    op_target (xr_opportunity req) = xr_target req \<and>
    dd_allowed (decide_detector (xr_detector req) (xr_policy_context req)) \<and>
    xr_target_in_scope req \<and> xr_semantic_complete req \<and>
    cap_runtime_state (xr_detector req) = R_QUALIFIED \<and> cap_field_ready (xr_detector req) \<and>
    startswith (xr_runtime_digest req) ''sha256:'' \<and>
    xr_qualification_digest req = xr_runtime_digest req"
  using assms
  by (cases "authority_check svc 0 req started")
    (auto simp: gate_blockers_def Let_def result_simps dest: os_or_value_text split: if_splits)

lemma require_current_leaseD:
  assumes "require_current_lease read req now = Inr ()" "eng_program (xr_engagement req) = Some b"
    "pb_requires_online b"
  shows "\<exists>att l path s. xr_attestation req = Some att \<and> xr_lease req = Some l \<and>
    xr_store_path req = Some path \<and> read path = StoreFile s \<and> pb_program_id b = xr_program_id req \<and>
    require_valid_lease (open_lease_store (Some s)) l (xr_engagement req) att now = Inr ()"
  using assms
  by (auto simp: require_current_lease_def result_simps split: option.splits store_file.splits if_splits)

lemma require_upstream_permitD:
  assumes "require_upstream_permit key req now = Inr ()" "eng_program (xr_engagement req) = Some b"
  shows "\<exists>test permit v. xr_test req = Some test \<and> xr_permit req = Some permit \<and>
    verify_execution_permit permit (xr_engagement req) test
      \<lparr>vq_target = xr_target req, vq_http_method = Some (xr_http_method req),
       vq_identity = (case xr_identity_refs req of [i] \<Rightarrow> Some i | _ \<Rightarrow> None),
       vq_rps = Some (xr_max_rps req), vq_now = Some now\<rparr> (SingleKey key) now = Inr v \<and> vr_valid v"
  using assms by (auto simp: require_upstream_permit_def result_simps split: option.splits)

lemma run_permit_forD:
  assumes "run_permit_for req limit started key = Inr sp"
  shows "rp_max_requests (sr_payload sp) = limit \<and> 1 \<le> limit \<and> limit \<le> 10000 \<and>
    rp_max_rps (sr_payload sp) = xr_max_rps req \<and> 0 < xr_max_rps req \<and> xr_max_rps req \<le> 100 \<and>
    rp_allowed_methods (sr_payload sp) = [xr_http_method req] \<and>
    rp_issued_at (sr_payload sp) = started \<and> rp_expires_at (sr_payload sp) = lease_expiry req started \<and>
    rp_detector_run_id (sr_payload sp) = run_id_of req \<and> rp_action_id (sr_payload sp) = action_id_of req \<and>
    rp_detector_id (sr_payload sp) = cap_detector_id (xr_detector req) \<and>
    sr_signature sp = run_permit_mac key (sr_payload sp)"
  using assms
  by (auto simp: run_permit_for_def mk_run_permit_payload_def result_simps issue_run_permit_payload)

lemma lease_expiry_le:
  "dt_us (lease_expiry req started) \<le> dt_us started + 120000000"
  "xr_lease req = Some l \<Longrightarrow> dt_us (lease_expiry req started) \<le> dt_us (ls_valid_until l)"
  by (auto simp: lease_expiry_def seconds_def)

lemma execution_ceiling_le:
  "execution_ceiling req \<le> cap_max_requests (xr_detector req)"
  "execution_ceiling req \<le> xr_global_remaining req"
  "execution_ceiling req \<le> xr_program_remaining req"
  "execution_ceiling req \<le> xr_detector_remaining req"
  by (auto simp: execution_ceiling_def)

section \<open>Lemmas: the budget\<close>

definition open_row :: "budget_table \<Rightarrow> string \<Rightarrow> int \<Rightarrow> bool" where
  "open_row t rid amount \<longleftrightarrow>
     (\<exists>row. dict_get t rid = Some row \<and> rv_state row = ''reserved'' \<and> rv_reserved row = amount)"

definition settled_row :: "budget_table \<Rightarrow> string \<Rightarrow> int \<Rightarrow> bool" where
  "settled_row t rid amount \<longleftrightarrow>
     (\<exists>row. dict_get t rid = Some row \<and> rv_state row \<in> {''committed'', ''failed'', ''unknown_outcome''} \<and>
        rv_reserved row = amount \<and> rv_consumed row \<le> amount)"

definition same_others :: "string \<Rightarrow> budget_table \<Rightarrow> budget_table \<Rightarrow> bool" where
  "same_others rid t t' \<longleftrightarrow> (\<forall>q. q \<noteq> rid \<longrightarrow> dict_get t' q = dict_get t q)"

lemma same_others_refl [simp]: "same_others rid t t"
  by (simp add: same_others_def)

lemma same_others_trans: "same_others rid t t' \<Longrightarrow> same_others rid t' t'' \<Longrightarrow> same_others rid t t''"
  by (simp add: same_others_def)

lemma settled_not_open: "settled_row t rid a \<Longrightarrow> \<not> open_row t rid b"
  by (auto simp: settled_row_def open_row_def)

lemma budget_settle_cases:
  assumes "budget_settle t rid c s err = (r, t')" "s \<in> {''committed'', ''failed'', ''unknown_outcome''}"
  shows "(\<exists>e. r = Inl e \<and> t' = t) \<or> (r = Inr () \<and> (\<exists>a. open_row t rid a \<and> settled_row t' rid a) \<and> same_others rid t t')"
  using assms
  by (auto simp: budget_settle_def open_row_def settled_row_def same_others_def split: option.splits if_splits)

lemma close_failed_cases:
  assumes "budget_close_failed t rid c u = (r, t')"
  shows "(\<exists>e. r = Inl e \<and> t' = t) \<or> (r = Inr () \<and> (\<exists>a. open_row t rid a \<and> settled_row t' rid a) \<and> same_others rid t t')"
  by (rule budget_settle_cases [OF assms [unfolded budget_close_failed_def]]) simp

lemma reconcile_cases:
  assumes "budget_reconcile t rid c = (r, t')"
  shows "(\<exists>e. r = Inl e \<and> t' = t) \<or> (r = Inr () \<and> (\<exists>a. open_row t rid a \<and> settled_row t' rid a) \<and> same_others rid t t')"
  by (rule budget_settle_cases [OF assms [unfolded budget_reconcile_def]]) simp

lemma open_row_unique: "open_row t rid a \<Longrightarrow> open_row t rid b \<Longrightarrow> a = b"
  by (auto simp: open_row_def)

lemma budget_do_cases:
  assumes "budget_do f st = (r, st')" "f (xs_budgets st) = (q, t)"
  shows "r = q \<and> st' = st\<lparr>xs_budgets := t\<rparr>"
  using assms by (auto simp: budget_do_def)

lemma journal_do_frame:
  assumes "journal_do svc f st = (r, st')"
  shows "xs_budgets st' = xs_budgets st \<and> xs_world st' = xs_world st \<and>
    xs_authorizations st' = xs_authorizations st \<and> xs_results st' = xs_results st"
  using assms by (auto simp: journal_do_def split: option.splits prod.splits)

lemma persist_frame:
  assumes "persist_and_report svc req r st = (q, st')"
  shows "xs_budgets st' = xs_budgets st \<and> (\<forall>r'. q = Inr r' \<longrightarrow> r' = r)"
proof -
  obtain u s where j: "journal_do svc (\<lambda>ops. jo_result ops req r)
      (st\<lparr>xs_results := dict_set (xs_results st) (rr_run_id r) r\<rparr>) = (u, s)" by fastforce
  from journal_do_frame [OF j] assms j show ?thesis
    by (cases u) (auto simp: persist_and_report_def)
qed

text \<open>\<open>f\<close> settles the reservation of \<open>rid\<close> or fails without an effect.\<close>

definition settles :: "string \<Rightarrow> (budget_table \<Rightarrow> (budget_table, unit) outcome) \<Rightarrow> bool" where
  "settles rid f \<longleftrightarrow> (\<forall>t r t'. f t = (r, t') \<longrightarrow>
     (\<exists>e. r = Inl e \<and> t' = t) \<or>
     (r = Inr () \<and> (\<exists>a. open_row t rid a \<and> settled_row t' rid a) \<and> same_others rid t t'))"

lemma settles_close [simp]: "settles rid (\<lambda>t. budget_close_failed t rid c u)"
  unfolding settles_def using close_failed_cases by blast

lemma settles_reconcile [simp]: "settles rid (\<lambda>t. budget_reconcile t rid c)"
  unfolding settles_def using reconcile_cases by blast

lemma settles_if [simp]: "settles rid f \<Longrightarrow> settles rid g \<Longrightarrow> settles rid (\<lambda>t. if b then f t else g t)"
  by (cases b) simp_all

text \<open>The effect of a part of a run on the budget: it may settle its own reservation, nothing else.\<close>

definition settle_effect :: "string \<Rightarrow> budget_table \<Rightarrow> budget_table \<Rightarrow> bool \<Rightarrow> bool" where
  "settle_effect rid t t' done \<longleftrightarrow>
     same_others rid t t' \<and>
     ((t' = t \<and> \<not> done) \<or> (\<exists>a. open_row t rid a \<and> settled_row t' rid a))"

lemma settle_then_persist:
  assumes "settles rid f" "obind (budget_do f st) (\<lambda>_ st. persist_and_report svc req r st) = (q, st')"
  shows "settle_effect rid (xs_budgets st) (xs_budgets st') (\<exists>r'. q = Inr r') \<and>
    (\<forall>r'. q = Inr r' \<longrightarrow> r' = r)"
proof -
  obtain u t where f: "f (xs_budgets st) = (u, t)" by fastforce
  then have bd: "budget_do f st = (u, st\<lparr>xs_budgets := t\<rparr>)" by (simp add: budget_do_def)
  from assms(1) f have c: "(\<exists>e. u = Inl e \<and> t = xs_budgets st) \<or>
      (u = Inr () \<and> (\<exists>a. open_row (xs_budgets st) rid a \<and> settled_row t rid a) \<and>
       same_others rid (xs_budgets st) t)"
    unfolding settles_def by blast
  then show ?thesis
  proof (elim disjE exE conjE)
    fix e assume "u = Inl e" "t = xs_budgets st"
    with bd assms(2) show ?thesis by (auto simp: settle_effect_def)
  next
    fix a assume u: "u = Inr ()" "open_row (xs_budgets st) rid a" "settled_row t rid a"
      "same_others rid (xs_budgets st) t"
    with bd assms(2) have "persist_and_report svc req r (st\<lparr>xs_budgets := t\<rparr>) = (q, st')" by simp
    from persist_frame [OF this] u show ?thesis by (auto simp: settle_effect_def)
  qed
qed

lemma success_result_fields [simp]:
  "rr_accounting (success_result req permit started finished out) = ao_accounting out"
  "rr_authorization (success_result req permit started finished out) = Some permit"
  "rr_action_id (success_result req permit started finished out) = action_id_of req"
  "rr_status (success_result req permit started finished out) =
     (if ao_response_uncertain out then RUN_UNKNOWN_OUTCOME else RUN_COMPLETED)"
  by (simp_all add: success_result_def base_result_def)

lemma settle_output_effect:
  assumes "settle_output svc req permit limit started finished out st = (q, st')"
  shows "settle_effect (run_id_of req) (xs_budgets st) (xs_budgets st') (\<exists>r. q = Inr r) \<and>
    (\<forall>r. q = Inr r \<longrightarrow> validate_invariants (ao_accounting out) limit = Inr () \<and>
       r = success_result req permit started finished out)"
proof (cases "validate_invariants (ao_accounting out) limit")
  case (Inl e)
  with assms show ?thesis by (auto simp: settle_output_def settle_effect_def)
next
  case (Inr u)
  from assms have o: "obind (budget_do (\<lambda>t.
              if ao_response_uncertain out
              then budget_close_failed t (run_id_of req) (acc_forwarded (ao_accounting out)) True
              else budget_reconcile t (run_id_of req) (acc_forwarded (ao_accounting out))) st) (\<lambda>_ st.
     persist_and_report svc req (success_result req permit started finished out) st) = (q, st')"
    by (simp add: settle_output_def Inr)
  have s: "settles (run_id_of req) (\<lambda>t.
              if ao_response_uncertain out
              then budget_close_failed t (run_id_of req) (acc_forwarded (ao_accounting out)) True
              else budget_reconcile t (run_id_of req) (acc_forwarded (ao_accounting out)))"
    by (rule settles_if) simp_all
  from settle_then_persist [OF s o] Inr show ?thesis by simp
qed

lemma launch_effect:
  assumes "launch svc req adapter permit limit started finished st = (q, st')"
  shows "settle_effect (run_id_of req) (xs_budgets st) (xs_budgets st') (\<exists>r. q = Inr r)"
proof (cases "lease_still_current svc req started")
  case (Inl e)
  with assms show ?thesis by (auto simp: launch_def settle_effect_def)
next
  case (Inr b)
  show ?thesis
  proof (cases b)
    case False
    obtain u s where o: "obind (budget_do (\<lambda>t. budget_close_failed t (run_id_of req) 0 False) st) (\<lambda>_ st.
        persist_and_report svc req
          (with_failure (base_result req RUN_BLOCKED_BEFORE_IO started finished (Some permit))
             ''lease_revoked_before_launch'' [Txt ''operational lease is no longer current'']) st) = (u, s)"
      by fastforce
    from settle_then_persist [OF settles_close o] Inr False o assms show ?thesis
      by (cases u) (auto simp: launch_def)
  next
    case True
    obtain u s where j: "journal_do svc (\<lambda>ops. jo_starting ops req (action_id_of req)) st = (u, s)"
      by fastforce
    note fr = journal_do_frame [OF j]
    obtain v w where ad: "adapter req permit (xs_world s) = (v, w)" by fastforce
    show ?thesis
    proof (cases u)
      case (Inl e)
      with Inr True j fr assms show ?thesis by (auto simp: launch_def settle_effect_def)
    next
      case u: (Inr x)
      show ?thesis
      proof (cases v)
        case (Inl exc)
        with Inr True j fr u ad assms show ?thesis by (auto simp: launch_def settle_effect_def)
      next
        case v: (Inr out)
        obtain y z where so: "settle_output svc req permit limit started finished out (s\<lparr>xs_world := w\<rparr>) = (y, z)"
          by fastforce
        from settle_output_effect [OF so] Inr True j fr u ad v so assms show ?thesis
          by (cases y) (auto simp: launch_def)
      qed
    qed
  qed
qed

lemma settle_effect_open_then:
  assumes "settle_effect rid t t' False" "settle_effect rid t' t'' True" "open_row t rid a"
  shows "settled_row t'' rid a \<and> same_others rid t t''"
proof -
  from assms(2) obtain b where b: "open_row t' rid b" "settled_row t'' rid b" "same_others rid t' t''"
    by (auto simp: settle_effect_def)
  from b(1) have "\<not> settled_row t' rid c" for c using settled_not_open by blast
  with assms(1) have "t' = t" by (auto simp: settle_effect_def)
  with b assms(3) open_row_unique show ?thesis by blast
qed

text \<open>A run that returns has settled its reservation.\<close>

lemma run_guarded_settles:
  assumes "run_guarded svc req adapter permit limit started finished st = (Inr r, st')"
    and "open_row (xs_budgets st) (run_id_of req) a"
  shows "settled_row (xs_budgets st') (run_id_of req) a \<and>
    same_others (run_id_of req) (xs_budgets st) (xs_budgets st')"
proof -
  obtain q s where l: "launch svc req adapter permit limit started finished st = (q, s)" by fastforce
  note eff = launch_effect [OF l]
  show ?thesis
  proof (cases q)
    case (Inr r')
    with eff l assms open_row_unique show ?thesis
      by (auto simp: run_guarded_def settle_effect_def)
  next
    case (Inl exc)
    with eff have e1: "settle_effect (run_id_of req) (xs_budgets st) (xs_budgets s) False" by simp
    show ?thesis
    proof (cases exc)
      case (AdapterError ex)
      with l Inl assms(1) have h: "handle_adapter_error svc req permit started finished ex s = (Inr r, st')"
        by (simp add: run_guarded_def)
      from settle_then_persist [OF settles_close h [unfolded handle_adapter_error_def Let_def]]
      show ?thesis using settle_effect_open_then [OF e1 _ assms(2)] by simp
    next
      case (OtherError ex)
      with l Inl assms(1) have h: "handle_other_error svc req permit started finished ex s = (Inr r, st')"
        by (simp add: run_guarded_def)
      from settle_then_persist [OF settles_close h [unfolded handle_other_error_def]]
      show ?thesis using settle_effect_open_then [OF e1 _ assms(2)] by simp
    qed
  qed
qed

lemma budget_reserve_Inr:
  "budget_reserve t rid req n = (Inr (), t') \<Longrightarrow>
   dict_get t rid = None \<and> open_row t' rid n \<and> same_others rid t t' \<and>
   n \<le> xr_global_remaining req \<and> n \<le> xr_program_remaining req \<and> n \<le> xr_detector_remaining req"
  by (auto simp: budget_reserve_def open_row_def same_others_def split: if_splits)

lemma prepare_runD:
  assumes "prepare_run svc req limit started st = (Inr permit, st')"
  shows "open_row (xs_budgets st') (run_id_of req) limit \<and>
    same_others (run_id_of req) (xs_budgets st) (xs_budgets st') \<and>
    dict_get (xs_budgets st) (run_id_of req) = None \<and>
    run_permit_for req limit started (sv_key svc) = Inr permit \<and> xs_world st' = xs_world st"
  using assms
  by (auto simp: prepare_run_def result_simps budget_do_def split: if_splits prod.splits
      dest!: budget_reserve_Inr journal_do_frame)

text \<open>The ways a call of \<open>execute\<close> returns: stopped by a gate, or a run under a signed permit.\<close>

lemma execute_returns:
  assumes "execute svc req now clock finished st = (Inr r, st')"
  obtains (stopped) "st' = st" "rr_status r = RUN_BLOCKED_BEFORE_IO" "rr_authorization r = None"
  | (ran) adapter permit st1 where
      "gate_blockers svc req (or_else now clock) = Inr []" "0 < execution_ceiling req"
      "dict_get (sv_adapters svc) (cap_detector_id (xr_detector req)) = Some adapter"
      "prepare_run svc req (execution_ceiling req) (or_else now clock) st = (Inr permit, st1)"
      "run_guarded svc req adapter permit (execution_ceiling req) (or_else now clock) finished st1 = (Inr r, st')"
proof -
  from assms obtain bs where bs: "gate_blockers svc req (or_else now clock) = Inr bs"
    by (auto simp: execute_def Let_def result_simps)
  let ?ad = "dict_get (sv_adapters svc) (cap_detector_id (xr_detector req))"
  consider (blocked) "bs \<noteq> [] \<or> ?ad = None" | (go) adapter where "bs = []" "?ad = Some adapter"
    by (cases ?ad) auto
  then show ?thesis
  proof cases
    case blocked
    with assms bs show ?thesis
      by (intro stopped)
        (auto simp: execute_def Let_def with_failure_def base_result_def split: list.splits option.splits)
  next
    case go
    show ?thesis
    proof (cases "execution_ceiling req \<le> 0")
      case True
      with assms bs go show ?thesis
        by (intro stopped) (auto simp: execute_def Let_def with_failure_def base_result_def)
    next
      case False
      with assms bs go have "obind (prepare_run svc req (execution_ceiling req) (or_else now clock) st)
          (\<lambda>permit st. run_guarded svc req adapter permit (execution_ceiling req) (or_else now clock) finished st)
          = (Inr r, st')"
        by (simp add: execute_def Let_def)
      then obtain permit st1 where
        "prepare_run svc req (execution_ceiling req) (or_else now clock) st = (Inr permit, st1)"
        "run_guarded svc req adapter permit (execution_ceiling req) (or_else now clock) finished st1 = (Inr r, st')"
        by (auto simp: result_simps)
      with False bs go show ?thesis by (intro ran) auto
    qed
  qed
qed

section \<open>Lemmas: the recheck, replays and the settled results\<close>

text \<open>A request whose run identifier has a reservation, open or settled, never reaches the adapter.\<close>

lemma prepare_run_replay:
  assumes "dict_get (xs_budgets st) (run_id_of req) \<noteq> None"
  shows "\<exists>e. prepare_run svc req limit started st = (Inl e, st)"
  using assms by (auto simp: prepare_run_def budget_do_def budget_reserve_def)

lemma execute_replay:
  assumes "dict_get (xs_budgets st) (run_id_of req) \<noteq> None" "execute svc req now clock finished st = (q, st')"
  shows "st' = st \<and> (\<forall>r. q = Inr r \<longrightarrow> rr_authorization r = None)"
proof -
  obtain e where e: "prepare_run svc req (execution_ceiling req) (or_else now clock) st = (Inl e, st)"
    using prepare_run_replay [OF assms(1)] by blast
  show ?thesis
  proof (cases "gate_blockers svc req (or_else now clock)")
    case (Inl x)
    with assms(2) show ?thesis by (auto simp: execute_def Let_def)
  next
    case (Inr bs)
    with assms(2) e show ?thesis
      by (auto simp: execute_def Let_def with_failure_def base_result_def
          split: list.splits option.splits if_splits)
  qed
qed

text \<open>The adapter's own accounting is what a completed or uncertain run reports, and it balances.\<close>

lemma validate_invariants_ok:
  "validate_invariants a limit = Inr u \<longleftrightarrow>
     acc_forwarded a \<le> limit \<and> acc_attempted a = acc_forwarded a + acc_blocked a \<and>
     acc_forwarded a = acc_responses a + acc_failed a + acc_unknown a"
  by (auto simp: validate_invariants_def)

lemma launch_completed:
  assumes "launch svc req adapter permit limit started finished st = (Inr r, st')"
    and "rr_status r = RUN_COMPLETED"
  shows "lease_still_current svc req started = Inr True \<and>
    (\<exists>out. validate_invariants (ao_accounting out) limit = Inr () \<and>
       r = success_result req permit started finished out)"
proof (cases "lease_still_current svc req started")
  case (Inl e)
  with assms show ?thesis by (auto simp: launch_def)
next
  case (Inr b)
  show ?thesis
  proof (cases b)
    case False
    obtain u s where o: "obind (budget_do (\<lambda>t. budget_close_failed t (run_id_of req) 0 False) st) (\<lambda>_ st.
        persist_and_report svc req
          (with_failure (base_result req RUN_BLOCKED_BEFORE_IO started finished (Some permit))
             ''lease_revoked_before_launch'' [Txt ''operational lease is no longer current'']) st) = (u, s)"
      by fastforce
    from settle_then_persist [OF settles_close o] Inr False o assms show ?thesis
      by (cases u) (auto simp: launch_def with_failure_def base_result_def)
  next
    case True
    obtain u s where j: "journal_do svc (\<lambda>ops. jo_starting ops req (action_id_of req)) st = (u, s)"
      by fastforce
    obtain v w where ad: "adapter req permit (xs_world s) = (v, w)" by fastforce
    show ?thesis
    proof (cases u)
      case u: (Inr x)
      show ?thesis
      proof (cases v)
        case v: (Inr out)
        obtain y z where so: "settle_output svc req permit limit started finished out (s\<lparr>xs_world := w\<rparr>) = (y, z)"
          by fastforce
        from settle_output_effect [OF so] Inr True j u ad v so assms show ?thesis
          by (cases y) (auto simp: launch_def)
      qed (use Inr True j u ad assms in \<open>auto simp: launch_def\<close>)
    qed (use Inr True j assms in \<open>auto simp: launch_def\<close>)
  qed
qed

lemma launch_result:
  assumes "launch svc req adapter permit limit started finished st = (Inr r, st')"
  shows "rr_authorization r = Some permit \<and> rr_action_id r = action_id_of req"
proof -
  have as: "as_other x = (Inr y, s) \<longleftrightarrow> x = (Inr y, s)"
    for x :: "(('j, 'w) exec_state, run_result) outcome" and y s
    by (cases x; cases "fst x") auto
  consider (stale) "obind (budget_do (\<lambda>t. budget_close_failed t (run_id_of req) 0 False) st) (\<lambda>_ st.
        persist_and_report svc req
          (with_failure (base_result req RUN_BLOCKED_BEFORE_IO started finished (Some permit))
             ''lease_revoked_before_launch'' [Txt ''operational lease is no longer current'']) st) = (Inr r, st')"
    | (settled) out s where "settle_output svc req permit limit started finished out s = (Inr r, st')"
    using assms
    by (cases "journal_do svc (\<lambda>ops. jo_starting ops req (action_id_of req)) st";
        cases "fst (journal_do svc (\<lambda>ops. jo_starting ops req (action_id_of req)) st)")
      (auto simp: launch_def as split: sum.splits bool.splits prod.splits)
  then show ?thesis
  proof cases
    case stale
    from settle_then_persist [OF settles_close stale] show ?thesis
      by (simp add: with_failure_def base_result_def)
  next
    case settled
    from settle_output_effect [OF settled] show ?thesis by simp
  qed
qed

lemma adapter_error_status:
  assumes "handle_adapter_error svc req permit started finished ex st = (Inr r, st')"
  shows "rr_status r \<noteq> RUN_COMPLETED"
proof -
  have "rr_status r =
     (if ae_network_started ex \<and> acc_responses (ae_accounting ex) < acc_forwarded (ae_accounting ex)
      then RUN_UNKNOWN_OUTCOME
      else if ae_blocked_before_io ex then RUN_BLOCKED_BEFORE_IO else RUN_FAILED)"
    using settle_then_persist [OF settles_close assms [unfolded handle_adapter_error_def Let_def]]
    by (simp add: with_failure_def base_result_def)
  then show ?thesis by simp
qed

lemma other_error_status:
  assumes "handle_other_error svc req permit started finished e st = (Inr r, st')"
  shows "rr_status r = RUN_UNKNOWN_OUTCOME"
  using settle_then_persist [OF settles_close assms [unfolded handle_other_error_def]]
  by (simp add: with_failure_def base_result_def)

lemma run_guarded_completed:
  assumes "run_guarded svc req adapter permit limit started finished st = (Inr r, st')"
    and "rr_status r = RUN_COMPLETED"
  shows "lease_still_current svc req started = Inr True \<and> rr_authorization r = Some permit \<and>
    validate_invariants (rr_accounting r) limit = Inr ()"
proof -
  obtain q s where l: "launch svc req adapter permit limit started finished st = (q, s)" by fastforce
  show ?thesis
  proof (cases q)
    case (Inr r')
    with l assms have "launch svc req adapter permit limit started finished st = (Inr r, st')"
      by (simp add: run_guarded_def)
    from launch_completed [OF this assms(2)] show ?thesis by auto
  next
    case (Inl exc)
    have "rr_status r \<noteq> RUN_COMPLETED"
    proof (cases exc)
      case (AdapterError ex)
      with l Inl assms(1) show ?thesis
        by (intro adapter_error_status) (simp add: run_guarded_def)
    next
      case (OtherError e)
      with l Inl assms(1) have "handle_other_error svc req permit started finished e s = (Inr r, st')"
        by (simp add: run_guarded_def)
      from other_error_status [OF this] show ?thesis by simp
    qed
    with assms(2) show ?thesis by simp
  qed
qed

text \<open>The result of a run names the permit the run was prepared with.\<close>

lemma guarded_result_fields:
  assumes "run_guarded svc req adapter permit limit started finished st = (Inr r, st')"
  shows "rr_authorization r = Some permit \<and> rr_action_id r = action_id_of req"
proof -
  obtain q s where l: "launch svc req adapter permit limit started finished st = (q, s)" by fastforce
  consider (ok) "q = Inr r" | (ad) ex where "handle_adapter_error svc req permit started finished ex s = (Inr r, st')"
    | (other) e where "handle_other_error svc req permit started finished e s = (Inr r, st')"
    using l assms by (auto simp: run_guarded_def split: sum.splits run_exception.splits)
  then show ?thesis
  proof cases
    case ok
    from launch_result [OF l [unfolded ok]] show ?thesis by simp
  next
    case ad
    from settle_then_persist [OF settles_close ad [unfolded handle_adapter_error_def Let_def]]
    show ?thesis by (simp add: with_failure_def base_result_def)
  next
    case other
    from settle_then_persist [OF settles_close other [unfolded handle_other_error_def]]
    show ?thesis by (simp add: with_failure_def base_result_def)
  qed
qed

text \<open>
  The second authority check reads the same instant as the first: with the store unchanged
  and no validator installed it repeats the answer, however much time has passed.
\<close>

lemma recheck_same_instant:
  assumes "authority_check svc 0 req started = Inr ()" "sv_read_store svc 1 = sv_read_store svc 0"
    and "sv_lease_validator svc = None"
  shows "lease_still_current svc req started = Inr True"
proof -
  have "authority_check svc 1 req started = Inr ()"
    using assms(1,2) by (simp add: authority_check_def)
  with assms(3) show ?thesis by (simp add: lease_still_current_def)
qed

section \<open>The journal interface\<close>

text \<open>
  What the service relies on: each call moves the action of the run to its next phase and
  fails when the action is not in the expected one; a reported result leaves it final.
\<close>

locale run_journal =
  fixes ops :: "'j journal_ops"
    and phase :: "'j \<Rightarrow> string \<Rightarrow> action_state option"
  assumes create_ok: "jo_create_action ops req aid j = (Inr u, j') \<Longrightarrow>
      phase j aid = None \<and> phase j' aid = Some A_AUTHORIZED"
    and authorization_ok: "jo_authorization ops req aid pid j = (Inr u, j') \<Longrightarrow>
      phase j aid = Some A_AUTHORIZED \<and> phase j' aid = Some A_PERMIT_ISSUED"
    and starting_ok: "jo_starting ops req aid j = (Inr u, j') \<Longrightarrow>
      phase j aid = Some A_PERMIT_ISSUED \<and> phase j' aid = Some A_EXECUTING"
    and result_ok: "jo_result ops req r j = (Inr u, j') \<Longrightarrow>
      \<exists>s. phase j' (rr_action_id r) = Some s \<and> action_final s"
begin

lemma prepare_phase:
  assumes "prepare_run svc req limit started st = (Inr permit, st')" "sv_journal svc = Some ops"
  shows "phase (xs_journal st) (action_id_of req) = None \<and>
    phase (xs_journal st') (action_id_of req) = Some A_PERMIT_ISSUED"
proof -
  from assms obtain j1 j2 where j:
    "jo_create_action ops req (action_id_of req) (xs_journal st) = (Inr (), j1)"
    "jo_authorization ops req (action_id_of req) (rp_permit_id (sr_payload permit)) j1 = (Inr (), j2)"
    "xs_journal st' = j2"
    by (auto simp: prepare_run_def result_simps budget_do_def journal_do_def
        split: if_splits prod.splits)
  from create_ok [OF j(1)] authorization_ok [OF j(2)] j(3) show ?thesis by simp
qed

lemma report_phase:
  assumes "persist_and_report svc req r st = (Inr r', st')" "sv_journal svc = Some ops"
  shows "\<exists>s. phase (xs_journal st') (rr_action_id r) = Some s \<and> action_final s"
proof -
  from assms obtain j where "jo_result ops req r (xs_journal st) = (Inr (), j)" "xs_journal st' = j"
    by (auto simp: persist_and_report_def result_simps journal_do_def split: prod.splits)
  with result_ok show ?thesis by blast
qed

lemma settle_report_phase:
  assumes "obind (budget_do f st) (\<lambda>_ st. persist_and_report svc req r st) = (Inr r', st')"
    and "sv_journal svc = Some ops" "rr_action_id r = action_id_of req"
  shows "\<exists>s. phase (xs_journal st') (action_id_of req) = Some s \<and> action_final s"
  using assms report_phase [of svc req r] by (auto simp: result_simps)

lemma launch_phase:
  assumes "launch svc req adapter permit limit started finished st = (Inr r, st')"
    and "sv_journal svc = Some ops"
  shows "\<exists>s. phase (xs_journal st') (action_id_of req) = Some s \<and> action_final s"
proof -
  have as: "as_other x = (Inr y, s) \<longleftrightarrow> x = (Inr y, s)"
    for x :: "(('j, 'w) exec_state, run_result) outcome" and y s
    by (cases x; cases "fst x") auto
  obtain b where b: "lease_still_current svc req started = Inr b"
    using assms(1) by (cases "lease_still_current svc req started") (auto simp: launch_def)
  show ?thesis
  proof (cases b)
    case False
    with b assms(1) have "obind (budget_do (\<lambda>t. budget_close_failed t (run_id_of req) 0 False) st) (\<lambda>_ st.
        persist_and_report svc req
          (with_failure (base_result req RUN_BLOCKED_BEFORE_IO started finished (Some permit))
             ''lease_revoked_before_launch'' [Txt ''operational lease is no longer current'']) st) = (Inr r, st')"
      by (simp add: launch_def as)
    then show ?thesis
      by (rule settle_report_phase [OF _ assms(2)]) (simp add: with_failure_def base_result_def)
  next
    case True
    with b assms(1) obtain s where x: "(case adapter req permit (xs_world s) of
              (Inl exc, w) \<Rightarrow> (Inl exc, s\<lparr>xs_world := w\<rparr>)
            | (Inr output, w) \<Rightarrow>
                as_other (settle_output svc req permit limit started finished output (s\<lparr>xs_world := w\<rparr>))) = (Inr r, st')"
      by (cases "journal_do svc (\<lambda>ops. jo_starting ops req (action_id_of req)) st";
          cases "fst (journal_do svc (\<lambda>ops. jo_starting ops req (action_id_of req)) st)")
        (auto simp: launch_def)
    obtain v w where ad: "adapter req permit (xs_world s) = (v, w)" by fastforce
    with x obtain out where so:
      "settle_output svc req permit limit started finished out (s\<lparr>xs_world := w\<rparr>) = (Inr r, st')"
      by (cases v) (auto simp: as)
    from settle_output_effect [OF so] have v: "validate_invariants (ao_accounting out) limit = Inr ()" by simp
    with so have "obind (budget_do (\<lambda>t.
              if ao_response_uncertain out
              then budget_close_failed t (run_id_of req) (acc_forwarded (ao_accounting out)) True
              else budget_reconcile t (run_id_of req) (acc_forwarded (ao_accounting out))) (s\<lparr>xs_world := w\<rparr>)) (\<lambda>_ st.
     persist_and_report svc req (success_result req permit started finished out) st) = (Inr r, st')"
      by (simp add: settle_output_def)
    then show ?thesis by (rule settle_report_phase [OF _ assms(2)]) simp
  qed
qed

lemma run_guarded_phase:
  assumes "run_guarded svc req adapter permit limit started finished st = (Inr r, st')"
    and "sv_journal svc = Some ops"
  shows "\<exists>s. phase (xs_journal st') (action_id_of req) = Some s \<and> action_final s"
proof -
  obtain q s where l: "launch svc req adapter permit limit started finished st = (q, s)" by fastforce
  consider (ok) "q = Inr r" "s = st'" | (ad) ex where "handle_adapter_error svc req permit started finished ex s = (Inr r, st')"
    | (other) e where "handle_other_error svc req permit started finished e s = (Inr r, st')"
    using l assms(1) by (auto simp: run_guarded_def split: sum.splits run_exception.splits)
  then show ?thesis
  proof cases
    case ok
    with launch_phase [of svc req adapter permit limit started finished st r st'] l assms(2)
    show ?thesis by simp
  next
    case ad
    then show ?thesis unfolding handle_adapter_error_def Let_def
      by (rule settle_report_phase [OF _ assms(2)]) (simp add: with_failure_def base_result_def)
  next
    case other
    then show ?thesis unfolding handle_other_error_def
      by (rule settle_report_phase [OF _ assms(2)]) (simp add: with_failure_def base_result_def)
  qed
qed

text \<open>A run the service returns from started on a new action and left it in a final state.\<close>

lemma execute_phase:
  assumes "execute svc req now clock finished st = (Inr r, st')" "sv_journal svc = Some ops"
  shows "st' = st \<or>
    (phase (xs_journal st) (action_id_of req) = None \<and>
     (\<exists>s. phase (xs_journal st') (action_id_of req) = Some s \<and> action_final s))"
  using assms(1)
proof (cases rule: execute_returns)
  case stopped
  then show ?thesis by simp
next
  case (ran adapter permit st1)
  from prepare_phase [OF ran(4) assms(2)] run_guarded_phase [OF ran(5) assms(2)] show ?thesis by blast
qed

end

text \<open>
  What every journal call keeps, whatever it returns, every run keeps: the service touches
  the journal through these calls only.
\<close>

locale journal_invariant =
  fixes ops :: "'j journal_ops"
    and inv :: "'j \<Rightarrow> bool"
  assumes create_keeps: "inv j \<Longrightarrow> inv (snd (jo_create_action ops req aid j))"
    and authorization_keeps: "inv j \<Longrightarrow> inv (snd (jo_authorization ops req aid pid j))"
    and starting_keeps: "inv j \<Longrightarrow> inv (snd (jo_starting ops req aid j))"
    and result_keeps: "inv j \<Longrightarrow> inv (snd (jo_result ops req r j))"
begin

lemma keeps_obind:
  assumes "inv (xs_journal (snd r))" "\<And>x s. inv (xs_journal s) \<Longrightarrow> inv (xs_journal (snd (f x s)))"
  shows "inv (xs_journal (snd (obind r f)))"
  using assms by (cases r; cases "fst r") auto

lemma keeps_journal_do:
  assumes "inv (xs_journal st)" "sv_journal svc = Some ops" "\<And>j. inv j \<Longrightarrow> inv (snd (f ops j))"
  shows "inv (xs_journal (snd (journal_do svc f st)))"
  using assms(3) [OF assms(1)] assms(2) by (auto simp: journal_do_def split: prod.splits)

lemma keeps_budget_do: "inv (xs_journal st) \<Longrightarrow> inv (xs_journal (snd (budget_do f st)))"
  by (auto simp: budget_do_def split: prod.splits)

lemma keeps_persist:
  assumes "inv (xs_journal st)" "sv_journal svc = Some ops"
  shows "inv (xs_journal (snd (persist_and_report svc req r st)))"
  unfolding persist_and_report_def
  by (intro keeps_obind keeps_journal_do result_keeps) (use assms in simp_all)

lemmas keeps = keeps_obind keeps_journal_do keeps_budget_do keeps_persist
  create_keeps authorization_keeps starting_keeps result_keeps

lemma keeps_prepare:
  assumes "inv (xs_journal st)" "sv_journal svc = Some ops"
  shows "inv (xs_journal (snd (prepare_run svc req limit started st)))"
  unfolding prepare_run_def by (intro keeps) (use assms in auto)

lemma keeps_settle:
  assumes "inv (xs_journal st)" "sv_journal svc = Some ops"
  shows "inv (xs_journal (snd (settle_output svc req permit limit started finished out st)))"
  unfolding settle_output_def by (intro keeps) (use assms in auto)

lemma keeps_as_other: "xs_journal (snd (as_other x)) = xs_journal (snd x)"
  by (cases x; cases "fst x") auto

lemma keeps_launch:
  assumes "inv (xs_journal st)" "sv_journal svc = Some ops"
  shows "inv (xs_journal (snd (launch svc req adapter permit limit started finished st)))"
proof -
  let ?j = "journal_do svc (\<lambda>ops. jo_starting ops req (action_id_of req)) st"
  have j: "inv (xs_journal (snd ?j))" by (intro keeps) (use assms in auto)
  have b: "inv (xs_journal (snd (obind (budget_do (\<lambda>t. budget_close_failed t (run_id_of req) 0 False) st)
      (\<lambda>_ st. persist_and_report svc req r st))))" for r
    by (intro keeps) (use assms in auto)
  obtain u s where us: "?j = (u, s)" by fastforce
  obtain v w where ad: "adapter req permit (xs_world s) = (v, w)" by fastforce
  have so: "inv (xs_journal (snd (settle_output svc req permit limit started finished out (s\<lparr>xs_world := w\<rparr>))))" for out
    by (rule keeps_settle) (use j us assms in auto)
  show ?thesis
    using assms b j us ad so
    by (cases "lease_still_current svc req started"; cases u; cases v)
      (auto simp: launch_def keeps_as_other split: bool.splits)
qed

lemma keeps_execute:
  assumes "inv (xs_journal st)" "sv_journal svc = Some ops"
  shows "inv (xs_journal (snd (execute svc req now clock finished st)))"
proof -
  have h1: "inv (xs_journal (snd (handle_adapter_error svc req permit s f ex st')))"
    if "inv (xs_journal st')" for permit s f ex st'
    unfolding handle_adapter_error_def Let_def by (intro keeps) (use assms that in auto)
  have h2: "inv (xs_journal (snd (handle_other_error svc req permit s f ex st')))"
    if "inv (xs_journal st')" for permit s f ex st'
    unfolding handle_other_error_def by (intro keeps) (use assms that in auto)
  have g: "inv (xs_journal (snd (run_guarded svc req adapter permit l s f st')))"
    if "inv (xs_journal st')" for adapter permit l s f st'
  proof -
    obtain q z where l: "launch svc req adapter permit l s f st' = (q, z)" by fastforce
    with keeps_launch [OF that assms(2)] have "inv (xs_journal z)" by (metis snd_conv)
    with l h1 h2 show ?thesis
      by (auto simp: run_guarded_def split: sum.splits run_exception.splits)
  qed
  have p: "inv (xs_journal (snd (obind (prepare_run svc req l s st)
      (\<lambda>permit st. run_guarded svc req adapter permit l s finished st))))" for adapter l s
    by (intro keeps_obind keeps_prepare g) (use assms in auto)
  show ?thesis
    using assms(1) p
    by (cases "gate_blockers svc req (or_else now clock)")
      (auto simp: execute_def Let_def split: list.splits option.splits)
qed

end

end
