(* ===== verification/CountingProxy.thy ===== *)
theory CountingProxy
  imports PyPath DetectorExecution
begin

text \<open>
  \<open>src/astp/counting_proxy.py\<close>: the only way from a detector's worker to its target. The proxy
  holds the run permit, refuses every request outside it, reserves a durable slot before any
  network input or output, marks the boundary in its ledger, forwards, and records the outcome. It
  is modelled as one function per method, and as the steps of any number of requests that interleave
  in its threads, with crashes and restarts; a crash is also what the fault injection of the
  acceptance laboratory does.
\<close>

section \<open>The ledger\<close>

record proxy_row =
  pw_request_id :: string
  pw_run_id :: string
  pw_permit_id :: string
  pw_method :: string
  pw_target :: string
  pw_state :: string
  pw_request_bytes :: int
  pw_response_bytes :: int
  pw_status :: "int option"
  pw_started_at :: string
  pw_finished_at :: "string option"
  pw_detail :: string

type_synonym proxy_ledger = "proxy_row list"

text \<open>\<open>SELECT count(*) FROM requests WHERE state IN (...)\<close>.\<close>

definition count_states :: "string list \<Rightarrow> proxy_ledger \<Rightarrow> int" where
  "count_states states t = int (count_rows (\<lambda>r. pw_state r \<in> set states) t)"

definition insert_request :: "proxy_row \<Rightarrow> proxy_ledger \<Rightarrow> (proxy_ledger, unit) outcome" where
  "insert_request row t =
     (if pw_request_id row \<in> pw_request_id ` set t then (Inl IntegrityError, t) else (Inr (), t @ [row]))"

text \<open>The bindings a request is recorded with.\<close>

record slot =
  sl_request_id :: string
  sl_permit_id :: string
  sl_run_id :: string
  sl_method :: string
  sl_target :: string

definition request_row :: "slot \<Rightarrow> string \<Rightarrow> string option \<Rightarrow> string \<Rightarrow> datetime \<Rightarrow> proxy_row" where
  "request_row s state finished detail now =
     \<lparr>pw_request_id = sl_request_id s, pw_run_id = sl_run_id s, pw_permit_id = sl_permit_id s,
      pw_method = sl_method s, pw_target = sl_target s, pw_state = state, pw_request_bytes = 0,
      pw_response_bytes = 0, pw_status = None, pw_started_at = isoformat now,
      pw_finished_at = finished, pw_detail = detail\<rparr>"

definition proxy_start ::
  "slot \<Rightarrow> string \<Rightarrow> string \<Rightarrow> datetime \<Rightarrow> proxy_ledger \<Rightarrow> (proxy_ledger, unit) outcome" where
  "proxy_start s state detail now t = insert_request (request_row s state None detail now) t"

definition spent_states :: "string list" where
  "spent_states = [''reserved'', ''forwarding'', ''response_received'', ''failed_after_io'']"

definition active_states :: "string list" where
  "active_states = [''reserved'', ''forwarding'']"

definition count_run :: "string \<Rightarrow> string \<Rightarrow> string list \<Rightarrow> proxy_ledger \<Rightarrow> int" where
  "count_run permit_id run_id states t =
     int (count_rows (\<lambda>r. pw_permit_id r = permit_id \<and> pw_run_id r = run_id \<and> pw_state r \<in> set states) t)"

text \<open>One immediate transaction: count, decide, insert.\<close>

definition proxy_admit ::
  "slot \<Rightarrow> int \<Rightarrow> int \<Rightarrow> datetime \<Rightarrow> proxy_ledger \<Rightarrow> (proxy_ledger, string option) outcome" where
  "proxy_admit s max_requests max_concurrency now t =
     (let used = count_run (sl_permit_id s) (sl_run_id s) spent_states t;
          active = count_run (sl_permit_id s) (sl_run_id s) active_states t;
          denial = (if max_requests \<le> used then Some ''request budget exhausted''
                    else if max_concurrency \<le> active then Some ''concurrency ceiling exceeded''
                    else None);
          row = (case denial of
                   Some d \<Rightarrow> request_row s ''blocked_before_io'' (Some (isoformat now)) d now
                 | None \<Rightarrow> request_row s ''reserved'' None ''durable pre-I/O reservation'' now)
      in obind (insert_request row t) (\<lambda>_ t. (Inr denial, t)))"

text \<open>
  \<open>UPDATE ... WHERE request_id=? AND state='reserved'\<close>; unless it changed one row the
  transaction is rolled back with the error.
\<close>

definition mark_forwarding :: "string \<Rightarrow> datetime \<Rightarrow> proxy_ledger \<Rightarrow> (proxy_ledger, unit) outcome" where
  "mark_forwarding rid now t =
     (let hit = (\<lambda>r. pw_request_id r = rid \<and> pw_state r = ''reserved'')
      in if count_rows hit t \<noteq> 1
         then (Inl (RuntimeError [Txt ''request slot is not durably reserved'']), t)
         else (Inr (), map (\<lambda>r. if hit r
                 then r\<lparr>pw_state := ''forwarding'', pw_started_at := isoformat now, pw_detail := []\<rparr> else r) t))"

definition proxy_finish ::
  "string \<Rightarrow> string \<Rightarrow> int option \<Rightarrow> int \<Rightarrow> int \<Rightarrow> string \<Rightarrow> datetime \<Rightarrow> proxy_ledger \<Rightarrow> proxy_ledger" where
  "proxy_finish rid state status request_bytes response_bytes detail now t =
     map (\<lambda>r. if pw_request_id r = rid
              then r\<lparr>pw_state := state, pw_status := status, pw_request_bytes := request_bytes,
                     pw_response_bytes := response_bytes, pw_finished_at := Some (isoformat now),
                     pw_detail := detail\<rparr>
              else r) t"

text \<open>The dictionary \<open>summary\<close> returns, as the accounting record its readers build from it.\<close>

definition proxy_summary :: "proxy_ledger \<Rightarrow> run_accounting" where
  "proxy_summary t =
     \<lparr>acc_attempted = int (length t),
      acc_forwarded = count_states [''forwarding''] t + count_states [''response_received''] t
        + count_states [''failed_after_io''] t,
      acc_responses = count_states [''response_received''] t,
      acc_blocked = count_states [''blocked_before_io''] t + count_states [''reserved''] t,
      acc_failed = count_states [''failed_after_io''] t,
      acc_unknown = count_states [''forwarding''] t,
      acc_request_bytes = sum_list (map pw_request_bytes t),
      acc_response_bytes = sum_list (map pw_response_bytes t)\<rparr>"

section \<open>The proxy\<close>

text \<open>What the process keeps in memory; the clock behind \<open>last_forwarded\<close> is monotonic.\<close>

record counting_proxy =
  cp_key :: string
  cp_permit :: signed_run_permit
  cp_sequence :: int
  cp_last_forwarded :: rat
  cp_circuit_failures :: int

definition require_binding :: "string \<Rightarrow> string option \<Rightarrow> string \<Rightarrow> unit result" where
  "require_binding field expected actual =
     require (expected = None \<or> expected = Some actual)
       [Txt ''detector-run permit '', Txt field, Txt '' binding mismatch'']"

definition open_proxy ::
  "signed_run_permit \<Rightarrow> string \<Rightarrow> string option \<Rightarrow> string option \<Rightarrow> string option \<Rightarrow> datetime \<Rightarrow>
   proxy_ledger \<Rightarrow> counting_proxy result" where
  "open_proxy permit key campaign program detector clock t =
     rbind (verify_run_permit permit key None clock) (\<lambda>p.
     rbind (require_binding ''campaign_id'' campaign (rp_campaign_id (sr_payload p))) (\<lambda>_.
     rbind (require_binding ''program_id'' program (rp_program_id (sr_payload p))) (\<lambda>_.
     rbind (require_binding ''detector_id'' detector (rp_detector_id (sr_payload p))) (\<lambda>_.
       Inr \<lparr>cp_key = key, cp_permit = p,
            cp_sequence = count_states
              [''forwarding'', ''response_received'', ''failed_after_io'', ''blocked_before_io''] t,
            cp_last_forwarded = 0, cp_circuit_failures = 0\<rparr>))))"

definition proxy_payload :: "counting_proxy \<Rightarrow> run_permit_payload" where
  "proxy_payload cp = sr_payload (cp_permit cp)"

definition next_request_id :: "counting_proxy \<Rightarrow> string \<Rightarrow> string \<times> counting_proxy" where
  "next_request_id cp uuid =
     (let n = cp_sequence cp + 1
      in (take 24 (sha256_hex (rp_detector_run_id (proxy_payload cp) @ '':'' @ int_str n @ '':'' @ uuid)),
          cp\<lparr>cp_sequence := n\<rparr>))"

text \<open>\<open>parsed.port or (443 if parsed.scheme == "https" else 80)\<close>.\<close>

definition effective_port :: "split_url \<Rightarrow> nat result" where
  "effective_port u =
     rbind (url_port u) (\<lambda>p.
       Inr (case p of
              Some n \<Rightarrow> if n = 0 then (if url_scheme u = ''https'' then 443 else 80) else n
            | None \<Rightarrow> if url_scheme u = ''https'' then 443 else 80))"

definition origin_text :: "split_url \<Rightarrow> string result" where
  "origin_text u =
     rbind (effective_port u) (\<lambda>port.
       Inr (url_scheme u @ ''://'' @ (case url_hostname u of None \<Rightarrow> ''None'' | Some h \<Rightarrow> h) @ '':'' @ nat_str port))"

definition normalized_path :: "string \<Rightarrow> string" where
  "normalized_path path =
     (let decoded = unquote path; n = normpath decoded
      in if endswith decoded ''/'' \<and> n \<noteq> ''/'' then n @ ''/'' else n)"

definition allowed_path :: "string \<Rightarrow> string" where
  "allowed_path pfx =
     (let p = rstrip_of (\<lambda>c. c = CHR ''/'') (normpath (unquote pfx)) in if p = [] then ''/'' else p)"

definition path_permitted :: "string \<Rightarrow> string \<Rightarrow> bool" where
  "path_permitted pfx path =
     (let allow = allowed_path pfx; n = normalized_path path
      in allow = ''/'' \<or> n = allow \<or> startswith n (allow @ ''/''))"

text \<open>
  The checks of \<open>authorize\<close> before the ledger: the reason of a denial, if any. Both errors of
  \<open>verify\<close> are literal texts.
\<close>

definition check_request :: "counting_proxy \<Rightarrow> string \<Rightarrow> string \<Rightarrow> datetime \<Rightarrow> string option result" where
  "check_request cp method target clock =
     (case verify_run_permit (cp_permit cp) (cp_key cp) None clock of
        Inl e \<Rightarrow> if is_value_error e then Inr (Some (literal_text (error_text e))) else Inl e
      | Inr _ \<Rightarrow>
          rbind (urlsplit target) (\<lambda>u.
          rbind (origin_text u) (\<lambda>origin.
          rbind (urlsplit (rp_allowed_origin (proxy_payload cp))) (\<lambda>a.
          rbind (origin_text a) (\<lambda>allowed_origin.
            Inr (if url_scheme u \<notin> {''http'', ''https''} \<or> origin \<noteq> allowed_origin
                 then Some ''origin/scheme/port rejected''
                 else if \<not> path_permitted (rp_allowed_path_prefix (proxy_payload cp)) (url_path u)
                 then Some ''path outside authorized prefix''
                 else if str_upper method \<notin> set (rp_allowed_methods (proxy_payload cp))
                 then Some ''method rejected''
                 else if 3 \<le> cp_circuit_failures cp then Some ''circuit breaker open''
                 else None))))))"

definition request_slot :: "counting_proxy \<Rightarrow> string \<Rightarrow> string \<Rightarrow> string \<Rightarrow> slot" where
  "request_slot cp rid method target =
     \<lparr>sl_request_id = rid, sl_permit_id = rp_permit_id (proxy_payload cp),
      sl_run_id = rp_detector_run_id (proxy_payload cp), sl_method = method, sl_target = target\<rparr>"

text \<open>After the checks: record the denial, or ask the ledger for a slot.\<close>

definition record_verdict ::
  "counting_proxy \<Rightarrow> string \<Rightarrow> string \<Rightarrow> string \<Rightarrow> string option \<Rightarrow> datetime \<Rightarrow> proxy_ledger \<Rightarrow>
   (proxy_ledger, string option) outcome" where
  "record_verdict cp rid method target verdict clock t =
     (let s = request_slot cp rid method target
      in case verdict of
           Some reason \<Rightarrow> obind (proxy_start s ''blocked_before_io'' reason clock t) (\<lambda>_ t. (Inr (Some reason), t))
         | None \<Rightarrow> proxy_admit s (rp_max_requests (proxy_payload cp)) (rp_max_concurrency (proxy_payload cp)) clock t)"

definition authorize ::
  "counting_proxy \<Rightarrow> string \<Rightarrow> string \<Rightarrow> string \<Rightarrow> datetime \<Rightarrow> datetime \<Rightarrow> proxy_ledger \<Rightarrow>
   (counting_proxy \<times> proxy_ledger, string \<times> string option) outcome" where
  "authorize cp method target uuid clock recorded t =
     (case next_request_id cp uuid of
        (rid, cp1) \<Rightarrow>
          (case check_request cp1 method target clock of
             Inl e \<Rightarrow> (Inl e, (cp1, t))
           | Inr verdict \<Rightarrow>
               (case record_verdict cp1 rid method target verdict recorded t of
                  (Inl e, t1) \<Rightarrow> (Inl e, (cp1, t1))
                | (Inr denial, t1) \<Rightarrow> (Inr (rid, denial), (cp1, t1)))))"

section \<open>Forwarding\<close>

record proxy_request =
  pq_method :: string
  pq_target :: string
  pq_headers :: "(string \<times> string) list"
  pq_body :: string

record proxy_reply =
  re_status :: int
  re_headers :: "(string \<times> string) list"
  re_body :: string
  re_request_id :: string

text \<open>What the target does with a request: answer, refuse with an \<open>OSError\<close> of some class, or break the protocol.\<close>

datatype upstream =
    Replied int "(string \<times> string) list" string
  | Unreachable string
  | Broken py_error

definition PROVENANCE_HEADER :: string where
  "PROVENANCE_HEADER = ''X-ASTP-Response-Provenance''"

definition SYNTHETIC_HEADER :: string where
  "SYNTHETIC_HEADER = ''X-ASTP-Response-Synthetic''"

definition BOUNDARY_REASON_HEADER :: string where
  "BOUNDARY_REASON_HEADER = ''X-ASTP-Boundary-Reason''"

definition SECRET_HEADERS :: "string list" where
  "SECRET_HEADERS = [''authorization'', ''cookie'', ''proxy-authorization'', ''x-api-key'']"

definition HOP_HEADERS :: "string list" where
  "HOP_HEADERS = [''connection'', ''proxy-connection'', ''keep-alive'', ''transfer-encoding'', ''upgrade'']"

definition denied_reply :: "string \<Rightarrow> string \<Rightarrow> proxy_reply" where
  "denied_reply denial rid =
     \<lparr>re_status = (if contains denial ''budget'' \<or> contains denial ''concurrency'' then 429 else 403),
      re_headers = [(PROVENANCE_HEADER, ''astp_boundary''), (SYNTHETIC_HEADER, ''true''),
        (BOUNDARY_REASON_HEADER, map (\<lambda>c. if c = CHR '' '' then CHR ''_'' else c) denial)],
      re_body = denial, re_request_id = rid\<rparr>"

text \<open>What goes over the wire.\<close>

record wire_request =
  wr_secure :: bool
  wr_host :: "string option"
  wr_port :: nat
  wr_method :: string
  wr_path :: string
  wr_headers :: "(string \<times> string) list"
  wr_body :: string

definition clean_headers :: "(string \<times> string) list \<Rightarrow> string \<Rightarrow> (string \<times> string) list" where
  "clean_headers headers netloc =
     dict_set (filter (\<lambda>kv. str_lower (fst kv) \<notin> set (''host'' # HOP_HEADERS @ SECRET_HEADERS)) headers)
       ''Host'' netloc"

definition wire_of :: "proxy_request \<Rightarrow> wire_request result" where
  "wire_of q =
     rbind (urlsplit (pq_target q)) (\<lambda>u.
     rbind (effective_port u) (\<lambda>port.
       Inr \<lparr>wr_secure = (url_scheme u = ''https''), wr_host = url_hostname u, wr_port = port,
            wr_method = pq_method q,
            wr_path = or_slash (url_path u) @ (if url_query u = [] then [] else ''?'' @ url_query u),
            wr_headers = clean_headers (pq_headers q) (url_netloc u), wr_body = pq_body q\<rparr>))"

definition url_site :: "split_url \<Rightarrow> (string \<times> string option \<times> nat) result" where
  "url_site u = rbind (effective_port u) (\<lambda>port. Inr (url_scheme u, url_hostname u, port))"

text \<open>The redirect target, when the response points outside the allowed origin.\<close>

definition foreign_redirect :: "counting_proxy \<Rightarrow> string \<Rightarrow> int \<Rightarrow> (string \<times> string) list \<Rightarrow> string option result" where
  "foreign_redirect cp target status headers =
     (case dict_get headers ''Location'' of
        None \<Rightarrow> Inr None
      | Some location \<Rightarrow>
          if \<not> (300 \<le> status \<and> status < 400) \<or> location = [] then Inr None
          else rbind (urljoin target location) (\<lambda>redirect.
               rbind (urlsplit redirect) (\<lambda>u.
               rbind (urlsplit (rp_allowed_origin (proxy_payload cp))) (\<lambda>a.
               rbind (url_site u) (\<lambda>there.
               rbind (url_site a) (\<lambda>here.
                 Inr (if there \<noteq> here then Some redirect else None)))))))"

definition retry_detail :: "int \<Rightarrow> (string \<times> string) list \<Rightarrow> string" where
  "retry_detail status headers =
     (let after = or_else (dict_get headers ''Retry-After'') []
      in if status = 429 \<and> all_digits after then ''retry_after_seconds='' @ after else [])"

definition response_limit :: nat where
  "response_limit = 1048576"

text \<open>From the target's answer to the reply; an exception other than \<open>OSError\<close> leaves the row forwarding.\<close>

fun settle_reply ::
  "counting_proxy \<Rightarrow> proxy_request \<Rightarrow> string \<Rightarrow> upstream \<Rightarrow> datetime \<Rightarrow> proxy_ledger \<Rightarrow>
   (counting_proxy \<times> proxy_ledger, proxy_reply) outcome" where
  "settle_reply cp q rid (Broken e) now t = (Inl e, (cp, t))"
| "settle_reply cp q rid (Unreachable name) now t =
     (Inr \<lparr>re_status = 502,
           re_headers = [(PROVENANCE_HEADER, ''astp_boundary''), (SYNTHETIC_HEADER, ''true''),
             (BOUNDARY_REASON_HEADER, ''upstream_failure'')],
           re_body = ''upstream failure'', re_request_id = rid\<rparr>,
      (cp\<lparr>cp_circuit_failures := cp_circuit_failures cp + 1\<rparr>,
       proxy_finish rid ''failed_after_io'' None (int (length (pq_body q))) 0 name now t))"
| "settle_reply cp q rid (Replied status sent content) now t =
     (let body = take response_limit content;
          received = foldl (\<lambda>d (k, v). dict_set d k v) [] sent;
          headers = dict_set (dict_set received PROVENANCE_HEADER ''target'') SYNTHETIC_HEADER ''false'';
          cp1 = cp\<lparr>cp_circuit_failures := 0\<rparr>;
          finish = (\<lambda>detail. proxy_finish rid ''response_received'' (Some status) (int (length (pq_body q)))
                     (int (length body)) detail now t)
      in case foreign_redirect cp1 (pq_target q) status headers of
           Inl e \<Rightarrow> (Inl e, (cp1, t))
         | Inr (Some redirect) \<Rightarrow>
             (Inr \<lparr>re_status = status,
                   re_headers = dict_set (dict_set headers ''X-ASTP-Redirect-Target'' redirect)
                     BOUNDARY_REASON_HEADER ''out_of_scope_redirect'',
                   re_body = body, re_request_id = rid\<rparr>,
              (cp1, finish ''out-of-scope redirect blocked''))
         | Inr None \<Rightarrow>
             (Inr \<lparr>re_status = status, re_headers = headers, re_body = body, re_request_id = rid\<rparr>,
              (cp1, finish (retry_detail status headers))))"

text \<open>One reading of the clocks, one random identifier and one answer of the target.\<close>

record proxy_tick =
  tk_uuid :: string
  tk_clock :: datetime
  tk_mono :: rat
  tk_upstream :: upstream

definition pacing_delay :: "counting_proxy \<Rightarrow> rat \<Rightarrow> rat" where
  "pacing_delay cp instant = max 0 (cp_last_forwarded cp + 1 / rp_max_rps (proxy_payload cp) - instant)"

text \<open>One request alone: \<open>tick k\<close> is what the \<open>k\<close>-th of its steps reads.\<close>

definition forward ::
  "counting_proxy \<Rightarrow> proxy_request \<Rightarrow> (nat \<Rightarrow> proxy_tick) \<Rightarrow> proxy_ledger \<Rightarrow>
   (counting_proxy \<times> proxy_ledger, proxy_reply) outcome" where
  "forward cp q tick t =
     (case authorize cp (pq_method q) (pq_target q) (tk_uuid (tick 0)) (tk_clock (tick 0)) (tk_clock (tick 1)) t of
        (Inl e, s) \<Rightarrow> (Inl e, s)
      | (Inr (rid, Some denial), s) \<Rightarrow> (Inr (denied_reply denial rid), s)
      | (Inr (rid, None), (cp1, t1)) \<Rightarrow>
          (case mark_forwarding rid (tk_clock (tick 3)) t1 of
             (Inl e, t2) \<Rightarrow> (Inl e, (cp1, t2))
           | (Inr _, t2) \<Rightarrow>
               settle_reply (cp1\<lparr>cp_last_forwarded := tk_mono (tick 3)\<rparr>) q rid (tk_upstream (tick 4))
                 (tk_clock (tick 4)) t2))"

section \<open>Requests in several threads\<close>

text \<open>
  Where the handler of a request is: before anything; after the checks, with the verdict; with a
  reserved slot; asleep until the rate allows it to go on; past the boundary, with its
  connection open; answered; ended by an exception or by the end of the process.
\<close>

datatype request_pc =
    Arrived
  | Judged string "string option"
  | Held string
  | Pacing string rat
  | Sent string
  | Answered proxy_reply
  | Raised py_error

fun request_step ::
  "proxy_request \<Rightarrow> proxy_tick \<Rightarrow> request_pc \<Rightarrow> counting_proxy \<times> proxy_ledger \<Rightarrow>
   request_pc \<times> counting_proxy \<times> proxy_ledger" where
  "request_step q k Arrived (cp, t) =
     (case next_request_id cp (tk_uuid k) of
        (rid, cp1) \<Rightarrow>
          ((case check_request cp1 (pq_method q) (pq_target q) (tk_clock k) of
              Inl e \<Rightarrow> Raised e | Inr verdict \<Rightarrow> Judged rid verdict), cp1, t))"
| "request_step q k (Judged rid verdict) (cp, t) =
     (case record_verdict cp rid (pq_method q) (pq_target q) verdict (tk_clock k) t of
        (Inl e, t1) \<Rightarrow> (Raised e, cp, t1)
      | (Inr (Some denial), t1) \<Rightarrow> (Answered (denied_reply denial rid), cp, t1)
      | (Inr None, t1) \<Rightarrow> (Held rid, cp, t1))"
| "request_step q k (Held rid) (cp, t) = (Pacing rid (tk_mono k + pacing_delay cp (tk_mono k)), cp, t)"
| "request_step q k (Pacing rid wake) (cp, t) =
     (if tk_mono k < wake then (Pacing rid wake, cp, t)
      else (case mark_forwarding rid (tk_clock k) t of
              (Inl e, t1) \<Rightarrow> (Raised e, cp, t1)
            | (Inr _, t1) \<Rightarrow> (Sent rid, cp\<lparr>cp_last_forwarded := tk_mono k\<rparr>, t1)))"
| "request_step q k (Sent rid) (cp, t) =
     (case settle_reply cp q rid (tk_upstream k) (tk_clock k) t of
        (Inl e, s) \<Rightarrow> (Raised e, s)
      | (Inr reply, s) \<Rightarrow> (Answered reply, s))"
| "request_step q k pc s = (pc, s)"

text \<open>
  The process with its requests; \<open>ps_sent\<close> lists the connections opened since the process started
  last, \<open>ps_before\<close> those of earlier processes, each with its request and its instant.
\<close>

record proxy_system =
  ps_proxy :: "counting_proxy option"
  ps_ledger :: proxy_ledger
  ps_pc :: "nat \<Rightarrow> request_pc"
  ps_mono :: rat
  ps_sent :: "(nat \<times> rat) list"
  ps_before :: "(nat \<times> rat) list"

fun opens :: "request_pc \<Rightarrow> request_pc \<Rightarrow> bool" where
  "opens (Pacing _ _) (Sent _) = True"
| "opens _ _ = False"

fun ended :: "request_pc \<Rightarrow> bool" where
  "ended (Answered _) = True"
| "ended (Raised _) = True"
| "ended _ = False"

definition killed :: "request_pc \<Rightarrow> request_pc" where
  "killed pc = (if ended pc \<or> pc = Arrived then pc else Raised (SystemExit []))"

inductive proxy_step ::
  "(nat \<Rightarrow> proxy_request) \<Rightarrow> signed_run_permit \<Rightarrow> string \<Rightarrow> proxy_system \<Rightarrow> proxy_system \<Rightarrow> bool"
  for reqs permit key where
  serve: "ps_proxy s = Some cp \<Longrightarrow> ps_mono s \<le> tk_mono k \<Longrightarrow>
    request_step (reqs i) k (ps_pc s i) (cp, ps_ledger s) = (pc, cp1, t1) \<Longrightarrow>
    proxy_step reqs permit key s
      (s\<lparr>ps_proxy := Some cp1, ps_ledger := t1, ps_pc := (ps_pc s)(i := pc), ps_mono := tk_mono k,
         ps_sent := ps_sent s @ (if opens (ps_pc s i) pc then [(i, tk_mono k)] else [])\<rparr>)"
| crash: "ps_proxy s = Some cp \<Longrightarrow>
    proxy_step reqs permit key s
      (s\<lparr>ps_proxy := None, ps_pc := killed \<circ> ps_pc s, ps_sent := [], ps_before := ps_before s @ ps_sent s\<rparr>)"
| restart: "ps_proxy s = None \<Longrightarrow> open_proxy permit key campaign program detector clock (ps_ledger s) = Inr cp \<Longrightarrow>
    proxy_step reqs permit key s (s\<lparr>ps_proxy := Some cp\<rparr>)"

inductive_cases proxy_stepE [consumes 1, case_names serve crash restart]: "proxy_step reqs permit key s s'"

definition proxy_idle :: proxy_system where
  "proxy_idle =
     \<lparr>ps_proxy = None, ps_ledger = [], ps_pc = (\<lambda>_. Arrived), ps_mono = 0, ps_sent = [], ps_before = []\<rparr>"

text \<open>The states a run's proxy reaches from an empty ledger.\<close>

inductive proxy_reachable ::
  "(nat \<Rightarrow> proxy_request) \<Rightarrow> signed_run_permit \<Rightarrow> string \<Rightarrow> proxy_system \<Rightarrow> bool"
  for reqs permit key where
  start: "proxy_reachable reqs permit key proxy_idle"
| step: "proxy_reachable reqs permit key s \<Longrightarrow> proxy_step reqs permit key s s' \<Longrightarrow>
    proxy_reachable reqs permit key s'"

section \<open>The steps are those of \<open>forward\<close>\<close>

text \<open>A request with the process to itself.\<close>

fun request_run ::
  "proxy_request \<Rightarrow> (nat \<Rightarrow> proxy_tick) \<Rightarrow> nat \<Rightarrow> nat \<Rightarrow> request_pc \<times> counting_proxy \<times> proxy_ledger \<Rightarrow>
   request_pc \<times> counting_proxy \<times> proxy_ledger" where
  "request_run q tick 0 n s = s"
| "request_run q tick (Suc m) n (pc, s) = request_run q tick m (Suc n) (request_step q (tick n) pc s)"

lemma request_run_answered: "request_run q tick m n (Answered r, s) = (Answered r, s)"
  by (induction m arbitrary: n; cases s) simp_all

lemma request_run_raised: "request_run q tick m n (Raised e, s) = (Raised e, s)"
  by (induction m arbitrary: n; cases s) simp_all

section \<open>Counting rows of a keyed table\<close>

lemma count_rows_absent:
  "k \<notin> key ` set xs \<Longrightarrow> count_rows p (map (\<lambda>r. if key r = k then f r else r) xs) = count_rows p xs"
  by (induction xs) auto

lemma count_rows_update:
  assumes "distinct (map key xs)" "x \<in> set xs"
  shows "count_rows p (map (\<lambda>r. if key r = key x then f r else r) xs) + of_bool (p x) =
    count_rows p xs + of_bool (p (f x))"
  using assms
proof (induction xs)
  case (Cons y xs)
  show ?case
  proof (cases "y = x")
    case True
    with Cons.prems count_rows_absent [of "key x" key xs p f] show ?thesis by simp
  next
    case False
    with Cons have "key y \<noteq> key x" "x \<in> set xs" by auto
    with Cons show ?thesis by auto
  qed
qed simp

lemma count_rows_one:
  assumes "distinct (map key xs)" "x \<in> set xs"
  shows "count_rows (\<lambda>r. key r = key x) xs = 1"
  using assms
proof (induction xs)
  case (Cons y xs)
  have "count_rows (\<lambda>r. key r = k) xs = 0" if "k \<notin> key ` set xs" for k
    using that by (auto simp: count_rows_def filter_empty_conv)
  with Cons show ?case by (cases "y = x") auto
qed simp

end
