(* ===== verification/ProxySystem.thy ===== *)
theory ProxySystem
  imports CountingProxy
begin

text \<open>
  The invariant of the counting proxy over every interleaving of its requests, crashes and restarts:
  the ledger has one row per request it decided, the rows of live requests are where their
  handlers believe them to be, and the connections opened are exactly the rows beyond the boundary.
\<close>

section \<open>What a step does\<close>

definition row_states :: "string list" where
  "row_states = [''reserved'', ''forwarding'', ''response_received'', ''failed_after_io'', ''blocked_before_io'']"

definition forwarded_states :: "string list" where
  "forwarded_states = [''forwarding'', ''response_received'', ''failed_after_io'']"

definition final_states :: "string list" where
  "final_states = [''response_received'', ''failed_after_io'']"

lemmas state_lists = row_states_def forwarded_states_def final_states_def spent_states_def active_states_def

definition of_permit :: "run_permit_payload \<Rightarrow> proxy_row \<Rightarrow> bool" where
  "of_permit p r \<longleftrightarrow> pw_permit_id r = rp_permit_id p \<and> pw_run_id r = rp_detector_run_id p \<and> pw_state r \<in> set row_states"

fun live_slot :: "request_pc \<Rightarrow> (string \<times> string) option" where
  "live_slot (Held rid) = Some (rid, ''reserved'')"
| "live_slot (Pacing rid _) = Some (rid, ''reserved'')"
| "live_slot (Sent rid) = Some (rid, ''forwarding'')"
| "live_slot _ = None"

text \<open>The checks a request passed before it was given a slot.\<close>

definition cleared :: "signed_run_permit \<Rightarrow> string \<Rightarrow> proxy_request \<Rightarrow> bool" where
  "cleared permit key q \<longleftrightarrow>
     (\<exists>cp clock. cp_permit cp = permit \<and> cp_key cp = key \<and>
        check_request cp (pq_method q) (pq_target q) clock = Inr None)"

fun past_checks :: "request_pc \<Rightarrow> bool" where
  "past_checks (Judged _ None) = True"
| "past_checks (Held _) = True"
| "past_checks (Pacing _ _) = True"
| "past_checks (Sent _) = True"
| "past_checks _ = False"

definition set_state :: "string \<Rightarrow> (proxy_row \<Rightarrow> proxy_row) \<Rightarrow> proxy_ledger \<Rightarrow> proxy_ledger" where
  "set_state rid f t = map (\<lambda>r. if pw_request_id r = rid then f r else r) t"

text \<open>An update of a row that keeps its bindings and gives it a state.\<close>

definition moves_to :: "string \<Rightarrow> (proxy_row \<Rightarrow> proxy_row) \<Rightarrow> bool" where
  "moves_to st f \<longleftrightarrow> (\<forall>r. pw_request_id (f r) = pw_request_id r \<and> pw_permit_id (f r) = pw_permit_id r \<and>
     pw_run_id (f r) = pw_run_id r \<and> pw_state (f r) = st)"

lemma proxy_finish_set_state:
  "\<exists>f. proxy_finish rid st status a b d now t = set_state rid f t \<and> moves_to st f"
  by (rule exI [of _ "\<lambda>r. r\<lparr>pw_state := st, pw_status := status, pw_request_bytes := a,
        pw_response_bytes := b, pw_finished_at := Some (isoformat now), pw_detail := d\<rparr>"])
    (simp add: proxy_finish_def set_state_def moves_to_def)

lemma mark_forwarding_Inr:
  assumes "mark_forwarding rid now t = (Inr u, t')" "distinct (map pw_request_id t)"
  shows "\<exists>r f. r \<in> set t \<and> pw_request_id r = rid \<and> pw_state r = ''reserved'' \<and>
    t' = set_state rid f t \<and> moves_to ''forwarding'' f"
proof -
  let ?hit = "\<lambda>r. pw_request_id r = rid \<and> pw_state r = ''reserved''"
  let ?f = "\<lambda>r. r\<lparr>pw_state := ''forwarding'', pw_started_at := isoformat now, pw_detail := []\<rparr>"
  from assms(1) have one: "count_rows ?hit t = 1" and t': "t' = map (\<lambda>r. if ?hit r then ?f r else r) t"
    by (auto simp: mark_forwarding_def Let_def split: if_splits)
  from one have "filter ?hit t \<noteq> []" by (auto simp: count_rows_def)
  then obtain r where r: "r \<in> set t" "?hit r" by (auto simp: filter_empty_conv)
  have "t' = set_state rid ?f t"
    unfolding t' set_state_def
  proof (rule map_cong)
    fix x assume x: "x \<in> set t"
    have "pw_request_id x = rid \<Longrightarrow> x = r"
      using x r assms(2) by (auto simp: distinct_map inj_on_def)
    with r(2) show "(if ?hit x then ?f x else x) = (if pw_request_id x = rid then ?f x else x)" by auto
  qed simp
  moreover have "moves_to ''forwarding'' ?f" by (simp add: moves_to_def)
  ultimately show ?thesis using r by blast
qed

lemma mark_forwarding_Inl: "mark_forwarding rid now t = (Inl e, t') \<Longrightarrow> t' = t"
  by (auto simp: mark_forwarding_def Let_def split: if_splits)

lemma insert_request_cases:
  assumes "insert_request row t = (q, t')"
  shows "(\<exists>e. q = Inl e \<and> t' = t) \<or> (q = Inr () \<and> t' = t @ [row] \<and> pw_request_id row \<notin> pw_request_id ` set t)"
  using assms by (auto simp: insert_request_def split: if_splits)

lemma proxy_start_cases:
  assumes "proxy_start s st d now t = (q, t')"
  shows "(\<exists>e. q = Inl e \<and> t' = t) \<or>
    (q = Inr () \<and> t' = t @ [request_row s st None d now] \<and> sl_request_id s \<notin> pw_request_id ` set t)"
  using insert_request_cases [OF assms [unfolded proxy_start_def]] by (simp add: request_row_def)

lemma proxy_admit_cases:
  assumes "proxy_admit s mr mc now t = (q, t')"
  shows "(\<exists>e. q = Inl e \<and> t' = t) \<or>
    (sl_request_id s \<notin> pw_request_id ` set t \<and>
     ((\<exists>d fin. q = Inr (Some d) \<and> t' = t @ [request_row s ''blocked_before_io'' fin d now]) \<or>
      (q = Inr None \<and> t' = t @ [request_row s ''reserved'' None ''durable pre-I/O reservation'' now] \<and>
       count_run (sl_permit_id s) (sl_run_id s) spent_states t < mr \<and>
       count_run (sl_permit_id s) (sl_run_id s) active_states t < mc)))"
proof -
  let ?used = "count_run (sl_permit_id s) (sl_run_id s) spent_states t"
  let ?active = "count_run (sl_permit_id s) (sl_run_id s) active_states t"
  consider (deny) d where "(if mr \<le> ?used then Some ''request budget exhausted''
      else if mc \<le> ?active then Some ''concurrency ceiling exceeded'' else None) = Some d"
    | (free) "?used < mr" "?active < mc" by fastforce
  then show ?thesis
  proof cases
    case deny
    obtain q0 t0 where i: "insert_request (request_row s ''blocked_before_io'' (Some (isoformat now)) d now) t = (q0, t0)"
      by fastforce
    from assms deny i insert_request_cases [OF i] show ?thesis
      by (auto simp: proxy_admit_def Let_def request_row_def)
  next
    case free
    obtain q0 t0 where i: "insert_request (request_row s ''reserved'' None ''durable pre-I/O reservation'' now) t = (q0, t0)"
      by fastforce
    from assms free i insert_request_cases [OF i] show ?thesis
      by (auto simp: proxy_admit_def Let_def request_row_def)
  qed
qed

lemma settle_reply_cases:
  assumes "settle_reply cp q rid u now t = (r, cp', t')"
  shows "cp_permit cp' = cp_permit cp \<and> cp_key cp' = cp_key cp \<and> cp_last_forwarded cp' = cp_last_forwarded cp \<and>
    (t' = t \<and> (\<exists>e. r = Inl e) \<or>
     (\<exists>st f. st \<in> set final_states \<and> t' = set_state rid f t \<and> moves_to st f \<and> (\<exists>reply. r = Inr reply)))"
proof (cases u)
  case (Replied status sent content)
  with assms show ?thesis
    using proxy_finish_set_state [of rid "''response_received''"]
    by (auto simp: Let_def final_states_def split: sum.splits option.splits)
next
  case (Unreachable name)
  with assms show ?thesis
    using proxy_finish_set_state [of rid "''failed_after_io''"] by (fastforce simp: final_states_def)
next
  case (Broken e)
  with assms show ?thesis by auto
qed

lemma next_request_id_frame:
  "next_request_id cp uuid = (rid, cp') \<Longrightarrow>
   cp_permit cp' = cp_permit cp \<and> cp_key cp' = cp_key cp \<and> cp_last_forwarded cp' = cp_last_forwarded cp \<and>
   cp_circuit_failures cp' = cp_circuit_failures cp"
  by (auto simp: next_request_id_def Let_def)

lemma request_step_frame:
  assumes "request_step q k pc (cp, t) = (pc', cp', t')"
  shows "cp_permit cp' = cp_permit cp \<and> cp_key cp' = cp_key cp \<and>
    cp_last_forwarded cp' = (if opens pc pc' then tk_mono k else cp_last_forwarded cp) \<and>
    (past_checks pc' \<longrightarrow> past_checks pc \<or> cleared (cp_permit cp) (cp_key cp) q)"
proof (cases pc)
  case Arrived
  obtain rid cp1 where n: "next_request_id cp (tk_uuid k) = (rid, cp1)" by fastforce
  have "check_request cp1 (pq_method q) (pq_target q) (tk_clock k) = Inr None \<Longrightarrow>
      cleared (cp_permit cp) (cp_key cp) q"
    using next_request_id_frame [OF n] by (auto simp: cleared_def)
  with assms Arrived n next_request_id_frame [OF n] show ?thesis
    by (cases "check_request cp1 (pq_method q) (pq_target q) (tk_clock k)")
      (auto elim: past_checks.elims)
next
  case (Judged rid verdict)
  with assms show ?thesis by (cases verdict) (auto split: prod.splits sum.splits option.splits simp: record_verdict_def Let_def result_simps)
next
  case (Sent rid)
  with assms show ?thesis by (auto split: prod.splits sum.splits dest: settle_reply_cases)
qed (use assms in \<open>auto split: prod.splits sum.splits if_splits\<close>)

lemma record_verdict_cases:
  assumes "record_verdict cp rid m tgt verdict now t = (r, t')"
  shows "(\<exists>e. r = Inl e \<and> t' = t) \<or>
    (\<exists>row. pw_request_id row = rid \<and> rid \<notin> pw_request_id ` set t \<and> of_permit (proxy_payload cp) row \<and> t' = t @ [row] \<and>
      ((pw_state row = ''blocked_before_io'' \<and> (\<exists>d. r = Inr (Some d))) \<or>
       (pw_state row = ''reserved'' \<and> r = Inr None \<and>
        count_run (rp_permit_id (proxy_payload cp)) (rp_detector_run_id (proxy_payload cp)) spent_states t
          < rp_max_requests (proxy_payload cp) \<and>
        count_run (rp_permit_id (proxy_payload cp)) (rp_detector_run_id (proxy_payload cp)) active_states t
          < rp_max_concurrency (proxy_payload cp))))"
proof (cases verdict)
  case None
  let ?s = "request_slot cp rid m tgt"
  have sl: "sl_request_id ?s = rid" "sl_permit_id ?s = rp_permit_id (proxy_payload cp)"
    "sl_run_id ?s = rp_detector_run_id (proxy_payload cp)" by (simp_all add: request_slot_def)
  from assms None have "proxy_admit ?s (rp_max_requests (proxy_payload cp))
      (rp_max_concurrency (proxy_payload cp)) now t = (r, t')" by (simp add: record_verdict_def Let_def)
  from proxy_admit_cases [OF this] sl show ?thesis
    by (auto simp: request_row_def of_permit_def row_states_def)
next
  case (Some reason)
  let ?s = "request_slot cp rid m tgt"
  obtain q0 t0 where st: "proxy_start ?s ''blocked_before_io'' reason now t = (q0, t0)" by fastforce
  with assms Some have "obind (q0, t0) (\<lambda>_ t. (Inr (Some reason), t)) = (r, t')"
    by (simp add: record_verdict_def Let_def)
  with proxy_start_cases [OF st] show ?thesis
    by (auto simp: request_row_def request_slot_def of_permit_def row_states_def)
qed

lemma request_step_effect:
  assumes step: "request_step q k pc (cp, t) = (pc', cp', t')" and dist: "distinct (map pw_request_id t)"
  obtains (quiet) "t' = t" "\<not> opens pc pc'" "live_slot pc' = None \<or> live_slot pc' = live_slot pc"
  | (added) row where "t' = t @ [row]" "pw_request_id row \<notin> pw_request_id ` set t"
      "of_permit (proxy_payload cp) row" "\<not> opens pc pc'" "live_slot pc = None"
      "(pw_state row = ''blocked_before_io'' \<and> live_slot pc' = None) \<or>
       (pw_state row = ''reserved'' \<and> live_slot pc' = Some (pw_request_id row, ''reserved'') \<and>
        count_run (rp_permit_id (proxy_payload cp)) (rp_detector_run_id (proxy_payload cp)) spent_states t
          < rp_max_requests (proxy_payload cp) \<and>
        count_run (rp_permit_id (proxy_payload cp)) (rp_detector_run_id (proxy_payload cp)) active_states t
          < rp_max_concurrency (proxy_payload cp))"
  | (opened) r f where "opens pc pc'" "r \<in> set t" "pw_state r = ''reserved''"
      "live_slot pc = Some (pw_request_id r, ''reserved'')" "live_slot pc' = Some (pw_request_id r, ''forwarding'')"
      "t' = set_state (pw_request_id r) f t" "moves_to ''forwarding'' f"
  | (closed) rid st f where "\<not> opens pc pc'" "live_slot pc = Some (rid, ''forwarding'')" "live_slot pc' = None"
      "t' = set_state rid f t" "moves_to st f" "st \<in> set final_states"
proof (cases pc)
  case (Judged rid verdict)
  obtain r t1 where v: "record_verdict cp rid (pq_method q) (pq_target q) verdict (tk_clock k) t = (r, t1)" by fastforce
  from step Judged v have t1: "t' = t1" by (auto split: sum.splits option.splits)
  from record_verdict_cases [OF v] show ?thesis
  proof (elim disjE exE conjE)
    fix e assume "r = Inl e" "t1 = t"
    with step Judged v t1 quiet show ?thesis by auto
  next
    fix row d assume "pw_request_id row = rid" "rid \<notin> pw_request_id ` set t" "of_permit (proxy_payload cp) row"
      "t1 = t @ [row]" "pw_state row = ''blocked_before_io''" "r = Inr (Some d)"
    with step Judged v t1 added [of row] show ?thesis by auto
  next
    fix row assume "pw_request_id row = rid" "rid \<notin> pw_request_id ` set t" "of_permit (proxy_payload cp) row"
      "t1 = t @ [row]" "pw_state row = ''reserved''" "r = Inr None"
      "count_run (rp_permit_id (proxy_payload cp)) (rp_detector_run_id (proxy_payload cp)) spent_states t
          < rp_max_requests (proxy_payload cp)"
      "count_run (rp_permit_id (proxy_payload cp)) (rp_detector_run_id (proxy_payload cp)) active_states t
          < rp_max_concurrency (proxy_payload cp)"
    with step Judged v t1 added [of row] show ?thesis by auto
  qed
next
  case (Pacing rid wake)
  show ?thesis
  proof (cases "tk_mono k < wake")
    case True
    with step Pacing quiet show ?thesis by auto
  next
    case False
    obtain r t1 where m: "mark_forwarding rid (tk_clock k) t = (r, t1)" by fastforce
    show ?thesis
    proof (cases r)
      case (Inl e)
      with step Pacing False m mark_forwarding_Inl quiet show ?thesis by auto
    next
      case (Inr u)
      from mark_forwarding_Inr [OF m [unfolded Inr] dist] obtain row f where
        "row \<in> set t" "pw_request_id row = rid" "pw_state row = ''reserved''" "t1 = set_state rid f t"
        "moves_to ''forwarding'' f" by blast
      with step Pacing False m Inr opened [of row f] show ?thesis by auto
    qed
  qed
next
  case (Sent rid)
  obtain r cp1 t1 where m: "settle_reply cp q rid (tk_upstream k) (tk_clock k) t = (r, cp1, t1)"
    by (metis prod.collapse)
  from settle_reply_cases [OF m] show ?thesis
  proof (elim conjE disjE exE)
    fix e assume "t1 = t" "r = Inl e"
    with step Sent m quiet show ?thesis by auto
  next
    fix st f reply assume "st \<in> set final_states" "t1 = set_state rid f t" "moves_to st f" "r = Inr reply"
    with step Sent m closed show ?thesis by auto
  qed
qed (use step quiet in \<open>auto split: prod.splits sum.splits\<close>)

section \<open>The invariant\<close>

lemma set_state_ids [simp]: "moves_to st f \<Longrightarrow> map pw_request_id (set_state rid f t) = map pw_request_id t"
  by (auto simp: set_state_def moves_to_def)

lemma set_state_counts:
  assumes "distinct (map pw_request_id t)" "r \<in> set t" "moves_to st f"
  shows "count_rows (\<lambda>x. pw_state x \<in> set S) (set_state (pw_request_id r) f t) + of_bool (pw_state r \<in> set S) =
    count_rows (\<lambda>x. pw_state x \<in> set S) t + of_bool (st \<in> set S)"
  using count_rows_update [OF assms(1,2), of "\<lambda>x. pw_state x \<in> set S" f] assms(3)
  by (simp add: set_state_def moves_to_def)

lemma set_state_permits:
  "list_all (of_permit p) t \<Longrightarrow> moves_to st f \<Longrightarrow> st \<in> set row_states \<Longrightarrow> list_all (of_permit p) (set_state rid f t)"
  by (auto simp: set_state_def moves_to_def of_permit_def list_all_iff)

lemma set_state_other: "r \<in> set t \<Longrightarrow> pw_request_id r \<noteq> rid \<Longrightarrow> r \<in> set (set_state rid f t)"
  by (auto simp: set_state_def image_iff)

lemma set_state_same: "r \<in> set t \<Longrightarrow> f r \<in> set (set_state (pw_request_id r) f t)"
  by (auto simp: set_state_def image_iff intro!: bexI [of _ r])

definition in_states :: "string list \<Rightarrow> proxy_row \<Rightarrow> bool" where
  "in_states S r \<longleftrightarrow> pw_state r \<in> set S"

definition ledger_ok :: "run_permit_payload \<Rightarrow> proxy_ledger \<Rightarrow> bool" where
  "ledger_ok p t \<longleftrightarrow> distinct (map pw_request_id t) \<and> list_all (of_permit p) t \<and>
     int (count_rows (in_states spent_states) t) \<le> max 0 (rp_max_requests p) \<and>
     int (count_rows (in_states active_states) t) \<le> max 0 (rp_max_concurrency p)"

definition slots_ok :: "(nat \<Rightarrow> request_pc) \<Rightarrow> proxy_ledger \<Rightarrow> bool" where
  "slots_ok pcs t \<longleftrightarrow>
     (\<forall>i rid st. live_slot (pcs i) = Some (rid, st) \<longrightarrow> (\<exists>r \<in> set t. pw_request_id r = rid \<and> pw_state r = st)) \<and>
     (\<forall>i j rid st st'. live_slot (pcs i) = Some (rid, st) \<longrightarrow> live_slot (pcs j) = Some (rid, st') \<longrightarrow> i = j)"

lemma slots_okD:
  assumes "slots_ok pcs t" "live_slot (pcs i) = Some (rid, st)"
  obtains r where "r \<in> set t" "pw_request_id r = rid" "pw_state r = st"
  using assms unfolding slots_ok_def by blast

lemma count_run_permit:
  assumes "list_all (of_permit p) t"
  shows "count_run (rp_permit_id p) (rp_detector_run_id p) S t = int (count_rows (in_states S) t)"
proof -
  have "filter (\<lambda>r. pw_permit_id r = rp_permit_id p \<and> pw_run_id r = rp_detector_run_id p \<and> pw_state r \<in> set S) t =
      filter (in_states S) t"
    using assms by (intro filter_cong) (auto simp: of_permit_def list_all_iff in_states_def)
  then show ?thesis by (simp add: count_run_def count_rows_def)
qed

lemma in_states_update:
  assumes "distinct (map pw_request_id t)" "r \<in> set t" "moves_to st f"
  shows "count_rows (in_states S) (set_state (pw_request_id r) f t) + of_bool (pw_state r \<in> set S) =
    count_rows (in_states S) t + of_bool (st \<in> set S)"
  using set_state_counts [OF assms, of S] by (simp add: in_states_def [abs_def])

lemma ledger_ok_step:
  assumes "request_step q k (pcs i) (cp, t) = (pc', cp', t')" "ledger_ok (proxy_payload cp) t" "slots_ok pcs t"
  shows "ledger_ok (proxy_payload cp) t'"
proof -
  let ?p = "proxy_payload cp"
  have d: "distinct (map pw_request_id t)" and l: "list_all (of_permit ?p) t" using assms(2) by (auto simp: ledger_ok_def)
  note counts = count_run_permit [OF l]
  show ?thesis
    using assms(1) d
  proof (cases rule: request_step_effect)
    case quiet
    with assms(2) show ?thesis by simp
  next
    case (added row)
    with assms(2) show ?thesis
      by (auto simp: ledger_ok_def counts in_states_def spent_states_def active_states_def)
  next
    case (opened r f)
    have "st \<in> set S \<Longrightarrow> pw_state r \<in> set S \<Longrightarrow> moves_to st f \<Longrightarrow>
        count_rows (in_states S) (set_state (pw_request_id r) f t) = count_rows (in_states S) t" for S st
      using in_states_update [OF d opened(2), of st f S] by simp
    from this [OF _ _ opened(7)] opened show ?thesis
      using assms(2) set_state_permits [OF l opened(7)]
      by (auto simp: ledger_ok_def state_lists)
  next
    case (closed rid st f)
    from slots_okD [OF assms(3) closed(2)] obtain r where
      r: "r \<in> set t" "pw_request_id r = rid" "pw_state r = ''forwarding''" by blast
    have "pw_state r \<in> set spent_states" "st \<in> set spent_states" "pw_state r \<in> set active_states" "st \<in> set row_states"
      using r closed by (auto simp: state_lists)
    with in_states_update [OF d r(1) closed(5), of spent_states] in_states_update [OF d r(1) closed(5), of active_states]
    show ?thesis
      using assms(2) set_state_permits [OF l closed(5)] r(2) closed(4,5)
      by (auto simp: ledger_ok_def of_bool_def split: if_splits)
  qed
qed

lemma slots_ok_step:
  assumes "request_step q k (pcs i) (cp, t) = (pc', cp', t')" "distinct (map pw_request_id t)" "slots_ok pcs t"
  shows "slots_ok (pcs(i := pc')) t'"
  using assms(1,2)
proof (cases rule: request_step_effect)
  case quiet
  with assms(3) show ?thesis unfolding slots_ok_def by (auto split: if_splits) (metis option.distinct(1))+
next
  case (added row)
  have old: "live_slot (pcs j) = Some (rid, st) \<Longrightarrow> rid \<in> pw_request_id ` set t" for j rid st
    using slots_okD [OF assms(3)] by (metis imageI)
  from added(6) have new: "live_slot pc' = Some (rid, st) \<Longrightarrow> rid = pw_request_id row \<and> st = pw_state row" for rid st
    by auto
  show ?thesis
    unfolding slots_ok_def
  proof (intro conjI allI impI)
    fix j rid st assume s: "live_slot ((pcs(i := pc')) j) = Some (rid, st)"
    show "\<exists>r \<in> set t'. pw_request_id r = rid \<and> pw_state r = st"
    proof (cases "j = i")
      case True
      with s new added(1) show ?thesis by auto
    next
      case False
      with s have "live_slot (pcs j) = Some (rid, st)" by simp
      from slots_okD [OF assms(3) this] added(1) show ?thesis by auto
    qed
  next
    fix j j' rid st st'
    assume "live_slot ((pcs(i := pc')) j) = Some (rid, st)" "live_slot ((pcs(i := pc')) j') = Some (rid, st')"
    with old new added(2) assms(3) show "j = j'" unfolding slots_ok_def by (auto split: if_splits)
  qed
next
  case (opened r f)
  have fr: "f r \<in> set t'" "pw_request_id (f r) = pw_request_id r" "pw_state (f r) = ''forwarding''"
    using opened set_state_same [OF opened(2), of f] by (auto simp: moves_to_def)
  show ?thesis
    unfolding slots_ok_def
  proof (intro conjI allI impI)
    fix j rid st assume s: "live_slot ((pcs(i := pc')) j) = Some (rid, st)"
    show "\<exists>r \<in> set t'. pw_request_id r = rid \<and> pw_state r = st"
    proof (cases "j = i")
      case True
      with s opened(5) fr show ?thesis by auto
    next
      case False
      with s have l: "live_slot (pcs j) = Some (rid, st)" by simp
      from False l opened(4) assms(3) have "rid \<noteq> pw_request_id r" unfolding slots_ok_def by blast
      with slots_okD [OF assms(3) l] opened(6) set_state_other show ?thesis by metis
    qed
  next
    fix j j' rid st st'
    assume "live_slot ((pcs(i := pc')) j) = Some (rid, st)" "live_slot ((pcs(i := pc')) j') = Some (rid, st')"
    with opened(4,5) assms(3) show "j = j'" unfolding slots_ok_def by (auto split: if_splits)
  qed
next
  case (closed rid0 st0 f)
  show ?thesis
    unfolding slots_ok_def
  proof (intro conjI allI impI)
    fix j rid st assume s: "live_slot ((pcs(i := pc')) j) = Some (rid, st)"
    with closed(3) have "j \<noteq> i" and l: "live_slot (pcs j) = Some (rid, st)" by (auto split: if_splits)
    with closed(2) assms(3) have "rid \<noteq> rid0" unfolding slots_ok_def by blast
    with slots_okD [OF assms(3) l] closed(4) set_state_other show "\<exists>r \<in> set t'. pw_request_id r = rid \<and> pw_state r = st"
      by metis
  next
    fix j j' rid st st'
    assume "live_slot ((pcs(i := pc')) j) = Some (rid, st)" "live_slot ((pcs(i := pc')) j') = Some (rid, st')"
    with closed(3) assms(3) show "j = j'" unfolding slots_ok_def by (auto split: if_splits)
  qed
qed

definition opened_log :: "proxy_system \<Rightarrow> (nat \<times> rat) list" where
  "opened_log s = ps_before s @ ps_sent s"

definition proxy_ok :: "(nat \<Rightarrow> proxy_request) \<Rightarrow> signed_run_permit \<Rightarrow> string \<Rightarrow> proxy_system \<Rightarrow> bool" where
  "proxy_ok reqs permit key s \<longleftrightarrow>
     ledger_ok (sr_payload permit) (ps_ledger s) \<and> slots_ok (ps_pc s) (ps_ledger s) \<and>
     length (opened_log s) = count_rows (in_states forwarded_states) (ps_ledger s) \<and>
     distinct (map fst (opened_log s)) \<and>
     (\<forall>i \<in> fst ` set (opened_log s). (\<exists>rid. ps_pc s i = Sent rid) \<or> ended (ps_pc s i)) \<and>
     (\<forall>i. past_checks (ps_pc s i) \<or> i \<in> fst ` set (opened_log s) \<longrightarrow> cleared permit key (reqs i)) \<and>
     (\<forall>cp. ps_proxy s = Some cp \<longrightarrow> cp_permit cp = permit \<and> cp_key cp = key)"

lemma opens_Pacing: "opens pc pc' \<longleftrightarrow> (\<exists>rid w rid'. pc = Pacing rid w \<and> pc' = Sent rid')"
  by (cases pc; cases pc') auto

lemma forwarded_step:
  assumes "request_step q k (pcs i) (cp, t) = (pc', cp', t')" "distinct (map pw_request_id t)" "slots_ok pcs t"
  shows "count_rows (in_states forwarded_states) t' =
    count_rows (in_states forwarded_states) t + of_bool (opens (pcs i) pc')"
  using assms(1,2)
proof (cases rule: request_step_effect)
  case (opened r f)
  with in_states_update [OF assms(2) opened(2,7), of forwarded_states] show ?thesis
    by (simp add: forwarded_states_def)
next
  case (closed rid st f)
  from slots_okD [OF assms(3) closed(2)] obtain r where
    r: "r \<in> set t" "pw_request_id r = rid" "pw_state r = ''forwarding''" by blast
  with in_states_update [OF assms(2) r(1) closed(5), of forwarded_states] closed show ?thesis
    by (auto simp: forwarded_states_def final_states_def)
qed (auto simp: in_states_def forwarded_states_def)

lemma step_stays_reached:
  assumes "request_step q k pc (cp, t) = (pc', cp', t')" "(\<exists>rid. pc = Sent rid) \<or> ended pc"
  shows "ended pc'"
proof (cases pc)
  case (Sent rid)
  with assms(1) show ?thesis by (auto split: prod.splits sum.splits)
qed (use assms in auto)

lemma proxy_ok_serve:
  assumes "proxy_ok reqs permit key s" "ps_proxy s = Some cp"
    and step: "request_step (reqs i) k (ps_pc s i) (cp, ps_ledger s) = (pc, cp1, t1)"
  shows "proxy_ok reqs permit key
    (s\<lparr>ps_proxy := Some cp1, ps_ledger := t1, ps_pc := (ps_pc s)(i := pc), ps_mono := tk_mono k,
       ps_sent := ps_sent s @ (if opens (ps_pc s i) pc then [(i, tk_mono k)] else [])\<rparr>)"
    (is "proxy_ok _ _ _ ?s'")
proof -
  from assms(1,2) have cp: "cp_permit cp = permit" "cp_key cp = key" and l: "ledger_ok (sr_payload permit) (ps_ledger s)"
    and sl: "slots_ok (ps_pc s) (ps_ledger s)" and len: "length (opened_log s) = count_rows (in_states forwarded_states) (ps_ledger s)"
    and dl: "distinct (map fst (opened_log s))"
    and re: "\<forall>i \<in> fst ` set (opened_log s). (\<exists>rid. ps_pc s i = Sent rid) \<or> ended (ps_pc s i)"
    and cl: "\<forall>i. past_checks (ps_pc s i) \<or> i \<in> fst ` set (opened_log s) \<longrightarrow> cleared permit key (reqs i)"
    by (auto simp: proxy_ok_def)
  have p: "proxy_payload cp = sr_payload permit" by (simp add: proxy_payload_def cp)
  have d: "distinct (map pw_request_id (ps_ledger s))" using l by (simp add: ledger_ok_def)
  note fr = request_step_frame [OF step, unfolded cp]
  have log: "opened_log ?s' = opened_log s @ (if opens (ps_pc s i) pc then [(i, tk_mono k)] else [])"
    by (simp add: opened_log_def)
  have fresh: "opens (ps_pc s i) pc \<Longrightarrow> i \<notin> fst ` set (opened_log s) \<and> past_checks (ps_pc s i) \<and> (\<exists>rid. pc = Sent rid)"
    using re by (fastforce simp: opens_Pacing)
  show ?thesis
    unfolding proxy_ok_def
  proof (intro conjI ballI allI impI)
    show "ledger_ok (sr_payload permit) (ps_ledger ?s')"
      using ledger_ok_step [of _ _ "ps_pc s", OF step _ sl] l p by simp
    show "slots_ok (ps_pc ?s') (ps_ledger ?s')" using slots_ok_step [of _ _ "ps_pc s", OF step d sl] by simp
    show "length (opened_log ?s') = count_rows (in_states forwarded_states) (ps_ledger ?s')"
      using forwarded_step [of _ _ "ps_pc s", OF step d sl] len unfolding log by simp
    show "distinct (map fst (opened_log ?s'))" using dl fresh unfolding log by auto
  next
    fix j assume "j \<in> fst ` set (opened_log ?s')"
    then have "j \<in> fst ` set (opened_log s) \<or> (j = i \<and> opens (ps_pc s i) pc)"
      unfolding log by (auto split: if_splits)
    with re fresh step_stays_reached [OF step] show "(\<exists>rid. ps_pc ?s' j = Sent rid) \<or> ended (ps_pc ?s' j)"
      by (cases "j = i") auto
  next
    fix j assume a: "past_checks (ps_pc ?s' j) \<or> j \<in> fst ` set (opened_log ?s')"
    show "cleared permit key (reqs j)"
    proof (cases "j = i")
      case True
      with a have "past_checks pc \<or> i \<in> fst ` set (opened_log s) \<or> opens (ps_pc s i) pc"
        unfolding log by (auto split: if_splits)
      with True fr cl fresh show ?thesis by blast
    next
      case False
      with a have "past_checks (ps_pc s j) \<or> j \<in> fst ` set (opened_log s)"
        unfolding log by (auto split: if_splits)
      with cl show ?thesis by blast
    qed
  next
    fix cpx assume "ps_proxy ?s' = Some cpx"
    with fr cp show "cp_permit cpx = permit" "cp_key cpx = key" by simp_all
  qed
qed

lemma killed_facts:
  "live_slot (killed pc) = None" "past_checks (killed pc) \<Longrightarrow> False" "(\<exists>rid. pc = Sent rid) \<or> ended pc \<Longrightarrow> ended (killed pc)"
  by (cases pc; simp add: killed_def)+

lemma open_proxy_Inr:
  assumes "open_proxy permit key campaign program detector clock t = Inr cp"
  shows "cp_permit cp = permit \<and> cp_key cp = key \<and> cp_last_forwarded cp = 0 \<and> cp_circuit_failures cp = 0 \<and>
    sr_signature permit = run_permit_mac key (sr_payload permit)"
  using assms by (auto simp: open_proxy_def result_simps verify_run_permit_Inr)

lemma proxy_ok_step:
  assumes "proxy_ok reqs permit key s" "proxy_step reqs permit key s s'"
  shows "proxy_ok reqs permit key s'"
  using assms(2)
proof (cases rule: proxy_stepE)
  case (serve cp k i pc cp1 t1)
  with proxy_ok_serve [OF assms(1) serve(2,4)] show ?thesis by simp
next
  case (crash cp)
  have log: "opened_log s' = opened_log s" by (simp add: crash opened_log_def)
  have pc: "ps_pc s' i = killed (ps_pc s i)" for i by (simp add: crash)
  have sl: "slots_ok (ps_pc s') (ps_ledger s')" by (simp add: slots_ok_def pc killed_facts(1))
  have np: "\<not> past_checks (ps_pc s' i)" for i using killed_facts(2) pc by metis
  have re: "ended (ps_pc s' i)" if "i \<in> fst ` set (opened_log s')" for i
    using that assms(1) killed_facts(3) unfolding log pc proxy_ok_def by blast
  have "ps_ledger s' = ps_ledger s" "ps_proxy s' = None" by (simp_all add: crash)
  with assms(1) sl np re log show ?thesis by (simp add: proxy_ok_def)
next
  case (restart campaign program detector clock cp)
  with open_proxy_Inr [OF restart(3)] assms(1) show ?thesis by (simp add: proxy_ok_def opened_log_def)
qed

lemma proxy_reachable_ok: "proxy_reachable reqs permit key s \<Longrightarrow> proxy_ok reqs permit key s"
proof (induction rule: proxy_reachable.induct)
  case start
  show ?case by (simp add: proxy_ok_def proxy_idle_def ledger_ok_def slots_ok_def opened_log_def)
next
  case (step s s')
  then show ?case by (blast intro: proxy_ok_step)
qed

section \<open>Pacing\<close>

text \<open>
  With one request at a time in the active states, the instants of the connections of one process
  keep the distance of the permit's rate.
\<close>

definition pace_ok :: "rat \<Rightarrow> (nat \<times> rat) list \<Rightarrow> counting_proxy \<Rightarrow> (nat \<Rightarrow> request_pc) \<Rightarrow> bool" where
  "pace_ok gap sent cp pcs \<longleftrightarrow>
     sorted_wrt (\<lambda>x y. snd x + gap \<le> snd y) sent \<and> (\<forall>x \<in> set sent. snd x \<le> cp_last_forwarded cp) \<and>
     (\<forall>i rid w. pcs i = Pacing rid w \<longrightarrow> (\<forall>x \<in> set sent. snd x + gap \<le> w))"

lemma one_live:
  assumes "slots_ok pcs t" "count_rows (in_states active_states) t \<le> 1"
    and "live_slot (pcs i) = Some (ri, si)" "live_slot (pcs j) = Some (rj, sj)"
  shows "i = j"
proof -
  have st: "si \<in> set active_states" if "live_slot (pcs i) = Some (ri, si)" for i ri si
    using that by (cases "pcs i") (auto simp: active_states_def)
  obtain a where a: "a \<in> set t" "pw_request_id a = ri" "pw_state a = si" by (rule slots_okD [OF assms(1,3)])
  obtain b where b: "b \<in> set t" "pw_request_id b = rj" "pw_state b = sj" by (rule slots_okD [OF assms(1,4)])
  have "a \<in> set (filter (in_states active_states) t)" "b \<in> set (filter (in_states active_states) t)"
    using a b st [OF assms(3)] st [OF assms(4)] by (auto simp: in_states_def)
  moreover obtain c where "set (filter (in_states active_states) t) \<subseteq> {c}"
    using assms(2) by (cases "filter (in_states active_states) t") (auto simp: count_rows_def)
  ultimately have "a = b" by blast
  with a b assms show ?thesis unfolding slots_ok_def by blast
qed

lemma pace_ok_step:
  assumes step: "request_step q k (pcs i) (cp, t) = (pc, cp1, t1)" and ok: "pace_ok gap sent cp pcs"
    and g: "gap = 1 / rp_max_rps (proxy_payload cp)" "0 \<le> gap"
    and one: "slots_ok pcs t" "count_rows (in_states active_states) t \<le> 1"
  shows "pace_ok gap (sent @ (if opens (pcs i) pc then [(i, tk_mono k)] else [])) cp1 (pcs(i := pc))"
proof (cases "opens (pcs i) pc")
  case True
  then obtain rid w where pi: "pcs i = Pacing rid w" "pc = Sent rid"
    using step by (auto simp: opens_Pacing split: if_splits prod.splits sum.splits)
  with step have w: "w \<le> tk_mono k" by (auto split: if_splits prod.splits sum.splits)
  have old: "snd x + gap \<le> tk_mono k" if "x \<in> set sent" for x
    using ok pi(1) that w unfolding pace_ok_def by force
  have alone: "(pcs(i := pc)) j \<noteq> Pacing rid' w'" for j rid' w'
    using one_live [OF one, of i rid "''reserved''" j rid' "''reserved''"] pi by auto
  have "cp_last_forwarded cp1 = tk_mono k" using request_step_frame [OF step] True by simp
  with ok old g(2) alone True show ?thesis
    unfolding pace_ok_def by (fastforce simp: sorted_wrt_append)
next
  case False
  have last: "cp_last_forwarded cp1 = cp_last_forwarded cp" using request_step_frame [OF step] False by simp
  have "snd x + gap \<le> w" if "pc = Pacing rid w" "x \<in> set sent" for rid w x
  proof -
    from step that(1) consider "pcs i = Pacing rid w" | "w = tk_mono k + pacing_delay cp (tk_mono k)"
      by (cases "pcs i") (auto split: prod.splits sum.splits option.splits if_splits)
    then show ?thesis
    proof cases
      case 1
      with ok that(2) show ?thesis unfolding pace_ok_def by blast
    next
      case 2
      moreover have "snd x \<le> cp_last_forwarded cp" using ok that(2) unfolding pace_ok_def by blast
      ultimately show ?thesis by (simp add: pacing_delay_def g(1))
    qed
  qed
  with ok last False show ?thesis unfolding pace_ok_def by auto
qed

lemma proxy_paced:
  assumes "proxy_reachable reqs permit key s"
    and "rp_max_concurrency (sr_payload permit) \<le> 1" "0 < rp_max_rps (sr_payload permit)"
  shows "(ps_proxy s = None \<longrightarrow> ps_sent s = []) \<and>
    (\<forall>cp. ps_proxy s = Some cp \<longrightarrow> pace_ok (1 / rp_max_rps (sr_payload permit)) (ps_sent s) cp (ps_pc s))"
  using assms(1)
proof (induction rule: proxy_reachable.induct)
  case start
  show ?case by (simp add: proxy_idle_def)
next
  case (step s s')
  note ok = proxy_reachable_ok [OF step(1)]
  from step(2) show ?case
  proof (cases rule: proxy_stepE)
    case (serve cp k i pc cp1 t1)
    have p: "proxy_payload cp = sr_payload permit" using ok serve(2) by (simp add: proxy_ok_def proxy_payload_def)
    have sl: "slots_ok (ps_pc s) (ps_ledger s)" and one: "count_rows (in_states active_states) (ps_ledger s) \<le> 1"
      using ok assms(2) by (auto simp: proxy_ok_def ledger_ok_def)
    have pa: "pace_ok (1 / rp_max_rps (sr_payload permit)) (ps_sent s) cp (ps_pc s)"
      using step(3) serve(2) by blast
    have "pace_ok (1 / rp_max_rps (sr_payload permit))
        (ps_sent s @ (if opens (ps_pc s i) pc then [(i, tk_mono k)] else [])) cp1 ((ps_pc s)(i := pc))"
      by (rule pace_ok_step [OF serve(4) pa]) (use p assms(3) sl one in simp_all)
    then show ?thesis by (simp add: serve(1) fun_upd_def)
  next
    case (crash cp)
    then show ?thesis by simp
  next
    case (restart campaign program detector clock cp)
    with step(3) show ?thesis by (simp add: pace_ok_def)
  qed
qed

section \<open>The accounting\<close>

lemma count_states_parts:
  assumes "list_all (of_permit p) t"
  shows "int (length t) = count_states [''forwarding''] t + count_states [''response_received''] t +
      count_states [''failed_after_io''] t + count_states [''blocked_before_io''] t + count_states [''reserved''] t"
    and "int (count_rows (in_states forwarded_states) t) = count_states [''forwarding''] t +
      count_states [''response_received''] t + count_states [''failed_after_io''] t"
  using assms
  by (induction t) (auto simp: count_states_def of_permit_def row_states_def in_states_def forwarded_states_def)

lemma proxy_summary_forwarded:
  "list_all (of_permit p) t \<Longrightarrow> acc_forwarded (proxy_summary t) = int (count_rows (in_states forwarded_states) t)"
  by (simp add: proxy_summary_def count_states_parts(2))

lemma forwarded_le_spent: "count_rows (in_states forwarded_states) t \<le> count_rows (in_states spent_states) t"
  by (rule count_rows_mono) (auto simp: in_states_def forwarded_states_def spent_states_def)

section \<open>What the checks mean\<close>

lemma ord_colon [simp]: "ord (CHR '':'') = 58"
  by code_simp

lemma char_lower_colon: "c \<noteq> CHR '':'' \<Longrightarrow> char_lower c \<noteq> CHR '':''"
proof
  assume "c \<noteq> CHR '':''" "char_lower c = CHR '':''"
  then have "is_upper c" "ord (char_lower c) = 58" by (auto simp: char_lower_def split: if_splits)
  then show False by (auto simp: char_lower_def is_upper_def ord_char_of)
qed

lemma str_lower_colon: "CHR '':'' \<notin> set a \<Longrightarrow> CHR '':'' \<notin> set (str_lower a)"
  unfolding str_lower_def using char_lower_colon by (metis image_iff list.set_map)

lemma take_scheme_colon: "CHR '':'' \<notin> set (fst (take_scheme s))"
proof -
  obtain a sep b where p: "partition_at (CHR '':'') s = (a, sep, b)" using prod_cases3 by blast
  from str_lower_colon [OF partition_at_notin [OF p]] show ?thesis by (simp add: take_scheme_def p)
qed

lemma urlsplit_scheme_colon: "urlsplit s = Inr u \<Longrightarrow> CHR '':'' \<notin> set (url_scheme u)"
  using take_scheme_colon [of "clean_url s"] by (auto simp: urlsplit_def result_simps case_prod_unfold Let_def)

lemma before_colon:
  assumes "a @ CHR '':'' # b = a' @ CHR '':'' # b'" "CHR '':'' \<notin> set a" "CHR '':'' \<notin> set a'"
  shows "a = a' \<and> b = b'"
proof -
  have "(a, [CHR '':''], b) = (a', [CHR '':''], b')"
    using partition_at_fresh [OF assms(2), of b] partition_at_fresh [OF assms(3), of b'] assms(1) by metis
  then show ?thesis by simp
qed

lemma digits_no_colon: "CHR '':'' \<notin> set (nat_str n)"
  using nat_str_digits [of n] by (auto simp: list_all_iff is_digit_def)

definition host_text :: "split_url \<Rightarrow> string" where
  "host_text u = (case url_hostname u of None \<Rightarrow> ''None'' | Some h \<Rightarrow> h)"

text \<open>The text compared for the origin determines scheme, host and port.\<close>

lemma origin_text_inj:
  assumes "origin_text u = Inr o'" "origin_text v = Inr o'"
    and "CHR '':'' \<notin> set (url_scheme u)" "CHR '':'' \<notin> set (url_scheme v)"
  shows "url_scheme u = url_scheme v \<and> host_text u = host_text v \<and> effective_port u = effective_port v"
proof -
  from assms(1,2) obtain p q where p: "effective_port u = Inr p" "effective_port v = Inr q"
    and e: "url_scheme u @ CHR '':'' # ''//'' @ host_text u @ CHR '':'' # nat_str p =
      url_scheme v @ CHR '':'' # ''//'' @ host_text v @ CHR '':'' # nat_str q"
    by (auto simp: origin_text_def result_simps host_text_def)
  from before_colon [OF e assms(3,4)] have s: "url_scheme u = url_scheme v"
    and h: "host_text u @ CHR '':'' # nat_str p = host_text v @ CHR '':'' # nat_str q" by simp_all
  from h have "rev (nat_str p) @ CHR '':'' # rev (host_text u) = rev (nat_str q) @ CHR '':'' # rev (host_text v)"
    by (metis append.assoc append_Cons append_Nil rev.simps(2) rev_append)
  from before_colon [OF this] digits_no_colon have "nat_str p = nat_str q" "host_text u = host_text v" by auto
  with s p nat_str_inj show ?thesis by auto
qed

lemma check_request_None:
  assumes "check_request cp m tgt clock = Inr None"
  shows "verify_run_permit (cp_permit cp) (cp_key cp) None clock = Inr (cp_permit cp) \<and>
    (\<exists>u a. urlsplit tgt = Inr u \<and> urlsplit (rp_allowed_origin (proxy_payload cp)) = Inr a \<and>
       url_scheme u \<in> {''http'', ''https''} \<and> url_scheme u = url_scheme a \<and> host_text u = host_text a \<and>
       effective_port u = effective_port a \<and>
       path_permitted (rp_allowed_path_prefix (proxy_payload cp)) (url_path u)) \<and>
    str_upper m \<in> set (rp_allowed_methods (proxy_payload cp)) \<and> cp_circuit_failures cp < 3"
proof -
  from assms obtain q where v: "verify_run_permit (cp_permit cp) (cp_key cp) None clock = Inr q"
    by (auto simp: check_request_def split: sum.splits if_splits)
  with assms obtain u a o' where u: "urlsplit tgt = Inr u" "urlsplit (rp_allowed_origin (proxy_payload cp)) = Inr a"
    "origin_text u = Inr o'" "origin_text a = Inr o'" "url_scheme u \<in> {''http'', ''https''}"
    "path_permitted (rp_allowed_path_prefix (proxy_payload cp)) (url_path u)"
    "str_upper m \<in> set (rp_allowed_methods (proxy_payload cp))" "cp_circuit_failures cp < 3"
    by (auto simp: check_request_def result_simps not_le split: if_splits)
  have "q = cp_permit cp" using v by (simp add: verify_run_permit_Inr)
  with v u origin_text_inj [OF u(3,4)] urlsplit_scheme_colon [OF u(1)] urlsplit_scheme_colon [OF u(2)]
  show ?thesis by blast
qed

section \<open>Sequences of steps\<close>

text \<open>A run given by the requests that move, each with what its step reads.\<close>

definition proxy_serve :: "(nat \<Rightarrow> proxy_request) \<Rightarrow> nat \<Rightarrow> proxy_tick \<Rightarrow> proxy_system \<Rightarrow> proxy_system" where
  "proxy_serve reqs i k s =
     (case ps_proxy s of
        None \<Rightarrow> s
      | Some cp \<Rightarrow>
          (case request_step (reqs i) k (ps_pc s i) (cp, ps_ledger s) of
             (pc, cp1, t1) \<Rightarrow>
               s\<lparr>ps_proxy := Some cp1, ps_ledger := t1, ps_pc := (ps_pc s)(i := pc), ps_mono := tk_mono k,
                 ps_sent := ps_sent s @ (if opens (ps_pc s i) pc then [(i, tk_mono k)] else [])\<rparr>))"

lemma proxy_serve_reachable:
  assumes "proxy_reachable reqs permit key s" "ps_mono s \<le> tk_mono k"
  shows "proxy_reachable reqs permit key (proxy_serve reqs i k s)"
proof (cases "ps_proxy s")
  case None
  with assms(1) show ?thesis by (simp add: proxy_serve_def)
next
  case (Some cp)
  obtain pc cp1 t1 where r: "request_step (reqs i) k (ps_pc s i) (cp, ps_ledger s) = (pc, cp1, t1)"
    by (metis prod.collapse)
  with Some show ?thesis
    using proxy_reachable.step [OF assms(1) proxy_step.serve [where reqs = reqs and i = i and k = k and s = s, OF Some assms(2) r]]
    by (simp add: proxy_serve_def)
qed

section \<open>A request alone runs \<open>forward\<close>\<close>

lemma pacing_frame:
  assumes "next_request_id cp uuid = (rid, cp1)"
  shows "pacing_delay cp1 x = pacing_delay cp x"
  using assms by (auto simp: next_request_id_def Let_def pacing_delay_def proxy_payload_def)

lemma request_run_5:
  "request_run q tick 5 0 (pc, s) =
    (let (p1, s1) = request_step q (tick 0) pc s; (p2, s2) = request_step q (tick 1) p1 s1;
         (p3, s3) = request_step q (tick 2) p2 s2; (p4, s4) = request_step q (tick 3) p3 s3
     in request_step q (tick 4) p4 s4)"
proof -
  have r: "request_run q tick (Suc m) n x = request_run q tick m (Suc n) (case x of (pc, s) \<Rightarrow> request_step q (tick n) pc s)"
    for m n x by (cases x) simp
  show ?thesis by (simp add: eval_nat_numeral r split_beta)
qed

lemma steps_run_forward:
  assumes "tk_mono (tick 2) + pacing_delay cp (tk_mono (tick 2)) \<le> tk_mono (tick 3)"
  shows "request_run q tick 5 0 (Arrived, cp, t) =
    (case forward cp q tick t of (Inl e, s) \<Rightarrow> (Raised e, s) | (Inr reply, s) \<Rightarrow> (Answered reply, s))"
proof -
  obtain rid cp1 where n: "next_request_id cp (tk_uuid (tick 0)) = (rid, cp1)" by fastforce
  note run = request_run_5 n authorize_def forward_def
  show ?thesis
  proof (cases "check_request cp1 (pq_method q) (pq_target q) (tk_clock (tick 0))")
    case (Inl e)
    then show ?thesis by (simp add: run)
  next
    case (Inr verdict)
    obtain r t1 where v: "record_verdict cp1 rid (pq_method q) (pq_target q) verdict (tk_clock (tick 1)) t = (r, t1)"
      by fastforce
    consider (bad) e where "r = Inl e" | (denied) d where "r = Inr (Some d)" | (slot) "r = Inr None"
      by (cases r) auto
    then show ?thesis
    proof cases
      case bad
      with v show ?thesis by (simp add: run Inr)
    next
      case denied
      with v show ?thesis by (simp add: run Inr)
    next
      case slot
      have w: "\<not> tk_mono (tick 3) < tk_mono (tick 2) + pacing_delay cp1 (tk_mono (tick 2))"
        using assms pacing_frame [OF n] by simp
      obtain m t2 where m: "mark_forwarding rid (tk_clock (tick 3)) t1 = (m, t2)" by fastforce
      show ?thesis
        using v slot w m
        by (cases m) (simp_all add: run Inr split: prod.splits sum.splits)
    qed
  qed
qed

section \<open>The wire\<close>

lemma clean_headers_safe:
  assumes "(k, v) \<in> set (clean_headers hs netloc)"
  shows "str_lower k \<notin> set (SECRET_HEADERS @ HOP_HEADERS)"
proof -
  have h: "str_lower ''Host'' \<notin> set (SECRET_HEADERS @ HOP_HEADERS)" by code_simp
  have "k \<in> fst ` set (clean_headers hs netloc)" using assms by force
  then have "k = ''Host'' \<or> (\<exists>v. (k, v) \<in> set hs \<and> str_lower k \<notin> set (''host'' # HOP_HEADERS @ SECRET_HEADERS))"
    unfolding clean_headers_def dict_set_keys by auto
  with h show ?thesis by auto
qed

end
