(* ===== verification/PermitLedger.thy ===== *)
theory PermitLedger
  imports Prelude
begin

text \<open>
  The contract of a permit ledger, the store that makes a signed permit single-use. The
  program has two: the JSON state file (\<open>lifecycle.py\<close>) and the SQLite runtime database
  (\<open>runtime_state.py\<close>). The locale states what one operation does to the status of the
  permits; the replay-protection theorems about sequences of operations are proved once
  from it and interpreted for both stores.
\<close>

datatype lifecycle_status = AVAILABLE | CONSUMED | REVOKED

text \<open>The \<open>value\<close> of the string enum.\<close>

fun lifecycle_value :: "lifecycle_status \<Rightarrow> string" where
  "lifecycle_value AVAILABLE = ''available''"
| "lifecycle_value CONSUMED = ''consumed''"
| "lifecycle_value REVOKED = ''revoked''"

datatype ('a, 'b) ledger_op = Consume 'a | Revoke 'b

text \<open>One operation: whether it was accepted, and the store afterwards.\<close>

fun ledger_step ::
  "('a \<Rightarrow> 's \<Rightarrow> bool \<times> 's) \<Rightarrow> ('b \<Rightarrow> 's \<Rightarrow> bool \<times> 's) \<Rightarrow> ('a, 'b) ledger_op \<Rightarrow> 's \<Rightarrow> bool \<times> 's" where
  "ledger_step consume revoke (Consume a) s = consume a s"
| "ledger_step consume revoke (Revoke b) s = revoke b s"

text \<open>A sequence of operations: the store afterwards, and the operations accepted.\<close>

fun ledger_run ::
  "('a \<Rightarrow> 's \<Rightarrow> bool \<times> 's) \<Rightarrow> ('b \<Rightarrow> 's \<Rightarrow> bool \<times> 's) \<Rightarrow> ('a, 'b) ledger_op list \<Rightarrow> 's \<Rightarrow>
   ('a, 'b) ledger_op list \<times> 's" where
  "ledger_run consume revoke [] s = ([], s)"
| "ledger_run consume revoke (op # ops) s =
     (let (ok, s') = ledger_step consume revoke op s;
          (acc, s'') = ledger_run consume revoke ops s'
      in (if ok then op # acc else acc, s''))"

fun consumes :: "('a \<Rightarrow> string) \<Rightarrow> string \<Rightarrow> ('a, 'b) ledger_op \<Rightarrow> bool" where
  "consumes pid p (Consume a) = (pid a = p)"
| "consumes pid p (Revoke b) = False"

fun revokes :: "('b \<Rightarrow> string) \<Rightarrow> string \<Rightarrow> ('a, 'b) ledger_op \<Rightarrow> bool" where
  "revokes rid p (Consume a) = False"
| "revokes rid p (Revoke b) = (rid b = p)"

locale permit_ledger =
  fixes status :: "'s \<Rightarrow> string \<Rightarrow> lifecycle_status option"
    and consume :: "'a \<Rightarrow> 's \<Rightarrow> bool \<times> 's"
    and revoke :: "'b \<Rightarrow> 's \<Rightarrow> bool \<times> 's"
    and pid :: "'a \<Rightarrow> string"
    and rid :: "'b \<Rightarrow> string"
  assumes consume_accepted: "consume a s = (True, s') \<Longrightarrow>
      status s (pid a) = Some AVAILABLE \<and> status s' (pid a) = Some CONSUMED"
    and consume_frame: "consume a s = (ok, s') \<Longrightarrow> \<not> ok \<or> p \<noteq> pid a \<Longrightarrow> status s' p = status s p"
    and revoke_accepted: "revoke b s = (True, s') \<Longrightarrow>
      status s (rid b) \<noteq> Some CONSUMED \<and> status s' (rid b) = Some REVOKED"
    and revoke_frame: "revoke b s = (ok, s') \<Longrightarrow> \<not> ok \<or> p \<noteq> rid b \<Longrightarrow> status s' p = status s p"
begin

abbreviation run :: "('a, 'b) ledger_op list \<Rightarrow> 's \<Rightarrow> ('a, 'b) ledger_op list \<times> 's" where
  "run \<equiv> ledger_run consume revoke"

abbreviation one_step :: "('a, 'b) ledger_op \<Rightarrow> 's \<Rightarrow> bool \<times> 's" where
  "one_step \<equiv> ledger_step consume revoke"

lemma step_consumed:
  assumes "status s p = Some CONSUMED" "one_step op s = (ok, s')"
  shows "status s' p = Some CONSUMED \<and> \<not> (ok \<and> consumes pid p op) \<and> \<not> (ok \<and> revokes rid p op)"
proof (cases op)
  case (Consume a)
  then show ?thesis
    using assms consume_accepted [of a s s'] consume_frame [of a s ok s' p]
    by (cases ok; cases "pid a = p") auto
next
  case (Revoke b)
  then show ?thesis
    using assms revoke_accepted [of b s s'] revoke_frame [of b s ok s' p]
    by (cases ok; cases "rid b = p") auto
qed

lemma step_revoked:
  assumes "status s p = Some REVOKED" "one_step op s = (ok, s')"
  shows "status s' p = Some REVOKED \<and> \<not> (ok \<and> consumes pid p op)"
proof (cases op)
  case (Consume a)
  then show ?thesis
    using assms consume_accepted [of a s s'] consume_frame [of a s ok s' p]
    by (cases ok; cases "pid a = p") auto
next
  case (Revoke b)
  then show ?thesis
    using assms revoke_accepted [of b s s'] revoke_frame [of b s ok s' p]
    by (cases ok; cases "rid b = p") auto
qed

text \<open>Consumed and revoked are final: no later consumption of the permit is accepted.\<close>

lemma run_consumed:
  "status s p = Some CONSUMED \<Longrightarrow> run ops s = (acc, s') \<Longrightarrow>
   status s' p = Some CONSUMED \<and> (\<forall>op \<in> set acc. \<not> consumes pid p op \<and> \<not> revokes rid p op)"
proof (induction ops arbitrary: s acc)
  case Nil
  then show ?case by simp
next
  case (Cons op ops)
  obtain ok s1 acc1 where o: "one_step op s = (ok, s1)" and r: "run ops s1 = (acc1, s')"
    and acc: "acc = (if ok then op # acc1 else acc1)"
    using Cons.prems(2) by (auto split: prod.splits)
  from Cons.IH [OF _ r] step_consumed [OF Cons.prems(1) o] acc show ?case by auto
qed

lemma run_revoked:
  "status s p = Some REVOKED \<Longrightarrow> run ops s = (acc, s') \<Longrightarrow>
   status s' p = Some REVOKED \<and> (\<forall>op \<in> set acc. \<not> consumes pid p op)"
proof (induction ops arbitrary: s acc)
  case Nil
  then show ?case by simp
next
  case (Cons op ops)
  obtain ok s1 acc1 where o: "one_step op s = (ok, s1)" and r: "run ops s1 = (acc1, s')"
    and acc: "acc = (if ok then op # acc1 else acc1)"
    using Cons.prems(2) by (auto split: prod.splits)
  from Cons.IH [OF _ r] step_revoked [OF Cons.prems(1) o] acc show ?case by auto
qed

text \<open>Whatever the sequence of operations, a permit is consumed at most once.\<close>

lemma run_at_most_once:
  "run ops s = (acc, s') \<Longrightarrow> count_rows (consumes pid p) acc \<le> 1"
proof (induction ops arbitrary: s acc)
  case Nil
  then show ?case by simp
next
  case (Cons op ops)
  obtain ok s1 acc1 where o: "one_step op s = (ok, s1)" and r: "run ops s1 = (acc1, s')"
    and acc: "acc = (if ok then op # acc1 else acc1)"
    using Cons.prems by (auto split: prod.splits)
  show ?case
  proof (cases "ok \<and> consumes pid p op")
    case True
    then obtain a where "op = Consume a" "pid a = p" by (cases op) auto
    with o True have "status s1 p = Some CONSUMED" using consume_accepted [of a s s1] by simp
    from run_consumed [OF this r] have "count_rows (consumes pid p) acc1 = 0"
      by (simp add: count_rows_def)
    with True acc show ?thesis by simp
  next
    case False
    with Cons.IH [OF r] acc show ?thesis by auto
  qed
qed

text \<open>After an accepted revocation no consumption of the permit is accepted.\<close>

lemma run_after_revoke:
  assumes "revoke b s = (True, s1)" "run ops s1 = (acc, s')" "op \<in> set acc"
  shows "\<not> consumes pid (rid b) op"
  using revoke_accepted [OF assms(1)] run_revoked [OF _ assms(2), of "rid b"] assms(3) by blast

end

end
