(* ===== verification/Lifecycle.thy ===== *)
theory Lifecycle
  imports Permits Files PermitLedger
begin

text \<open>
  \<open>src/astp/lifecycle.py\<close>, the state file: the single-use and revocation ledger of signed
  permits. The file is a JSON document read and replaced whole under an exclusive lock,
  so a locked section is one step. \<open>consume_execution_permit\<close> takes the lock only for
  its last part: it is modelled both as one function and as the steps that interleave
  with other workers.
\<close>

record state_entry =
  se_status :: lifecycle_status
  se_updated_at :: datetime
  se_reason :: "string option"

record permit_state =
  ps_schema_version :: int
  ps_permits :: "(string \<times> state_entry) list"

record consume_result =
  cr_accepted :: bool
  cr_verification :: verification_result
  cr_status :: lifecycle_status
  cr_message :: message

type_synonym state_file = "permit_state json_file"

definition load_state :: "state_file \<Rightarrow> permit_state result" where
  "load_state f = load_or \<lparr>ps_schema_version = 1, ps_permits = []\<rparr> f"

definition permit_status :: "state_file \<Rightarrow> string \<Rightarrow> lifecycle_status result" where
  "permit_status f p =
     rbind (load_state f) (\<lambda>st.
       Inr (case dict_get (ps_permits st) p of Some e \<Rightarrow> se_status e | None \<Rightarrow> AVAILABLE))"

definition set_entry :: "permit_state \<Rightarrow> string \<Rightarrow> state_entry \<Rightarrow> permit_state" where
  "set_entry st p e = st\<lparr>ps_permits := dict_set (ps_permits st) p e\<rparr>"

definition revoke_permit ::
  "state_file \<Rightarrow> string \<Rightarrow> string \<Rightarrow> datetime option \<Rightarrow> datetime \<Rightarrow> (state_file, state_entry) outcome" where
  "revoke_permit f p reason now clock =
     (let current = or_else now clock
      in obind (olift (load_state f) f) (\<lambda>st f.
         case dict_get (ps_permits st) p of
           Some e \<Rightarrow>
             if se_status e = CONSUMED
             then (value_error ''a consumed permit cannot be retroactively revoked'', f)
             else let entry = \<lparr>se_status = REVOKED, se_updated_at = current, se_reason = Some reason\<rparr>
                  in (Inr entry, Parsed (set_entry st p entry))
         | None \<Rightarrow>
             let entry = \<lparr>se_status = REVOKED, se_updated_at = current, se_reason = Some reason\<rparr>
             in (Inr entry, Parsed (set_entry st p entry))))"

definition consume_state ::
  "state_file \<Rightarrow> string \<Rightarrow> datetime \<Rightarrow> (state_file, state_entry) outcome" where
  "consume_state f p now =
     obind (olift (load_state f) f) (\<lambda>st f.
       let entry = \<lparr>se_status = CONSUMED, se_updated_at = now, se_reason = None\<rparr>
       in case dict_get (ps_permits st) p of
            Some e \<Rightarrow>
              if se_status e = REVOKED then (value_error ''permit has been revoked'', f)
              else if se_status e = CONSUMED
              then (value_error ''permit has already been consumed'', f)
              else (Inr entry, Parsed (set_entry st p entry))
          | None \<Rightarrow> (Inr entry, Parsed (set_entry st p entry)))"

text \<open>One call of \<open>consume_execution_permit\<close>: its arguments and the clock it reads.\<close>

record consume_call =
  cc_permit :: signed_permit
  cc_engagement :: engagement
  cc_test :: test_definition
  cc_request :: verification_request
  cc_keys :: keys
  cc_clock :: datetime

definition cc_permit_id :: "consume_call \<Rightarrow> string" where
  "cc_permit_id c = pp_permit_id (sp_payload (cc_permit c))"

definition cc_verify :: "consume_call \<Rightarrow> verification_result result" where
  "cc_verify c =
     verify_execution_permit (cc_permit c) (cc_engagement c) (cc_test c) (cc_request c)
       (cc_keys c) (cc_clock c)"

definition refusal :: "verification_result \<Rightarrow> lifecycle_status \<Rightarrow> message \<Rightarrow> consume_result" where
  "refusal v s m = \<lparr>cr_accepted = False, cr_verification = v, cr_status = s, cr_message = m\<rparr>"

definition consume_execution_permit ::
  "consume_call \<Rightarrow> state_file \<Rightarrow> (state_file, consume_result) outcome" where
  "consume_execution_permit c f =
     obind (olift (permit_status f (cc_permit_id c)) f) (\<lambda>status f.
       if status = REVOKED then
         (Inr (refusal (rejected []) status [Txt ''Permit has been revoked.'']), f)
       else if status = CONSUMED then
         (Inr (refusal (rejected []) status
            [Txt ''Permit has already been consumed; replay rejected.'']), f)
       else
         obind (olift (cc_verify c) f) (\<lambda>v f.
           if \<not> vr_valid v then
             (Inr (refusal v AVAILABLE
                [Txt ''Permit verification failed; permit was not consumed.'']), f)
           else
             (case consume_state f (cc_permit_id c) (or_else (vq_now (cc_request c)) (cc_clock c)) of
                (Inl e, f') \<Rightarrow>
                  if is_value_error e then
                    obind (olift (permit_status f' (cc_permit_id c)) f') (\<lambda>latest f.
                      (Inr (refusal v latest (error_text e)), f))
                  else (Inl e, f')
              | (Inr entry, f') \<Rightarrow>
                  (Inr \<lparr>cr_accepted = True, cr_verification = v, cr_status = se_status entry,
                     cr_message = [Txt ''Permit verified and consumed exactly once.'']\<rparr>, f'))))"

section \<open>The steps of a call among other workers\<close>

text \<open>Where a call of \<open>consume_execution_permit\<close> stands, with what it has computed.\<close>

datatype call_pc =
    Entered
  | Unused
  | Verified verification_result
  | Refused verification_result message
  | Returned "consume_result result"

text \<open>The next step of a call: each reads or replaces the state file at most once.\<close>

fun call_step :: "consume_call \<Rightarrow> call_pc \<Rightarrow> state_file \<Rightarrow> call_pc \<times> state_file" where
  "call_step c Entered f =
     ((case permit_status f (cc_permit_id c) of
         Inl e \<Rightarrow> Returned (Inl e)
       | Inr REVOKED \<Rightarrow>
           Returned (Inr (refusal (rejected []) REVOKED [Txt ''Permit has been revoked.'']))
       | Inr CONSUMED \<Rightarrow>
           Returned (Inr (refusal (rejected []) CONSUMED
             [Txt ''Permit has already been consumed; replay rejected.'']))
       | Inr AVAILABLE \<Rightarrow> Unused), f)"
| "call_step c Unused f =
     ((case cc_verify c of
         Inl e \<Rightarrow> Returned (Inl e)
       | Inr v \<Rightarrow>
           if vr_valid v then Verified v
           else Returned (Inr (refusal v AVAILABLE
             [Txt ''Permit verification failed; permit was not consumed.'']))), f)"
| "call_step c (Verified v) f =
     (case consume_state f (cc_permit_id c) (or_else (vq_now (cc_request c)) (cc_clock c)) of
        (Inl e, f') \<Rightarrow> (if is_value_error e then Refused v (error_text e) else Returned (Inl e), f')
      | (Inr entry, f') \<Rightarrow>
          (Returned (Inr \<lparr>cr_accepted = True, cr_verification = v, cr_status = se_status entry,
             cr_message = [Txt ''Permit verified and consumed exactly once.'']\<rparr>), f'))"
| "call_step c (Refused v m) f =
     ((case permit_status f (cc_permit_id c) of
         Inl e \<Rightarrow> Returned (Inl e)
       | Inr s \<Rightarrow> Returned (Inr (refusal v s m))), f)"
| "call_step c (Returned r) f = (Returned r, f)"

text \<open>\<open>n\<close> steps of one call with nobody else running.\<close>

fun call_steps :: "nat \<Rightarrow> consume_call \<Rightarrow> call_pc \<Rightarrow> state_file \<Rightarrow> call_pc \<times> state_file" where
  "call_steps 0 c pc f = (pc, f)"
| "call_steps (Suc n) c pc f = (let (pc', f') = call_step c pc f in call_steps n c pc' f')"

record ledger_system =
  ls_file :: state_file
  ls_pc :: "nat \<Rightarrow> call_pc"

text \<open>
  Workers \<open>0, 1, ...\<close>, worker \<open>w\<close> running the call \<open>calls w\<close>, and operators revoking
  permits, in any order.
\<close>

inductive system_step :: "(nat \<Rightarrow> consume_call) \<Rightarrow> ledger_system \<Rightarrow> ledger_system \<Rightarrow> bool"
  for calls where
  worker: "call_step (calls w) (ls_pc s w) (ls_file s) = (pc', f') \<Longrightarrow>
     system_step calls s \<lparr>ls_file = f', ls_pc = (ls_pc s)(w := pc')\<rparr>"
| operator: "revoke_permit (ls_file s) p reason now clock = (r, f') \<Longrightarrow>
     system_step calls s (s\<lparr>ls_file := f'\<rparr>)"

inductive_cases system_stepE [consumes 1, case_names worker operator]: "system_step calls s s'"

inductive system_reachable :: "(nat \<Rightarrow> consume_call) \<Rightarrow> state_file \<Rightarrow> ledger_system \<Rightarrow> bool"
  for calls f0 where
  start: "system_reachable calls f0 \<lparr>ls_file = f0, ls_pc = \<lambda>_. Entered\<rparr>"
| more: "system_reachable calls f0 s \<Longrightarrow> system_step calls s s' \<Longrightarrow> system_reachable calls f0 s'"

text \<open>A worker was told that its permit is consumed for it.\<close>

fun admitted :: "call_pc \<Rightarrow> bool" where
  "admitted (Returned (Inr r)) = cr_accepted r"
| "admitted _ = False"

section \<open>Lemmas of the component\<close>

named_theorems ledger_defs "the definitions of the state-file operations"

declare load_state_def [ledger_defs] permit_status_def [ledger_defs] set_entry_def [ledger_defs]
  revoke_permit_def [ledger_defs] consume_state_def [ledger_defs] Let_def [ledger_defs]

text \<open>The status of a permit when the file is readable.\<close>

definition file_status :: "state_file \<Rightarrow> string \<Rightarrow> lifecycle_status option" where
  "file_status f p = (case permit_status f p of Inl _ \<Rightarrow> None | Inr s \<Rightarrow> Some s)"

lemma refusal_accepted [simp]: "\<not> cr_accepted (refusal v s m)"
  by (simp add: refusal_def)

lemma consume_state_Inr:
  assumes "consume_state f p now = (Inr e, f')"
  shows "file_status f p = Some AVAILABLE \<and> file_status f' p = Some CONSUMED \<and>
         se_status e = CONSUMED \<and> (\<forall>q. q \<noteq> p \<longrightarrow> file_status f' q = file_status f q)"
  using assms
  by (cases f; cases "se_status e")
    (auto simp: ledger_defs file_status_def split: option.splits if_splits, (metis lifecycle_status.exhaust)+)

lemma consume_state_Inl: "consume_state f p now = (Inl e, f') \<Longrightarrow> f' = f \<and> is_value_error e"
  by (cases f) (auto simp: ledger_defs split: option.splits if_splits)

lemma revoke_permit_Inr:
  assumes "revoke_permit f p reason now clock = (Inr e, f')"
  shows "file_status f p \<noteq> Some CONSUMED \<and> file_status f' p = Some REVOKED \<and>
         (\<forall>q. q \<noteq> p \<longrightarrow> file_status f' q = file_status f q)"
  using assms
  by (cases f) (auto simp: ledger_defs file_status_def split: option.splits if_splits)

lemma revoke_permit_Inl: "revoke_permit f p reason now clock = (Inl e, f') \<Longrightarrow> f' = f"
  by (cases f) (auto simp: ledger_defs split: option.splits if_splits)

text \<open>Acceptance of a whole call: verified, and the file went from available to consumed.\<close>

lemma consume_execution_permitD:
  assumes "consume_execution_permit c f = (Inr r, f')" "cr_accepted r"
  shows "cc_verify c = Inr (cr_verification r) \<and> vr_valid (cr_verification r) \<and>
         cr_status r = CONSUMED \<and>
         (\<exists>e. consume_state f (cc_permit_id c) (or_else (vq_now (cc_request c)) (cc_clock c)) = (Inr e, f'))"
proof -
  let ?cs = "consume_state f (cc_permit_id c) (or_else (vq_now (cc_request c)) (cc_clock c))"
  obtain q g where cs: "?cs = (q, g)" by fastforce
  show ?thesis
  proof (cases q)
    case (Inl e)
    with assms cs show ?thesis
      by (auto simp: consume_execution_permit_def result_simps split: if_splits)
  next
    case (Inr e)
    from consume_state_Inr [OF cs [unfolded Inr]] Inr assms cs show ?thesis
      by (auto simp: consume_execution_permit_def result_simps split: if_splits)
  qed
qed

lemma consume_execution_permit_refused:
  assumes "consume_execution_permit c f = (r, f')" "\<not> admitted (Returned r)"
  shows "f' = f"
proof -
  let ?cs = "consume_state f (cc_permit_id c) (or_else (vq_now (cc_request c)) (cc_clock c))"
  obtain q g where cs: "?cs = (q, g)" by fastforce
  show ?thesis
  proof (cases "permit_status f (cc_permit_id c)")
    case (Inl e)
    with assms show ?thesis by (simp add: consume_execution_permit_def)
  next
    case (Inr s)
    show ?thesis
    proof (cases "cc_verify c")
      case (Inl e)
      with Inr assms show ?thesis
        by (simp add: consume_execution_permit_def split: if_splits)
    next
      case v: (Inr v)
      show ?thesis
      proof (cases q)
        case (Inl e)
        with consume_state_Inl [OF cs [unfolded Inl]] Inr v cs assms show ?thesis
          by (auto simp: consume_execution_permit_def split: if_splits)
      next
        case q: (Inr e)
        with Inr v cs assms show ?thesis
          by (auto simp: consume_execution_permit_def split: if_splits)
      qed
    qed
  qed
qed

text \<open>The store operations of the ledger contract.\<close>

definition file_consume :: "consume_call \<Rightarrow> state_file \<Rightarrow> bool \<times> state_file" where
  "file_consume c f = (let (r, f') = consume_execution_permit c f in (admitted (Returned r), f'))"

record revocation =
  rv_permit_id :: string
  rv_reason :: string
  rv_now :: "datetime option"
  rv_clock :: datetime

definition file_revoke :: "revocation \<Rightarrow> state_file \<Rightarrow> bool \<times> state_file" where
  "file_revoke b f =
     (case revoke_permit f (rv_permit_id b) (rv_reason b) (rv_now b) (rv_clock b) of
        (Inl _, f') \<Rightarrow> (False, f')
      | (Inr _, f') \<Rightarrow> (True, f'))"

lemma admitted_Returned: "admitted (Returned r) \<longleftrightarrow> (\<exists>x. r = Inr x \<and> cr_accepted x)"
  by (cases r) simp_all

lemma file_consume_True:
  assumes "file_consume c f = (True, f')"
  shows "\<exists>e. consume_state f (cc_permit_id c) (or_else (vq_now (cc_request c)) (cc_clock c)) = (Inr e, f')"
  using assms consume_execution_permitD [of c f]
  by (auto simp: file_consume_def admitted_Returned split: prod.splits)

lemma file_consume_False: "file_consume c f = (False, f') \<Longrightarrow> f' = f"
  using consume_execution_permit_refused [of c f]
  by (auto simp: file_consume_def split: prod.splits)

interpretation file_ledger:
  permit_ledger file_status file_consume file_revoke cc_permit_id rv_permit_id
proof (unfold_locales, goal_cases)
  case (1 a s s')
  then show ?case using file_consume_True consume_state_Inr by blast
next
  case (2 a s ok s' p)
  then show ?case
  proof (cases ok)
    case True
    with 2 show ?thesis using file_consume_True [of a s s'] by (auto dest: consume_state_Inr)
  next
    case False
    with 2 show ?thesis using file_consume_False [of a s s'] by simp
  qed
next
  case (3 b s s')
  then show ?case
    using revoke_permit_Inr by (fastforce simp: file_revoke_def split: prod.splits sum.splits)
next
  case (4 b s ok s' p)
  then show ?case
    using revoke_permit_Inr revoke_permit_Inl
    by (fastforce simp: file_revoke_def split: prod.splits sum.splits)
qed

section \<open>Replay protection with interleaved workers\<close>

lemma steps_refine:
  "call_steps 4 c Entered f = (let (r, f') = consume_execution_permit c f in (Returned r, f'))"
proof (cases "permit_status f (cc_permit_id c)")
  case (Inl e)
  then show ?thesis by (simp add: numeral_eq_Suc consume_execution_permit_def)
next
  case (Inr s)
  let ?cs = "consume_state f (cc_permit_id c) (or_else (vq_now (cc_request c)) (cc_clock c))"
  obtain q g where cs: "?cs = (q, g)" by fastforce
  show ?thesis
  proof (cases s)
    case AVAILABLE
    show ?thesis
    proof (cases "cc_verify c")
      case (Inl e)
      with Inr AVAILABLE show ?thesis by (simp add: numeral_eq_Suc consume_execution_permit_def)
    next
      case v: (Inr v)
      show ?thesis
      proof (cases q)
        case q: (Inl e)
        have "g = f" "is_value_error e" using consume_state_Inl [OF cs [unfolded q]] by simp_all
        with Inr AVAILABLE v cs q show ?thesis
          by (simp add: numeral_eq_Suc consume_execution_permit_def)
      next
        case q: (Inr e)
        with Inr AVAILABLE v cs show ?thesis
          by (simp add: numeral_eq_Suc consume_execution_permit_def)
      qed
    qed
  qed (use Inr in \<open>simp_all add: numeral_eq_Suc consume_execution_permit_def\<close>)
qed

lemma call_step_file:
  assumes "call_step c pc f = (pc', f')"
  shows "(f' = f \<and> (admitted pc' \<longrightarrow> admitted pc)) \<or>
         (\<exists>v e. pc = Verified v \<and> admitted pc' \<and>
            consume_state f (cc_permit_id c) (or_else (vq_now (cc_request c)) (cc_clock c)) = (Inr e, f'))"
proof (cases pc)
  case (Verified v)
  obtain q g where "consume_state f (cc_permit_id c) (or_else (vq_now (cc_request c)) (cc_clock c)) = (q, g)"
    by fastforce
  with assms Verified show ?thesis
    by (cases q) (auto dest: consume_state_Inl)
qed (use assms in \<open>auto split: sum.splits lifecycle_status.splits if_splits\<close>)

lemma call_step_keeps: "admitted pc \<Longrightarrow> call_step c pc f = (pc, f)"
  by (cases pc) auto

definition ledger_inv :: "(nat \<Rightarrow> consume_call) \<Rightarrow> ledger_system \<Rightarrow> bool" where
  "ledger_inv calls s \<longleftrightarrow>
     (\<forall>w. admitted (ls_pc s w) \<longrightarrow> file_status (ls_file s) (cc_permit_id (calls w)) = Some CONSUMED) \<and>
     (\<forall>w w'. admitted (ls_pc s w) \<and> admitted (ls_pc s w') \<and>
        cc_permit_id (calls w) = cc_permit_id (calls w') \<longrightarrow> w = w')"

lemma system_step_inv:
  assumes "ledger_inv calls s" "system_step calls s s'"
  shows "ledger_inv calls s'"
  using assms(2)
proof (cases rule: system_stepE)
  case (worker w pc' f')
  from call_step_file [OF worker(2)]
  show ?thesis
  proof
    assume "f' = ls_file s \<and> (admitted pc' \<longrightarrow> admitted (ls_pc s w))"
    with assms(1) worker(1) show ?thesis unfolding ledger_inv_def by (auto split: if_splits)
  next
    assume "\<exists>v e. ls_pc s w = Verified v \<and> admitted pc' \<and>
       consume_state (ls_file s) (cc_permit_id (calls w))
         (or_else (vq_now (cc_request (calls w))) (cc_clock (calls w))) = (Inr e, f')"
    then obtain e where e: "consume_state (ls_file s) (cc_permit_id (calls w))
         (or_else (vq_now (cc_request (calls w))) (cc_clock (calls w))) = (Inr e, f')" by blast
    note c = consume_state_Inr [OF e]
    have fresh: "\<not> admitted (ls_pc s v)" if "cc_permit_id (calls v) = cc_permit_id (calls w)" for v
      using assms(1) c that unfolding ledger_inv_def by force
    have keep: "file_status f' (cc_permit_id (calls v)) = Some CONSUMED"
      if "admitted (ls_pc s v)" for v
      using assms(1) c that fresh unfolding ledger_inv_def by metis
    show ?thesis
      unfolding ledger_inv_def worker(1) using c fresh keep assms(1)
      by (auto simp: ledger_inv_def split: if_splits)
  qed
next
  case (operator p reason now clock r f')
  have "file_status f' q = Some CONSUMED" if "file_status (ls_file s) q = Some CONSUMED" for q
  proof (cases r)
    case (Inl e)
    with operator(2) that revoke_permit_Inl show ?thesis by blast
  next
    case (Inr e)
    from revoke_permit_Inr [OF operator(2) [unfolded Inr]] that show ?thesis by (cases "q = p") auto
  qed
  with assms(1) operator(1) show ?thesis unfolding ledger_inv_def by simp
qed

lemma system_reachable_inv: "system_reachable calls f0 s \<Longrightarrow> ledger_inv calls s"
  by (induction rule: system_reachable.induct)
    (auto simp: ledger_inv_def [of _ "\<lparr>ls_file = f0, ls_pc = \<lambda>_. Entered\<rparr>"] intro: system_step_inv)

text \<open>An available permit that verifies is accepted.\<close>

lemma consume_accepts:
  assumes "file_status f (cc_permit_id c) = Some AVAILABLE" "cc_verify c = Inr v" "vr_valid v"
  obtains r f' where "consume_execution_permit c f = (Inr r, f')" "cr_accepted r"
proof -
  have s: "permit_status f (cc_permit_id c) = Inr AVAILABLE"
    using assms(1) by (auto simp: file_status_def split: sum.splits)
  then obtain st where st: "load_state f = Inr st"
    "(case dict_get (ps_permits st) (cc_permit_id c) of Some e \<Rightarrow> se_status e | None \<Rightarrow> AVAILABLE) = AVAILABLE"
    by (auto simp: permit_status_def result_simps)
  then have "\<exists>e f'. consume_state f (cc_permit_id c) (or_else (vq_now (cc_request c)) (cc_clock c)) = (Inr e, f')"
    by (cases "dict_get (ps_permits st) (cc_permit_id c)") (simp_all add: consume_state_def Let_def)
  then obtain e f' where "consume_state f (cc_permit_id c) (or_else (vq_now (cc_request c)) (cc_clock c)) = (Inr e, f')" by blast
  with s assms(2,3) that show ?thesis by (simp add: consume_execution_permit_def)
qed

end
