(* ===== verification/RuntimeState.thy ===== *)
theory RuntimeState
  imports Lifecycle
begin

text \<open>
  \<open>src/astp/runtime_state.py\<close>: the worker's admission ledger in SQLite. One transaction
  checks that the permit is unused, applies the target's rate limit and consumes the permit;
  \<open>BEGIN IMMEDIATE\<close> serialises the writers, so a transaction is one step whose state is
  the old database when it rolls back. The \<open>permit_state\<close> table is a dictionary on its
  primary key, \<open>rate_events\<close> the list of its rows; instants are exact seconds.
\<close>

record permit_row =
  pr_status :: string
  pr_updated_at :: string
  pr_reason :: "string option"

record rate_event =
  re_action_key :: string
  re_observed_at :: rat

record runtime_db =
  rd_permits :: "(string \<times> permit_row) list"
  rd_rates :: "rate_event list"

record admission_result =
  wa_accepted :: bool
  wa_verification :: verification_result
  wa_status :: lifecycle_status
  wa_message :: message
  wa_retry_after :: rat

text \<open>\<open>PermitLifecycleStatus(text)\<close>.\<close>

definition lifecycle_of :: "string \<Rightarrow> lifecycle_status result" where
  "lifecycle_of s =
     (if s = ''available'' then Inr AVAILABLE
      else if s = ''consumed'' then Inr CONSUMED
      else if s = ''revoked'' then Inr REVOKED
      else Inl (ValueError [PyRepr s, Txt '' is not a valid PermitLifecycleStatus'']))"

definition runtime_permit_status :: "runtime_db \<Rightarrow> string \<Rightarrow> lifecycle_status result" where
  "runtime_permit_status db p =
     (case dict_get (rd_permits db) p of
        None \<Rightarrow> Inr AVAILABLE
      | Some row \<Rightarrow> lifecycle_of (pr_status row))"

definition revoke_runtime_permit ::
  "runtime_db \<Rightarrow> string \<Rightarrow> string \<Rightarrow> datetime option \<Rightarrow> datetime \<Rightarrow> (runtime_db, lifecycle_status) outcome" where
  "revoke_runtime_permit db p reason now clock =
     (let current = or_else now clock;
          row = \<lparr>pr_status = lifecycle_value REVOKED, pr_updated_at = isoformat current, pr_reason = Some reason\<rparr>
      in if map_option pr_status (dict_get (rd_permits db) p) = Some (lifecycle_value CONSUMED)
         then (value_error ''a consumed permit cannot be retroactively revoked'', db)
         else (Inr REVOKED, db\<lparr>rd_permits := dict_set (rd_permits db) p row\<rparr>))"

text \<open>\<open>INSERT INTO permit_state\<close>: the primary key must be new.\<close>

definition insert_permit :: "runtime_db \<Rightarrow> string \<Rightarrow> permit_row \<Rightarrow> runtime_db result" where
  "insert_permit db p row =
     (if dict_get (rd_permits db) p = None
      then Inr (db\<lparr>rd_permits := dict_set (rd_permits db) p row\<rparr>)
      else Inl IntegrityError)"

text \<open>\<open>DELETE ... WHERE action_key = ? AND observed_at <= ?\<close> and \<open>SELECT MAX(observed_at)\<close>.\<close>

definition prune_rates :: "string \<Rightarrow> rat \<Rightarrow> rate_event list \<Rightarrow> rate_event list" where
  "prune_rates key start rows =
     filter (\<lambda>r. \<not> (re_action_key r = key \<and> re_observed_at r \<le> start)) rows"

definition latest_rate :: "string \<Rightarrow> rate_event list \<Rightarrow> rat option" where
  "latest_rate key rows =
     (case map re_observed_at (filter (\<lambda>r. re_action_key r = key) rows) of
        [] \<Rightarrow> None
      | t # ts \<Rightarrow> Some (foldl max t ts))"

definition timestamp :: "datetime \<Rightarrow> rat" where
  "timestamp d = of_int (dt_us d) / 1000000"

text \<open>The arguments of one admission.\<close>

record admit_call =
  ad_consume :: consume_call
  ad_action_key :: string
  ad_max_rps :: rat

definition ad_now :: "admit_call \<Rightarrow> datetime" where
  "ad_now a = or_else (vq_now (cc_request (ad_consume a))) (cc_clock (ad_consume a))"

definition ad_instant :: "admit_call \<Rightarrow> rat" where
  "ad_instant a = timestamp (ad_now a)"

definition ad_permit_id :: "admit_call \<Rightarrow> string" where
  "ad_permit_id a = cc_permit_id (ad_consume a)"

definition no_admission ::
  "verification_result \<Rightarrow> lifecycle_status \<Rightarrow> message \<Rightarrow> rat \<Rightarrow> admission_result" where
  "no_admission v s m retry =
     \<lparr>wa_accepted = False, wa_verification = v, wa_status = s, wa_message = m, wa_retry_after = retry\<rparr>"

text \<open>The statements after the status check: \<open>Inl\<close> is an error inside the transaction.\<close>

definition rate_and_consume ::
  "admit_call \<Rightarrow> verification_result \<Rightarrow> runtime_db \<Rightarrow> (rat + runtime_db) result" where
  "rate_and_consume a v db =
     (let instant = ad_instant a;
          minimum_interval = 1 / ad_max_rps a;
          pruned = prune_rates (ad_action_key a) (instant - 1) (rd_rates db);
          latest = latest_rate (ad_action_key a) pruned
      in case latest of
           Some l \<Rightarrow>
             if instant - l < minimum_interval
             then Inr (Inl (max 0 (minimum_interval - (instant - l))))
             else rbind (insert_permit
                     (db\<lparr>rd_rates := pruned @ [\<lparr>re_action_key = ad_action_key a, re_observed_at = instant\<rparr>]\<rparr>)
                     (ad_permit_id a)
                     \<lparr>pr_status = lifecycle_value CONSUMED, pr_updated_at = isoformat (ad_now a), pr_reason = None\<rparr>)
                   (\<lambda>db'. Inr (Inr db'))
         | None \<Rightarrow>
             rbind (insert_permit
                     (db\<lparr>rd_rates := pruned @ [\<lparr>re_action_key = ad_action_key a, re_observed_at = instant\<rparr>]\<rparr>)
                     (ad_permit_id a)
                     \<lparr>pr_status = lifecycle_value CONSUMED, pr_updated_at = isoformat (ad_now a), pr_reason = None\<rparr>)
                   (\<lambda>db'. Inr (Inr db')))"

definition admit_worker_action :: "admit_call \<Rightarrow> runtime_db \<Rightarrow> (runtime_db, admission_result) outcome" where
  "admit_worker_action a db =
     (if ad_max_rps a \<le> 0 then (value_error ''Rate limit must be greater than zero.'', db)
      else
        (case cc_verify (ad_consume a) of
           Inl e \<Rightarrow> (Inl e, db)
         | Inr v \<Rightarrow>
             if \<not> vr_valid v then
               (Inr (no_admission v AVAILABLE
                  [Txt ''Permit verification failed; permit was not consumed.''] 0), db)
             else
               (case runtime_permit_status db (ad_permit_id a) of
                  Inl e \<Rightarrow> (Inl e, db)
                | Inr REVOKED \<Rightarrow> (Inr (no_admission v REVOKED [Txt ''Permit has been revoked.''] 0), db)
                | Inr CONSUMED \<Rightarrow>
                    (Inr (no_admission v CONSUMED
                       [Txt ''Permit has already been consumed; replay rejected.''] 0), db)
                | Inr AVAILABLE \<Rightarrow>
                    (case rate_and_consume a v db of
                       Inl IntegrityError \<Rightarrow>
                         (rbind (runtime_permit_status db (ad_permit_id a)) (\<lambda>s.
                            Inr (no_admission v s
                              [Txt ''Permit admission raced with another worker; replay rejected.''] 0)), db)
                     | Inl e \<Rightarrow> (Inl e, db)
                     | Inr (Inl retry) \<Rightarrow>
                         (Inr (no_admission v AVAILABLE
                            [Txt ''Durable target rate limit reached; permit was not consumed.''] retry), db)
                     | Inr (Inr db') \<Rightarrow>
                         (Inr \<lparr>wa_accepted = True, wa_verification = v, wa_status = CONSUMED,
                            wa_message = [Txt ''Permit verified, rate-admitted, and consumed atomically.''],
                            wa_retry_after = 0\<rparr>, db')))))"

section \<open>Lemmas of the component\<close>

lemma no_admission_accepted [simp]: "\<not> wa_accepted (no_admission v s m r)"
  by (simp add: no_admission_def)

lemma lifecycle_of_value [simp]: "lifecycle_of (lifecycle_value s) = Inr s"
  by (cases s) (simp_all add: lifecycle_of_def)

lemma insert_permit_Inr:
  "insert_permit db p row = Inr db' \<longleftrightarrow>
     dict_get (rd_permits db) p = None \<and> db' = db\<lparr>rd_permits := dict_set (rd_permits db) p row\<rparr>"
  by (auto simp: insert_permit_def)

lemma foldl_max_ge: "(y::rat) \<in> set (t # ts) \<Longrightarrow> y \<le> foldl max t ts"
proof (induction ts arbitrary: t y)
  case (Cons u us)
  have "max t u \<le> foldl max (max t u) us" by (rule Cons.IH) simp
  with Cons show ?case by (cases "y \<in> set us") auto
qed simp

lemma latest_rate_ge:
  assumes "r \<in> set rows" "re_action_key r = key"
  obtains l where "latest_rate key rows = Some l" "re_observed_at r \<le> l"
proof -
  from assms have m: "re_observed_at r \<in> set (map re_observed_at (filter (\<lambda>r. re_action_key r = key) rows))"
    by auto
  then obtain t ts where ts: "map re_observed_at (filter (\<lambda>r. re_action_key r = key) rows) = t # ts"
    by (cases "map re_observed_at (filter (\<lambda>r. re_action_key r = key) rows)") auto
  with m foldl_max_ge that show ?thesis by (simp add: latest_rate_def)
qed

text \<open>An event of the key at or after an instant.\<close>

definition seen_since :: "runtime_db \<Rightarrow> string \<Rightarrow> rat \<Rightarrow> bool" where
  "seen_since db key t \<longleftrightarrow> (\<exists>r \<in> set (rd_rates db). re_action_key r = key \<and> t \<le> re_observed_at r)"

lemma rate_and_consume_accepted:
  assumes "rate_and_consume a v db = Inr (Inr db')"
  shows "dict_get (rd_permits db) (ad_permit_id a) = None \<and>
    rd_permits db' = dict_set (rd_permits db) (ad_permit_id a)
      \<lparr>pr_status = lifecycle_value CONSUMED, pr_updated_at = isoformat (ad_now a), pr_reason = None\<rparr> \<and>
    rd_rates db' = prune_rates (ad_action_key a) (ad_instant a - 1) (rd_rates db) @
      [\<lparr>re_action_key = ad_action_key a, re_observed_at = ad_instant a\<rparr>] \<and>
    (\<forall>l. latest_rate (ad_action_key a)
           (prune_rates (ad_action_key a) (ad_instant a - 1) (rd_rates db)) = Some l \<longrightarrow>
         1 / ad_max_rps a \<le> ad_instant a - l)"
  using assms
  by (auto simp: rate_and_consume_def Let_def result_simps insert_permit_Inr split: option.splits if_splits)

lemma admit_accepted:
  assumes "admit_worker_action a db = (Inr r, db')" "wa_accepted r"
  shows "cc_verify (ad_consume a) = Inr (wa_verification r) \<and> vr_valid (wa_verification r) \<and>
         0 < ad_max_rps a \<and> wa_status r = CONSUMED \<and>
         runtime_permit_status db (ad_permit_id a) = Inr AVAILABLE \<and>
         rate_and_consume a (wa_verification r) db = Inr (Inr db')"
  using assms
  by (auto simp: admit_worker_action_def result_simps
      split: if_splits sum.splits lifecycle_status.splits py_error.splits)

lemma admit_refused:
  assumes "admit_worker_action a db = (q, db')" "\<And>r. q = Inr r \<Longrightarrow> \<not> wa_accepted r"
  shows "db' = db"
  using assms
  by (auto simp: admit_worker_action_def
      split: if_splits sum.splits lifecycle_status.splits py_error.splits)

text \<open>The rate rule: an accepted action is later than every recorded one by the interval.\<close>

lemma rate_gap:
  assumes "rate_and_consume a v db = Inr (Inr db')" "seen_since db (ad_action_key a) t"
  shows "min 1 (1 / ad_max_rps a) \<le> ad_instant a - t"
proof -
  from assms(2) obtain r where r: "r \<in> set (rd_rates db)" "re_action_key r = ad_action_key a"
    "t \<le> re_observed_at r" by (auto simp: seen_since_def)
  let ?pruned = "prune_rates (ad_action_key a) (ad_instant a - 1) (rd_rates db)"
  show ?thesis
  proof (cases "r \<in> set ?pruned")
    case True
    then obtain l where l: "latest_rate (ad_action_key a) ?pruned = Some l" "re_observed_at r \<le> l"
      using latest_rate_ge r(2) by metis
    with rate_and_consume_accepted [OF assms(1)] have "1 / ad_max_rps a \<le> ad_instant a - l" by blast
    with l r show ?thesis by linarith
  next
    case False
    with r have "re_observed_at r \<le> ad_instant a - 1" by (simp add: prune_rates_def)
    with r show ?thesis by linarith
  qed
qed

lemma seen_since_admit:
  assumes "admit_worker_action a db = (q, db')" "seen_since db key t"
  shows "seen_since db' key t"
proof (cases "\<exists>r. q = Inr r \<and> wa_accepted r")
  case False
  then have "db' = db" by (intro admit_refused [OF assms(1)]) auto
  with assms(2) show ?thesis by simp
next
  case True
  then obtain r where r: "q = Inr r" "wa_accepted r" by blast
  from admit_accepted [OF assms(1) [unfolded r(1)] r(2)]
  have acc: "rate_and_consume a (wa_verification r) db = Inr (Inr db')" by simp
  note new = rate_and_consume_accepted [OF acc]
  from assms(2) obtain e where e: "e \<in> set (rd_rates db)" "re_action_key e = key" "t \<le> re_observed_at e"
    by (auto simp: seen_since_def)
  show ?thesis
  proof (cases "re_action_key e = ad_action_key a \<and> re_observed_at e \<le> ad_instant a - 1")
    case True
    with e have "t \<le> ad_instant a" by linarith
    with True e new show ?thesis by (auto simp: seen_since_def)
  next
    case False
    with e new show ?thesis by (auto simp: seen_since_def prune_rates_def)
  qed
qed

text \<open>The store operations of the ledger contract.\<close>

definition runtime_status :: "runtime_db \<Rightarrow> string \<Rightarrow> lifecycle_status option" where
  "runtime_status db p = (case runtime_permit_status db p of Inl _ \<Rightarrow> None | Inr s \<Rightarrow> Some s)"

definition runtime_consume :: "admit_call \<Rightarrow> runtime_db \<Rightarrow> bool \<times> runtime_db" where
  "runtime_consume a db =
     (case admit_worker_action a db of
        (Inl _, db') \<Rightarrow> (False, db')
      | (Inr r, db') \<Rightarrow> (wa_accepted r, db'))"

definition runtime_revoke :: "revocation \<Rightarrow> runtime_db \<Rightarrow> bool \<times> runtime_db" where
  "runtime_revoke b db =
     (case revoke_runtime_permit db (rv_permit_id b) (rv_reason b) (rv_now b) (rv_clock b) of
        (Inl _, db') \<Rightarrow> (False, db')
      | (Inr _, db') \<Rightarrow> (True, db'))"

lemma runtime_consume_True:
  assumes "runtime_consume a db = (True, db')"
  shows "\<exists>r. admit_worker_action a db = (Inr r, db') \<and> wa_accepted r"
  using assms by (auto simp: runtime_consume_def split: prod.splits sum.splits)

lemma runtime_consume_False:
  assumes "runtime_consume a db = (False, db')"
  shows "db' = db"
  using assms admit_refused [of a db _ db']
  by (auto simp: runtime_consume_def split: prod.splits sum.splits)

lemma runtime_consume_status:
  assumes "runtime_consume a db = (True, db')"
  shows "runtime_status db (ad_permit_id a) = Some AVAILABLE \<and>
         runtime_status db' p = (if p = ad_permit_id a then Some CONSUMED else runtime_status db p)"
proof -
  from runtime_consume_True [OF assms] obtain r where
    "admit_worker_action a db = (Inr r, db')" "wa_accepted r" by blast
  from admit_accepted [OF this] rate_and_consume_accepted [of a "wa_verification r" db db']
  show ?thesis
    by (auto simp: runtime_status_def runtime_permit_status_def lifecycle_of_def)
qed

lemma runtime_revoke_status:
  assumes "runtime_revoke b db = (ok, db')"
  shows "if ok then runtime_status db (rv_permit_id b) \<noteq> Some CONSUMED \<and>
           runtime_status db' p = (if p = rv_permit_id b then Some REVOKED else runtime_status db p)
         else db' = db"
  using assms
  by (auto simp: runtime_revoke_def revoke_runtime_permit_def runtime_status_def Let_def
      runtime_permit_status_def lifecycle_of_def simp del: lifecycle_of_value
      split: prod.splits sum.splits if_splits option.splits)

interpretation runtime_ledger:
  permit_ledger runtime_status runtime_consume runtime_revoke ad_permit_id rv_permit_id
proof (unfold_locales, goal_cases)
  case (1 a s s')
  then show ?case using runtime_consume_status [of a s s' "ad_permit_id a"] by simp
next
  case (2 a s ok s' p)
  then show ?case
    using runtime_consume_status [of a s s' p] runtime_consume_False [of a s s'] by (cases ok) auto
next
  case (3 b s s')
  then show ?case using runtime_revoke_status [of b s True s' "rv_permit_id b"] by simp
next
  case (4 b s ok s' p)
  then show ?case using runtime_revoke_status [of b s ok s' p] by (auto split: if_splits)
qed

section \<open>The rate limit over a sequence of operations\<close>

text \<open>Accepted actions in order: each later one keeps its distance to the earlier ones.\<close>

fun gap_kept :: "(admit_call, revocation) ledger_op \<Rightarrow> (admit_call, revocation) ledger_op \<Rightarrow> bool" where
  "gap_kept (Consume a) (Consume b) =
     (ad_action_key a = ad_action_key b \<longrightarrow> min 1 (1 / ad_max_rps b) \<le> ad_instant b - ad_instant a)"
| "gap_kept _ _ = True"

lemma seen_since_revoke:
  "runtime_revoke b db = (ok, db') \<Longrightarrow> seen_since db key t \<Longrightarrow> seen_since db' key t"
  by (auto simp: runtime_revoke_def revoke_runtime_permit_def seen_since_def Let_def
      split: prod.splits sum.splits if_splits)

lemma seen_since_step:
  assumes "ledger_step runtime_consume runtime_revoke op db = (ok, db')" "seen_since db key t"
  shows "seen_since db' key t"
proof (cases op)
  case (Consume a)
  obtain q d where "admit_worker_action a db = (q, d)" by fastforce
  with Consume assms seen_since_admit show ?thesis
    by (auto simp: runtime_consume_def split: sum.splits)
next
  case (Revoke b)
  with assms seen_since_revoke show ?thesis by simp
qed

lemma run_after_seen:
  "ledger_run runtime_consume runtime_revoke ops db = (acc, db') \<Longrightarrow> seen_since db key t \<Longrightarrow>
   Consume a \<in> set acc \<Longrightarrow> ad_action_key a = key \<Longrightarrow> min 1 (1 / ad_max_rps a) \<le> ad_instant a - t"
proof (induction ops arbitrary: db acc)
  case Nil
  then show ?case by simp
next
  case (Cons op ops)
  obtain ok d acc1 where o: "ledger_step runtime_consume runtime_revoke op db = (ok, d)"
    and r: "ledger_run runtime_consume runtime_revoke ops d = (acc1, db')"
    and acc: "acc = (if ok then op # acc1 else acc1)"
    using Cons.prems(1) by (auto split: prod.splits)
  show ?case
  proof (cases "ok \<and> op = Consume a")
    case True
    with o obtain x where "admit_worker_action a db = (Inr x, d)" "wa_accepted x"
      using runtime_consume_True by fastforce
    with admit_accepted rate_gap Cons.prems show ?thesis by metis
  next
    case False
    with acc Cons.prems(3) have "Consume a \<in> set acc1" by (auto split: if_splits)
    with Cons.IH [OF r seen_since_step [OF o Cons.prems(2)]] Cons.prems(4) show ?thesis by simp
  qed
qed

lemma run_gaps:
  "ledger_run runtime_consume runtime_revoke ops db = (acc, db') \<Longrightarrow> sorted_wrt gap_kept acc"
proof (induction ops arbitrary: db acc)
  case Nil
  then show ?case by simp
next
  case (Cons op ops)
  obtain ok d acc1 where o: "ledger_step runtime_consume runtime_revoke op db = (ok, d)"
    and r: "ledger_run runtime_consume runtime_revoke ops d = (acc1, db')"
    and acc: "acc = (if ok then op # acc1 else acc1)"
    using Cons.prems by (auto split: prod.splits)
  have "gap_kept op x" if "ok" "x \<in> set acc1" for x
  proof (cases op; cases x)
    fix a b assume x: "op = Consume a" "x = Consume b"
    with o that obtain y where "admit_worker_action a db = (Inr y, d)" "wa_accepted y"
      using runtime_consume_True by fastforce
    with admit_accepted have acc1: "rate_and_consume a (wa_verification y) db = Inr (Inr d)" by blast
    have "seen_since d (ad_action_key a) (ad_instant a)"
      using rate_and_consume_accepted [OF acc1] by (auto simp: seen_since_def)
    with run_after_seen [OF r this] that x show ?thesis by simp
  qed simp_all
  with Cons.IH [OF r] acc show ?case by simp
qed

end
