(* ===== verification/SessionControl.thy ===== *)
theory SessionControl
  imports Permits
begin

text \<open>
  The guards a session consults before each action: \<open>circuit_breaker.py\<close>,
  \<open>session_budget.py\<close>, \<open>execution_budget.py\<close>, \<open>origin_budget.py\<close>, \<open>operational_guard.py\<close> and
  \<open>policy_snapshot.py\<close>. They are pure; the loop that uses them is in \<open>SessionLoop\<close>.
\<close>

section \<open>Circuit breaker\<close>

datatype circuit_state = CLOSED | OPEN

record breaker =
  br_max :: int
  br_failures :: int
  br_state :: circuit_state

definition mk_breaker :: "int \<Rightarrow> breaker result" where
  "mk_breaker m =
     rbind (require (1 \<le> m \<and> m \<le> 100) [Txt ''max_consecutive_failures out of range'']) (\<lambda>_.
       Inr \<lparr>br_max = m, br_failures = 0, br_state = CLOSED\<rparr>)"

definition record_circuit_result :: "breaker \<Rightarrow> bool \<Rightarrow> breaker" where
  "record_circuit_result b failed =
     (let failures = (if failed then br_failures b + 1 else 0);
          state = (if br_max b \<le> failures then OPEN else CLOSED)
      in b\<lparr>br_failures := failures, br_state := state\<rparr>)"

section \<open>Session budget\<close>

datatype stop_reason = ACTION_BUDGET | REQUEST_BUDGET | ERROR_BUDGET | WALL_CLOCK | DEPTH_BUDGET

record session_budget =
  sb_max_actions :: int
  sb_max_requests :: int
  sb_max_errors :: int
  sb_max_wall_clock :: int
  sb_max_depth :: int

definition mk_session_budget :: "session_budget \<Rightarrow> session_budget result" where
  "mk_session_budget b =
     rbind (require (1 \<le> sb_max_actions b \<and> sb_max_actions b \<le> 10000 \<and>
                     1 \<le> sb_max_requests b \<and> sb_max_requests b \<le> 10000 \<and>
                     0 \<le> sb_max_errors b \<and> sb_max_errors b \<le> 1000 \<and>
                     1 \<le> sb_max_wall_clock b \<and> sb_max_wall_clock b \<le> 86400 \<and>
                     0 \<le> sb_max_depth b \<and> sb_max_depth b \<le> 50)
              [Txt ''session budget out of range'']) (\<lambda>_. Inr b)"

record session_counters =
  sc_started_at :: datetime
  sc_actions :: int
  sc_requests :: int
  sc_errors :: int
  sc_depth :: int

record budget_decision =
  bd_allowed :: bool
  bd_reasons :: "stop_reason list"

definition evaluate_budget ::
  "session_budget \<Rightarrow> session_counters \<Rightarrow> datetime option \<Rightarrow> datetime \<Rightarrow> budget_decision" where
  "evaluate_budget b c now clock =
     (let current = or_else now clock;
          reasons =
            (if sb_max_actions b \<le> sc_actions c then [ACTION_BUDGET] else []) @
            (if sb_max_requests b \<le> sc_requests c then [REQUEST_BUDGET] else []) @
            (if sb_max_errors b \<le> sc_errors c \<and> 0 \<le> sb_max_errors b then [ERROR_BUDGET] else []) @
            (if dt_le (dt_plus (sc_started_at c) (seconds (sb_max_wall_clock b))) current
             then [WALL_CLOCK] else []) @
            (if sb_max_depth b < sc_depth c then [DEPTH_BUDGET] else [])
      in \<lparr>bd_allowed = (reasons = []), bd_reasons = reasons\<rparr>)"

section \<open>Stage budget\<close>

datatype coordinator_stage =
  INTAKE | DISCOVERY | OBSERVATION | VERIFICATION | RETEST | REPORT | REVIEW_STAGE | CLOSURE

record stage_budget =
  sg_stage :: coordinator_stage
  sg_max_network_actions :: int
  sg_max_errors :: int
  sg_max_seconds :: int
  sg_state_changing_allowed :: bool

record stage_decision =
  sd_allowed :: bool
  sd_reason :: string

definition stage_stop :: "string \<Rightarrow> stage_decision" where
  "stage_stop r = \<lparr>sd_allowed = False, sd_reason = r\<rparr>"

definition evaluate_stage_budget :: "stage_budget \<Rightarrow> int \<Rightarrow> int \<Rightarrow> int \<Rightarrow> bool \<Rightarrow> stage_decision" where
  "evaluate_stage_budget b network_actions errors elapsed state_changing =
     (if state_changing \<and> \<not> sg_state_changing_allowed b
      then stage_stop ''state-changing action exceeds this stage budget''
      else if sg_max_network_actions b \<le> network_actions
      then stage_stop ''network action budget exhausted''
      else if sg_max_errors b \<le> errors then stage_stop ''error budget exhausted''
      else if sg_max_seconds b \<le> elapsed then stage_stop ''stage time budget exhausted''
      else \<lparr>sd_allowed = True, sd_reason = ''stage budget allows another bounded action''\<rparr>)"

section \<open>Origin budget\<close>

type_synonym origin_counts = "(string \<times> int) list"

definition canonical_origin :: "string \<Rightarrow> string result" where
  "canonical_origin target =
     rbind (urlsplit target) (\<lambda>u.
       case url_hostname u of
         None \<Rightarrow> value_error ''target must be an absolute URL''
       | Some host \<Rightarrow>
           if url_scheme u = [] then value_error ''target must be an absolute URL''
           else rbind (url_port u) (\<lambda>port.
             let default_port = (if str_lower (url_scheme u) = ''https'' then 443 else 80);
                 suffix = (case port of
                             None \<Rightarrow> []
                           | Some p \<Rightarrow> if p = default_port then [] else '':'' @ nat_str p)
             in Inr (str_lower (url_scheme u) @ ''://'' @ str_lower host @ suffix)))"

definition mk_origin_budget :: "int \<Rightarrow> int result" where
  "mk_origin_budget m =
     rbind (require (1 \<le> m \<and> m \<le> 1000) [Txt ''max_actions_per_origin out of range'']) (\<lambda>_. Inr m)"

definition origin_count :: "origin_counts \<Rightarrow> string \<Rightarrow> int" where
  "origin_count counts origin = or_else (dict_get counts origin) 0"

definition check_and_record_origin :: "int \<Rightarrow> origin_counts \<Rightarrow> string \<Rightarrow> origin_counts result" where
  "check_and_record_origin max_per_origin counts target =
     rbind (canonical_origin target) (\<lambda>origin.
     rbind (require (\<not> max_per_origin \<le> origin_count counts origin)
              [Txt ''origin action budget exhausted for '', Txt origin]) (\<lambda>_.
       Inr (dict_set counts origin (origin_count counts origin + 1))))"

section \<open>Operational guard\<close>

record guard_result =
  gr_allowed :: bool
  gr_reason :: string
  gr_age :: "rat option"

definition evaluate_operational_guard ::
  "engagement \<Rightarrow> attestation option \<Rightarrow> datetime option \<Rightarrow> datetime \<Rightarrow> guard_result" where
  "evaluate_operational_guard eng att now clock =
     (case eng_program eng of
        None \<Rightarrow> \<lparr>gr_allowed = True, gr_reason = ''online attestation not required'', gr_age = None\<rparr>
      | Some program \<Rightarrow>
          if \<not> pb_requires_online program
          then \<lparr>gr_allowed = True, gr_reason = ''online attestation not required'', gr_age = None\<rparr>
          else
            (case att of
               None \<Rightarrow> \<lparr>gr_allowed = False, gr_reason = ''online attestation required'', gr_age = None\<rparr>
             | Some a \<Rightarrow>
                 let current = or_else now clock;
                     age = max 0 (of_int (dt_minus current (att_observed_at a)) / 1000000)
                 in if att_status a \<noteq> ONLINE
                    then \<lparr>gr_allowed = False,
                          gr_reason = ''program operational status is '' @ status_value (att_status a),
                          gr_age = Some age\<rparr>
                    else if dt_less (dt_plus (att_observed_at a) (seconds (pb_max_age program))) current
                    then \<lparr>gr_allowed = False, gr_reason = ''program operational attestation is stale'',
                          gr_age = Some age\<rparr>
                    else if att_source_sha256 a \<noteq> pb_source_sha256 program
                    then \<lparr>gr_allowed = False,
                          gr_reason = ''program operational attestation revision mismatch'',
                          gr_age = Some age\<rparr>
                    else \<lparr>gr_allowed = True, gr_reason = ''program is freshly attested online'',
                          gr_age = Some age\<rparr>))"

section \<open>Policy snapshot\<close>

record policy_snapshot =
  sn_schema_version :: string
  sn_engagement_id :: string
  sn_test_id :: string
  sn_digest :: string
  sn_captured_at :: datetime

definition capture_policy_snapshot ::
  "engagement \<Rightarrow> test_definition \<Rightarrow> datetime option \<Rightarrow> datetime \<Rightarrow> policy_snapshot" where
  "capture_policy_snapshot eng test now clock =
     \<lparr>sn_schema_version = ''1'', sn_engagement_id = eng_id eng, sn_test_id = test_id test,
      sn_digest = policy_digest eng test, sn_captured_at = or_else now clock\<rparr>"

definition assert_policy_unchanged ::
  "policy_snapshot \<Rightarrow> engagement \<Rightarrow> test_definition \<Rightarrow> unit result" where
  "assert_policy_unchanged snapshot eng test =
     (if sn_engagement_id snapshot \<noteq> eng_id eng \<or> sn_test_id snapshot \<noteq> test_id test
      then value_error ''policy snapshot is bound to a different engagement or test''
      else if sn_digest snapshot \<noteq> policy_digest eng test
      then value_error ''policy drift detected; session must stop and be re-planned''
      else Inr ())"

section \<open>Lemmas of the guards\<close>

definition breaker_inv :: "breaker \<Rightarrow> bool" where
  "breaker_inv b \<longleftrightarrow> 0 \<le> br_failures b \<and> (br_state b = OPEN \<longleftrightarrow> br_max b \<le> br_failures b)"

lemma record_circuit_inv: "0 \<le> br_failures b \<Longrightarrow> breaker_inv (record_circuit_result b failed)"
  by (simp add: breaker_inv_def record_circuit_result_def Let_def)

lemma record_circuit_max [simp]: "br_max (record_circuit_result b failed) = br_max b"
  by (simp add: record_circuit_result_def Let_def)

text \<open>The breaker after a list of results counts the failures at its end.\<close>

definition trailing_failures :: "bool list \<Rightarrow> nat" where
  "trailing_failures rs = length (takeWhile id (rev rs))"

lemma trailing_snoc [simp]:
  "trailing_failures (rs @ [b]) = (if b then Suc (trailing_failures rs) else 0)"
  by (simp add: trailing_failures_def)

lemma circuit_counts:
  assumes "br_failures b = 0" "br_state b = CLOSED" "1 \<le> br_max b"
  shows "br_failures (foldl record_circuit_result b rs) = int (trailing_failures rs) \<and>
    br_max (foldl record_circuit_result b rs) = br_max b \<and>
    (br_state (foldl record_circuit_result b rs) = OPEN \<longleftrightarrow> br_max b \<le> int (trailing_failures rs))"
proof (induction rs rule: rev_induct)
  case Nil
  with assms show ?case by (simp add: trailing_failures_def)
next
  case (snoc r rs)
  then show ?case by (auto simp: record_circuit_result_def Let_def)
qed

lemma evaluate_budget_allowed:
  "bd_allowed (evaluate_budget b c now clock) \<longleftrightarrow>
     sc_actions c < sb_max_actions b \<and> sc_requests c < sb_max_requests b \<and>
     (0 \<le> sb_max_errors b \<longrightarrow> sc_errors c < sb_max_errors b) \<and>
     dt_us (or_else now clock) < dt_us (sc_started_at c) + sb_max_wall_clock b * 1000000 \<and>
     sc_depth c \<le> sb_max_depth b"
  by (auto simp: evaluate_budget_def Let_def time_simps)

lemma origin_recorded:
  assumes "check_and_record_origin m counts target = Inr counts'"
  shows "\<exists>origin. canonical_origin target = Inr origin \<and> origin_count counts origin < m \<and>
    (\<forall>q. origin_count counts' q = origin_count counts q + (if q = origin then 1 else 0))"
  using assms by (auto simp: check_and_record_origin_def result_simps origin_count_def)

lemma guard_allowed:
  "gr_allowed (evaluate_operational_guard eng att now clock) \<longleftrightarrow>
     (\<forall>p. eng_program eng = Some p \<and> pb_requires_online p \<longrightarrow>
        (\<exists>a. att = Some a \<and> att_status a = ONLINE \<and>
           dt_us (or_else now clock) \<le> dt_us (att_observed_at a) + pb_max_age p * 1000000 \<and>
           att_source_sha256 a = pb_source_sha256 p))"
  by (auto simp: evaluate_operational_guard_def Let_def time_simps split: option.splits)

lemma policy_unchanged_iff:
  "assert_policy_unchanged sn eng test = Inr u \<longleftrightarrow>
     sn_engagement_id sn = eng_id eng \<and> sn_test_id sn = test_id test \<and> sn_digest sn = policy_digest eng test"
  by (auto simp: assert_policy_unchanged_def)

end
