(* ===== verification/SessionLedger.thy ===== *)
theory SessionLedger
  imports Files PyTime
begin

text \<open>
  \<open>src/astp/session_ledger.py\<close>: the durable counters of a session, one SQLite row per
  session. \<open>with connection\<close> commits on success and rolls back on an exception, so an
  operation that raises leaves the table as it was. A timestamp column is kept as the
  instant its text denotes.
\<close>

record session_row =
  sr_actions :: int
  sr_requests :: int
  sr_errors :: int
  sr_completed :: int
  sr_updated_at :: datetime

type_synonym session_table = "(string \<times> session_row) list"

text \<open>\<open>INSERT ... (session_id, updated_at)\<close>: the other columns default to 0.\<close>

definition fresh_row :: "datetime \<Rightarrow> session_row" where
  "fresh_row now =
     \<lparr>sr_actions = 0, sr_requests = 0, sr_errors = 0, sr_completed = 0, sr_updated_at = now\<rparr>"

definition get_session_counters :: "session_table \<Rightarrow> string \<Rightarrow> session_row result" where
  "get_session_counters t sid =
     (case dict_get t sid of
        None \<Rightarrow> Inl (ValueError [Txt ''unknown session: '', Txt sid])
      | Some row \<Rightarrow> Inr row)"

definition initialize_session_ledger ::
  "session_table \<Rightarrow> string \<Rightarrow> datetime \<Rightarrow> (session_table, session_row) outcome" where
  "initialize_session_ledger t sid now =
     (let t' = (if dict_get t sid = None then dict_set t sid (fresh_row now) else t)
      in (get_session_counters t' sid, t'))"

definition reserve_action ::
  "session_table \<Rightarrow> string \<Rightarrow> int \<Rightarrow> int \<Rightarrow> datetime \<Rightarrow> (session_table, session_row) outcome" where
  "reserve_action t sid max_actions max_requests now =
     (if max_actions < 1 \<or> max_requests < 1 then (value_error ''session budgets must be positive'', t)
      else
        (let row = or_else (dict_get t sid) (fresh_row now)
         in if max_actions \<le> sr_actions row then (value_error ''action budget exhausted'', t)
            else if max_requests \<le> sr_requests row then (value_error ''request budget exhausted'', t)
            else
              let t' = dict_set t sid
                    (row\<lparr>sr_actions := sr_actions row + 1, sr_requests := sr_requests row + 1,
                         sr_updated_at := now\<rparr>)
              in (get_session_counters t' sid, t')))"

definition record_completion ::
  "session_table \<Rightarrow> string \<Rightarrow> bool \<Rightarrow> datetime \<Rightarrow> (session_table, session_row) outcome" where
  "record_completion t sid failed now =
     (case dict_get t sid of
        None \<Rightarrow> (Inl (ValueError [Txt ''unknown session: '', Txt sid]), t)
      | Some row \<Rightarrow>
          let t' = dict_set t sid
                (row\<lparr>sr_completed := sr_completed row + 1,
                     sr_errors := sr_errors row + (if failed then 1 else 0),
                     sr_updated_at := now\<rparr>)
          in (get_session_counters t' sid, t'))"

section \<open>Lemmas of the component\<close>

text \<open>The counters of a session, zero when it has no row: actions, requests, errors, completed.\<close>

definition tally :: "session_table \<Rightarrow> string \<Rightarrow> int \<times> int \<times> int \<times> int" where
  "tally t sid =
     (case dict_get t sid of
        None \<Rightarrow> (0, 0, 0, 0)
      | Some r \<Rightarrow> (sr_actions r, sr_requests r, sr_errors r, sr_completed r))"

lemma reserve_action_Inr:
  assumes "reserve_action t sid ma mr now = (Inr row, t')" "tally t sid = (a, r, e, c)"
  shows "a < ma \<and> r < mr \<and> tally t' sid = (a + 1, r + 1, e, c) \<and> dict_get t' sid = Some row \<and>
         (\<forall>s. s \<noteq> sid \<longrightarrow> dict_get t' s = dict_get t s)"
  using assms
  by (auto simp: reserve_action_def tally_def fresh_row_def get_session_counters_def Let_def
      split: if_splits option.splits)

lemma reserve_action_Inl:
  assumes "reserve_action t sid ma mr now = (Inl err, t')"
  shows "t' = t \<and> is_value_error err"
  using assms
  by (auto simp: reserve_action_def get_session_counters_def Let_def split: if_splits)

lemma record_completion_known:
  assumes "dict_get t sid \<noteq> None" "tally t sid = (a, r, e, c)"
  shows "\<exists>row t'. record_completion t sid failed now = (Inr row, t') \<and>
    tally t' sid = (a, r, e + (if failed then 1 else 0), c + 1) \<and> dict_get t' sid \<noteq> None \<and>
    (\<forall>s. s \<noteq> sid \<longrightarrow> dict_get t' s = dict_get t s)"
  using assms
  by (auto simp: record_completion_def get_session_counters_def tally_def Let_def)

end
