(* ===== verification/SessionLoop.thy ===== *)
theory SessionLoop
  imports SessionControl SessionLedger
begin

text \<open>
  \<open>src/astp/controlled_loop.py\<close>: the loop that executes a work queue. Before each item it
  rechecks the policy snapshot and the operational guard and reserves the action against the
  origin and session budgets; the injected executor (a parameter, with its own state
  \<open>'w\<close>) runs the action, and the loop records the outcome and feeds the circuit breaker.
  Every reading of the clock is one value of \<open>clock\<close>: three per item.
\<close>

record work_item =
  wi_queue_id :: string
  wi_engagement_id :: string
  wi_test_id :: string
  wi_plan_item_id :: string
  wi_target :: string
  wi_method :: string
  wi_requires_new_permit :: bool
  wi_clears :: "string set"
  wi_review_bound :: bool

record step_outcome =
  so_queue_id :: string
  so_target :: string
  so_completed :: bool
  so_stopped :: bool
  so_reason :: message
  so_permit_id :: "string option"
  so_evidence_id :: "string option"

record loop_result =
  lr_session_id :: string
  lr_started_at :: datetime
  lr_finished_at :: datetime
  lr_outcomes :: "step_outcome list"
  lr_stop_reason :: "message option"
  lr_requests_attempted :: int

text \<open>The arguments that stay fixed during a run.\<close>

record 'w loop_env =
  le_engagement :: engagement
  le_test :: test_definition
  le_attestation :: "attestation option"
  le_snapshot :: policy_snapshot
  le_session_id :: string
  le_executor :: "work_item \<Rightarrow> 'w \<Rightarrow> ('w, string \<times> string) outcome"
  le_max_actions :: int
  le_max_requests :: int
  le_max_per_origin :: int
  le_clock :: "nat \<Rightarrow> datetime"

record 'w loop_state =
  lp_ledger :: session_table
  lp_origins :: origin_counts
  lp_circuit :: breaker
  lp_outcomes :: "step_outcome list"
  lp_stop :: "message option"
  lp_world :: 'w

text \<open>The first \<open>try\<close>: \<open>Inl\<close> is the reason of a refused guard.\<close>

definition reserve_item ::
  "'w loop_env \<Rightarrow> nat \<Rightarrow> work_item \<Rightarrow> 'w loop_state \<Rightarrow> (string + (origin_counts \<times> session_table)) result" where
  "reserve_item env t item st =
     rbind (assert_policy_unchanged (le_snapshot env) (le_engagement env) (le_test env)) (\<lambda>_.
     let guard = evaluate_operational_guard (le_engagement env) (le_attestation env) None (le_clock env t)
     in if \<not> gr_allowed guard then Inr (Inl (gr_reason guard))
        else
          rbind (mk_origin_budget (le_max_per_origin env)) (\<lambda>m.
          rbind (check_and_record_origin m (lp_origins st) (wi_target item)) (\<lambda>origins.
          (case reserve_action (lp_ledger st) (le_session_id env) (le_max_actions env)
                  (le_max_requests env) (le_clock env (t + 1)) of
             (Inl e, _) \<Rightarrow> Inl e
           | (Inr _, ledger) \<Rightarrow> Inr (Inr (origins, ledger))))))"

definition failed_outcome :: "work_item \<Rightarrow> py_error \<Rightarrow> step_outcome" where
  "failed_outcome item exc =
     \<lparr>so_queue_id = wi_queue_id item, so_target = wi_target item, so_completed = False,
      so_stopped = False, so_reason = error_text exc, so_permit_id = None, so_evidence_id = None\<rparr>"

definition completed_outcome :: "work_item \<Rightarrow> string \<Rightarrow> string \<Rightarrow> step_outcome" where
  "completed_outcome item permit_id evidence_id =
     \<lparr>so_queue_id = wi_queue_id item, so_target = wi_target item, so_completed = True,
      so_stopped = False, so_reason = [Txt ''completed with fresh permit''],
      so_permit_id = Some permit_id, so_evidence_id = Some evidence_id\<rparr>"

text \<open>\<open>record_completion\<close>, \<open>record_circuit_result\<close> and the outcome of an executed item.\<close>

definition finish_item ::
  "'w loop_env \<Rightarrow> nat \<Rightarrow> bool \<Rightarrow> step_outcome \<Rightarrow> 'w loop_state \<Rightarrow> ('w loop_state, unit) outcome" where
  "finish_item env t failed out st =
     (case record_completion (lp_ledger st) (le_session_id env) failed (le_clock env (t + 2)) of
        (Inl e, l) \<Rightarrow> (Inl e, st\<lparr>lp_ledger := l\<rparr>)
      | (Inr _, l) \<Rightarrow>
          (Inr (), st\<lparr>lp_ledger := l, lp_circuit := record_circuit_result (lp_circuit st) failed,
                      lp_outcomes := lp_outcomes st @ [out]\<rparr>))"

text \<open>One iteration: whether the loop goes on, and the state.\<close>

definition queue_step ::
  "'w loop_env \<Rightarrow> nat \<Rightarrow> work_item \<Rightarrow> 'w loop_state \<Rightarrow> ('w loop_state, bool) outcome" where
  "queue_step env t item st =
     (case reserve_item env t item st of
        Inl e \<Rightarrow>
          if is_value_error e then (Inr False, st\<lparr>lp_stop := Some (error_text e)\<rparr>) else (Inl e, st)
      | Inr (Inl reason) \<Rightarrow> (Inr False, st\<lparr>lp_stop := Some [Txt reason]\<rparr>)
      | Inr (Inr (origins, ledger)) \<Rightarrow>
          let st1 = st\<lparr>lp_origins := origins, lp_ledger := ledger\<rparr>
          in case le_executor env item (lp_world st1) of
               (Inl exc, w) \<Rightarrow>
                 obind (finish_item env t True (failed_outcome item exc) (st1\<lparr>lp_world := w\<rparr>)) (\<lambda>_ st2.
                   if br_state (lp_circuit st2) = OPEN
                   then (Inr False, st2\<lparr>lp_stop := Some [Txt ''failure circuit breaker opened'']\<rparr>)
                   else (Inr True, st2))
             | (Inr (permit_id, evidence_id), w) \<Rightarrow>
                 obind (finish_item env t False (completed_outcome item permit_id evidence_id)
                          (st1\<lparr>lp_world := w\<rparr>))
                   (\<lambda>_ st2. (Inr True, st2)))"

fun queue_loop ::
  "'w loop_env \<Rightarrow> nat \<Rightarrow> work_item list \<Rightarrow> 'w loop_state \<Rightarrow> ('w loop_state, unit) outcome" where
  "queue_loop env t [] st = (Inr (), st)"
| "queue_loop env t (item # items) st =
     obind (queue_step env t item st) (\<lambda>go st'.
       if go then queue_loop env (t + 3) items st' else (Inr (), st'))"

definition initial_state :: "breaker \<Rightarrow> session_table \<Rightarrow> 'w \<Rightarrow> 'w loop_state" where
  "initial_state circuit ledger w =
     \<lparr>lp_ledger = ledger, lp_origins = [], lp_circuit = circuit, lp_outcomes = [], lp_stop = None,
      lp_world = w\<rparr>"

definition run_controlled_queue ::
  "'w loop_env \<Rightarrow> work_item list \<Rightarrow> breaker option \<Rightarrow> int \<Rightarrow> session_table \<Rightarrow> 'w \<Rightarrow>
   loop_result result \<times> session_table \<times> 'w" where
  "run_controlled_queue env items br max_errors ledger w =
     (case (case br of Some b \<Rightarrow> Inr b | None \<Rightarrow> mk_breaker (max 1 max_errors)) of
        Inl e \<Rightarrow> (Inl e, ledger, w)
      | Inr circuit \<Rightarrow>
          (case queue_loop env 1 items (initial_state circuit ledger w) of
             (Inl e, st) \<Rightarrow> (Inl e, lp_ledger st, lp_world st)
           | (Inr _, st) \<Rightarrow>
               (Inr \<lparr>lr_session_id = le_session_id env, lr_started_at = le_clock env 0,
                  lr_finished_at = le_clock env (3 * length items + 1),
                  lr_outcomes = lp_outcomes st, lr_stop_reason = lp_stop st,
                  lr_requests_attempted = int (length (lp_outcomes st))\<rparr>,
                lp_ledger st, lp_world st)))"

section \<open>Lemmas of the loop\<close>

lemma take_netloc_error: "take_netloc s = Inl e \<Longrightarrow> is_value_error e"
  by (auto simp: take_netloc_def Let_def split: prod.splits if_splits)

lemma urlsplit_error: "urlsplit s = Inl e \<Longrightarrow> is_value_error e"
  by (cases "take_scheme (clean_url s)"; cases "take_netloc (snd (take_scheme (clean_url s)))")
    (auto simp: urlsplit_def Let_def dest: take_netloc_error split: prod.splits)

lemma url_port_error: "url_port u = Inl e \<Longrightarrow> is_value_error e"
  by (auto simp: url_port_def Let_def split: if_splits)

lemma canonical_origin_error: "canonical_origin s = Inl e \<Longrightarrow> is_value_error e"
  by (auto simp: canonical_origin_def result_simps dest: urlsplit_error url_port_error
      split: option.splits if_splits)

lemma check_and_record_error: "check_and_record_origin m o' s = Inl e \<Longrightarrow> is_value_error e"
  by (auto simp: check_and_record_origin_def result_simps dest: canonical_origin_error)

lemma reserve_item_error:
  assumes "reserve_item env t item st = Inl e"
  shows "is_value_error e"
proof -
  obtain q l where "reserve_action (lp_ledger st) (le_session_id env) (le_max_actions env)
      (le_max_requests env) (le_clock env (Suc t)) = (q, l)" by fastforce
  with assms show ?thesis
    by (cases q)
      (auto simp: reserve_item_def assert_policy_unchanged_def mk_origin_budget_def result_simps Let_def
        dest: check_and_record_error reserve_action_Inl split: if_splits)
qed

text \<open>What an iteration that reaches the executor has established.\<close>

lemma reserve_item_ok:
  assumes "reserve_item env t item st = Inr (Inr (origins, ledger))"
  shows "assert_policy_unchanged (le_snapshot env) (le_engagement env) (le_test env) = Inr () \<and>
    gr_allowed (evaluate_operational_guard (le_engagement env) (le_attestation env) None (le_clock env t)) \<and>
    check_and_record_origin (le_max_per_origin env) (lp_origins st) (wi_target item) = Inr origins \<and>
    (\<exists>row. reserve_action (lp_ledger st) (le_session_id env) (le_max_actions env) (le_max_requests env)
       (le_clock env (t + 1)) = (Inr row, ledger))"
proof -
  obtain q l where "reserve_action (lp_ledger st) (le_session_id env) (le_max_actions env)
      (le_max_requests env) (le_clock env (Suc t)) = (q, l)" by fastforce
  with assms show ?thesis
    by (cases q)
      (auto simp: reserve_item_def result_simps mk_origin_budget_def Let_def split: if_splits)
qed

text \<open>
  One executed item: reserved within the budgets, run, recorded as completed or failed in
  the ledger and in the breaker.
\<close>

definition executed :: "'w loop_env \<Rightarrow> nat \<Rightarrow> work_item \<Rightarrow> 'w loop_state \<Rightarrow> step_outcome \<Rightarrow> 'w loop_state \<Rightarrow> bool" where
  "executed env t item st out st' \<longleftrightarrow>
     assert_policy_unchanged (le_snapshot env) (le_engagement env) (le_test env) = Inr () \<and>
     gr_allowed (evaluate_operational_guard (le_engagement env) (le_attestation env) None (le_clock env t)) \<and>
     check_and_record_origin (le_max_per_origin env) (lp_origins st) (wi_target item) = Inr (lp_origins st') \<and>
     lp_outcomes st' = lp_outcomes st @ [out] \<and>
     so_queue_id out = wi_queue_id item \<and> so_target out = wi_target item \<and>
     lp_circuit st' = record_circuit_result (lp_circuit st) (\<not> so_completed out) \<and>
     (\<exists>q. le_executor env item (lp_world st) = (q, lp_world st')) \<and>
     (\<forall>a r e c. tally (lp_ledger st) (le_session_id env) = (a, r, e, c) \<longrightarrow>
        a < le_max_actions env \<and> r < le_max_requests env \<and>
        tally (lp_ledger st') (le_session_id env) =
          (a + 1, r + 1, e + (if so_completed out then 0 else 1), c + 1)) \<and>
     (\<forall>s. s \<noteq> le_session_id env \<longrightarrow> dict_get (lp_ledger st') s = dict_get (lp_ledger st) s)"

lemma finish_item_ok:
  assumes "dict_get (lp_ledger st) (le_session_id env) \<noteq> None"
    and "tally (lp_ledger st) (le_session_id env) = (a, r, e, c)"
  shows "\<exists>l. finish_item env t failed out st =
      (Inr (), st\<lparr>lp_ledger := l, lp_circuit := record_circuit_result (lp_circuit st) failed,
                  lp_outcomes := lp_outcomes st @ [out]\<rparr>) \<and>
    tally l (le_session_id env) = (a, r, e + (if failed then 1 else 0), c + 1) \<and>
    (\<forall>s. s \<noteq> le_session_id env \<longrightarrow> dict_get l s = dict_get (lp_ledger st) s)"
  using record_completion_known [OF assms, of failed "le_clock env (t + 2)"]
  by (auto simp: finish_item_def)

lemma queue_step_spec:
  obtains (stopped) m where "queue_step env t item st = (Inr False, st\<lparr>lp_stop := Some m\<rparr>)"
  | (ran) go out st' where "queue_step env t item st = (Inr go, st')" "executed env t item st out st'"
      "go \<longleftrightarrow> so_completed out \<or> br_state (lp_circuit st') = CLOSED"
proof (cases "reserve_item env t item st")
  case (Inl e)
  with reserve_item_error show ?thesis by (intro stopped) (auto simp: queue_step_def)
next
  case (Inr g)
  show ?thesis
  proof (cases g)
    case g: (Inl reason)
    with Inr show ?thesis by (intro stopped) (auto simp: queue_step_def)
  next
    case g: (Inr b)
    obtain origins ledger where b: "b = (origins, ledger)" by (cases b)
    note ok = reserve_item_ok [OF Inr [unfolded g b]]
    then obtain row where ra: "reserve_action (lp_ledger st) (le_session_id env) (le_max_actions env)
        (le_max_requests env) (le_clock env (t + 1)) = (Inr row, ledger)" by blast
    obtain a r e c where ta: "tally (lp_ledger st) (le_session_id env) = (a, r, e, c)"
      by (cases "tally (lp_ledger st) (le_session_id env)")
    note re = reserve_action_Inr [OF ra ta]
    obtain q w where ex: "le_executor env item (lp_world st) = (q, w)" by fastforce
    let ?st1 = "st\<lparr>lp_origins := origins, lp_ledger := ledger, lp_world := w\<rparr>"
    define failed where "failed = (\<exists>x. q = Inl x)"
    define out where "out = (case q of Inl exc \<Rightarrow> failed_outcome item exc
      | Inr pe \<Rightarrow> completed_outcome item (fst pe) (snd pe))"
    have out: "so_queue_id out = wi_queue_id item" "so_target out = wi_target item"
        "so_completed out \<longleftrightarrow> \<not> failed"
      by (auto simp: out_def failed_def failed_outcome_def completed_outcome_def split: sum.splits)
    obtain l where fin: "finish_item env t failed out ?st1 =
        (Inr (), ?st1\<lparr>lp_ledger := l, lp_circuit := record_circuit_result (lp_circuit st) failed,
                     lp_outcomes := lp_outcomes st @ [out]\<rparr>)"
      and l: "tally l (le_session_id env) = (a + 1, r + 1, e + (if failed then 1 else 0), c + 1)"
        "\<forall>s. s \<noteq> le_session_id env \<longrightarrow> dict_get l s = dict_get ledger s"
      using finish_item_ok [of ?st1 env "a + 1" "r + 1" e c t failed out] re by auto
    define st2 where "st2 = ?st1\<lparr>lp_ledger := l, lp_circuit := record_circuit_result (lp_circuit st) failed,
                     lp_outcomes := lp_outcomes st @ [out]\<rparr>"
    define go where "go \<longleftrightarrow> so_completed out \<or> br_state (lp_circuit st2) = CLOSED"
    define st' where "st' = (if go then st2
      else st2\<lparr>lp_stop := Some [Txt ''failure circuit breaker opened'']\<rparr>)"
    have "queue_step env t item st = (Inr go, st')"
      using Inr g b ex fin
      by (cases q; cases "br_state (lp_circuit st2)")
        (auto simp: queue_step_def failed_def out_def go_def st'_def st2_def Let_def
          failed_outcome_def completed_outcome_def)
    moreover have "executed env t item st out st'"
      unfolding executed_def using ok out ex re l ta by (auto simp: st'_def st2_def)
    moreover have "go \<longleftrightarrow> so_completed out \<or> br_state (lp_circuit st') = CLOSED"
      by (simp add: go_def st'_def)
    ultimately show ?thesis by (rule ran)
  qed
qed

text \<open>The failures of a list of outcomes, and how often it failed at its end.\<close>

definition failures :: "step_outcome list \<Rightarrow> bool list" where
  "failures os = map (\<lambda>o'. \<not> so_completed o') os"

definition executed_all :: "'w loop_env \<Rightarrow> work_item list \<Rightarrow> 'w loop_state \<Rightarrow> step_outcome list \<Rightarrow> 'w loop_state \<Rightarrow> bool" where
  "executed_all env items st os st' \<longleftrightarrow>
     lp_outcomes st' = lp_outcomes st @ os \<and> length os \<le> length items \<and>
     map so_queue_id os = map wi_queue_id (take (length os) items) \<and>
     lp_circuit st' = foldl record_circuit_result (lp_circuit st) (failures os) \<and>
     (\<forall>a r e c. tally (lp_ledger st) (le_session_id env) = (a, r, e, c) \<longrightarrow>
        (os \<noteq> [] \<longrightarrow> a + int (length os) \<le> le_max_actions env \<and> r + int (length os) \<le> le_max_requests env) \<and>
        tally (lp_ledger st') (le_session_id env) =
          (a + int (length os), r + int (length os), e + int (count_rows id (failures os)),
           c + int (length os))) \<and>
     (\<forall>s. s \<noteq> le_session_id env \<longrightarrow> dict_get (lp_ledger st') s = dict_get (lp_ledger st) s) \<and>
     (os = [] \<longrightarrow> lp_world st' = lp_world st \<and> lp_ledger st' = lp_ledger st) \<and>
     (os \<noteq> [] \<longrightarrow>
        assert_policy_unchanged (le_snapshot env) (le_engagement env) (le_test env) = Inr ()) \<and>
     (\<forall>k. 0 < k \<and> k < length os \<and> 1 \<le> br_max (lp_circuit st) \<longrightarrow>
        br_state (foldl record_circuit_result (lp_circuit st) (failures (take k os))) = CLOSED)"

lemma executed_all_Nil: "executed_all env items st [] (st\<lparr>lp_stop := m\<rparr>)"
  by (simp add: executed_all_def failures_def)

lemma record_success_closed: "1 \<le> br_max b \<Longrightarrow> br_state (record_circuit_result b False) = CLOSED"
  by (simp add: record_circuit_result_def Let_def)

lemma executed_all_single:
  assumes "executed env t item st out st'"
  shows "executed_all env (item # items) st [out] st'"
proof -
  obtain a r e c where ta: "tally (lp_ledger st) (le_session_id env) = (a, r, e, c)"
    by (cases "tally (lp_ledger st) (le_session_id env)")
  from assms ta show ?thesis
    by (auto simp: executed_def executed_all_def failures_def)
qed

lemma executed_all_Cons:
  assumes ex: "executed env t item st out st1"
    and go: "so_completed out \<or> br_state (lp_circuit st1) = CLOSED"
    and rest: "executed_all env items st1 os st'"
  shows "executed_all env (item # items) st (out # os) st'"
proof -
  obtain a r e c where ta: "tally (lp_ledger st) (le_session_id env) = (a, r, e, c)"
    by (cases "tally (lp_ledger st) (le_session_id env)")
  have c1: "lp_circuit st1 = record_circuit_result (lp_circuit st) (\<not> so_completed out)"
    using ex by (simp add: executed_def)
  have closed: "br_state (foldl record_circuit_result (lp_circuit st) (failures (take k (out # os)))) = CLOSED"
    if k: "0 < k" "k < Suc (length os)" "1 \<le> br_max (lp_circuit st)" for k
  proof (cases k)
    case (Suc j)
    show ?thesis
    proof (cases j)
      case 0
      with Suc go c1 k record_success_closed [of "lp_circuit st"] show ?thesis
        by (auto simp: failures_def)
    next
      case (Suc i)
      with \<open>k = Suc j\<close> k rest c1 show ?thesis
        by (auto simp: executed_all_def failures_def)
    qed
  qed (use k in simp)
  have t1: "tally (lp_ledger st1) (le_session_id env) =
      (a + 1, r + 1, e + (if so_completed out then 0 else 1), c + 1)"
    "a < le_max_actions env" "r < le_max_requests env"
    using ex ta by (auto simp: executed_def)
  have t2: "os \<noteq> [] \<longrightarrow> a + 1 + int (length os) \<le> le_max_actions env \<and>
        r + 1 + int (length os) \<le> le_max_requests env"
    "tally (lp_ledger st') (le_session_id env) =
       (a + 1 + int (length os), r + 1 + int (length os),
        e + (if so_completed out then 0 else 1) + int (count_rows id (failures os)), c + 1 + int (length os))"
    using rest t1 unfolding executed_all_def by blast+
  show ?thesis
    unfolding executed_all_def
    using ex rest ta t1 t2 closed c1
    by (auto simp: executed_def executed_all_def failures_def)
qed

lemma queue_loop_spec:
  "\<exists>os st'. queue_loop env t items st = (Inr (), st') \<and> executed_all env items st os st'"
proof (induction items arbitrary: t st)
  case Nil
  have "executed_all env [] st [] st" using executed_all_Nil [of env "[]" st "lp_stop st"] by simp
  then show ?case by auto
next
  case (Cons item items)
  show ?case
  proof (cases rule: queue_step_spec [of env t item st])
    case (stopped m)
    then have "queue_loop env t (item # items) st = (Inr (), st\<lparr>lp_stop := Some m\<rparr>)" by simp
    with executed_all_Nil show ?thesis by blast
  next
    case (ran go out st1)
    show ?thesis
    proof (cases go)
      case True
      from Cons.IH [of "t + 3" st1] obtain os st' where
        "queue_loop env (t + 3) items st1 = (Inr (), st')" "executed_all env items st1 os st'" by blast
      with ran True executed_all_Cons [OF ran(2)] show ?thesis by fastforce
    next
      case False
      with ran executed_all_single [OF ran(2)] show ?thesis by fastforce
    qed
  qed
qed

end
