(* ===== verification/Planner.thy ===== *)
theory Planner
  imports SessionLoop
begin

text \<open>
  From the target registry to the work queue: \<open>planner.py\<close> evaluates every registered
  target against the policy, \<open>work_queue.py\<close> interleaves the authorizable items of several
  plans fairly. Neither executes anything; the queue is what \<open>SessionLoop\<close> runs.
\<close>

section \<open>The registry (\<open>target_discovery.py\<close>, \<open>target_registry.py\<close>)\<close>

datatype candidate_kind = REDIRECT | LINK

datatype candidate_safety =
    READY_FOR_POLICY | OUT_OF_SCOPE | UNSAFE_SCHEME | HTTPS_DOWNGRADE | PRIVATE_LITERAL
  | CREDENTIALS_EMBEDDED | REDACTED_TARGET | INVALID

record provenance =
  pv_evidence_id :: string
  pv_source_action_id :: string
  pv_source_target :: string
  pv_source_kind :: candidate_kind
  pv_observed_at :: datetime

record target_candidate =
  tc_id :: string
  tc_canonical_target :: "string option"
  tc_display_target :: string
  tc_kind :: candidate_kind
  tc_safety :: candidate_safety
  tc_in_scope :: bool
  tc_same_origin :: bool
  tc_requires_new_permit :: bool
  tc_requires_semantic :: bool
  tc_executable :: bool
  tc_reason :: string
  tc_provenance :: "provenance list"
  tc_discovered_at :: datetime

record registry_entry =
  en_canonical_target :: string
  en_candidate_ids :: "string list"
  en_provenance :: "provenance list"
  en_latest :: target_candidate
  en_first_seen :: datetime
  en_last_seen :: datetime

record target_registry =
  tr_engagement_id :: string
  tr_entries :: "registry_entry list"
  tr_updated_at :: datetime

definition empty_registry :: "string \<Rightarrow> datetime option \<Rightarrow> datetime \<Rightarrow> target_registry" where
  "empty_registry eid now clock =
     \<lparr>tr_engagement_id = eid, tr_entries = [], tr_updated_at = or_else now clock\<rparr>"

text \<open>The key under which a provenance is known to an entry.\<close>

definition pv_key :: "provenance \<Rightarrow> string \<times> string \<times> candidate_kind" where
  "pv_key p = (pv_evidence_id p, pv_source_action_id p, pv_source_kind p)"

fun add_provenances :: "(string \<times> string \<times> candidate_kind) list \<Rightarrow> provenance list \<Rightarrow> provenance list \<Rightarrow> provenance list" where
  "add_provenances known [] acc = acc"
| "add_provenances known (p # ps) acc =
     (if pv_key p \<in> set known then add_provenances known ps acc
      else add_provenances (pv_key p # known) ps (acc @ [p]))"

definition new_entry :: "string \<Rightarrow> target_candidate \<Rightarrow> registry_entry" where
  "new_entry target c =
     \<lparr>en_canonical_target = target, en_candidate_ids = [tc_id c], en_provenance = tc_provenance c,
      en_latest = c, en_first_seen = tc_discovered_at c, en_last_seen = tc_discovered_at c\<rparr>"

definition update_entry :: "registry_entry \<Rightarrow> target_candidate \<Rightarrow> registry_entry" where
  "update_entry e c =
     e\<lparr>en_candidate_ids := (if tc_id c \<in> set (en_candidate_ids e) then en_candidate_ids e
                            else en_candidate_ids e @ [tc_id c]),
       en_provenance := add_provenances (map pv_key (en_provenance e)) (tc_provenance c) (en_provenance e),
       en_latest := c,
       en_last_seen := (if dt_less (en_last_seen e) (tc_discovered_at c) then tc_discovered_at c
                        else en_last_seen e)\<rparr>"

text \<open>
  The loop over the discovered candidates. \<open>by_target\<close> maps a target to its last entry in the
  list; updating the entry object updates that element of the list.
\<close>

fun update_last :: "('a \<Rightarrow> bool) \<Rightarrow> ('a \<Rightarrow> 'a) \<Rightarrow> 'a list \<Rightarrow> 'a list" where
  "update_last p f [] = []"
| "update_last p f (x # xs) =
     (if p x \<and> \<not> (\<exists>y \<in> set xs. p y) then f x # xs else x # update_last p f xs)"

fun merge_candidates :: "target_candidate list \<Rightarrow> registry_entry list \<Rightarrow> registry_entry list" where
  "merge_candidates [] entries = entries"
| "merge_candidates (c # cs) entries =
     (case tc_canonical_target c of
        None \<Rightarrow> merge_candidates cs entries
      | Some target \<Rightarrow>
          if \<exists>e \<in> set entries. en_canonical_target e = target
          then merge_candidates cs (update_last (\<lambda>e. en_canonical_target e = target) (\<lambda>e. update_entry e c) entries)
          else merge_candidates cs (entries @ [new_entry target c]))"

definition merge_discovery ::
  "target_registry \<Rightarrow> target_candidate list \<Rightarrow> datetime option \<Rightarrow> datetime \<Rightarrow> target_registry" where
  "merge_discovery reg candidates now clock =
     reg\<lparr>tr_entries := sort_key en_canonical_target (merge_candidates candidates (tr_entries reg)),
         tr_updated_at := or_else now clock\<rparr>"

section \<open>The plan\<close>

datatype plan_status = AUTHORIZABLE | BLOCKED_POLICY | BLOCKED_CONTEXT | REJECTED_DISCOVERY

record assessment =
  as_clears :: "string set"
  as_matches :: "string set"

record plan_item =
  pi_id :: string
  pi_target :: string
  pi_method :: string
  pi_status :: plan_status
  pi_decision :: "decision option"
  pi_reason :: message
  pi_candidate_ids :: "string list"
  pi_clears :: "string set"
  pi_matches :: "string set"
  pi_requires_new_permit :: bool
  pi_permit_id :: "string option"

record plan =
  pl_engagement_id :: string
  pl_test_id :: string
  pl_created_at :: datetime
  pl_items :: "plan_item list"

text \<open>The keyword arguments of \<open>build_observation_plan\<close>.\<close>

record plan_args =
  pa_clears :: "string set option"
  pa_assessments :: "(string \<times> assessment) list option"
  pa_attestation :: "attestation option"
  pa_lease :: "lease option"
  pa_lease_store :: "store_file option"
  pa_rps :: "rat option"
  pa_now :: "datetime option"

text \<open>The constrained fields of \<open>AuthorizationRequest\<close>.\<close>

definition mk_auth_request :: "auth_request \<Rightarrow> auth_request result" where
  "mk_auth_request r =
     rbind (require (valid_opt_rate (rq_rps r)) [Txt ''requested_requests_per_second out of range'']) (\<lambda>_. Inr r)"

fun join_messages :: "message list \<Rightarrow> message" where
  "join_messages [] = []"
| "join_messages [m] = m"
| "join_messages (m # ms) = m @ Txt ''; '' # join_messages ms"

definition or_message :: "message list \<Rightarrow> string \<Rightarrow> message" where
  "or_message ms d = (if join_messages ms = [] then [Txt d] else join_messages ms)"

definition plan_id :: "nat \<Rightarrow> string" where
  "plan_id index = ''plan-'' @ pad_nat 4 index"

text \<open>The clearances and matches used for one target.\<close>

definition semantic_review :: "plan_args \<Rightarrow> string \<Rightarrow> string set \<times> string set" where
  "semantic_review args target =
     (case pa_assessments args of
        Some d \<Rightarrow>
          (case dict_get d target of
             Some a \<Rightarrow> (as_clears a, as_matches a)
           | None \<Rightarrow> ({}, {}))
      | None \<Rightarrow> (or_else (pa_clears args) {}, {}))"

definition plan_request :: "plan_args \<Rightarrow> string \<Rightarrow> datetime \<Rightarrow> auth_request" where
  "plan_request args target current =
     \<lparr>rq_target = target, rq_available_context = {}, rq_approvals = [], rq_http_method = Some ''GET'',
      rq_identity = None, rq_rps = pa_rps args, rq_excl_clears = fst (semantic_review args target),
      rq_excl_matches = snd (semantic_review args target), rq_attestation = pa_attestation args,
      rq_lease = pa_lease args, rq_lease_store = pa_lease_store args, rq_now = Some current\<rparr>"

definition plan_verdict :: "auth_result \<Rightarrow> plan_status \<times> message" where
  "plan_verdict r =
     (if ar_decision r = ALLOW then
        (AUTHORIZABLE,
         [Txt ''Policy allows this exact proposed action; a new signed permit is still required.''])
      else if ar_decision r \<in> {INSUFFICIENT_CONTEXT, APPROVAL_REQUIRED} then
        (BLOCKED_CONTEXT,
         or_message (map chk_message (filter (\<lambda>c. chk_status c \<in> {REVIEW, FAIL}) (ar_checks r)))
           ''Authorization requires additional context or explicit approval.'')
      else
        (BLOCKED_POLICY,
         or_message (map chk_message (filter (\<lambda>c. chk_status c = FAIL) (ar_checks r)))
           ''Current engagement policy denies this proposed action.''))"

definition plan_entry ::
  "engagement \<Rightarrow> test_definition \<Rightarrow> plan_args \<Rightarrow> datetime \<Rightarrow> datetime \<Rightarrow> nat \<Rightarrow> registry_entry \<Rightarrow> plan_item result" where
  "plan_entry eng test args current clock index e =
     (let target = en_canonical_target e
      in if tc_safety (en_latest e) \<noteq> READY_FOR_POLICY then
           Inr \<lparr>pi_id = plan_id index, pi_target = target, pi_method = ''GET'',
                pi_status = REJECTED_DISCOVERY, pi_decision = None,
                pi_reason = [Txt (tc_reason (en_latest e))], pi_candidate_ids = en_candidate_ids e,
                pi_clears = {}, pi_matches = {}, pi_requires_new_permit = True, pi_permit_id = None\<rparr>
         else
           rbind (mk_auth_request (plan_request args target current)) (\<lambda>request.
           rbind (authorize_test eng test request clock) (\<lambda>r.
             Inr \<lparr>pi_id = plan_id index, pi_target = target, pi_method = ''GET'',
                  pi_status = fst (plan_verdict r), pi_decision = Some (ar_decision r),
                  pi_reason = snd (plan_verdict r), pi_candidate_ids = en_candidate_ids e,
                  pi_clears = fst (semantic_review args target),
                  pi_matches = snd (semantic_review args target),
                  pi_requires_new_permit = True, pi_permit_id = None\<rparr>)))"

fun plan_entries ::
  "engagement \<Rightarrow> test_definition \<Rightarrow> plan_args \<Rightarrow> datetime \<Rightarrow> datetime \<Rightarrow> nat \<Rightarrow> registry_entry list \<Rightarrow> plan_item list result" where
  "plan_entries eng test args current clock index [] = Inr []"
| "plan_entries eng test args current clock index (e # es) =
     rbind (plan_entry eng test args current clock index e) (\<lambda>item.
     rbind (plan_entries eng test args current clock (index + 1) es) (\<lambda>items. Inr (item # items)))"

definition build_observation_plan ::
  "target_registry \<Rightarrow> engagement \<Rightarrow> test_definition \<Rightarrow> plan_args \<Rightarrow> datetime \<Rightarrow> plan result" where
  "build_observation_plan reg eng test args clock =
     (if pa_clears args \<noteq> None \<and> pa_assessments args \<noteq> None
      then value_error ''global semantic_exclusion_clears cannot be combined with semantic_target_assessments''
      else
        (let current = or_else (pa_now args) clock
         in rbind (plan_entries eng test args current clock 1 (tr_entries reg)) (\<lambda>items.
              Inr \<lparr>pl_engagement_id = eng_id eng, pl_test_id = test_id test, pl_created_at = current,
                   pl_items = items\<rparr>)))"

section \<open>The work queue\<close>

record work_queue =
  wq_created_at :: datetime
  wq_max_active :: int
  wq_items :: "work_item list"

fun eligible_plans :: "int \<Rightarrow> plan list \<Rightarrow> (plan \<times> plan_item list) list \<Rightarrow> (plan \<times> plan_item list) list" where
  "eligible_plans m [] acc = acc"
| "eligible_plans m (p # ps) acc =
     (let rows = filter (\<lambda>i. pi_status i = AUTHORIZABLE) (pl_items p)
      in if rows = [] then eligible_plans m ps acc
         else (let acc' = acc @ [(p, rows)]
               in if m \<le> int (length acc') then acc' else eligible_plans m ps acc'))"

definition queue_item :: "nat \<Rightarrow> plan \<Rightarrow> plan_item \<Rightarrow> work_item" where
  "queue_item len p i =
     \<lparr>wi_queue_id = ''queue-'' @ pad_nat 4 (len + 1), wi_engagement_id = pl_engagement_id p,
      wi_test_id = pl_test_id p, wi_plan_item_id = pi_id i, wi_target = pi_target i,
      wi_method = pi_method i, wi_requires_new_permit = True, wi_clears = pi_clears i,
      wi_review_bound = True\<rparr>"

text \<open>One pass over the plans at an offset: the queue and whether it grew.\<close>

fun fair_pass ::
  "int \<Rightarrow> nat \<Rightarrow> (plan \<times> plan_item list) list \<Rightarrow> work_item list \<Rightarrow> bool \<Rightarrow> work_item list \<times> bool" where
  "fair_pass m offset [] q progressed = (q, progressed)"
| "fair_pass m offset ((p, rows) # es) q progressed =
     (if length rows \<le> offset \<or> m \<le> int (length q) then fair_pass m offset es q progressed
      else fair_pass m offset es (q @ [queue_item (length q) p (rows ! offset)]) True)"

lemma fair_pass_progress:
  "fair_pass m offset es q b = (q', True) \<Longrightarrow> b \<or> offset < (\<Sum>(p, rows) \<leftarrow> es. length rows)"
  by (induction m offset es q b rule: fair_pass.induct) (auto split: if_splits)

function fair_queue ::
  "int \<Rightarrow> nat \<Rightarrow> (plan \<times> plan_item list) list \<Rightarrow> work_item list \<Rightarrow> work_item list" where
  "fair_queue m offset es q =
     (if es = [] \<or> m \<le> int (length q) then q
      else (case fair_pass m offset es q False of
              (q', progressed) \<Rightarrow> if progressed then fair_queue m (offset + 1) es q' else q'))"
  by pat_completeness auto
termination
  by (relation "measure (\<lambda>(m, offset, es, q). (\<Sum>(p, rows) \<leftarrow> es. length rows) - offset)")
    (auto dest!: fair_pass_progress [OF sym])

declare fair_queue.simps [simp del]

definition build_fair_work_queue ::
  "plan list \<Rightarrow> int \<Rightarrow> int \<Rightarrow> datetime option \<Rightarrow> datetime \<Rightarrow> work_queue result" where
  "build_fair_work_queue plans max_active max_items now clock =
     (if max_active < 1 then value_error ''max_active_programs must be at least 1''
      else if max_items < 1 then value_error ''max_items must be at least 1''
      else Inr \<lparr>wq_created_at = or_else now clock, wq_max_active = max_active,
                wq_items = fair_queue max_items 0 (eligible_plans max_active plans []) []\<rparr>)"

section \<open>Lemmas of the plan\<close>

lemma plan_entry_target: "plan_entry eng test args current clock k e = Inr i \<Longrightarrow> pi_target i = en_canonical_target e"
  by (auto simp: plan_entry_def Let_def result_simps split: if_splits)

lemma plan_verdict_authorizable: "fst (plan_verdict r) = AUTHORIZABLE \<longleftrightarrow> ar_decision r = ALLOW"
  by (simp add: plan_verdict_def)

lemma plan_entry_authorizable:
  assumes "plan_entry eng test args current clock k e = Inr i"
  shows "pi_status i = AUTHORIZABLE \<longleftrightarrow>
    tc_safety (en_latest e) = READY_FOR_POLICY \<and>
    (\<exists>r. authorize_test eng test (plan_request args (pi_target i) current) clock = Inr r \<and> ar_decision r = ALLOW)"
  using assms
  by (auto simp: plan_entry_def Let_def result_simps mk_auth_request_def plan_verdict_authorizable
      split: if_splits)

lemma plan_entries_nth:
  "plan_entries eng test args current clock k es = Inr items \<Longrightarrow>
   length items = length es \<and>
   (\<forall>j < length es. plan_entry eng test args current clock (k + j) (es ! j) = Inr (items ! j))"
proof (induction es arbitrary: k items)
  case Nil
  then show ?case by simp
next
  case (Cons e es)
  then obtain i rest where i: "plan_entry eng test args current clock k e = Inr i"
    "plan_entries eng test args current clock (k + 1) es = Inr rest" "items = i # rest"
    by (auto simp: result_simps)
  from Cons.IH [OF i(2)] i show ?case
    by (auto simp: nth_Cons split: nat.splits)
qed

section \<open>Lemmas of the registry\<close>

lemma update_last_targets:
  "(\<And>e. g (f e) = g e) \<Longrightarrow> map g (update_last p f es) = map g es"
  by (induction es) auto

lemma update_entry_target [simp]: "en_canonical_target (update_entry e c) = en_canonical_target e"
  by (simp add: update_entry_def)

lemma new_entry_target [simp]: "en_canonical_target (new_entry t c) = t"
  by (simp add: new_entry_def)

lemma merge_candidates_targets:
  "distinct (map en_canonical_target es) \<Longrightarrow>
   distinct (map en_canonical_target (merge_candidates cs es)) \<and>
   en_canonical_target ` set (merge_candidates cs es) =
     en_canonical_target ` set es \<union> {t. \<exists>c \<in> set cs. tc_canonical_target c = Some t}"
proof (induction cs es rule: merge_candidates.induct)
  case (1 es)
  then show ?case by simp
next
  case (2 c cs es)
  show ?case
  proof (cases "tc_canonical_target c")
    case None
    with 2 show ?thesis by auto
  next
    case (Some t)
    show ?thesis
    proof (cases "\<exists>e \<in> set es. en_canonical_target e = t")
      case True
      let ?es = "update_last (\<lambda>e. en_canonical_target e = t) (\<lambda>e. update_entry e c) es"
      have m: "map en_canonical_target ?es = map en_canonical_target es"
        by (rule update_last_targets) simp
      then have s: "en_canonical_target ` set ?es = en_canonical_target ` set es"
        by (metis list.set_map)
      have t: "t \<in> en_canonical_target ` set es" using True by auto
      from 2(2) [OF Some True] 2(4) m s t Some True show ?thesis by auto
    next
      case False
      then have "distinct (map en_canonical_target (es @ [new_entry t c]))" using 2(4) by auto
      from 2(3) [OF Some False this] Some False show ?thesis by auto
    qed
  qed
qed

section \<open>Lemmas of the queue\<close>

type_synonym queue_key = "string \<times> string \<times> string \<times> string"

definition wi_key :: "work_item \<Rightarrow> queue_key" where
  "wi_key w = (wi_engagement_id w, wi_test_id w, wi_plan_item_id w, wi_target w)"

text \<open>The items at one offset of every plan that is long enough, in plan order.\<close>

definition column :: "nat \<Rightarrow> (plan \<times> plan_item list) list \<Rightarrow> queue_key list" where
  "column k es = concat (map (\<lambda>(p, rows).
     if k < length rows then [wi_key (queue_item 0 p (rows ! k))] else []) es)"

lemma wi_key_queue_item: "wi_key (queue_item n p i) = wi_key (queue_item 0 p i)"
  by (simp add: wi_key_def queue_item_def)

lemma column_Cons [simp]:
  "column k ((p, rows) # es) =
     (if k < length rows then wi_key (queue_item 0 p (rows ! k)) # column k es else column k es)"
  by (simp add: column_def)

lemma column_Nil [simp]: "column k [] = []"
  by (simp add: column_def)

lemma column_mono: "column k es = [] \<Longrightarrow> k \<le> l \<Longrightarrow> column l es = []"
  by (induction es) (auto split: if_splits)

lemma fair_pass_spec:
  "fair_pass m k es q b = (q', b') \<Longrightarrow> int (length q) \<le> m \<Longrightarrow>
   map wi_key q' = take (nat m) (map wi_key q @ column k es) \<and> int (length q') \<le> m \<and>
   (b' \<longleftrightarrow> b \<or> (column k es \<noteq> [] \<and> int (length q) < m))"
proof (induction m k es q b rule: fair_pass.induct)
  case (1 m k q b)
  then show ?case by (auto simp: le_nat_iff)
next
  case (2 m k p rows es q b)
  show ?case
  proof (cases "length rows \<le> k \<or> m \<le> int (length q)")
    case True
    with 2(3) have fp: "fair_pass m k es q b = (q', b')" by simp
    note IH = 2(1) [OF True fp 2(4)]
    show ?thesis
    proof (cases "length rows \<le> k")
      case True
      with IH show ?thesis by simp
    next
      case False
      with True have "m \<le> int (length q)" by simp
      with 2(4) have "nat m = length q" "\<not> int (length q) < m" by linarith+
      with IH show ?thesis by simp
    qed
  next
    case False
    let ?q = "q @ [queue_item (length q) p (rows ! k)]"
    from False 2(3) have fp: "fair_pass m k es ?q True = (q', b')" by simp
    from False have "int (length ?q) \<le> m" by simp
    note IH = 2(2) [OF False fp this]
    have key: "wi_key (queue_item (length q) p (rows ! k)) = wi_key (queue_item 0 p (rows ! k))"
      by (rule wi_key_queue_item)
    have lt: "k < length rows" "int (length q) < m" using False by auto
    have col: "column k ((p, rows) # es) = wi_key (queue_item 0 p (rows ! k)) # column k es"
      using lt by simp
    from IH lt show ?thesis unfolding col by (simp add: key)
  qed
qed

lemma take_append_take: "length xs \<le> n \<Longrightarrow> take n (take n (xs @ ys) @ zs) = take n (xs @ ys @ zs)"
  by (simp add: min_def)

lemma fair_queue_spec:
  "int (length q) \<le> m \<Longrightarrow> column N es = [] \<Longrightarrow> k \<le> N \<Longrightarrow>
   map wi_key (fair_queue m k es q) = take (nat m) (map wi_key q @ concat (map (\<lambda>j. column j es) [k..<N]))
   \<and> int (length (fair_queue m k es q)) \<le> m"
proof (induction m k es q rule: fair_queue.induct)
  case (1 m k es q)
  obtain q' b where fp: "fair_pass m k es q False = (q', b)" by fastforce
  note spec = fair_pass_spec [OF fp 1(2)]
  have le: "length q \<le> nat m" using 1(2) by simp
  show ?case
  proof (cases "es = [] \<or> m \<le> int (length q)")
    case True
    with 1 le show ?thesis
      by (auto simp: fair_queue.simps [of m k es q] le_nat_iff)
  next
    case False
    show ?thesis
    proof (cases b)
      case True
      with spec False have "column k es \<noteq> []" by simp
      with 1(3,4) have kN: "k < N" by (cases "k = N") auto
      have step: "fair_queue m k es q = fair_queue m (k + 1) es q'"
        using False True fp by (simp add: fair_queue.simps [of m k es q])
      have "map wi_key (fair_queue m (k + 1) es q') =
          take (nat m) (map wi_key q' @ concat (map (\<lambda>j. column j es) [k + 1..<N]))
          \<and> int (length (fair_queue m (k + 1) es q')) \<le> m"
        using "1.IH" [OF False fp [symmetric] True] spec 1(3) kN by simp
      with spec kN le show ?thesis
        unfolding step by (simp add: upt_conv_Cons take_append_take min_def)
    next
      case b: False
      with spec False have c: "column k es = []" by simp
      then have "concat (map (\<lambda>j. column j es) [k..<N]) = []"
        using column_mono by auto
      with spec b c False fp show ?thesis by (simp add: fair_queue.simps [of m k es q])
    qed
  qed
qed

lemma eligible_plans_take:
  assumes "int (length acc) < m"
  shows "eligible_plans m ps acc =
    take (nat m) (acc @ filter (\<lambda>(p, rows). rows \<noteq> [])
      (map (\<lambda>p. (p, filter (\<lambda>i. pi_status i = AUTHORIZABLE) (pl_items p))) ps))"
  using assms
proof (induction m ps acc rule: eligible_plans.induct)
  case (1 m acc)
  then show ?case by (simp add: le_nat_iff)
next
  case (2 m p ps acc)
  let ?rows = "filter (\<lambda>i. pi_status i = AUTHORIZABLE) (pl_items p)"
  show ?case
  proof (cases "?rows = []")
    case True
    with 2 show ?thesis by simp
  next
    case False
    show ?thesis
    proof (cases "m \<le> int (length acc) + 1")
      case True
      with 2(3) have "nat m = Suc (length acc)" by simp
      with False True show ?thesis by simp
    next
      case False2: False
      with 2 False show ?thesis by simp
    qed
  qed
qed

end
