(* ===== verification/Examples.thy ===== *)
theory Examples
  imports RuntimeState Planner
begin

text \<open>
  Concrete inputs: an engagement with an allowed and a denied host, a passive test, a
  request inside the scope, a permit for it and the calls that use it. The properties are
  applied to them.
\<close>

definition ex_clock :: datetime where
  "ex_clock = utc 1700000000000000"

definition ex_key :: string where
  "ex_key = ''0123456789abcdef0123456789abcdef''"

definition ex_constraints :: constraints where
  "ex_constraints = default_constraints\<lparr>con_assets :=
     [\<lparr>ac_selector = \<lparr>rule_kind = DOMAIN, rule_value = ''example.com''\<rparr>,
       ac_allowed_paths = [], ac_denied_paths = [''/admin''], ac_allowed_ports = [443],
       ac_allowed_methods = [], ac_allowed_identities = [], ac_max_rps = Some 1\<rparr>]\<rparr>"

definition ex_engagement :: engagement where
  "ex_engagement =
     \<lparr>eng_id = ''eng-1'', eng_name = ''Example'',
      eng_scope = \<lparr>allowed = [\<lparr>rule_kind = DOMAIN, rule_value = ''example.com''\<rparr>],
        denied = [\<lparr>rule_kind = DOMAIN, rule_value = ''admin.example.com''\<rparr>], approval_required = []\<rparr>,
      eng_methods = default_methods, eng_constraints = ex_constraints, eng_program = None\<rparr>"

definition ex_test :: test_definition where
  "ex_test =
     \<lparr>test_id = ''headers'', test_title = ''Headers'', test_category = ''web'', test_risk = PASSIVE,
      test_required_context = [''browser''], test_evidence_required = [], test_description = []\<rparr>"

definition ex_request :: auth_request where
  "ex_request =
     \<lparr>rq_target = ''https://example.com/'', rq_available_context = {''browser''}, rq_approvals = [],
      rq_http_method = Some ''get'', rq_identity = None, rq_rps = Some 1, rq_excl_clears = {},
      rq_excl_matches = {}, rq_attestation = None, rq_lease = None, rq_lease_store = None,
      rq_now = None\<rparr>"

text \<open>The gates let the request through at one request per second.\<close>

lemma ex_authorized:
  "case authorize_test ex_engagement ex_test ex_request ex_clock of
     Inr r \<Rightarrow> ar_decision r = ALLOW \<and> ar_effective_rps r = Some 1 \<and> ar_valid_until r = None \<and>
       ar_attestation_id r = None \<and> ar_approval_ids r = []
   | Inl _ \<Rightarrow> False"
  by code_simp

text \<open>The same engagement for a program that must be attested online.\<close>

definition ex_binding :: program_binding where
  "ex_binding =
     \<lparr>pb_program_id = ''prog'', pb_platform = ''h1'', pb_source_sha256 = ''abc'', pb_source_url = None,
      pb_requires_online = True, pb_max_age = 300, pb_user_agent = None, pb_excluded_findings = []\<rparr>"

definition ex_attestation :: attestation where
  "ex_attestation =
     \<lparr>att_id = ''att-1'', att_program_id = ''prog'', att_source_sha256 = ''abc'', att_status = ONLINE,
      att_observed_at = ex_clock, att_source_type = ''operator'', att_source_url = None, att_note = None\<rparr>"

definition ex_online_engagement :: engagement where
  "ex_online_engagement = ex_engagement\<lparr>eng_program := Some ex_binding\<rparr>"

definition ex_online_request :: auth_request where
  "ex_online_request = ex_request\<lparr>rq_attestation := Some ex_attestation\<rparr>"

lemma ex_online_authorized:
  "case authorize_test ex_online_engagement ex_test ex_online_request ex_clock of
     Inr r \<Rightarrow> ar_decision r = ALLOW | Inl _ \<Rightarrow> False"
  by code_simp

text \<open>A lease of ten minutes issued into an empty store.\<close>

definition ex_issued_lease :: "lease \<times> lease_store" where
  "ex_issued_lease =
     (case issue_lease (open_lease_store None) ex_online_engagement ex_attestation ''assessment-1''
             ''preflight-1'' ex_clock 600 of
        Inr r \<Rightarrow> r
      | Inl _ \<Rightarrow> undefined)"

lemma ex_build:
  assumes "0 \<le> n" "n < 300"
  shows "\<exists>l. build_operational_lease ex_online_engagement ex_attestation ''assessment-1'' ''preflight-1''
     (dt_plus ex_clock (seconds n)) 600 = Inr l \<and> mk_lease l = Inr l"
proof -
  have s: "strip ''assessment-1'' \<noteq> []" "strip ''preflight-1'' \<noteq> []" by code_simp+
  show ?thesis
    using assms s
    by (simp add: build_operational_lease_def ex_online_engagement_def ex_binding_def ex_attestation_def
        mk_lease_def ex_clock_def time_simps Let_def MAX_ASSESSMENT_LEASE_SECONDS_def)
qed

lemma ex_lease_issued:
  "issue_lease (open_lease_store None) ex_online_engagement ex_attestation ''assessment-1'' ''preflight-1''
     ex_clock 600 = Inr (fst ex_issued_lease, snd ex_issued_lease)"
proof -
  have "\<exists>r. issue_lease (open_lease_store None) ex_online_engagement ex_attestation ''assessment-1''
      ''preflight-1'' ex_clock 600 = Inr r"
    using ex_build [of 0] by (auto simp: issue_lease_def open_lease_store_def read_leases_def seconds_def dt_plus_def)
  then show ?thesis by (auto simp: ex_issued_lease_def)
qed

lemma ex_lease_accepted:
  assumes "aware now" "dt_us ex_clock \<le> dt_us now" "dt_us now < dt_us ex_clock + 600000000"
  shows "require_valid_lease (snd ex_issued_lease) (fst ex_issued_lease) ex_online_engagement ex_attestation now = Inr ()"
proof -
  note i = issue_leaseD [OF ex_lease_issued]
  then have b: "build_operational_lease ex_online_engagement ex_attestation ''assessment-1'' ''preflight-1''
     ex_clock 600 = Inr (fst ex_issued_lease)" by blast
  from i assms show ?thesis
    by (intro require_valid_leaseI build_then_valid [OF b]) (auto simp: active_entry_def open_lease_store_def)
qed

lemma ex_lease_renewed:
  "\<exists>l s'. renew_lease (snd ex_issued_lease) (ls_id (fst ex_issued_lease)) ex_online_engagement ex_attestation
     (dt_plus ex_clock (seconds 200)) 600 = Inr (l, s')"
proof -
  let ?l = "fst ex_issued_lease"
  note i = issue_leaseD [OF ex_lease_issued]
  have b: "build_operational_lease ex_online_engagement ex_attestation ''assessment-1'' ''preflight-1''
     ex_clock 600 = Inr ?l" using i by blast
  have f: "ls_assessment_id ?l = ''assessment-1''" "ls_preflight_hash ?l = ''preflight-1''"
    using build_operational_leaseD [OF b] by (metis lease.select_convs)+
  have m: "mk_lease ?l = Inr ?l" using ex_build [of 0] b by (simp add: seconds_def dt_plus_def)
  obtain l where l: "build_operational_lease ex_online_engagement ex_attestation ''assessment-1'' ''preflight-1''
     (dt_plus ex_clock (seconds 200)) 600 = Inr l" using ex_build [of 200] by auto
  have v: "require_valid_lease (snd ex_issued_lease) ?l ex_online_engagement ex_attestation
     (dt_plus ex_clock (seconds 200)) = Inr ()"
    by (rule ex_lease_accepted) (simp_all add: ex_clock_def time_simps)
  from i m l v f show ?thesis
    by (auto simp: renew_lease_def recover_lease_def read_leases_def open_lease_store_def active_entry_def Let_def)
qed

text \<open>A method policy with \<open>insufficient_context\<close> for passive tests.\<close>

definition ex_lenient_engagement :: engagement where
  "ex_lenient_engagement =
     ex_engagement\<lparr>eng_constraints := default_constraints,
       eng_methods := default_methods\<lparr>mp_passive := INSUFFICIENT_CONTEXT\<rparr>\<rparr>"

definition ex_evaluation :: evaluation_request where
  "ex_evaluation =
     \<lparr>ev_target = ''https://example.com/'', ev_available_context = {''browser''}, ev_approved = False\<rparr>"

section \<open>A permit and its uses\<close>

definition ex_payload :: permit_payload where
  "ex_payload =
     \<lparr>pp_schema_version = ''3'', pp_permit_id = ''permit-1'', pp_key_id = Some ''k1'',
      pp_issuer = ''operator'', pp_engagement_id = ''eng-1'', pp_test_id = ''headers'',
      pp_risk_class = PASSIVE, pp_target = ''https://example.com/'', pp_http_method = Some ''GET'',
      pp_identity = None, pp_max_rps = 1, pp_approval_ids = [], pp_attestation_id = None,
      pp_policy_digest = policy_digest ex_engagement ex_test, pp_issued_at = ex_clock,
      pp_expires_at = dt_plus ex_clock (seconds 600)\<rparr>"

definition ex_permit :: signed_permit where
  "ex_permit =
     \<lparr>sp_algorithm = ''hmac-sha256'', sp_payload = ex_payload,
      sp_signature = hmac_sha256_hex ex_key (canonical_json (signed_data ex_payload))\<rparr>"

lemma ex_issued:
  "issue_execution_permit ex_engagement ex_test ex_request ex_key 600 ''operator'' ''k1'' None ''permit-1'' ex_clock
     = Inr ex_permit"
proof -
  obtain r where r: "authorize_test ex_engagement ex_test ex_request ex_clock = Inr r"
    "ar_decision r = ALLOW" "ar_effective_rps r = Some 1" "ar_valid_until r = None"
    "ar_attestation_id r = None" "ar_approval_ids r = []"
    using ex_authorized by (auto split: sum.splits)
  have k: "length ex_key = 32" by (simp add: ex_key_def)
  have u: "upper_method (rq_http_method ex_request) = Some ''GET''" by code_simp
  have s: "permit_signature ex_payload ex_key =
      Inr (hmac_sha256_hex ex_key (canonical_json (signed_data ex_payload)))"
    by (simp add: permit_signature_Inr k MIN_SIGNING_KEY_BYTES_def)
  have p: "ex_payload =
       \<lparr>pp_schema_version = PERMIT_SCHEMA_VERSION, pp_permit_id = ''permit-1'', pp_key_id = Some ''k1'',
        pp_issuer = ''operator'', pp_engagement_id = eng_id ex_engagement, pp_test_id = test_id ex_test,
        pp_risk_class = test_risk ex_test, pp_target = rq_target ex_request,
        pp_http_method = Some ''GET'', pp_identity = rq_identity ex_request, pp_max_rps = 1,
        pp_approval_ids = [], pp_attestation_id = None, pp_policy_digest = policy_digest ex_engagement ex_test,
        pp_issued_at = ex_clock, pp_expires_at = permit_expiry ex_clock 600 None\<rparr>"
    by (simp add: ex_payload_def PERMIT_SCHEMA_VERSION_def permit_expiry_def)
      (simp add: ex_engagement_def ex_test_def ex_request_def)
  have m: "mk_permit_payload ex_payload = Inr ex_payload" "\<not> dt_le (permit_expiry ex_clock 600 None) ex_clock"
    by (simp_all add: ex_payload_def mk_permit_payload_def valid_rate_def time_simps permit_expiry_def
        ex_clock_def)
  show ?thesis
    using r s m(1)
    by (simp add: issue_execution_permit_def r u m(2) MAX_PERMIT_TTL_SECONDS_def p [symmetric] ex_permit_def)
qed

definition ex_use :: verification_request where
  "ex_use =
     \<lparr>vq_target = ''https://example.com/'', vq_http_method = Some ''get'', vq_identity = None,
      vq_rps = Some 1, vq_now = Some (dt_plus ex_clock (seconds 5))\<rparr>"

lemma ex_permit_verifies:
  assumes "vq_target q = ''https://example.com/''" "vq_http_method q \<in> {Some ''get'', Some ''GET''}" "vq_identity q = None"
    and "vq_rps q \<in> {None, Some 1}" "dt_us ex_clock \<le> dt_us (or_else (vq_now q) clock)"
    and "dt_us (or_else (vq_now q) clock) < dt_us (pp_expires_at ex_payload)"
  obtains v where "verify_execution_permit ex_permit ex_engagement ex_test q (SingleKey ex_key) clock = Inr v" "vr_valid v"
proof -
  have "upper_method (Some ''get'') = Some ''GET'' \<and> upper_method (Some ''GET'') = Some ''GET''" by code_simp
  then have u: "upper_method (vq_http_method q) = Some ''GET''" using assms(2) by auto
  have s: "permit_signature ex_payload ex_key = Inr (hmac_sha256_hex ex_key (canonical_json (signed_data ex_payload)))"
    by (simp add: permit_signature_Inr MIN_SIGNING_KEY_BYTES_def ex_key_def)
  have "vr_valid (verify_bindings ex_permit ex_engagement ex_test q clock c)" for c
    unfolding verify_bindings_valid using assms u
    by (auto simp: ex_permit_def ex_payload_def Let_def) (simp_all add: ex_engagement_def ex_test_def)
  with that show ?thesis
    by (simp add: verify_execution_permit_def select_key_def s ex_permit_def)
qed

lemma ex_verified:
  "\<exists>v. verify_execution_permit ex_permit ex_engagement ex_test ex_use (SingleKey ex_key) ex_clock = Inr v \<and>
     vr_valid v"
  by (rule ex_permit_verifies [of ex_use ex_clock]) (auto simp: ex_use_def ex_payload_def time_simps)

section \<open>Calls that use a permit\<close>

text \<open>The permit \<open>pid\<close> with the other fields of the example, used \<open>n\<close> seconds after issuance.\<close>

definition ex_call :: "string \<Rightarrow> int \<Rightarrow> consume_call" where
  "ex_call pid n =
     \<lparr>cc_permit = \<lparr>sp_algorithm = ''hmac-sha256'', sp_payload = ex_payload\<lparr>pp_permit_id := pid\<rparr>,
        sp_signature = hmac_sha256_hex ex_key (canonical_json (signed_data (ex_payload\<lparr>pp_permit_id := pid\<rparr>)))\<rparr>,
      cc_engagement = ex_engagement, cc_test = ex_test,
      cc_request = ex_use\<lparr>vq_now := Some (dt_plus ex_clock (seconds n))\<rparr>,
      cc_keys = SingleKey ex_key, cc_clock = ex_clock\<rparr>"

lemma ex_call_id [simp]: "cc_permit_id (ex_call pid n) = pid"
  by (simp add: cc_permit_id_def ex_call_def)

lemma ex_call_verify:
  assumes "0 \<le> n" "n < 600"
  shows "\<exists>v. cc_verify (ex_call pid n) = Inr v \<and> vr_valid v"
proof -
  let ?p = "cc_permit (ex_call pid n)"
  have u: "upper_method (Some ''get'') = Some ''GET''" by code_simp
  have s: "permit_signature (sp_payload ?p) ex_key = Inr (sp_signature ?p)"
    by (simp add: permit_signature_Inr MIN_SIGNING_KEY_BYTES_def ex_key_def ex_call_def)
  have "vr_valid (verify_bindings ?p ex_engagement ex_test (cc_request (ex_call pid n)) ex_clock c)" for c
    unfolding verify_bindings_valid using assms
    by (simp add: ex_call_def ex_payload_def ex_use_def u Let_def time_simps)
      (simp add: ex_engagement_def ex_test_def)
  with s show ?thesis
    by (simp add: cc_verify_def verify_execution_permit_def select_key_def)
      (simp add: ex_call_def)
qed

lemma ex_consumed:
  "\<exists>r e. consume_execution_permit (ex_call pid 5) Missing =
     (Inr r, Parsed \<lparr>ps_schema_version = 1, ps_permits = [(pid, e)]\<rparr>) \<and> cr_accepted r \<and> se_status e = CONSUMED"
proof -
  obtain v where "cc_verify (ex_call pid 5) = Inr v" "vr_valid v" using ex_call_verify [of 5 pid] by auto
  then show ?thesis
    by (simp add: consume_execution_permit_def ledger_defs)
qed

text \<open>An admission of the worker at rate \<open>r\<close>.\<close>

definition ex_admission :: "string \<Rightarrow> int \<Rightarrow> rat \<Rightarrow> admit_call" where
  "ex_admission pid n r = \<lparr>ad_consume = ex_call pid n, ad_action_key = ''example.com'', ad_max_rps = r\<rparr>"

section \<open>A session and a plan\<close>

definition ex_item :: work_item where
  "ex_item =
     \<lparr>wi_queue_id = ''queue-0001'', wi_engagement_id = ''eng-1'', wi_test_id = ''headers'',
      wi_plan_item_id = ''plan-0001'', wi_target = ''https://example.com/'', wi_method = ''GET'',
      wi_requires_new_permit = True, wi_clears = {}, wi_review_bound = True\<rparr>"

definition ex_loop :: "unit loop_env" where
  "ex_loop =
     \<lparr>le_engagement = ex_engagement, le_test = ex_test, le_attestation = None,
      le_snapshot = capture_policy_snapshot ex_engagement ex_test None ex_clock,
      le_session_id = ''session-1'', le_executor = \<lambda>item w. (Inr (''permit-1'', ''evidence-1''), w),
      le_max_actions = 5, le_max_requests = 5, le_max_per_origin = 5,
      le_clock = \<lambda>n. dt_plus ex_clock (seconds (int n))\<rparr>"

definition ex_candidate :: target_candidate where
  "ex_candidate =
     \<lparr>tc_id = ''cand-1'', tc_canonical_target = Some ''https://example.com/'',
      tc_display_target = ''https://example.com/'', tc_kind = LINK, tc_safety = READY_FOR_POLICY,
      tc_in_scope = True, tc_same_origin = True, tc_requires_new_permit = True,
      tc_requires_semantic = False, tc_executable = False, tc_reason = ''ready'',
      tc_provenance = [], tc_discovered_at = ex_clock\<rparr>"

definition ex_registry :: target_registry where
  "ex_registry = merge_discovery (empty_registry ''eng-1'' None ex_clock) [ex_candidate] None ex_clock"

definition ex_plan_args :: plan_args where
  "ex_plan_args =
     \<lparr>pa_clears = None, pa_assessments = None, pa_attestation = None, pa_lease = None,
      pa_lease_store = None, pa_rps = None, pa_now = None\<rparr>"

lemma ex_registry_entries:
  "tr_entries ex_registry = [new_entry ''https://example.com/'' ex_candidate]"
  by (simp add: ex_registry_def merge_discovery_def empty_registry_def ex_candidate_def)

text \<open>The planned request lacks the context key of the test; without it the item is authorizable.\<close>

definition ex_plan_test :: test_definition where
  "ex_plan_test = ex_test\<lparr>test_required_context := []\<rparr>"

lemma ex_plan_allowed:
  "case authorize_test ex_engagement ex_plan_test (plan_request ex_plan_args ''https://example.com/'' ex_clock) ex_clock of
     Inr r \<Rightarrow> ar_decision r = ALLOW | Inl _ \<Rightarrow> False"
  by code_simp

lemma ex_plan:
  "\<exists>p i. build_observation_plan ex_registry ex_engagement ex_plan_test ex_plan_args ex_clock = Inr p \<and>
     pl_items p = [i] \<and> pi_status i = AUTHORIZABLE \<and> pi_target i = ''https://example.com/'' \<and>
     pl_engagement_id p = ''eng-1'' \<and> pl_test_id p = ''headers''"
proof -
  obtain r where r: "authorize_test ex_engagement ex_plan_test
      (plan_request ex_plan_args ''https://example.com/'' ex_clock) ex_clock = Inr r" "ar_decision r = ALLOW"
    using ex_plan_allowed by (auto split: sum.splits)
  have m: "mk_auth_request (plan_request ex_plan_args t ex_clock) = Inr (plan_request ex_plan_args t ex_clock)" for t
    by (simp add: mk_auth_request_def plan_request_def ex_plan_args_def valid_opt_rate_def)
  have c: "pa_clears ex_plan_args = None" "pa_now ex_plan_args = None" by (simp_all add: ex_plan_args_def)
  have s: "tc_safety ex_candidate = READY_FOR_POLICY" by (simp add: ex_candidate_def)
  show ?thesis
    using r s
    by (simp add: build_observation_plan_def c ex_registry_entries plan_entry_def m Let_def new_entry_def
        plan_verdict_authorizable)
      (simp add: ex_engagement_def ex_plan_test_def ex_test_def)
qed

end
