(* ===== verification/ProxyProperties.thy ===== *)
theory ProxyProperties
  imports ProxySystem Examples
begin

text \<open>
  The properties of the counting proxy: what reaches the network, how much of it, at what
  distance, and what the ledger says of it afterwards, for any interleaving of requests, crashes and
  restarts. The first section is a concrete run.
\<close>

section \<open>A concrete run\<close>

definition ex_proxy_payload :: "int \<Rightarrow> run_permit_payload" where
  "ex_proxy_payload n =
     \<lparr>rp_permit_id = ''permit-1'', rp_campaign_id = ''camp-1'', rp_program_id = ''prog'', rp_program_revision = ''r1'',
      rp_detector_id = ''d'', rp_operation = ''op'', rp_allowed_origin = ''http://h.test'',
      rp_allowed_path_prefix = ''/app'', rp_allowed_methods = [''GET''], rp_max_requests = 2,
      rp_max_concurrency = n, rp_max_rps = 1, rp_issued_at = utc 0, rp_expires_at = utc 100,
      rp_policy_digest = [], rp_semantic_digest = [], rp_action_id = ''a'', rp_detector_run_id = ''run-1''\<rparr>"

definition ex_proxy_permit :: "int \<Rightarrow> signed_run_permit" where
  "ex_proxy_permit n = issue_detector_run_permit (ex_proxy_payload n) ex_key None"

definition ex_proxy_request :: proxy_request where
  "ex_proxy_request = \<lparr>pq_method = ''get'', pq_target = ''http://h.test/app/x'', pq_headers = [(''Cookie'', ''c'')],
      pq_body = []\<rparr>"

definition ex_tick :: "string \<Rightarrow> proxy_tick" where
  "ex_tick u = \<lparr>tk_uuid = u, tk_clock = utc 1, tk_mono = 5, tk_upstream = Replied 200 [] ''ok''\<rparr>"

definition ex_rid :: "int \<Rightarrow> string \<Rightarrow> string" where
  "ex_rid n u = take 24 (sha256_hex (''run-1:'' @ int_str n @ '':'' @ u))"

definition ex_proxy :: "int \<Rightarrow> int \<Rightarrow> rat \<Rightarrow> counting_proxy" where
  "ex_proxy n k t = \<lparr>cp_key = ex_key, cp_permit = ex_proxy_permit n, cp_sequence = k, cp_last_forwarded = t,
     cp_circuit_failures = 0\<rparr>"

lemma ex_permit_payload: "sr_payload (ex_proxy_permit n) = ex_proxy_payload n"
  by (simp add: ex_proxy_permit_def issue_run_permit_payload)

lemma ex_proxy_verifies: "verify_run_permit (ex_proxy_permit n) ex_key None (utc 1) = Inr (ex_proxy_permit n)"
proof -
  have "sr_signature (ex_proxy_permit n) = run_permit_mac ex_key (sr_payload (ex_proxy_permit n))"
    unfolding ex_proxy_permit_def by (rule issue_run_permit_payload(2))
  moreover have "rp_issued_at (sr_payload (ex_proxy_permit n)) = utc 0" "rp_expires_at (sr_payload (ex_proxy_permit n)) = utc 100"
    by (simp_all only: ex_permit_payload) (simp_all add: ex_proxy_payload_def)
  ultimately show ?thesis by (simp add: verify_run_permit_Inr utc_def)
qed

lemma ex_target_checks:
  "case urlsplit ''http://h.test/app/x'' of Inl _ \<Rightarrow> False | Inr u \<Rightarrow>
     url_scheme u = ''http'' \<and> url_hostname u = Some ''h.test'' \<and> effective_port u = Inr 80 \<and> url_path u = ''/app/x''"
  "case urlsplit ''http://h.test'' of Inl _ \<Rightarrow> False | Inr u \<Rightarrow>
     url_scheme u = ''http'' \<and> url_hostname u = Some ''h.test'' \<and> effective_port u = Inr 80"
  "path_permitted ''/app'' ''/app/x''" "str_upper ''get'' = ''GET''"
  by code_simp+

lemma ex_proxy_checks: "check_request (ex_proxy n k t) ''get'' ''http://h.test/app/x'' (utc 1) = Inr None"
proof -
  have p: "proxy_payload (ex_proxy n k t) = ex_proxy_payload n"
    by (simp add: proxy_payload_def ex_proxy_def ex_permit_payload)
  have f: "rp_allowed_origin (ex_proxy_payload n) = ''http://h.test''" "rp_allowed_path_prefix (ex_proxy_payload n) = ''/app''"
    "rp_allowed_methods (ex_proxy_payload n) = [''GET'']" "cp_permit (ex_proxy n k t) = ex_proxy_permit n"
    "cp_key (ex_proxy n k t) = ex_key" "cp_circuit_failures (ex_proxy n k t) = 0"
    by (simp_all add: ex_proxy_payload_def ex_proxy_def)
  from ex_target_checks(1,2) obtain u a where u: "urlsplit ''http://h.test/app/x'' = Inr u" "urlsplit ''http://h.test'' = Inr a"
    "url_scheme u = ''http''" "url_hostname u = Some ''h.test''" "effective_port u = Inr 80" "url_path u = ''/app/x''"
    "url_scheme a = ''http''" "url_hostname a = Some ''h.test''" "effective_port a = Inr 80"
    by (auto split: sum.splits)
  have o: "origin_text u = origin_text a" "origin_text a = Inr (''http://h.test:'' @ nat_str 80)"
    by (simp_all add: origin_text_def u)
  show ?thesis
    unfolding check_request_def p f ex_proxy_verifies u(1,2) ex_target_checks(4)
    by (simp add: u o ex_target_checks(3))
qed

text \<open>The four steps to the open connection of request \<open>i\<close>, from a started process.\<close>

definition ex_reqs :: "nat \<Rightarrow> proxy_request" where
  "ex_reqs i = ex_proxy_request"

definition ex_up :: "int \<Rightarrow> proxy_system" where
  "ex_up n = proxy_idle\<lparr>ps_proxy := Some (ex_proxy n 0 0)\<rparr>"

lemma ex_up_reachable: "proxy_reachable reqs (ex_proxy_permit n) ex_key (ex_up n)"
proof -
  have o: "open_proxy (ex_proxy_permit n) ex_key None None None (utc 1) (ps_ledger proxy_idle) = Inr (ex_proxy n 0 0)"
    by (simp add: open_proxy_def ex_proxy_verifies require_binding_def proxy_idle_def ex_proxy_def count_states_def)
  have "ps_proxy proxy_idle = None" by (simp add: proxy_idle_def)
  from proxy_reachable.step [OF proxy_reachable.start proxy_step.restart [OF this o]] show ?thesis
    by (simp add: ex_up_def)
qed

definition ex_run_to_wire :: "int \<Rightarrow> proxy_system" where
  "ex_run_to_wire n = foldl (\<lambda>s _. proxy_serve ex_reqs 0 (ex_tick ''a'') s) (ex_up n) [0..<4::nat]"

lemma proxy_serve_mono: "ps_mono s \<le> tk_mono k \<Longrightarrow> ps_mono (proxy_serve reqs i k s) \<le> tk_mono k"
  by (simp add: proxy_serve_def split: option.splits prod.splits)

lemma ex_run_reachable: "proxy_reachable ex_reqs (ex_proxy_permit n) ex_key (ex_run_to_wire n)"
proof -
  have "proxy_reachable ex_reqs (ex_proxy_permit n) ex_key s \<and> ps_mono s \<le> tk_mono (ex_tick ''a'') \<Longrightarrow>
      proxy_reachable ex_reqs (ex_proxy_permit n) ex_key (foldl (\<lambda>s _. proxy_serve ex_reqs 0 (ex_tick ''a'') s) s ks)"
    for s and ks :: "nat list"
    by (induction ks arbitrary: s) (simp_all add: proxy_serve_reachable proxy_serve_mono)
  moreover have "ps_mono (ex_up n) \<le> tk_mono (ex_tick ''a'')" by (simp add: ex_up_def proxy_idle_def ex_tick_def)
  ultimately show ?thesis unfolding ex_run_to_wire_def using ex_up_reachable by blast
qed

lemma ex_next_id: "next_request_id (ex_proxy n k t) u = (ex_rid (k + 1) u, ex_proxy n (k + 1) t)"
  by (simp add: next_request_id_def ex_rid_def ex_proxy_def proxy_payload_def ex_permit_payload ex_proxy_payload_def Let_def)

lemma ex_proxy_fields:
  "proxy_payload (ex_proxy n k t) = ex_proxy_payload n" "cp_last_forwarded (ex_proxy n k t) = t"
  "(ex_proxy n k t)\<lparr>cp_last_forwarded := t'\<rparr> = ex_proxy n k t'"
  "rp_max_requests (ex_proxy_payload n) = 2" "rp_max_concurrency (ex_proxy_payload n) = n"
  "rp_max_rps (ex_proxy_payload n) = 1" "rp_permit_id (ex_proxy_payload n) = ''permit-1''"
  "rp_detector_run_id (ex_proxy_payload n) = ''run-1''"
  by (simp_all add: proxy_payload_def ex_proxy_def ex_permit_payload ex_proxy_payload_def)

lemma ex_judges: "request_step ex_proxy_request (ex_tick u) Arrived (ex_proxy n k t, l) =
    (Judged (ex_rid (k + 1) u) None, ex_proxy n (k + 1) t, l)"
  using ex_proxy_checks [of n "k + 1" t] by (simp add: ex_next_id ex_tick_def ex_proxy_request_def)

definition ex_row :: "string \<Rightarrow> string \<Rightarrow> string \<Rightarrow> proxy_row" where
  "ex_row rid state detail =
     \<lparr>pw_request_id = rid, pw_run_id = ''run-1'', pw_permit_id = ''permit-1'', pw_method = ''get'',
      pw_target = ''http://h.test/app/x'', pw_state = state, pw_request_bytes = 0, pw_response_bytes = 0,
      pw_status = None, pw_started_at = isoformat (utc 1), pw_finished_at = None, pw_detail = detail\<rparr>"

definition ex_held :: "string \<Rightarrow> proxy_row" where
  "ex_held rid = ex_row rid ''reserved'' ''durable pre-I/O reservation''"

definition ex_open :: "string \<Rightarrow> proxy_row" where
  "ex_open rid = ex_row rid ''forwarding'' []"

lemma ex_holds:
  assumes "l = [] \<or> (\<exists>r. l = [ex_held r] \<and> r \<noteq> rid \<and> 2 \<le> n)" "1 \<le> n"
  shows "request_step ex_proxy_request (ex_tick u) (Judged rid None) (ex_proxy n k t, l) =
    (Held rid, ex_proxy n k t, l @ [ex_held rid])"
  using assms
  by (auto simp: record_verdict_def proxy_admit_def insert_request_def request_slot_def request_row_def ex_proxy_fields
      count_run_def spent_states_def active_states_def ex_held_def ex_row_def ex_proxy_request_def ex_tick_def Let_def)

lemma ex_paces: "request_step ex_proxy_request (ex_tick u) (Held rid) (ex_proxy n k 0, l) = (Pacing rid 5, ex_proxy n k 0, l)"
  by (simp add: ex_tick_def pacing_delay_def ex_proxy_fields)

lemma ex_row_fields [simp]: "pw_request_id (ex_row r s d) = r" "pw_state (ex_row r s d) = s"
  by (simp_all add: ex_row_def)

definition ex_mark :: "proxy_row \<Rightarrow> proxy_row" where
  "ex_mark r = r\<lparr>pw_state := ''forwarding'', pw_started_at := isoformat (utc 1), pw_detail := []\<rparr>"

lemma ex_held_fields: "pw_request_id (ex_held r) = r" "pw_state (ex_held r) = ''reserved''" "ex_mark (ex_held r) = ex_open r"
  by (simp_all add: ex_held_def ex_mark_def ex_open_def) (simp add: ex_row_def)

lemma ex_sends:
  assumes "ex_held rid \<in> set l" "distinct (map pw_request_id l)"
  shows "request_step ex_proxy_request (ex_tick u) (Pacing rid 5) (ex_proxy n k t, l) =
    (Sent rid, ex_proxy n k 5, map (\<lambda>r. if pw_request_id r = rid \<and> pw_state r = ''reserved'' then ex_mark r else r) l)"
proof -
  have "filter (\<lambda>r. pw_request_id r = rid \<and> pw_state r = ''reserved'') l = filter (\<lambda>r. pw_request_id r = pw_request_id (ex_held rid)) l"
  proof (rule filter_cong)
    fix x assume "x \<in> set l"
    with assms have "pw_request_id x = rid \<Longrightarrow> x = ex_held rid"
      by (auto simp: distinct_map inj_on_def ex_held_def)
    then show "(pw_request_id x = rid \<and> pw_state x = ''reserved'') = (pw_request_id x = pw_request_id (ex_held rid))"
      using ex_held_fields(1,2) by metis
  qed simp
  with count_rows_one [OF assms(2,1)] have "count_rows (\<lambda>r. pw_request_id r = rid \<and> pw_state r = ''reserved'') l = 1"
    by (simp add: count_rows_def)
  then show ?thesis
    by (simp add: ex_tick_def mark_forwarding_def ex_proxy_fields ex_mark_def)
qed

lemma ex_run_wire:
  assumes "1 \<le> n"
  shows "ps_sent (ex_run_to_wire n) = [(0, 5)]" "ps_ledger (ex_run_to_wire n) = [ex_open (ex_rid 1 ''a'')]"
    "ps_pc (ex_run_to_wire n) 0 = Sent (ex_rid 1 ''a'')" "ps_before (ex_run_to_wire n) = []"
proof -
  have four: "[0..<4::nat] = [0, 1, 2, 3]" by (simp add: upt_rec)
  note eval = ex_run_to_wire_def four proxy_serve_def ex_up_def proxy_idle_def ex_reqs_def
    ex_judges ex_holds [OF disjI1 [OF refl] assms] ex_paces ex_sends ex_held_fields
  show "ps_sent (ex_run_to_wire n) = [(0, 5)]" "ps_ledger (ex_run_to_wire n) = [ex_open (ex_rid 1 ''a'')]"
    "ps_pc (ex_run_to_wire n) 0 = Sent (ex_rid 1 ''a'')" "ps_before (ex_run_to_wire n) = []"
    by (simp_all add: eval del: request_step.simps) (simp_all add: ex_tick_def)
qed

section \<open>Traffic\<close>

lemma open_connections:
  assumes "slots_ok pcs t"
  shows "finite {i. \<exists>rid. pcs i = Sent rid} \<and>
    card {i. \<exists>rid. pcs i = Sent rid} \<le> count_rows (in_states active_states) t"
proof -
  let ?I = "{i. \<exists>rid. pcs i = Sent rid}"
  let ?f = "\<lambda>i. case pcs i of Sent rid \<Rightarrow> rid | _ \<Rightarrow> []"
  let ?R = "filter (in_states active_states) t"
  have inj: "inj_on ?f ?I"
  proof (rule inj_onI)
    fix i j assume "i \<in> ?I" "j \<in> ?I" "?f i = ?f j"
    then obtain rid where "live_slot (pcs i) = Some (rid, ''forwarding'')" "live_slot (pcs j) = Some (rid, ''forwarding'')"
      by auto
    with assms show "i = j" unfolding slots_ok_def by blast
  qed
  have sub: "?f ` ?I \<subseteq> set (map pw_request_id ?R)"
  proof
    fix x assume "x \<in> ?f ` ?I"
    then obtain i where "pcs i = Sent x" by auto
    then have "live_slot (pcs i) = Some (x, ''forwarding'')" by simp
    from slots_okD [OF assms this] obtain r where "r \<in> set t" "pw_request_id r = x" "pw_state r = ''forwarding''" by blast
    then show "x \<in> set (map pw_request_id ?R)" by (auto simp: in_states_def active_states_def)
  qed
  have "finite (?f ` ?I)" by (rule finite_subset [OF sub]) simp
  then have fin: "finite ?I" using inj by (rule finite_imageD)
  have "card ?I = card (?f ` ?I)" using inj by (simp add: card_image)
  also have "\<dots> \<le> card (set (map pw_request_id ?R))" by (rule card_mono) (use sub in simp_all)
  also have "\<dots> \<le> length (map pw_request_id ?R)" by (rule card_length)
  finally show ?thesis using fin by (simp add: count_rows_def)
qed

text \<open>
  C13: however requests interleave and however often the proxy crashes and restarts, one run opens at most
  \<open>max_requests\<close> connections to its target, each request at most one, and has at most
  \<open>max_concurrency\<close> of them open at a time.
\<close>

theorem proxy_bounds_traffic:
  assumes "proxy_reachable reqs permit key s" "mk_run_permit_payload (sr_payload permit) = Inr p"
  shows "int (length (ps_before s @ ps_sent s)) \<le> rp_max_requests p \<and> distinct (map fst (ps_before s @ ps_sent s)) \<and>
    finite {i. \<exists>rid. ps_pc s i = Sent rid} \<and> int (card {i. \<exists>rid. ps_pc s i = Sent rid}) \<le> rp_max_concurrency p"
proof -
  have p: "p = sr_payload permit" "0 \<le> rp_max_requests p" "0 \<le> rp_max_concurrency p"
    using assms(2) by (auto simp: mk_run_permit_payload_def result_simps)
  from proxy_reachable_ok [OF assms(1)] have ok: "ledger_ok (sr_payload permit) (ps_ledger s)" "slots_ok (ps_pc s) (ps_ledger s)"
    "length (ps_before s @ ps_sent s) = count_rows (in_states forwarded_states) (ps_ledger s)"
    "distinct (map fst (ps_before s @ ps_sent s))" by (auto simp: proxy_ok_def opened_log_def)
  from forwarded_le_spent [of "ps_ledger s"] ok p open_connections [OF ok(2)] show ?thesis
    unfolding ledger_ok_def by fastforce
qed

theorem proxy_bounds_traffic_witness:
  "ps_sent (ex_run_to_wire 1) = [(0, 5)] \<and> int (length (ps_before (ex_run_to_wire 1) @ ps_sent (ex_run_to_wire 1))) \<le> 2"
proof -
  have "mk_run_permit_payload (sr_payload (ex_proxy_permit 1)) = Inr (ex_proxy_payload 1)"
    by (simp add: ex_permit_payload mk_run_permit_payload_def ex_proxy_payload_def)
  from proxy_bounds_traffic [OF ex_run_reachable this] ex_run_wire [of 1] show ?thesis
    by (simp add: ex_proxy_fields)
qed



text \<open>
  C15: whatever happened, the ledger's summary satisfies the checks of the detector execution service (no more
  forwarded than the permit allows, attempted = forwarded + blocked, forwarded = responses +
  failed + unknown), and its number of forwarded requests is the number of connections opened.
\<close>

theorem proxy_summary_reconciles:
  assumes "proxy_reachable reqs permit key s" "mk_run_permit_payload (sr_payload permit) = Inr p"
  shows "validate_invariants (proxy_summary (ps_ledger s)) (rp_max_requests p) = Inr () \<and>
    acc_forwarded (proxy_summary (ps_ledger s)) = int (length (ps_before s @ ps_sent s))"
proof -
  have ok: "ledger_ok (sr_payload permit) (ps_ledger s)"
    "length (ps_before s @ ps_sent s) = count_rows (in_states forwarded_states) (ps_ledger s)"
    using proxy_reachable_ok [OF assms(1)] by (auto simp: proxy_ok_def opened_log_def)
  then have l: "list_all (of_permit (sr_payload permit)) (ps_ledger s)" by (simp add: ledger_ok_def)
  have f: "acc_forwarded (proxy_summary (ps_ledger s)) = int (length (ps_before s @ ps_sent s))"
    using proxy_summary_forwarded [OF l] ok(2) by simp
  moreover have "int (length (ps_before s @ ps_sent s)) \<le> rp_max_requests p"
  proof -
    have "p = sr_payload permit" "0 \<le> rp_max_requests p"
      using assms(2) by (auto simp: mk_run_permit_payload_def result_simps)
    with ok forwarded_le_spent [of "ps_ledger s"] show ?thesis unfolding ledger_ok_def by fastforce
  qed
  ultimately show ?thesis
    using count_states_parts [OF l] by (simp add: validate_invariants_def) (simp add: proxy_summary_def)
qed

theorem proxy_summary_reconciles_witness:
  "validate_invariants (proxy_summary (ps_ledger (ex_run_to_wire 1))) 2 = Inr () \<and>
   acc_unknown (proxy_summary (ps_ledger (ex_run_to_wire 1))) = 1"
proof -
  have "mk_run_permit_payload (sr_payload (ex_proxy_permit 1)) = Inr (ex_proxy_payload 1)"
    by (simp add: ex_permit_payload mk_run_permit_payload_def ex_proxy_payload_def)
  from proxy_summary_reconciles [OF ex_run_reachable this] ex_run_wire [of 1] show ?thesis
    by (simp add: ex_proxy_fields proxy_summary_def count_states_def ex_open_def)
qed

text \<open>
  Under a permit for one request at a time, the connections a proxy process opens keep the permit's rate:
  between any two of them at least \<open>1 / max_rps\<close> seconds pass.
\<close>

theorem proxy_paces_requests:
  assumes "proxy_reachable reqs permit key s"
    and "rp_max_concurrency (sr_payload permit) \<le> 1" "0 < rp_max_rps (sr_payload permit)"
  shows "sorted_wrt (\<lambda>x y. snd x + 1 / rp_max_rps (sr_payload permit) \<le> snd y) (ps_sent s)"
  using proxy_paced [OF assms] by (cases "ps_proxy s") (auto simp: pace_ok_def)

theorem proxy_paces_requests_witness:
  "sorted_wrt (\<lambda>x y. snd x + (1::rat) \<le> snd y) (ps_sent (ex_run_to_wire 1)) \<and> ps_sent (ex_run_to_wire 1) \<noteq> []"
  using proxy_paces_requests [OF ex_run_reachable [of 1]] ex_run_wire [of 1]
  by (simp add: ex_permit_payload ex_proxy_fields)

text \<open>
  C16: the interleaved steps are those of the code: a request with the process to itself ends, after its five
  steps, with the reply or the exception, the memory and the ledger of \<open>forward\<close>, once the
  clock has passed its pacing delay.
\<close>

theorem request_steps_refine_forward:
  assumes "tk_mono (tick 2) + pacing_delay cp (tk_mono (tick 2)) \<le> tk_mono (tick 3)"
  shows "request_run q tick 5 0 (Arrived, cp, t) =
    (case forward cp q tick t of (Inl e, s) \<Rightarrow> (Raised e, s) | (Inr reply, s) \<Rightarrow> (Answered reply, s))"
  using assms by (rule steps_run_forward)

theorem request_steps_refine_forward_witness:
  "\<exists>r s. request_run ex_proxy_request (\<lambda>_. ex_tick ''a'') 5 0 (Arrived, ex_proxy 1 0 0, []) = r \<and>
     (case forward (ex_proxy 1 0 0) ex_proxy_request (\<lambda>_. ex_tick ''a'') [] of
        (Inl e, s) \<Rightarrow> (Raised e, s) | (Inr reply, s) \<Rightarrow> (Answered reply, s)) = r"
proof -
  have "tk_mono (ex_tick ''a'') + pacing_delay (ex_proxy 1 0 0) (tk_mono (ex_tick ''a'')) \<le> tk_mono (ex_tick ''a'')"
    by (simp add: ex_tick_def pacing_delay_def ex_proxy_fields)
  from request_steps_refine_forward [where tick = "\<lambda>_. ex_tick ''a''", OF this] show ?thesis by blast
qed

text \<open>Two requests of a permit for two at a time, each step of one followed by that of the other.\<close>

definition ex_pair :: proxy_system where
  "ex_pair = foldl (\<lambda>s (i, u). proxy_serve ex_reqs i (ex_tick u) s) (ex_up 2)
     [(0, ''a''), (1, ''b''), (0, ''a''), (1, ''b''), (0, ''a''), (1, ''b''), (0, ''a''), (1, ''b'')]"

lemma ex_pair_reachable: "proxy_reachable ex_reqs (ex_proxy_permit 2) ex_key ex_pair"
proof -
  have m: "tk_mono (ex_tick u) = 5" for u by (simp add: ex_tick_def)
  have "proxy_reachable ex_reqs (ex_proxy_permit 2) ex_key s \<and> ps_mono s \<le> 5 \<Longrightarrow>
      proxy_reachable ex_reqs (ex_proxy_permit 2) ex_key (foldl (\<lambda>s (i, u). proxy_serve ex_reqs i (ex_tick u) s) s ks)"
    for s and ks :: "(nat \<times> string) list"
  proof (induction ks arbitrary: s)
    case (Cons x ks)
    obtain i u where x: "x = (i, u)" by fastforce
    have "ps_mono (proxy_serve ex_reqs i (ex_tick u) s) \<le> 5"
      using proxy_serve_mono [of s "ex_tick u" ex_reqs i] Cons.prems m by simp
    with Cons x proxy_serve_reachable [of ex_reqs "ex_proxy_permit 2" ex_key s "ex_tick u" i] m show ?case by simp
  qed simp
  moreover have "ps_mono (ex_up 2) \<le> 5" by (simp add: ex_up_def proxy_idle_def)
  ultimately show ?thesis unfolding ex_pair_def using ex_up_reachable by blast
qed

text \<open>
  With two requests at a time the rate is not kept: the delay is computed from the last connection and slept
  outside the lock, so two requests open their connections at the same instant under a permit for one per second
  (unless their two identifiers, 96 bits of two SHA-256 digests, collide).
\<close>

theorem concurrent_requests_unpaced:
  "ex_rid 1 ''a'' = ex_rid 2 ''b'' \<or>
   (proxy_reachable ex_reqs (ex_proxy_permit 2) ex_key ex_pair \<and> rp_max_rps (sr_payload (ex_proxy_permit 2)) = 1 \<and>
    ps_sent ex_pair = [(0, 5), (1, 5)])"
proof (cases "ex_rid 1 ''a'' = ex_rid 2 ''b''")
  case False
  then have ne: "ex_rid 2 ''b'' \<noteq> ex_rid 1 ''a''" "ex_rid 1 ''a'' \<noteq> ex_rid 2 ''b''" by auto
  have h1: "request_step ex_proxy_request (ex_tick u) (Judged rid None) (ex_proxy 2 k t, []) =
      (Held rid, ex_proxy 2 k t, [ex_held rid])" for u rid k t
    using ex_holds [of "[]" rid 2 u k t] by simp
  have h2: "request_step ex_proxy_request (ex_tick u) (Judged (ex_rid 2 ''b'') None) (ex_proxy 2 k t, [ex_held (ex_rid 1 ''a'')]) =
      (Held (ex_rid 2 ''b''), ex_proxy 2 k t, [ex_held (ex_rid 1 ''a''), ex_held (ex_rid 2 ''b'')])" for u k t
  proof -
    have "\<exists>r. [ex_held (ex_rid 1 ''a'')] = [ex_held r] \<and> r \<noteq> ex_rid 2 ''b'' \<and> (2::int) \<le> 2" using ne(2) by blast
    from ex_holds [OF disjI2 [OF this], of u k t] show ?thesis by (simp del: request_step.simps)
  qed
  have f: "pw_request_id (ex_open r) = r" "pw_state (ex_open r) = ''forwarding''" for r by (simp_all add: ex_open_def)
  have s1: "request_step ex_proxy_request (ex_tick u) (Pacing (ex_rid 1 ''a'') 5)
      (ex_proxy 2 k t, [ex_held (ex_rid 1 ''a''), ex_held (ex_rid 2 ''b'')]) =
      (Sent (ex_rid 1 ''a''), ex_proxy 2 k 5, [ex_open (ex_rid 1 ''a''), ex_held (ex_rid 2 ''b'')])" for u k t
    using ex_sends [of "ex_rid 1 ''a''" "[ex_held (ex_rid 1 ''a''), ex_held (ex_rid 2 ''b'')]" u 2 k t] ne
    by (simp add: ex_held_fields)
  have s2: "request_step ex_proxy_request (ex_tick u) (Pacing (ex_rid 2 ''b'') 5)
      (ex_proxy 2 k t, [ex_open (ex_rid 1 ''a''), ex_held (ex_rid 2 ''b'')]) =
      (Sent (ex_rid 2 ''b''), ex_proxy 2 k 5, [ex_open (ex_rid 1 ''a''), ex_open (ex_rid 2 ''b'')])" for u k t
    using ex_sends [of "ex_rid 2 ''b''" "[ex_open (ex_rid 1 ''a''), ex_held (ex_rid 2 ''b'')]" u 2 k t] ne
    by (simp add: ex_held_fields f)
  have "ps_sent ex_pair = [(0, 5), (1, 5)]"
    by (simp add: ex_pair_def proxy_serve_def ex_up_def proxy_idle_def ex_reqs_def ex_judges h1 h2 ex_paces s1 s2
        del: request_step.simps) (simp add: ex_tick_def)
  with ex_pair_reachable show ?thesis by (simp add: ex_permit_payload ex_proxy_fields)
qed simp

end
