(* ===== verification/NightScheduler.thy ===== *)
theory NightScheduler
  imports CountingProxy "HOL-Library.Product_Lexorder"
begin

text \<open>
  \<open>src/astp/m53_night_scheduler.py\<close>: the scheduler of a night campaign. Its whole state is one JSON
  document; every method reads it, changes it and replaces the file, so an operation that raises
  leaves the file as it was. The executor of a round is a parameter, which may itself use the
  scheduler and has a world of its own.
\<close>

section \<open>The document\<close>

record night_outcome =
  no_work_id :: string
  no_program_id :: string
  no_run_id :: string
  no_permit_id :: string
  no_status :: string
  no_progress :: bool
  no_retry_after :: "int option"

record night_work =
  nw_work_id :: string
  nw_program_id :: string
  nw_duration :: int
  nw_revision :: "string option"
  nw_lease_id :: "string option"

record night_program =
  np_program_id :: string
  np_ready :: bool
  np_revision :: string
  np_lease_id :: "string option"
  np_pending :: "night_work list"
  np_completed :: "string list"
  np_backoff_until :: "datetime option"
  np_no_progress :: int
  np_exhausted :: "string option"
  np_last_round :: int
  np_rank :: int
  np_exhaust_on_empty :: bool

text \<open>The dictionaries appended to \<open>events\<close>, by their \<open>event\<close> entry.\<close>

datatype night_event =
    ClockAdvanced string int
  | WorkCompleted string bool
  | AttemptFinished int night_outcome
  | Http429 string string
  | RevisionReplanned string string string "string option" string
  | ProgramReady string "string option"
  | ProgramOffline string "string option"
  | LeaseReplaced string "string option" string
  | RuntimeRetry string string string
  | ProcessReopened string

record night_state =
  ns_campaign_id :: string
  ns_started_at :: datetime
  ns_deadline :: datetime
  ns_now :: datetime
  ns_round :: int
  ns_draining :: bool
  ns_programs :: "(string \<times> night_program) list"
  ns_events :: "night_event list"

type_synonym night_file = "night_state json_file"

definition night_hours :: int where
  "night_hours = seconds (8 * 3600)"

definition new_night :: "string \<Rightarrow> datetime \<Rightarrow> night_program list \<Rightarrow> night_state" where
  "new_night campaign_id started_at programs =
     \<lparr>ns_campaign_id = campaign_id, ns_started_at = started_at,
      ns_deadline = dt_plus started_at night_hours, ns_now = started_at, ns_round = 0,
      ns_draining = False, ns_programs = foldl (\<lambda>d p. dict_set d (np_program_id p) p) [] programs,
      ns_events = []\<rparr>"

definition night_create ::
  "string \<Rightarrow> datetime \<Rightarrow> night_program list \<Rightarrow> night_file \<Rightarrow> (night_file, night_state) outcome" where
  "night_create campaign_id started_at programs _ =
     (let s = new_night campaign_id started_at programs in (Inr s, Parsed s))"

fun reopen_night :: "night_file \<Rightarrow> night_state result" where
  "reopen_night Missing = Inl (OSError [Txt ''No such file or directory''])"
| "reopen_night (json_file.Broken m) = Inl (ValueError m)"
| "reopen_night (Parsed s) = Inr s"

text \<open>Read the document, change it, save it; an exception in between saves nothing.\<close>

definition night_edit :: "(night_state \<Rightarrow> ('a \<times> night_state) result) \<Rightarrow> night_file \<Rightarrow> (night_file, 'a) outcome" where
  "night_edit f file =
     (case rbind (reopen_night file) f of
        Inl e \<Rightarrow> (Inl e, file)
      | Inr (x, s) \<Rightarrow> (Inr x, Parsed s))"

definition night_note :: "night_event \<Rightarrow> night_state \<Rightarrow> night_state" where
  "night_note e s = s\<lparr>ns_events := ns_events s @ [e]\<rparr>"

text \<open>\<open>a <= b\<close> on timestamps raises between an aware and a naive one.\<close>

definition dt_compare_le :: "datetime \<Rightarrow> datetime \<Rightarrow> bool result" where
  "dt_compare_le a b =
     (if aware a = aware b then Inr (dt_le a b)
      else Inl (TypeError [Txt ''can't compare offset-naive and offset-aware datetimes'']))"

section \<open>The clock\<close>

definition advance_night :: "datetime \<Rightarrow> night_state \<Rightarrow> (night_state \<times> night_state) result" where
  "advance_night now s =
     rbind (if \<not> aware now then Inr False else dt_compare_le (ns_now s) now) (\<lambda>onward.
     rbind (require onward [Txt ''logical clock must advance monotonically with timezone'']) (\<lambda>_.
     rbind (dt_compare_le (ns_deadline s) now) (\<lambda>late.
       let s' = night_note (ClockAdvanced (isoformat now) (ns_round s + 1))
                  (s\<lparr>ns_now := now, ns_round := ns_round s + 1, ns_draining := late\<rparr>)
       in Inr (s', s'))))"

definition night_advance :: "datetime \<Rightarrow> night_file \<Rightarrow> (night_file, night_state) outcome" where
  "night_advance now = night_edit (advance_night now)"

section \<open>Selection\<close>

definition none_or :: "'a option \<Rightarrow> 'a option \<Rightarrow> bool" where
  "none_or required actual \<longleftrightarrow> required = None \<or> required = actual"

definition night_eligible :: "night_state \<Rightarrow> night_program \<Rightarrow> bool result" where
  "night_eligible s p =
     (case np_pending p of
        [] \<Rightarrow> Inr False
      | w # _ \<Rightarrow>
          if np_ready p \<and> np_lease_id p \<noteq> None \<and> np_lease_id p \<noteq> Some [] \<and> np_exhausted p = None \<and>
             none_or (nw_revision w) (Some (np_revision p)) \<and> none_or (nw_lease_id w) (np_lease_id p)
          then rbind (case np_backoff_until p of None \<Rightarrow> Inr True | Some u \<Rightarrow> dt_compare_le u (ns_now s)) (\<lambda>awake.
               if awake then dt_compare_le (dt_plus (ns_now s) (seconds (nw_duration w))) (ns_deadline s)
               else Inr False)
          else Inr False)"

definition night_order :: "night_program \<Rightarrow> int \<times> int \<times> string" where
  "night_order p = (np_last_round p, np_rank p, np_program_id p)"

definition mark_scheduled :: "string list \<Rightarrow> night_state \<Rightarrow> night_state" where
  "mark_scheduled keys s =
     s\<lparr>ns_programs := map (\<lambda>(k, p). (k, if k \<in> set keys then p\<lparr>np_last_round := ns_round s\<rparr> else p)) (ns_programs s)\<rparr>"

definition select_night :: "night_state \<Rightarrow> (night_work list \<times> night_state) result" where
  "select_night s =
     (if ns_draining s then Inr ([], s)
      else rbind (rfilter (\<lambda>e. night_eligible s (snd e)) (ns_programs s)) (\<lambda>eligible.
        let chosen = sort_key (\<lambda>e. night_order (snd e)) eligible
        in Inr (map (\<lambda>e. hd (np_pending (snd e))) chosen, mark_scheduled (map fst eligible) s)))"

definition night_select :: "night_file \<Rightarrow> (night_file, night_work list) outcome" where
  "night_select = night_edit select_night"

section \<open>Completion\<close>

definition night_program_of :: "night_state \<Rightarrow> string \<Rightarrow> night_program result" where
  "night_program_of s pid = (case dict_get (ns_programs s) pid of None \<Rightarrow> Inl (KeyError pid) | Some p \<Rightarrow> Inr p)"

definition put_program :: "string \<Rightarrow> night_program \<Rightarrow> night_state \<Rightarrow> night_state" where
  "put_program pid p s = s\<lparr>ns_programs := dict_set (ns_programs s) pid p\<rparr>"

definition finish_work :: "string \<Rightarrow> bool \<Rightarrow> night_program \<Rightarrow> night_program" where
  "finish_work work_id progress p =
     (let p1 = p\<lparr>np_pending := tl (np_pending p), np_completed := np_completed p @ [work_id],
                 np_no_progress := (if progress then 0 else np_no_progress p + 1)\<rparr>
      in if 2 \<le> np_no_progress p1 \<or> (np_exhaust_on_empty p1 \<and> np_pending p1 = [] \<and> \<not> progress)
         then p1\<lparr>np_exhausted := Some ''bounded no-progress/candidate exhaustion''\<rparr> else p1)"

definition complete_night :: "night_work \<Rightarrow> bool \<Rightarrow> night_state \<Rightarrow> (unit \<times> night_state) result" where
  "complete_night work progress s =
     rbind (night_program_of s (nw_program_id work)) (\<lambda>p.
     rbind (require (np_pending p \<noteq> [] \<and> nw_work_id (hd (np_pending p)) = nw_work_id work)
              [Txt ''work is no longer current'']) (\<lambda>_.
       Inr ((), night_note (WorkCompleted (nw_work_id work) progress)
              (put_program (nw_program_id work) (finish_work (nw_work_id work) progress p) s))))"

definition night_complete :: "night_work \<Rightarrow> bool \<Rightarrow> night_file \<Rightarrow> (night_file, unit) outcome" where
  "night_complete work progress = night_edit (complete_night work progress)"

section \<open>Backoff, revisions, leases\<close>

definition rate_limit_night :: "string \<Rightarrow> int \<Rightarrow> night_state \<Rightarrow> (datetime \<times> night_state) result" where
  "rate_limit_night pid secs s =
     (let until = dt_plus (ns_now s) (seconds secs)
      in rbind (night_program_of s pid) (\<lambda>p.
           Inr (until, night_note (Http429 pid (isoformat until))
                  (put_program pid (p\<lparr>np_backoff_until := Some until\<rparr>) s))))"

definition night_rate_limit :: "string \<Rightarrow> int \<Rightarrow> night_file \<Rightarrow> (night_file, datetime) outcome" where
  "night_rate_limit pid secs file =
     (if secs < 1 then (value_error ''Retry-After must be positive'', file)
      else night_edit (rate_limit_night pid secs) file)"

text \<open>\<open>int(text)\<close>: blanks around, a sign, digits in groups separated by single underscores.\<close>

definition py_int :: "string \<Rightarrow> int result" where
  "py_int text =
     (let t = strip text;
          neg = startswith t ''-'';
          body = (if neg \<or> startswith t ''+'' then tl t else t);
          groups = split_on (CHR ''_'') body
      in if list_all (\<lambda>g. all_digits g) groups
         then Inr ((if neg then - 1 else 1) * int (digits_value (concat groups)))
         else Inl (ValueError [Txt ''invalid literal for int() with base 10: '', PyRepr text]))"

definition night_proxy_backoff :: "string \<Rightarrow> proxy_ledger \<Rightarrow> night_file \<Rightarrow> (night_file, datetime) outcome" where
  "night_proxy_backoff pid ledger file =
     (let rows = map pw_detail (filter (\<lambda>r. pw_status r = Some 429 \<and> pw_state r = ''response_received'') ledger)
      in case rows of
           [detail] \<Rightarrow>
             if startswith detail ''retry_after_seconds=''
             then (case py_int (removeprefix detail ''retry_after_seconds='') of
                     Inl e \<Rightarrow> (Inl e, file)
                   | Inr secs \<Rightarrow> night_rate_limit pid secs file)
             else (value_error ''exactly one target 429 with Retry-After is required'', file)
         | _ \<Rightarrow> (value_error ''exactly one target 429 with Retry-After is required'', file))"

definition replace_revision :: "string \<Rightarrow> string \<Rightarrow> string \<Rightarrow> night_state \<Rightarrow> (unit \<times> night_state) result" where
  "replace_revision pid revision lease_id s =
     rbind (night_program_of s pid) (\<lambda>p.
       Inr ((), night_note (RevisionReplanned pid (np_revision p) revision (np_lease_id p) lease_id)
         (put_program pid
            (p\<lparr>np_revision := revision, np_lease_id := Some lease_id,
               np_pending := map (\<lambda>w. w\<lparr>nw_revision := Some revision, nw_lease_id := Some lease_id\<rparr>) (np_pending p)\<rparr>)
            s)))"

definition night_replace_revision :: "string \<Rightarrow> string \<Rightarrow> string \<Rightarrow> night_file \<Rightarrow> (night_file, unit) outcome" where
  "night_replace_revision pid revision lease_id = night_edit (replace_revision pid revision lease_id)"

definition rebind_lease :: "string \<Rightarrow> night_program \<Rightarrow> night_program" where
  "rebind_lease lease_id p =
     p\<lparr>np_lease_id := Some lease_id,
       np_pending := map (\<lambda>w. w\<lparr>nw_lease_id := Some lease_id\<rparr>) (np_pending p)\<rparr>"

definition set_ready :: "string \<Rightarrow> bool \<Rightarrow> string option \<Rightarrow> night_state \<Rightarrow> (unit \<times> night_state) result" where
  "set_ready pid ready lease_id s =
     rbind (night_program_of s pid) (\<lambda>p.
       let p1 = p\<lparr>np_ready := ready\<rparr>;
           p2 = (case lease_id of None \<Rightarrow> p1 | Some l \<Rightarrow> rebind_lease l p1)
       in Inr ((), night_note ((if ready then ProgramReady else ProgramOffline) pid (np_lease_id p2)) (put_program pid p2 s)))"

definition night_set_ready :: "string \<Rightarrow> bool \<Rightarrow> string option \<Rightarrow> night_file \<Rightarrow> (night_file, unit) outcome" where
  "night_set_ready pid ready lease_id = night_edit (set_ready pid ready lease_id)"

definition replace_lease :: "string \<Rightarrow> string \<Rightarrow> night_state \<Rightarrow> (unit \<times> night_state) result" where
  "replace_lease pid lease_id s =
     rbind (night_program_of s pid) (\<lambda>p.
       Inr ((), night_note (LeaseReplaced pid (np_lease_id p) lease_id) (put_program pid (rebind_lease lease_id p) s)))"

definition night_replace_lease :: "string \<Rightarrow> string \<Rightarrow> night_file \<Rightarrow> (night_file, unit) outcome" where
  "night_replace_lease pid lease_id = night_edit (replace_lease pid lease_id)"

definition night_mark_retry :: "string \<Rightarrow> string \<Rightarrow> string \<Rightarrow> night_file \<Rightarrow> (night_file, unit) outcome" where
  "night_mark_retry pid old_run_id new_run_id file =
     (if old_run_id = new_run_id then (value_error ''safe retry requires a fresh detector run'', file)
      else night_edit (\<lambda>s. Inr ((), night_note (RuntimeRetry pid old_run_id new_run_id) s)) file)"

definition night_record_restart :: "night_file \<Rightarrow> (night_file, unit) outcome" where
  "night_record_restart = night_edit (\<lambda>s. Inr ((), night_note (ProcessReopened (isoformat (ns_now s))) s))"

section \<open>A round\<close>

type_synonym 'w night_executor = "night_work \<Rightarrow> night_file \<times> 'w \<Rightarrow> (night_file \<times> 'w, night_outcome) outcome"

definition on_file :: "(night_file \<Rightarrow> (night_file, 'a) outcome) \<Rightarrow> night_file \<times> 'w \<Rightarrow> (night_file \<times> 'w, 'a) outcome" where
  "on_file f s = (case f (fst s) of (r, file) \<Rightarrow> (r, (file, snd s)))"

text \<open>\<open>NightAttemptOutcome.model_validate\<close> and the match with the decision.\<close>

definition check_outcome :: "night_work \<Rightarrow> night_outcome \<Rightarrow> unit result" where
  "check_outcome work out =
     rbind (require (case no_retry_after out of None \<Rightarrow> True | Some n \<Rightarrow> 1 \<le> n)
              [Txt ''Input should be greater than or equal to 1'']) (\<lambda>_.
       require (no_work_id out = nw_work_id work \<and> no_program_id out = nw_program_id work)
         [Txt ''executor outcome does not match scheduler decision''])"

definition night_attempt :: "night_outcome \<Rightarrow> night_file \<Rightarrow> (night_file, unit) outcome" where
  "night_attempt out = night_edit (\<lambda>s. Inr ((), night_note (AttemptFinished (ns_round s) out) s))"

text \<open>What is done with one valid outcome: three rewritings of the file.\<close>

definition ingest_outcome :: "night_work \<Rightarrow> night_outcome \<Rightarrow> night_file \<Rightarrow> (night_file, unit) outcome" where
  "ingest_outcome work out file =
     obind (night_attempt out file) (\<lambda>_ file.
     obind (case no_retry_after out of
              None \<Rightarrow> (Inr (), file)
            | Some secs \<Rightarrow> obind (night_rate_limit (nw_program_id work) secs file) (\<lambda>_ file. (Inr (), file))) (\<lambda>_ file.
       night_complete work (no_progress out) file))"

fun dispatch_works :: "'w night_executor \<Rightarrow> night_work list \<Rightarrow> night_file \<times> 'w \<Rightarrow> (night_file \<times> 'w, night_outcome list) outcome" where
  "dispatch_works ex [] s = (Inr [], s)"
| "dispatch_works ex (w # ws) s =
     obind (ex w s) (\<lambda>out s.
     obind (check_outcome w out, s) (\<lambda>_ s.
     obind (on_file (ingest_outcome w out) s) (\<lambda>_ s.
     obind (dispatch_works ex ws s) (\<lambda>outs s. (Inr (out # outs), s)))))"

definition dispatch_round :: "'w night_executor \<Rightarrow> night_file \<times> 'w \<Rightarrow> (night_file \<times> 'w, night_outcome list) outcome" where
  "dispatch_round ex s = obind (on_file night_select s) (\<lambda>selected s. dispatch_works ex selected s)"

end
