(* ===== verification/NightSystem.thy ===== *)
theory NightSystem
  imports NightScheduler
begin

text \<open>
  What the operations of the night scheduler keep: the relation \<open>night_le\<close> between a document and a
  later one, for any sequence of operations; and what one round does when its executor answers.
\<close>

section \<open>A document and a later one\<close>

text \<open>A work unit less the revision and the lease a replanning gives it.\<close>

definition work_core :: "night_work \<Rightarrow> string \<times> string \<times> int" where
  "work_core w = (nw_work_id w, nw_program_id w, nw_duration w)"

definition program_le :: "night_program \<Rightarrow> night_program \<Rightarrow> bool" where
  "program_le p p' \<longleftrightarrow> np_program_id p' = np_program_id p \<and> np_rank p' = np_rank p \<and>
     (np_exhausted p \<noteq> None \<longrightarrow> np_exhausted p' \<noteq> None) \<and>
     (\<exists>finished. map work_core (np_pending p) = map work_core finished @ map work_core (np_pending p') \<and>
        np_completed p' = np_completed p @ map nw_work_id finished)"

fun is_completion :: "night_event \<Rightarrow> bool" where
  "is_completion (WorkCompleted _ _) = True"
| "is_completion _ = False"

definition total_completed :: "night_state \<Rightarrow> nat" where
  "total_completed s = (\<Sum>e \<leftarrow> ns_programs s. length (np_completed (snd e)))"

definition total_pending :: "night_state \<Rightarrow> nat" where
  "total_pending s = (\<Sum>e \<leftarrow> ns_programs s. length (np_pending (snd e)))"

definition night_le :: "night_state \<Rightarrow> night_state \<Rightarrow> bool" where
  "night_le s s' \<longleftrightarrow> ns_campaign_id s' = ns_campaign_id s \<and> ns_deadline s' = ns_deadline s \<and>
     dt_us (ns_now s) \<le> dt_us (ns_now s') \<and> ns_round s \<le> ns_round s' \<and> (ns_draining s \<longrightarrow> ns_draining s') \<and>
     (\<exists>es. ns_events s' = ns_events s @ es) \<and>
     list_all2 (\<lambda>e e'. fst e' = fst e \<and> program_le (snd e) (snd e')) (ns_programs s) (ns_programs s') \<and>
     total_completed s' + count_rows is_completion (ns_events s) =
       total_completed s + count_rows is_completion (ns_events s')"

lemma program_le_refl [simp]: "program_le p p"
  unfolding program_le_def by (auto intro: exI [of _ "[]"])

lemma program_le_trans:
  assumes "program_le p q" "program_le q r"
  shows "program_le p r"
proof -
  from assms obtain xs ys where "map work_core (np_pending p) = map work_core xs @ map work_core (np_pending q)"
    "np_completed q = np_completed p @ map nw_work_id xs"
    "map work_core (np_pending q) = map work_core ys @ map work_core (np_pending r)"
    "np_completed r = np_completed q @ map nw_work_id ys" by (auto simp: program_le_def)
  then have "map work_core (np_pending p) = map work_core (xs @ ys) @ map work_core (np_pending r)"
    "np_completed r = np_completed p @ map nw_work_id (xs @ ys)" by simp_all
  with assms show ?thesis unfolding program_le_def by metis
qed

lemma night_le_refl [simp]: "night_le s s"
  by (auto simp: night_le_def list_all2_same)

lemma night_le_trans:
  assumes "night_le s t" "night_le t u"
  shows "night_le s u"
proof -
  have "list_all2 (\<lambda>e e'. fst e' = fst e \<and> program_le (snd e) (snd e')) (ns_programs s) (ns_programs u)"
    using assms by (auto simp: night_le_def intro: list_all2_trans [rotated 1] program_le_trans)
  moreover have "\<exists>es. ns_events u = ns_events s @ es" using assms by (auto simp: night_le_def)
  ultimately show ?thesis using assms by (auto simp: night_le_def)
qed

text \<open>The documents whose work is listed under its own program and whose times have an offset.\<close>

definition program_wf :: "string \<Rightarrow> night_program \<Rightarrow> bool" where
  "program_wf k p \<longleftrightarrow> np_program_id p = k \<and> (\<forall>w \<in> set (np_pending p). nw_program_id w = k) \<and>
     (case np_backoff_until p of None \<Rightarrow> True | Some u \<Rightarrow> aware u)"

definition night_wf :: "night_state \<Rightarrow> bool" where
  "night_wf s \<longleftrightarrow> distinct (map fst (ns_programs s)) \<and> aware (ns_now s) \<and> aware (ns_deadline s) \<and>
     (\<forall>(k, p) \<in> set (ns_programs s). program_wf k p) \<and> (ns_draining s \<longrightarrow> dt_le (ns_deadline s) (ns_now s))"

section \<open>Replacing one program\<close>

lemma dict_set_all2:
  assumes "dict_get d k = Some p" "R p p'" "\<And>q. R q q"
  shows "list_all2 (\<lambda>e e'. fst e' = fst e \<and> R (snd e) (snd e')) d (dict_set d k p')"
  using assms(1)
proof (induction d)
  case (Cons e d)
  have "list_all2 (\<lambda>e e'. fst e' = fst e \<and> R (snd e) (snd e')) d d" using assms(3) by (simp add: list_all2_same)
  with Cons assms(2,3) show ?case by (cases e) auto
qed simp

lemma dict_set_sum:
  "dict_get d k = Some p \<Longrightarrow> (\<Sum>e \<leftarrow> dict_set d k p'. g (snd e)) + g p = (\<Sum>e \<leftarrow> d. g (snd e)) + (g p' :: nat)"
  by (induction d) (auto split: if_splits)

lemma dict_get_mem: "dict_get d k = Some p \<Longrightarrow> (k, p) \<in> set d"
  by (simp add: dict_get_map_of map_of_SomeD)

lemma dict_set_mem: "e \<in> set (dict_set d k p) \<Longrightarrow> e \<in> set d \<or> e = (k, p)"
  by (induction d k p rule: dict_set.induct) (auto split: if_splits)

lemma night_note_fields [simp]:
  "ns_campaign_id (night_note e s) = ns_campaign_id s" "ns_deadline (night_note e s) = ns_deadline s"
  "ns_now (night_note e s) = ns_now s" "ns_round (night_note e s) = ns_round s"
  "ns_draining (night_note e s) = ns_draining s" "ns_programs (night_note e s) = ns_programs s"
  "ns_events (night_note e s) = ns_events s @ [e]"
  by (simp_all add: night_note_def)

lemma night_wf_note [simp]: "night_wf (night_note e s) = night_wf s"
  by (simp add: night_wf_def)

lemma night_le_note:
  assumes "dict_get (ns_programs s) k = Some p" "program_le p p'"
    and "length (np_completed p') = length (np_completed p) + of_bool (is_completion e)"
  shows "night_le s (night_note e (put_program k p' s))"
proof -
  have "list_all2 (\<lambda>e e'. fst e' = fst e \<and> program_le (snd e) (snd e')) (ns_programs s) (dict_set (ns_programs s) k p')"
    using assms by (intro dict_set_all2) auto
  moreover have "(\<Sum>e \<leftarrow> dict_set (ns_programs s) k p'. length (np_completed (snd e))) =
      total_completed s + of_bool (is_completion e)"
    using dict_set_sum [OF assms(1), of "length \<circ> np_completed" p'] assms(3) by (simp add: total_completed_def)
  ultimately show ?thesis by (simp add: night_le_def put_program_def total_completed_def)
qed

lemma night_le_event: "\<not> is_completion e \<Longrightarrow> night_le s (night_note e s)"
  by (simp add: night_le_def list_all2_same total_completed_def)

lemma night_wf_put:
  assumes "night_wf s" "dict_get (ns_programs s) k = Some p" "program_wf k p'"
  shows "night_wf (put_program k p' s)"
  using assms dict_set_distinct [of "ns_programs s" k p'] dict_set_mem [of _ "ns_programs s" k p']
  by (fastforce simp: night_wf_def put_program_def)

lemma night_program_of_Inr [result_simps]: "night_program_of s k = Inr p \<longleftrightarrow> dict_get (ns_programs s) k = Some p"
  by (simp add: night_program_of_def split: option.splits)

lemma night_wf_program: "night_wf s \<Longrightarrow> dict_get (ns_programs s) k = Some p \<Longrightarrow> program_wf k p"
  using dict_get_mem by (fastforce simp: night_wf_def)

section \<open>Every operation\<close>

text \<open>What a change of the document may do.\<close>

definition night_keeps :: "(night_state \<Rightarrow> ('a \<times> night_state) result) \<Rightarrow> bool" where
  "night_keeps f \<longleftrightarrow> (\<forall>s x s'. night_wf s \<longrightarrow> f s = Inr (x, s') \<longrightarrow> night_wf s' \<and> night_le s s')"

lemma dt_compare_le_Inr [result_simps]: "dt_compare_le a b = Inr c \<longleftrightarrow> aware a = aware b \<and> c = dt_le a b"
  by (auto simp: dt_compare_le_def)

lemma keeps_program:
  assumes "dict_get (ns_programs s) k = Some p" "night_wf s"
    and "program_le p p'" "program_wf k p'" "length (np_completed p') = length (np_completed p) + of_bool (is_completion e)"
  shows "night_wf (night_note e (put_program k p' s)) \<and> night_le s (night_note e (put_program k p' s))"
  using assms night_wf_put night_le_note by simp

lemma advance_keeps: "night_keeps (advance_night now)"
proof -
  have "night_wf s' \<and> night_le s s'" if "night_wf s" "advance_night now s = Inr (x, s')" for s s' x
    using that
    by (auto simp: advance_night_def result_simps Let_def night_le_def night_wf_def list_all2_same total_completed_def
        time_simps split: if_splits)
  then show ?thesis by (auto simp: night_keeps_def)
qed

lemma mark_scheduled_le: "night_le s (mark_scheduled keys s)"
proof -
  have "list_all2 (\<lambda>e e'. fst e' = fst e \<and> program_le (snd e) (snd e')) ps
      (map (\<lambda>(k, p). (k, if k \<in> set keys then p\<lparr>np_last_round := n\<rparr> else p)) ps)" for ps n
    by (induction ps) (auto simp: program_le_def intro: exI [of _ "[]"])
  moreover have "(\<Sum>e \<leftarrow> map (\<lambda>(k, p). (k, if k \<in> set keys then p\<lparr>np_last_round := n\<rparr> else p)) ps. length (np_completed (snd e))) =
      (\<Sum>e \<leftarrow> ps. length (np_completed (snd e)))" for ps n
    by (induction ps) auto
  ultimately show ?thesis by (simp add: night_le_def mark_scheduled_def total_completed_def)
qed

lemma mark_scheduled_wf:
  assumes "night_wf s"
  shows "night_wf (mark_scheduled keys s)"
proof -
  have k: "map fst (map (\<lambda>(k, p). (k, if k \<in> set keys then p\<lparr>np_last_round := n\<rparr> else p)) ps) = map fst ps" for ps n
    by (induction ps) auto
  have "program_wf k p \<Longrightarrow> program_wf k (p\<lparr>np_last_round := n\<rparr>)" for k p n by (simp add: program_wf_def)
  with assms show ?thesis
    unfolding night_wf_def mark_scheduled_def by (simp add: k del: map_map split: if_splits) auto
qed

lemma select_keeps: "night_keeps select_night"
  by (auto simp: night_keeps_def select_night_def result_simps Let_def mark_scheduled_le mark_scheduled_wf split: if_splits)

lemma complete_keeps: "night_keeps (complete_night work progress)"
proof -
  have "night_wf s' \<and> night_le s s'" if wf: "night_wf s" and c: "complete_night work progress s = Inr (x, s')" for s s' x
  proof -
    from c obtain p where p: "dict_get (ns_programs s) (nw_program_id work) = Some p" "np_pending p \<noteq> []"
      "nw_work_id (hd (np_pending p)) = nw_work_id work"
      and s': "s' = night_note (WorkCompleted (nw_work_id work) progress)
        (put_program (nw_program_id work) (finish_work (nw_work_id work) progress p) s)"
      by (auto simp: complete_night_def result_simps)
    let ?q = "finish_work (nw_work_id work) progress p"
    obtain w ws where w: "np_pending p = w # ws" using p(2) by (cases "np_pending p") auto
    have q: "np_pending ?q = ws" "np_completed ?q = np_completed p @ [nw_work_id w]" "np_program_id ?q = np_program_id p"
      "np_rank ?q = np_rank p" "np_backoff_until ?q = np_backoff_until p" "np_exhausted p \<noteq> None \<Longrightarrow> np_exhausted ?q \<noteq> None"
      using p(3) w by (auto simp: finish_work_def Let_def)
    have "program_le p ?q" unfolding program_le_def using q w by (auto intro!: exI [of _ "[w]"])
    moreover have "program_wf (nw_program_id work) ?q"
      using night_wf_program [OF wf p(1)] q w by (simp add: program_wf_def)
    ultimately show ?thesis unfolding s' by (rule keeps_program [OF p(1) wf]) (simp add: q)
  qed
  then show ?thesis by (auto simp: night_keeps_def)
qed

lemma program_le_replanned:
  assumes "np_program_id p' = np_program_id p" "np_rank p' = np_rank p" "np_exhausted p' = np_exhausted p"
    "map work_core (np_pending p') = map work_core (np_pending p)" "np_completed p' = np_completed p"
  shows "program_le p p'"
  unfolding program_le_def using assms by (auto intro: exI [of _ "[]"])

text \<open>An edit of one program that completes nothing.\<close>

lemma edit_program_keeps:
  assumes "\<And>s. f s = rbind (night_program_of s k) (\<lambda>p. Inr (x s p, night_note (e s p) (put_program k (g s p) s)))"
    and "\<And>s p. program_le p (g s p)" "\<And>s p. night_wf s \<Longrightarrow> program_wf k p \<Longrightarrow> program_wf k (g s p)"
    and "\<And>s p. np_completed (g s p) = np_completed p" "\<And>s p. \<not> is_completion (e s p)"
  shows "night_keeps f"
proof -
  have "night_wf s' \<and> night_le s s'" if wf: "night_wf s" and c: "f s = Inr (y, s')" for s s' y
  proof -
    from c obtain p where p: "dict_get (ns_programs s) k = Some p" and s': "s' = night_note (e s p) (put_program k (g s p) s)"
      by (auto simp: assms(1) result_simps)
    show ?thesis unfolding s'
      by (rule keeps_program [OF p wf]) (simp_all add: assms(2-5) wf night_wf_program [OF wf p])
  qed
  then show ?thesis by (auto simp: night_keeps_def)
qed

lemma rate_limit_keeps: "night_keeps (rate_limit_night pid secs)"
  by (rule edit_program_keeps [OF rate_limit_night_def [unfolded Let_def]], rule program_le_replanned)
    (simp_all add: program_wf_def night_wf_def aware_def)

lemma replace_revision_keeps: "night_keeps (replace_revision pid revision lease_id)"
  by (rule edit_program_keeps [OF replace_revision_def], rule program_le_replanned)
    (simp_all add: work_core_def program_wf_def comp_def)

lemma rebind_lease_le: "program_le p (rebind_lease l p)"
  by (rule program_le_replanned) (simp_all add: rebind_lease_def work_core_def comp_def)

lemma rebind_lease_wf: "program_wf k p \<Longrightarrow> program_wf k (rebind_lease l p)"
  by (simp add: program_wf_def rebind_lease_def)

lemma replace_lease_keeps: "night_keeps (replace_lease pid lease_id)"
  by (rule edit_program_keeps [OF replace_lease_def]) (simp_all add: rebind_lease_le rebind_lease_wf, simp add: rebind_lease_def)

lemma set_ready_keeps: "night_keeps (set_ready pid ready lease_id)"
proof (rule edit_program_keeps [OF set_ready_def [unfolded Let_def]])
  have le: "program_le p (p\<lparr>np_ready := ready\<rparr>)" for p by (rule program_le_replanned) simp_all
  then show "program_le p (case lease_id of None \<Rightarrow> p\<lparr>np_ready := ready\<rparr> | Some l \<Rightarrow> rebind_lease l (p\<lparr>np_ready := ready\<rparr>))" for p
    by (cases lease_id) (auto intro: program_le_trans [OF _ rebind_lease_le])
  have "program_wf pid p \<Longrightarrow> program_wf pid (p\<lparr>np_ready := ready\<rparr>)" for p by (simp add: program_wf_def)
  then show "program_wf pid p \<Longrightarrow>
      program_wf pid (case lease_id of None \<Rightarrow> p\<lparr>np_ready := ready\<rparr> | Some l \<Rightarrow> rebind_lease l (p\<lparr>np_ready := ready\<rparr>))" for p
    using rebind_lease_wf by (auto split: option.splits)
qed (simp_all add: rebind_lease_def split: option.splits)

lemma note_keeps: "(\<And>s. \<not> is_completion (e s)) \<Longrightarrow> night_keeps (\<lambda>s. Inr ((), night_note (e s) s))"
  by (auto simp: night_keeps_def night_le_event)

section \<open>Any sequence of operations\<close>

inductive night_step :: "night_file \<Rightarrow> night_file \<Rightarrow> bool" where
  advance: "night_step f (snd (night_advance now f))"
| select: "night_step f (snd (night_select f))"
| attempt: "night_step f (snd (night_attempt out f))"
| complete: "night_step f (snd (night_complete work progress f))"
| rate_limit: "night_step f (snd (night_rate_limit pid secs f))"
| proxy_backoff: "night_step f (snd (night_proxy_backoff pid ledger f))"
| revision: "night_step f (snd (night_replace_revision pid revision lease_id f))"
| ready: "night_step f (snd (night_set_ready pid is_ready lease f))"
| lease: "night_step f (snd (night_replace_lease pid lease_id f))"
| retry: "night_step f (snd (night_mark_retry pid old_run_id new_run_id f))"
| restart: "night_step f (snd (night_record_restart f))"

inductive night_reaches :: "night_file \<Rightarrow> night_file \<Rightarrow> bool" where
  here: "night_reaches f f"
| step: "night_reaches f g \<Longrightarrow> night_step g h \<Longrightarrow> night_reaches f h"

definition file_le :: "night_state \<Rightarrow> night_file \<Rightarrow> bool" where
  "file_le s f \<longleftrightarrow> (\<exists>s'. f = Parsed s' \<and> night_wf s' \<and> night_le s s')"

lemma edit_keeps: "night_keeps g \<Longrightarrow> night_wf s \<Longrightarrow> file_le s (snd (night_edit g (Parsed s)))"
  by (auto simp: night_keeps_def file_le_def night_edit_def split: sum.splits)

lemma rate_limit_file: "night_wf s \<Longrightarrow> file_le s (snd (night_rate_limit pid secs (Parsed s)))"
  by (simp add: night_rate_limit_def edit_keeps rate_limit_keeps) (simp add: file_le_def)

lemma night_step_le:
  assumes "night_step f h" "f = Parsed s" "night_wf s"
  shows "file_le s h"
  using assms(1)
proof cases
  case (proxy_backoff pid ledger)
  have "snd (night_proxy_backoff pid ledger f) = f \<or> (\<exists>secs. snd (night_proxy_backoff pid ledger f) = snd (night_rate_limit pid secs f))"
    by (auto simp: night_proxy_backoff_def Let_def split: list.splits sum.splits)
  with proxy_backoff rate_limit_file assms(2,3) show ?thesis by (auto simp: file_le_def)
next
  case (retry pid old new)
  with assms(2,3) edit_keeps [OF note_keeps, of "\<lambda>_. RuntimeRetry pid old new"] show ?thesis
    by (auto simp: night_mark_retry_def) (auto simp: file_le_def)
next
  case (rate_limit pid secs)
  with assms(2,3) rate_limit_file show ?thesis by simp
qed (use assms(2,3) in \<open>simp_all add: night_advance_def night_select_def night_attempt_def night_complete_def
      night_replace_revision_def night_set_ready_def night_replace_lease_def night_record_restart_def edit_keeps advance_keeps
      select_keeps complete_keeps replace_revision_keeps set_ready_keeps replace_lease_keeps note_keeps\<close>)

lemma night_reaches_le:
  assumes "night_reaches f g" "f = Parsed s" "night_wf s"
  shows "file_le s g"
  using assms
proof (induction arbitrary: s rule: night_reaches.induct)
  case (step f g h)
  from step.IH [OF step.prems] obtain s' where s': "g = Parsed s'" "night_wf s'" "night_le s s'" by (auto simp: file_le_def)
  from night_step_le [OF step.hyps(2) s'(1,2)] s'(3) night_le_trans show ?case by (auto simp: file_le_def)
qed (simp add: file_le_def)

end
