(* ===== verification/NightRounds.thy ===== *)
theory NightRounds
  imports NightSystem
begin

text \<open>
  Rounds of the night scheduler: which work a well-formed document selects, what a round does when its
  executor answers every decision, and how many rounds can do something.
\<close>

section \<open>Selection as a filter\<close>

definition night_ready :: "night_state \<Rightarrow> night_program \<Rightarrow> bool" where
  "night_ready s p \<longleftrightarrow> np_pending p \<noteq> [] \<and> np_ready p \<and> np_lease_id p \<notin> {None, Some []} \<and> np_exhausted p = None \<and>
     none_or (nw_revision (hd (np_pending p))) (Some (np_revision p)) \<and>
     none_or (nw_lease_id (hd (np_pending p))) (np_lease_id p) \<and>
     (case np_backoff_until p of None \<Rightarrow> True | Some u \<Rightarrow> dt_le u (ns_now s)) \<and>
     dt_us (ns_now s) + nw_duration (hd (np_pending p)) * 1000000 \<le> dt_us (ns_deadline s)"

lemma night_eligible_ready:
  assumes "night_wf s" "program_wf k p"
  shows "night_eligible s p = Inr (night_ready s p)"
proof -
  have a: "aware (ns_now s)" "aware (ns_deadline s)" "aware (dt_plus (ns_now s) n)" for n
    using assms(1) by (simp_all add: night_wf_def aware_def)
  show ?thesis
  proof (cases "np_pending p")
    case Nil
    then show ?thesis by (simp add: night_eligible_def night_ready_def)
  next
    case (Cons w ws)
    show ?thesis
    proof (cases "np_backoff_until p")
      case None
      with Cons a show ?thesis
        by (auto simp: night_eligible_def night_ready_def dt_compare_le_def dt_le_def seconds_def)
    next
      case (Some u)
      with assms(2) have "aware u" by (simp add: program_wf_def)
      with Some Cons a show ?thesis
        by (auto simp: night_eligible_def night_ready_def dt_compare_le_def dt_le_def seconds_def)
    qed
  qed
qed

text \<open>The programs chosen in a round, in the order they are served.\<close>

definition night_chosen :: "night_state \<Rightarrow> (string \<times> night_program) list" where
  "night_chosen s =
     (if ns_draining s then []
      else sort_key (\<lambda>e. night_order (snd e)) (filter (\<lambda>e. night_ready s (snd e)) (ns_programs s)))"

definition night_marked :: "night_state \<Rightarrow> night_state" where
  "night_marked s =
     (if ns_draining s then s else mark_scheduled (map fst (filter (\<lambda>e. night_ready s (snd e)) (ns_programs s))) s)"

lemma rfilter_known:
  "(\<And>x. x \<in> set xs \<Longrightarrow> f x = Inr (g x)) \<Longrightarrow> rfilter f xs = Inr (filter g xs)"
  by (induction xs) auto

lemma night_select_chosen:
  assumes "night_wf s"
  shows "night_select (Parsed s) = (Inr (map (\<lambda>e. hd (np_pending (snd e))) (night_chosen s)), Parsed (night_marked s))"
proof -
  have "night_eligible s (snd e) = Inr (night_ready s (snd e))" if "e \<in> set (ns_programs s)" for e
  proof -
    from that assms have "program_wf (fst e) (snd e)" unfolding night_wf_def by (cases e) auto
    from night_eligible_ready [OF assms this] show ?thesis .
  qed
  then have "rfilter (\<lambda>e. night_eligible s (snd e)) (ns_programs s) = Inr (filter (\<lambda>e. night_ready s (snd e)) (ns_programs s))"
    by (rule rfilter_known)
  then show ?thesis
    by (simp add: night_select_def night_edit_def select_night_def night_chosen_def night_marked_def Let_def)
qed

lemma night_chosen_mem:
  "night_wf s \<Longrightarrow> (k, p) \<in> set (night_chosen s) \<longleftrightarrow>
     \<not> ns_draining s \<and> dict_get (ns_programs s) k = Some p \<and> night_ready s p"
  by (auto simp: night_chosen_def night_wf_def dict_get_map_of)

lemma night_chosen_keys: "night_wf s \<Longrightarrow> distinct (map fst (night_chosen s))"
  by (auto simp: night_chosen_def night_wf_def distinct_map intro: inj_on_subset)

lemma night_marked_get:
  "dict_get (ns_programs (night_marked s)) k =
     map_option (\<lambda>p. if k \<in> fst ` set (night_chosen s) then p\<lparr>np_last_round := ns_round s\<rparr> else p) (dict_get (ns_programs s) k)"
proof -
  have "dict_get (map (\<lambda>(k, p). (k, if k \<in> A then p\<lparr>np_last_round := n\<rparr> else p)) ps) k =
      map_option (\<lambda>p. if k \<in> A then p\<lparr>np_last_round := n\<rparr> else p) (dict_get ps k)" for A ps n
    by (induction ps) auto
  then show ?thesis
    by (auto simp: night_marked_def night_chosen_def mark_scheduled_def option.map_ident)
qed

lemma night_marked_pending: "total_pending (night_marked s) = total_pending s"
proof -
  have "(\<Sum>e \<leftarrow> map (\<lambda>(k, p). (k, if k \<in> A then p\<lparr>np_last_round := n\<rparr> else p)) ps. length (np_pending (snd e))) =
      (\<Sum>e \<leftarrow> ps. length (np_pending (snd e)))" for A ps n
    by (induction ps) auto
  then have "total_pending (mark_scheduled keys s) = total_pending s" for keys
    by (simp add: mark_scheduled_def total_pending_def del: map_map)
  then show ?thesis by (simp add: night_marked_def)
qed

lemma night_marked_wf: "night_wf s \<Longrightarrow> night_wf (night_marked s)"
  by (simp add: night_marked_def mark_scheduled_wf)

text \<open>A round that selects nothing leaves the document as it was.\<close>

lemma night_marked_idle:
  assumes "night_chosen s = []"
  shows "night_marked s = s"
proof -
  have "map (\<lambda>(k, p). (k, p)) ps = ps" for ps :: "(string \<times> night_program) list" by (induction ps) auto
  then have "mark_scheduled [] s = s" by (simp add: mark_scheduled_def)
  moreover have "ns_draining s \<or> filter (\<lambda>e. night_ready s (snd e)) (ns_programs s) = []"
    using assms arg_cong [where f = length and y = "[]"] by (fastforce simp: night_chosen_def split: if_splits)
  ultimately show ?thesis by (auto simp: night_marked_def)
qed

section \<open>One valid outcome\<close>

lemma dict_set_twice: "dict_set (dict_set d k v) k w = dict_set d k w"
  by (induction d) auto

definition served :: "night_work \<Rightarrow> night_program \<Rightarrow> night_program \<Rightarrow> bool" where
  "served w p p' \<longleftrightarrow> np_pending p' = tl (np_pending p) \<and> np_completed p' = np_completed p @ [nw_work_id w]"

lemma finish_work_served: "served w p (finish_work (nw_work_id w) progress p)"
  by (simp add: served_def finish_work_def Let_def)

lemma ingest_outcome_served:
  assumes "night_wf t" "dict_get (ns_programs t) (nw_program_id w) = Some p" "np_pending p = w # ws" "check_outcome w out = Inr ()"
  obtains t' p' where "ingest_outcome w out (Parsed t) = (Inr (), Parsed t')" "night_wf t'" "served w p p'"
    "ns_programs t' = dict_set (ns_programs t) (nw_program_id w) p'" "ns_draining t' = ns_draining t"
proof -
  let ?k = "nw_program_id w" and ?t1 = "night_note (AttemptFinished (ns_round t) out) t"
  have a: "night_attempt out (Parsed t) = (Inr (), Parsed ?t1)" by (simp add: night_attempt_def night_edit_def)
  have wf1: "night_wf ?t1" using assms(1) by simp
  obtain t2 q where t2: "night_wf t2" "np_pending q = np_pending p" "np_completed q = np_completed p"
    "ns_programs t2 = ns_programs t \<and> q = p \<or> ns_programs t2 = dict_set (ns_programs t) ?k q" "ns_draining t2 = ns_draining t"
    "(case no_retry_after out of None \<Rightarrow> (Inr (), Parsed ?t1)
      | Some secs \<Rightarrow> obind (night_rate_limit ?k secs (Parsed ?t1)) (\<lambda>_ file. (Inr (), file))) = (Inr (), Parsed t2)"
  proof (cases "no_retry_after out")
    case None
    show ?thesis by (rule that [of ?t1 p]) (simp_all add: None assms(1))
  next
    case (Some secs)
    with assms(4) have "\<not> secs < 1" by (auto simp: check_outcome_def result_simps)
    with Some assms(2) obtain u s' where r: "rate_limit_night ?k secs ?t1 = Inr (u, s')"
      "s' = night_note (Http429 ?k (isoformat u)) (put_program ?k (p\<lparr>np_backoff_until := Some u\<rparr>) ?t1)"
      by (simp add: rate_limit_night_def night_program_of_def Let_def)
    show ?thesis
    proof (rule that [of s' "p\<lparr>np_backoff_until := Some u\<rparr>"])
      from rate_limit_keeps r(1) wf1 show "night_wf s'" unfolding night_keeps_def by blast
    qed (use \<open>\<not> secs < 1\<close> Some r in \<open>simp_all add: night_rate_limit_def night_edit_def put_program_def\<close>)
  qed
  let ?p' = "finish_work (nw_work_id w) (no_progress out) q"
  let ?t3 = "night_note (WorkCompleted (nw_work_id w) (no_progress out)) (put_program ?k ?p' t2)"
  have "dict_get (ns_programs t2) ?k = Some q" using t2(4) assms(2) by auto
  then have c: "complete_night w (no_progress out) t2 = Inr ((), ?t3)"
    using t2(2) assms(3) by (simp add: complete_night_def night_program_of_def)
  have "night_wf ?t3" using complete_keeps c t2(1) unfolding night_keeps_def by blast
  moreover have "served w p ?p'" using finish_work_served [of w q] t2(2,3) by (simp add: served_def)
  moreover have "ns_programs ?t3 = dict_set (ns_programs t) ?k ?p'" "ns_draining ?t3 = ns_draining t"
    using t2(4,5) by (auto simp: put_program_def dict_set_twice)
  moreover have "ingest_outcome w out (Parsed t) = (Inr (), Parsed ?t3)"
    unfolding ingest_outcome_def a using t2(6) by (simp add: night_complete_def night_edit_def c)
  ultimately show ?thesis using that by blast
qed

section \<open>A round with an executor that answers\<close>

text \<open>It leaves the scheduler's file alone and returns a valid outcome for every decision.\<close>

definition answering :: "'w night_executor \<Rightarrow> bool" where
  "answering ex \<longleftrightarrow> (\<forall>w f v. \<exists>out v'. ex w (f, v) = (Inr out, (f, v')) \<and> check_outcome w out = Inr ())"

lemma dispatch_works_served:
  assumes "answering ex" "night_wf t" "distinct (map nw_program_id ws)"
    and "\<forall>w \<in> set ws. \<exists>p rest. dict_get (ns_programs t) (nw_program_id w) = Some p \<and> np_pending p = w # rest"
  obtains outs t' v' where "dispatch_works ex ws (Parsed t, v) = (Inr outs, (Parsed t', v'))"
    "map (\<lambda>o'. (no_program_id o', no_work_id o')) outs = map (\<lambda>w. (nw_program_id w, nw_work_id w)) ws"
    "night_wf t'" "total_pending t' + length ws = total_pending t" "ns_draining t' = ns_draining t"
    "\<forall>w \<in> set ws. \<exists>p p'. dict_get (ns_programs t) (nw_program_id w) = Some p \<and>
       dict_get (ns_programs t') (nw_program_id w) = Some p' \<and> served w p p'"
    "\<forall>k. k \<notin> nw_program_id ` set ws \<longrightarrow> dict_get (ns_programs t') k = dict_get (ns_programs t) k"
  using assms(2-4)
proof (induction ws arbitrary: t v thesis)
  case Nil
  from Nil.prems(1) [of "[]" t v] Nil.prems(2) show ?case by simp
next
  case (Cons w ws)
  from assms(1) obtain out v1 where ex: "ex w (Parsed t, v) = (Inr out, (Parsed t, v1))" and ok: "check_outcome w out = Inr ()"
    unfolding answering_def by metis
  from Cons.prems(4) obtain p rest where p: "dict_get (ns_programs t) (nw_program_id w) = Some p" "np_pending p = w # rest"
    by auto
  obtain t1 p1 where t1: "ingest_outcome w out (Parsed t) = (Inr (), Parsed t1)" "night_wf t1" "served w p p1"
    "ns_programs t1 = dict_set (ns_programs t) (nw_program_id w) p1" "ns_draining t1 = ns_draining t"
    by (rule ingest_outcome_served [OF Cons.prems(2) p ok])
  have d: "nw_program_id w \<notin> nw_program_id ` set ws" "distinct (map nw_program_id ws)" using Cons.prems(3) by auto
  have "\<forall>x \<in> set ws. \<exists>p rest. dict_get (ns_programs t1) (nw_program_id x) = Some p \<and> np_pending p = x # rest"
    using Cons.prems(4) d(1) by (auto simp: t1(4))
  from Cons.IH [OF _ t1(2) d(2) this, of v1] obtain outs t' v' where r:
    "dispatch_works ex ws (Parsed t1, v1) = (Inr outs, (Parsed t', v'))"
    "map (\<lambda>o'. (no_program_id o', no_work_id o')) outs = map (\<lambda>w. (nw_program_id w, nw_work_id w)) ws"
    "night_wf t'" "total_pending t' + length ws = total_pending t1" "ns_draining t' = ns_draining t1"
    "\<forall>w \<in> set ws. \<exists>p p'. dict_get (ns_programs t1) (nw_program_id w) = Some p \<and>
       dict_get (ns_programs t') (nw_program_id w) = Some p' \<and> served w p p'"
    "\<forall>k. k \<notin> nw_program_id ` set ws \<longrightarrow> dict_get (ns_programs t') k = dict_get (ns_programs t1) k" by blast
  have n: "total_pending t1 + 1 = total_pending t"
    using dict_set_sum [OF p(1), of "\<lambda>p. length (np_pending p)" p1] t1(3) p(2)
    by (simp add: total_pending_def t1(4) served_def)
  show ?case
  proof (rule Cons.prems(1))
    show "dispatch_works ex (w # ws) (Parsed t, v) = (Inr (out # outs), (Parsed t', v'))"
      by (simp add: ex ok on_file_def t1(1) r(1))
    show "map (\<lambda>o'. (no_program_id o', no_work_id o')) (out # outs) = map (\<lambda>w. (nw_program_id w, nw_work_id w)) (w # ws)"
      using r(2) ok by (auto simp: check_outcome_def result_simps)
    show "\<forall>x \<in> set (w # ws). \<exists>p p'. dict_get (ns_programs t) (nw_program_id x) = Some p \<and>
       dict_get (ns_programs t') (nw_program_id x) = Some p' \<and> served x p p'"
    proof
      fix x assume x: "x \<in> set (w # ws)"
      show "\<exists>p p'. dict_get (ns_programs t) (nw_program_id x) = Some p \<and>
         dict_get (ns_programs t') (nw_program_id x) = Some p' \<and> served x p p'"
      proof (cases "x \<in> set ws")
        case True
        with d(1) have "nw_program_id x \<noteq> nw_program_id w" by (metis image_eqI)
        with r(6) True show ?thesis by (auto simp: t1(4))
      next
        case False
        with x have "x = w" by simp
        with r(7) d(1) p(1) t1(3) show ?thesis by (simp add: t1(4))
      qed
    qed
    show "\<forall>k. k \<notin> nw_program_id ` set (w # ws) \<longrightarrow> dict_get (ns_programs t') k = dict_get (ns_programs t) k"
      using r(7) by (simp add: t1(4))
  qed (use r n t1(5) in simp_all)
qed

text \<open>What a round did, for a document \<open>s\<close>.\<close>

definition round_serves :: "night_state \<Rightarrow> night_state \<Rightarrow> bool" where
  "round_serves s s' \<longleftrightarrow> (\<forall>k p. dict_get (ns_programs s) k = Some p \<longrightarrow>
     (\<exists>p'. dict_get (ns_programs s') k = Some p' \<and>
        (if \<not> ns_draining s \<and> night_ready s p then served (hd (np_pending p)) p p'
         else np_pending p' = np_pending p \<and> np_completed p' = np_completed p)))"

lemma dispatch_round_served:
  assumes "answering ex" "night_wf s"
  obtains outs s' v' where "dispatch_round ex (Parsed s, v) = (Inr outs, (Parsed s', v'))"
    "map (\<lambda>o'. (no_program_id o', no_work_id o')) outs =
       map (\<lambda>e. (fst e, nw_work_id (hd (np_pending (snd e))))) (night_chosen s)"
    "night_wf s'" "total_pending s' + length outs = total_pending s" "round_serves s s'"
    "night_chosen s = [] \<longrightarrow> s' = s"
proof -
  let ?ws = "map (\<lambda>e. hd (np_pending (snd e))) (night_chosen s)"
  have own: "dict_get (ns_programs s) (fst e) = Some (snd e) \<and> np_pending (snd e) \<noteq> [] \<and>
      nw_program_id (hd (np_pending (snd e))) = fst e" if "e \<in> set (night_chosen s)" for e
  proof -
    from night_chosen_mem [OF assms(2), of "fst e" "snd e"] that
    have e: "dict_get (ns_programs s) (fst e) = Some (snd e)" "np_pending (snd e) \<noteq> []" by (auto simp: night_ready_def)
    moreover from night_wf_program [OF assms(2) e(1)] e(2) have "nw_program_id (hd (np_pending (snd e))) = fst e"
      by (simp add: program_wf_def)
    ultimately show ?thesis by blast
  qed
  then have ids: "map nw_program_id ?ws = map fst (night_chosen s)" by simp
  then have img: "nw_program_id ` set ?ws = fst ` set (night_chosen s)" by (metis list.set_map)
  have heads: "\<forall>w \<in> set ?ws. \<exists>p rest. dict_get (ns_programs (night_marked s)) (nw_program_id w) = Some p \<and> np_pending p = w # rest"
  proof
    fix w assume "w \<in> set ?ws"
    then obtain e where e: "e \<in> set (night_chosen s)" "w = hd (np_pending (snd e))" by auto
    then have "np_pending (snd e) = w # tl (np_pending (snd e))" using own by simp
    moreover have "dict_get (ns_programs (night_marked s)) (nw_program_id w) = Some ((snd e)\<lparr>np_last_round := ns_round s\<rparr>)"
      using own [OF e(1)] e by (simp add: night_marked_get)
    ultimately show "\<exists>p rest. dict_get (ns_programs (night_marked s)) (nw_program_id w) = Some p \<and> np_pending p = w # rest"
      by force
  qed
  have own_ids: "distinct (map nw_program_id ?ws)" unfolding ids by (rule night_chosen_keys [OF assms(2)])
  obtain outs s' v' where r: "dispatch_works ex ?ws (Parsed (night_marked s), v) = (Inr outs, (Parsed s', v'))"
    "map (\<lambda>o'. (no_program_id o', no_work_id o')) outs = map (\<lambda>w. (nw_program_id w, nw_work_id w)) ?ws"
    "night_wf s'" "total_pending s' + length ?ws = total_pending (night_marked s)"
    "ns_draining s' = ns_draining (night_marked s)"
    "\<forall>w \<in> set ?ws. \<exists>p p'. dict_get (ns_programs (night_marked s)) (nw_program_id w) = Some p \<and>
       dict_get (ns_programs s') (nw_program_id w) = Some p' \<and> served w p p'"
    "\<forall>k. k \<notin> nw_program_id ` set ?ws \<longrightarrow> dict_get (ns_programs s') k = dict_get (ns_programs (night_marked s)) k"
    by (rule dispatch_works_served [OF assms(1) night_marked_wf [OF assms(2)] own_ids heads, of v])
  have d: "dispatch_round ex (Parsed s, v) = (Inr outs, (Parsed s', v'))"
    by (simp add: dispatch_round_def on_file_def night_select_chosen [OF assms(2)] r(1))
  have "length outs = length ?ws" using arg_cong [OF r(2), of length] by simp
  with r(4) have n: "total_pending s' + length outs = total_pending s" by (simp add: night_marked_pending)
  have "round_serves s s'" unfolding round_serves_def
  proof (intro allI impI)
    fix k p assume k: "dict_get (ns_programs s) k = Some p"
    show "\<exists>p'. dict_get (ns_programs s') k = Some p' \<and>
        (if \<not> ns_draining s \<and> night_ready s p then served (hd (np_pending p)) p p'
         else np_pending p' = np_pending p \<and> np_completed p' = np_completed p)"
    proof (cases "\<not> ns_draining s \<and> night_ready s p")
      case True
      with k night_chosen_mem [OF assms(2)] have kp: "(k, p) \<in> set (night_chosen s)" by blast
      with own [OF kp] have w: "hd (np_pending p) \<in> set ?ws" "nw_program_id (hd (np_pending p)) = k"
        by (force, simp)
      from k True kp have m: "dict_get (ns_programs (night_marked s)) k = Some (p\<lparr>np_last_round := ns_round s\<rparr>)"
        by (force simp: night_marked_get)
      from bspec [OF r(6) w(1)] m obtain p' where "dict_get (ns_programs s') k = Some p'"
        "served (hd (np_pending p)) (p\<lparr>np_last_round := ns_round s\<rparr>) p'" by (auto simp: w(2))
      with True show ?thesis by (simp add: served_def)
    next
      case False
      with k night_chosen_mem [OF assms(2)] have "k \<notin> fst ` set (night_chosen s)" by fastforce
      with r(7) img k False show ?thesis by (auto simp: night_marked_get)
    qed
  qed
  moreover have "s' = s" if "night_chosen s = []" using r(1) that by (simp add: night_marked_idle)
  moreover have "map (\<lambda>o'. (no_program_id o', no_work_id o')) outs =
       map (\<lambda>e. (fst e, nw_work_id (hd (np_pending (snd e))))) (night_chosen s)"
    unfolding r(2) using own by simp
  ultimately show ?thesis using that d r(3) n by blast
qed

section \<open>Rounds one after the other\<close>

fun dispatch_rounds :: "'w night_executor \<Rightarrow> nat \<Rightarrow> night_file \<times> 'w \<Rightarrow> (night_file \<times> 'w, night_outcome list list) outcome" where
  "dispatch_rounds ex 0 s = (Inr [], s)"
| "dispatch_rounds ex (Suc n) s =
     obind (dispatch_round ex s) (\<lambda>outs s. obind (dispatch_rounds ex n s) (\<lambda>rest s. (Inr (outs # rest), s)))"

lemma dispatch_rounds_served:
  assumes "answering ex" "night_wf s"
  obtains rounds s' v' where "dispatch_rounds ex n (Parsed s, v) = (Inr rounds, (Parsed s', v'))" "length rounds = n"
    "night_wf s'" "total_pending s' + length (concat rounds) = total_pending s"
    "\<forall>i j. i \<le> j \<longrightarrow> j < n \<longrightarrow> rounds ! i = [] \<longrightarrow> rounds ! j = []"
  using assms(2)
proof (induction n arbitrary: s v thesis)
  case 0
  from 0(1) [of "[]" s v] 0(2) show ?case by simp
next
  case (Suc n)
  obtain outs s1 v1 where r: "dispatch_round ex (Parsed s, v) = (Inr outs, (Parsed s1, v1))"
    "map (\<lambda>o'. (no_program_id o', no_work_id o')) outs =
       map (\<lambda>e. (fst e, nw_work_id (hd (np_pending (snd e))))) (night_chosen s)"
    "night_wf s1" "total_pending s1 + length outs = total_pending s" "round_serves s s1" "night_chosen s = [] \<longrightarrow> s1 = s"
    by (rule dispatch_round_served [OF assms(1) Suc.prems(2), of v])
  obtain rest s' v' where q: "dispatch_rounds ex n (Parsed s1, v1) = (Inr rest, (Parsed s', v'))" "length rest = n"
    "night_wf s'" "total_pending s' + length (concat rest) = total_pending s1"
    "\<forall>i j. i \<le> j \<longrightarrow> j < n \<longrightarrow> rest ! i = [] \<longrightarrow> rest ! j = []"
    using Suc.IH [OF _ r(3), of v1] by blast
  have first: "rest ! 0 = []" if none: "outs = []" and more: "0 < n"
  proof -
    from none r(2) have c: "night_chosen s = []" by simp
    with r(6) have "s1 = s" by simp
    obtain m where n: "n = Suc m" using more by (cases n) auto
    obtain outs2 s2 v2 where r2: "dispatch_round ex (Parsed s, v1) = (Inr outs2, (Parsed s2, v2))"
      "map (\<lambda>o'. (no_program_id o', no_work_id o')) outs2 =
         map (\<lambda>e. (fst e, nw_work_id (hd (np_pending (snd e))))) (night_chosen s)"
      "night_wf s2" "total_pending s2 + length outs2 = total_pending s" "round_serves s s2" "night_chosen s = [] \<longrightarrow> s2 = s"
      by (rule dispatch_round_served [OF assms(1) Suc.prems(2), of v1])
    with c have "outs2 = []" by simp
    with q(1) r2(1) show ?thesis by (auto simp: n \<open>s1 = s\<close> result_simps)
  qed
  have "\<forall>i j. i \<le> j \<longrightarrow> j < Suc n \<longrightarrow> (outs # rest) ! i = [] \<longrightarrow> (outs # rest) ! j = []"
  proof (intro allI impI)
    fix i j assume ij: "i \<le> j" "j < Suc n" "(outs # rest) ! i = []"
    show "(outs # rest) ! j = []"
    proof (cases j)
      case 0
      with ij show ?thesis by simp
    next
      case (Suc j')
      then have "j' < n" using ij(2) by simp
      have "\<exists>i' \<le> j'. rest ! i' = []"
      proof (cases i)
        case 0
        with ij(3) first \<open>j' < n\<close> show ?thesis by auto
      next
        case (Suc i')
        with ij \<open>j = Suc j'\<close> show ?thesis by auto
      qed
      with q(5) \<open>j' < n\<close> have "rest ! j' = []" by blast
      with Suc show ?thesis by simp
    qed
  qed
  with q(1-4) r(1,4) Suc.prems(1) [of "outs # rest" s' v'] show ?case by simp
qed

section \<open>Rounds among other operations\<close>

text \<open>An executor that changes the scheduler's file, if at all, through the scheduler's operations.\<close>

definition uses_scheduler :: "'w night_executor \<Rightarrow> bool" where
  "uses_scheduler ex \<longleftrightarrow> (\<forall>w f v. night_reaches f (fst (snd (ex w (f, v)))))"

text \<open>Operations and rounds in any order; the executor's world may change in between.\<close>

inductive night_history :: "'w night_executor \<Rightarrow> night_file \<times> 'w \<Rightarrow> night_file \<times> 'w \<Rightarrow> bool" for ex where
  start: "night_history ex x x"
| operation: "night_history ex x (f, v) \<Longrightarrow> night_step f g \<Longrightarrow> night_history ex x (g, v')"
| round: "night_history ex x y \<Longrightarrow> night_history ex x (snd (dispatch_round ex y))"

lemma night_reaches_trans: "night_reaches g h \<Longrightarrow> night_reaches f g \<Longrightarrow> night_reaches f h"
  by (induction rule: night_reaches.induct) (auto intro: night_reaches.step)

lemma night_reaches_one: "night_step f g \<Longrightarrow> night_reaches f g"
  by (rule night_reaches.step [OF night_reaches.here])

lemma obind_reaches:
  assumes "night_reaches f0 (snd r)" "\<And>x f. r = (Inr x, f) \<Longrightarrow> night_reaches f (snd (g x f))"
  shows "night_reaches f0 (snd (obind r g))"
proof (cases r)
  case (Pair q f)
  with assms night_reaches_trans show ?thesis by (cases q) auto
qed

lemma ingest_reaches: "night_reaches f (snd (ingest_outcome w out f))"
  unfolding ingest_outcome_def
proof (intro obind_reaches)
  show "night_reaches f (snd (night_attempt out f))" by (rule night_reaches_one [OF night_step.attempt])
  show "night_reaches g (snd (night_complete w (no_progress out) g))" for g
    by (rule night_reaches_one [OF night_step.complete])
  show "night_reaches g (snd (case no_retry_after out of None \<Rightarrow> (Inr (), g)
      | Some secs \<Rightarrow> obind (night_rate_limit (nw_program_id w) secs g) (\<lambda>_ file. (Inr (), file))))" for g
    by (auto split: option.splits intro!: obind_reaches night_reaches.here night_reaches_one [OF night_step.rate_limit])
qed

lemma dispatch_works_reaches:
  assumes "uses_scheduler ex"
  shows "night_reaches (fst s) (fst (snd (dispatch_works ex ws s)))"
proof (induction ws arbitrary: s)
  case (Cons w ws)
  obtain r f v where e: "ex w s = (r, (f, v))" by (cases "ex w s") auto
  from assms have f: "night_reaches (fst s) f" unfolding uses_scheduler_def by (metis e fst_conv prod.collapse snd_conv)
  show ?case
  proof (cases r)
    case (Inr out)
    obtain q g where i: "ingest_outcome w out f = (q, g)" by fastforce
    then have fg: "night_reaches (fst s) g" using ingest_reaches [of f w out] night_reaches_trans [OF _ f] by simp
    obtain d h v' where d: "dispatch_works ex ws (g, v) = (d, (h, v'))" by (cases "dispatch_works ex ws (g, v)") auto
    then have "night_reaches (fst s) h" using Cons.IH [of "(g, v)"] night_reaches_trans [OF _ fg] by simp
    with f fg show ?thesis
      by (cases "check_outcome w out"; cases q; cases d) (simp_all add: e Inr on_file_def i d)
  qed (simp add: e f)
qed (simp add: night_reaches.here)

lemma dispatch_round_reaches:
  assumes "uses_scheduler ex"
  shows "night_reaches (fst y) (fst (snd (dispatch_round ex y)))"
proof -
  obtain q g where i: "night_select (fst y) = (q, g)" by fastforce
  then have g: "night_reaches (fst y) g" using night_reaches_one [OF night_step.select, of "fst y"] by simp
  show ?thesis
    using g night_reaches_trans [OF dispatch_works_reaches [OF assms, of "(g, snd y)", simplified] g]
    by (cases q) (simp_all add: dispatch_round_def on_file_def i)
qed

lemma night_history_reaches:
  "night_history ex x y \<Longrightarrow> uses_scheduler ex \<Longrightarrow> night_reaches (fst x) (fst y)"
proof (induction rule: night_history.induct)
  case (round x y)
  then show ?case using night_reaches_trans [OF dispatch_round_reaches [OF round.prems]] by blast
qed (auto intro: night_reaches.intros)

end
