(* ===== verification/NightProperties.thy ===== *)
theory NightProperties
  imports NightRounds ProxyProperties
begin

text \<open>
  The properties of the night scheduler: nothing planned is lost, repeated or reordered by any
  history of operations and rounds; what a round selects and what it serves; how many
  rounds do something; and how a target's 429, recorded by the counting proxy, holds a program back.
\<close>

section \<open>A concrete night\<close>

definition ex_work :: "string \<Rightarrow> string \<Rightarrow> night_work" where
  "ex_work pid wid = \<lparr>nw_work_id = wid, nw_program_id = pid, nw_duration = 60, nw_revision = Some ''1'', nw_lease_id = Some ''lease''\<rparr>"

definition ex_program :: "string \<Rightarrow> string list \<Rightarrow> bool \<Rightarrow> night_program" where
  "ex_program pid wids ready =
     \<lparr>np_program_id = pid, np_ready = ready, np_revision = ''1'', np_lease_id = Some ''lease'',
      np_pending = map (ex_work pid) wids, np_completed = [], np_backoff_until = None, np_no_progress = 0,
      np_exhausted = None, np_last_round = 0, np_rank = 0, np_exhaust_on_empty = False\<rparr>"

definition ex_night :: night_state where
  "ex_night = new_night ''night-1'' (utc 0) [ex_program ''B'' [''B-1'', ''B-2''] True, ex_program ''A'' [''A-1''] True,
     ex_program ''C'' [''C-1''] False]"

definition ex_executor :: "unit night_executor" where
  "ex_executor w s = (Inr \<lparr>no_work_id = nw_work_id w, no_program_id = nw_program_id w, no_run_id = ''run'',
     no_permit_id = ''permit'', no_status = ''completed'', no_progress = True, no_retry_after = None\<rparr>, s)"

lemma ex_night_wf: "night_wf ex_night"
  by (simp add: night_wf_def ex_night_def new_night_def ex_program_def ex_work_def program_wf_def utc_def aware_def)


lemma ex_executor_local: "uses_scheduler ex_executor"
  by (simp add: uses_scheduler_def ex_executor_def night_reaches.here)


lemma ex_night_deadline: "ns_deadline ex_night = utc 28800000000" "ns_now ex_night = utc 0"
  by (simp_all add: ex_night_def new_night_def night_hours_def dt_plus_def seconds_def utc_def)

section \<open>Histories\<close>

text \<open>
  C31: over any history of the scheduler's operations and rounds, whatever its executor does through
  the scheduler, no work is lost, repeated or taken out of turn: each program's completed list grows by
  exactly the work its queue has lost at the front, what remains is the same work apart from
  revision and lease, the completion events number the completed work, the clock never goes back, the
  deadline stays, an exhausted program stays exhausted.
\<close>

theorem night_conserves_work:
  assumes "night_history ex (Parsed s, v) (f, v')" "uses_scheduler ex" "night_wf s"
  shows "\<exists>s'. f = Parsed s' \<and> ns_deadline s' = ns_deadline s \<and> dt_us (ns_now s) \<le> dt_us (ns_now s') \<and>
    map fst (ns_programs s') = map fst (ns_programs s) \<and>
    (\<forall>k p. dict_get (ns_programs s) k = Some p \<longrightarrow>
       (\<exists>p' finished. dict_get (ns_programs s') k = Some p' \<and>
          map work_core (np_pending p) = map work_core finished @ map work_core (np_pending p') \<and>
          np_completed p' = np_completed p @ map nw_work_id finished \<and>
          (np_exhausted p \<noteq> None \<longrightarrow> np_exhausted p' \<noteq> None))) \<and>
    total_completed s' + count_rows is_completion (ns_events s) =
      total_completed s + count_rows is_completion (ns_events s')"
proof -
  from night_history_reaches [OF assms(1,2)] have "night_reaches (Parsed s) f" by simp
  from night_reaches_le [OF this refl assms(3)] obtain s' where f: "f = Parsed s'" and le: "night_le s s'"
    by (auto simp: file_le_def)
  have "list_all2 (\<lambda>e e'. fst e' = fst e \<and> program_le (snd e) (snd e')) (ns_programs s) (ns_programs s')"
    using le by (simp add: night_le_def)
  then have "map fst (ns_programs s') = map fst (ns_programs s) \<and> (\<forall>k p. dict_get (ns_programs s) k = Some p \<longrightarrow>
      (\<exists>p'. dict_get (ns_programs s') k = Some p' \<and> program_le p p'))"
    by (induction rule: list_all2_induct) auto
  with f le show ?thesis unfolding night_le_def program_le_def by fastforce
qed

theorem night_conserves_work_witness:
  "\<exists>s'. snd (dispatch_round ex_executor (Parsed ex_night, ())) = (Parsed s', ()) \<and> ns_deadline s' = utc 28800000000"
proof -
  have "night_history ex_executor (Parsed ex_night, ()) (fst (snd (dispatch_round ex_executor (Parsed ex_night, ()))), ())"
    using night_history.round [OF night_history.start] by (metis (full_types) old.unit.exhaust prod.collapse)
  from night_conserves_work [OF this ex_executor_local ex_night_wf] ex_night_deadline show ?thesis
    by (metis (full_types) old.unit.exhaust prod.collapse)
qed

text \<open>
  A night that has begun to drain selects nothing any more, whatever happens afterwards.
\<close>

theorem night_drains_for_good:
  assumes "night_history ex (Parsed s, v) (f, v')" "uses_scheduler ex" "night_wf s" "ns_draining s"
  shows "night_select f = (Inr [], f)"
proof -
  from night_history_reaches [OF assms(1,2)] have "night_reaches (Parsed s) f" by simp
  from night_reaches_le [OF this refl assms(3)] assms(4) show ?thesis
    by (auto simp: file_le_def night_le_def night_select_def night_edit_def select_night_def)
qed

theorem night_drains_for_good_witness:
  "night_select (Parsed (ex_night\<lparr>ns_now := utc 28800000000, ns_draining := True\<rparr>)) =
     (Inr [], Parsed (ex_night\<lparr>ns_now := utc 28800000000, ns_draining := True\<rparr>))"
proof (rule night_drains_for_good [OF night_history.start ex_executor_local])
  have d: "ns_deadline ex_night = utc 28800000000" by (rule ex_night_deadline)
  have "aware (utc n)" for n by (simp add: utc_def aware_def)
  with ex_night_wf d show "night_wf (ex_night\<lparr>ns_now := utc 28800000000, ns_draining := True\<rparr>)"
    by (simp add: night_wf_def dt_le_def)
qed simp

section \<open>Rounds\<close>

text \<open>
  Selection is sound: each selected unit is the first pending one of a ready program with a lease, bound to
  the program's revision and lease, not in backoff, that fits before the deadline; and complete: it raises
  nothing, takes one unit of every such program, those served longest ago first.
\<close>

theorem night_selects_ready_work:
  assumes "night_wf s"
  shows "\<exists>ps s'. night_select (Parsed s) = (Inr (map (\<lambda>p. hd (np_pending p)) ps), Parsed s') \<and>
    sorted (map night_order ps) \<and> distinct (map np_program_id ps) \<and>
    (\<forall>p. p \<in> set ps \<longleftrightarrow> \<not> ns_draining s \<and> dict_get (ns_programs s) (np_program_id p) = Some p \<and>
       np_ready p \<and> np_lease_id p \<notin> {None, Some []} \<and> np_exhausted p = None \<and>
       (\<exists>w rest. np_pending p = w # rest \<and> none_or (nw_revision w) (Some (np_revision p)) \<and>
          none_or (nw_lease_id w) (np_lease_id p) \<and>
          dt_us (ns_now s) + nw_duration w * 1000000 \<le> dt_us (ns_deadline s)) \<and>
       (case np_backoff_until p of None \<Rightarrow> True | Some u \<Rightarrow> dt_le u (ns_now s)))"
proof -
  let ?ps = "map snd (night_chosen s)"
  have own: "np_program_id (snd e) = fst e" if "e \<in> set (night_chosen s)" for e
    using that night_chosen_mem [OF assms, of "fst e" "snd e"] night_wf_program [OF assms, of "fst e" "snd e"]
    by (simp add: program_wf_def)
  then have ids: "map np_program_id ?ps = map fst (night_chosen s)" by simp
  have mem: "p \<in> set ?ps \<longleftrightarrow> \<not> ns_draining s \<and> dict_get (ns_programs s) (np_program_id p) = Some p \<and> night_ready s p" for p
  proof
    assume "p \<in> set ?ps"
    then obtain k where k: "(k, p) \<in> set (night_chosen s)" by auto
    with own [OF k] night_chosen_mem [OF assms] show "\<not> ns_draining s \<and> dict_get (ns_programs s) (np_program_id p) = Some p \<and> night_ready s p"
      by simp
  next
    assume "\<not> ns_draining s \<and> dict_get (ns_programs s) (np_program_id p) = Some p \<and> night_ready s p"
    with night_chosen_mem [OF assms] have "(np_program_id p, p) \<in> set (night_chosen s)" by blast
    then show "p \<in> set ?ps" by force
  qed
  have "sorted (map night_order ?ps)"
    using sorted_sort_key [of "\<lambda>e. night_order (snd e)"] by (simp add: night_chosen_def comp_def)
  moreover have "distinct (map np_program_id ?ps)" unfolding ids by (rule night_chosen_keys [OF assms])
  moreover have "night_select (Parsed s) = (Inr (map (\<lambda>p. hd (np_pending p)) ?ps), Parsed (night_marked s))"
    by (simp add: night_select_chosen [OF assms] comp_def)
  moreover have "night_ready s p \<longleftrightarrow> np_ready p \<and> np_lease_id p \<notin> {None, Some []} \<and> np_exhausted p = None \<and>
       (\<exists>w rest. np_pending p = w # rest \<and> none_or (nw_revision w) (Some (np_revision p)) \<and>
          none_or (nw_lease_id w) (np_lease_id p) \<and>
          dt_us (ns_now s) + nw_duration w * 1000000 \<le> dt_us (ns_deadline s)) \<and>
       (case np_backoff_until p of None \<Rightarrow> True | Some u \<Rightarrow> dt_le u (ns_now s))" for p
    by (cases "np_pending p") (auto simp: night_ready_def)
  ultimately show ?thesis using mem by blast
qed

theorem night_selects_ready_work_witness:
  "\<exists>ws s'. night_select (Parsed ex_night) = (Inr ws, Parsed s') \<and> length ws = 2"
proof -
  have "night_select (Parsed ex_night) = (Inr [ex_work ''A'' ''A-1'', ex_work ''B'' ''B-1''], Parsed (night_marked ex_night))"
    unfolding night_select_chosen [OF ex_night_wf]
    by (simp add: night_chosen_def ex_night_def new_night_def ex_program_def night_ready_def ex_work_def none_or_def
        night_hours_def seconds_def utc_def dt_plus_def night_order_def)
  with night_selects_ready_work [OF ex_night_wf] show ?thesis by force
qed





section \<open>From the proxy's ledger to the scheduler\<close>

lemma digit_not_space: "is_digit c \<Longrightarrow> \<not> is_space c"
  by (auto simp: is_digit_def is_space_def)

lemma split_on_absent: "c \<notin> set s \<Longrightarrow> split_on c s = [s]"
  by (induction s) auto

lemma py_int_digits: "all_digits s \<Longrightarrow> py_int s = Inr (int (digits_value s))"
proof -
  assume s: "all_digits s"
  then have d: "s \<noteq> []" "\<forall>c \<in> set s. is_digit c" by (simp_all add: all_digits_def list_all_iff)
  have trim: "strip s = s"
  proof -
    have "dropWhile is_space xs = xs" if "\<forall>c \<in> set xs. is_digit c" for xs
      using that digit_not_space by (cases xs) auto
    then show ?thesis using d by (simp add: strip_def rstrip_of_def)
  qed
  have no: "\<not> is_digit (CHR ''-'')" "\<not> is_digit (CHR ''+'')" "\<not> is_digit (CHR ''_'')" by code_simp+
  obtain c cs where c: "s = c # cs" "is_digit c" using d by (cases s) auto
  with no have "c \<noteq> CHR ''-''" "c \<noteq> CHR ''+''" by auto
  with c(1) have sign: "\<not> startswith s ''-''" "\<not> startswith s ''+''" by simp_all
  have "CHR ''_'' \<notin> set s" using d(2) no(3) by blast
  then have "split_on (CHR ''_'') s = [s]" by (rule split_on_absent)
  with trim sign s show ?thesis by (simp add: py_int_def Let_def)
qed

text \<open>
  A target's 429 holds its program back: when the proxy settles such an answer, with a Retry-After of
  a positive number of seconds, as the only one in its ledger, the scheduler reads it there, sets the program's backoff
  to that many seconds from now, and does not select the program before.
\<close>

theorem proxy_retry_after_backs_off:
  assumes "settle_reply cp q rid (Replied 429 sent content) clock ledger = (Inr reply, (cp', ledger'))"
    and "dict_get (foldl (\<lambda>d (k, v). dict_set d k v) [] sent) ''Retry-After'' = Some after" "all_digits after" "0 < digits_value after"
    and "pw_request_id row = rid" "ledger = rows @ row # later"
    and "\<forall>r \<in> set rows \<union> set later. pw_request_id r \<noteq> rid \<and> (pw_status r \<noteq> Some 429 \<or> pw_state r \<noteq> ''response_received'')"
    and "dict_get (ns_programs s) pid = Some p" "night_wf s"
  shows "\<exists>s'. night_proxy_backoff pid ledger' (Parsed s) =
      (Inr (dt_plus (ns_now s) (seconds (int (digits_value after)))), Parsed s') \<and>
    (\<exists>p'. dict_get (ns_programs s') pid = Some p' \<and>
       (\<forall>now. dt_us now < dt_us (ns_now s) + int (digits_value after) * 1000000 \<longrightarrow> \<not> night_ready (s'\<lparr>ns_now := now\<rparr>) p'))"
proof -
  let ?headers = "foldl (\<lambda>d (k, v). dict_set d k v) [] sent"
  have hd: "dict_get (dict_set (dict_set ?headers PROVENANCE_HEADER ''target'') SYNTHETIC_HEADER ''false'') ''Retry-After'' = Some after"
    using assms(2) by (simp add: PROVENANCE_HEADER_def SYNTHETIC_HEADER_def)
  have "foreign_redirect c t 429 h \<in> {Inr None}" for c t h
    by (auto simp: foreign_redirect_def split: option.splits)
  then have l: "ledger' = proxy_finish rid ''response_received'' (Some 429) (int (length (pq_body q)))
      (int (length (take response_limit content))) (''retry_after_seconds='' @ after) clock ledger"
    using assms(1,3) hd by (auto simp: Let_def retry_detail_def)
  have others: "filter (\<lambda>r. pw_status r = Some 429 \<and> pw_state r = ''response_received'') (map f rs) = []"
    if "\<forall>r \<in> set rs. pw_request_id r \<noteq> rid \<and> (pw_status r \<noteq> Some 429 \<or> pw_state r \<noteq> ''response_received'')"
      "\<forall>r. pw_request_id r \<noteq> rid \<longrightarrow> f r = r" for rs and f :: "proxy_row \<Rightarrow> proxy_row"
    using that by (auto simp: filter_empty_conv)
  have rows: "map pw_detail (filter (\<lambda>r. pw_status r = Some 429 \<and> pw_state r = ''response_received'') ledger') =
      [''retry_after_seconds='' @ after]"
    unfolding l proxy_finish_def assms(6) using assms(5,7) by (simp add: others)
  have "removeprefix (''retry_after_seconds='' @ after) ''retry_after_seconds='' = after" by (simp add: removeprefix_def)
  moreover have "startswith (''retry_after_seconds='' @ after) ''retry_after_seconds=''" by (rule startswith_append)
  ultimately have "night_proxy_backoff pid ledger' (Parsed s) = night_rate_limit pid (int (digits_value after)) (Parsed s)"
    unfolding night_proxy_backoff_def rows Let_def by (simp add: py_int_digits [OF assms(3)] del: startswith.simps)
  also have "\<dots> = (Inr (dt_plus (ns_now s) (seconds (int (digits_value after)))),
      Parsed (night_note (Http429 pid (isoformat (dt_plus (ns_now s) (seconds (int (digits_value after))))))
        (put_program pid (p\<lparr>np_backoff_until := Some (dt_plus (ns_now s) (seconds (int (digits_value after))))\<rparr>) s)))"
    using assms(4,8) by (simp add: night_rate_limit_def night_edit_def rate_limit_night_def night_program_of_def Let_def)
  finally show ?thesis by (simp add: put_program_def night_ready_def dt_le_def seconds_def)
qed

theorem proxy_retry_after_backs_off_witness:
  "\<exists>ledger' s'. night_proxy_backoff ''A'' ledger' (Parsed ex_night) = (Inr (utc 30000000), Parsed s')"
proof -
  let ?sent = "[(''Retry-After'', nat_str 30)]" and ?row = "ex_open ''r1''" and ?s = ex_night
  obtain reply cp' l' where r: "settle_reply (ex_proxy 1 0 0) ex_proxy_request ''r1'' (Replied 429 ?sent []) (utc 1) [?row] =
      (Inr reply, (cp', l'))"
    by (simp add: foreign_redirect_def PROVENANCE_HEADER_def SYNTHETIC_HEADER_def Let_def)
  have h: "dict_get (foldl (\<lambda>d (k, v). dict_set d k v) [] ?sent) ''Retry-After'' = Some (nat_str 30)" by simp
  have d: "all_digits (nat_str 30)" "0 < digits_value (nat_str 30)"
    by (simp_all only: all_digits_def nat_str_digits nat_str_nonempty digits_value_nat_str) simp_all
  have i: "pw_request_id ?row = ''r1''" by (simp add: ex_open_def)
  have p: "dict_get (ns_programs ?s) ''A'' = Some (ex_program ''A'' [''A-1''] True)"
    by (simp add: ex_night_def new_night_def ex_program_def)
  have t: "dt_plus (ns_now ?s) (seconds (int (digits_value (nat_str 30)))) = utc 30000000"
    by (simp only: ex_night_deadline digits_value_nat_str) (simp add: dt_plus_def seconds_def utc_def)
  from proxy_retry_after_backs_off [OF r h d i _ _ p ex_night_wf, of "[]" "[]"] t show ?thesis by auto
qed

end
