(* ===== verification/PermitBroker.thy ===== *)
theory PermitBroker
  imports Planner Lifecycle
begin

text \<open>
  The way of a queued action to a worker: \<open>src/astp/permit_broker.py\<close> authorizes a queue item again
  and issues a permit for exactly that action, \<open>src/astp/permit_consumption_proof.py\<close> checks the
  bindings of a worker's request, consumes the permit once and hands out a proof, and
  \<open>src/astp/worker_protocol.py\<close> is the request and its allow list. The interpretation at the end says
  that handing out proofs is a single-use ledger of permits.
\<close>

section \<open>The broker\<close>

text \<open>The keyword arguments of \<open>broker_queue_item_permit\<close>.\<close>

record broker_args =
  ba_key_id :: string
  ba_ttl :: int
  ba_attestation :: "attestation option"
  ba_lease :: "lease option"
  ba_lease_store :: "store_file option"
  ba_clears :: "string set option"
  ba_rps :: "rat option"
  ba_now :: "datetime option"

definition default_broker_args :: broker_args where
  "default_broker_args =
     \<lparr>ba_key_id = ''local-v1'', ba_ttl = 120, ba_attestation = None, ba_lease = None, ba_lease_store = None,
      ba_clears = None, ba_rps = None, ba_now = None\<rparr>"

record broker_receipt =
  br_queue_id :: string
  br_engagement_id :: string
  br_test_id :: string
  br_target :: string
  br_permit :: signed_permit
  br_issued_at :: datetime

text \<open>The clearances an item is brokered with: those of its own review, which an argument may not override.\<close>

definition broker_clears :: "work_item \<Rightarrow> string set option \<Rightarrow> string set result" where
  "broker_clears item supplied =
     (if wi_review_bound item
      then if supplied \<noteq> None \<and> supplied \<noteq> Some (wi_clears item)
           then value_error ''semantic exclusion clearance override does not match the queue-bound review''
           else Inr (wi_clears item)
      else Inr (or_else supplied {}))"

definition broker_request :: "work_item \<Rightarrow> broker_args \<Rightarrow> string set \<Rightarrow> datetime \<Rightarrow> auth_request" where
  "broker_request item args clears current =
     \<lparr>rq_target = wi_target item, rq_available_context = {}, rq_approvals = [],
      rq_http_method = Some (wi_method item), rq_identity = None, rq_rps = ba_rps args,
      rq_excl_clears = clears, rq_excl_matches = {}, rq_attestation = ba_attestation args,
      rq_lease = ba_lease args, rq_lease_store = ba_lease_store args, rq_now = Some current\<rparr>"

definition broker_refusal :: "auth_result \<Rightarrow> message" where
  "broker_refusal r =
     (let details = join_messages (map chk_message (filter (\<lambda>c. chk_status c \<in> {REVIEW, FAIL}) (ar_checks r)))
      in [Txt ''permit broker re-authorization did not return ALLOW: '', Txt (decision_value (ar_decision r))]
         @ (if details = [] then [] else [Txt '' (''] @ details @ [Txt '')'']))"

definition broker_queue_item_permit ::
  "work_item \<Rightarrow> engagement \<Rightarrow> test_definition \<Rightarrow> string \<Rightarrow> broker_args \<Rightarrow> string \<Rightarrow> datetime \<Rightarrow> broker_receipt result" where
  "broker_queue_item_permit item eng test key args uuid clock =
     rbind (require (wi_engagement_id item = eng_id eng) [Txt ''queue item belongs to a different engagement'']) (\<lambda>_.
     rbind (require (wi_test_id item = test_id test) [Txt ''queue item belongs to a different test'']) (\<lambda>_.
     rbind (require (wi_requires_new_permit item) [Txt ''queue item does not require a new permit'']) (\<lambda>_.
     rbind (broker_clears item (ba_clears args)) (\<lambda>clears.
     let current = or_else (ba_now args) clock in
     rbind (mk_auth_request (broker_request item args clears current)) (\<lambda>request.
     rbind (authorize_test eng test request clock) (\<lambda>auth.
     rbind (require (ar_decision auth = ALLOW) (broker_refusal auth)) (\<lambda>_.
     rbind (issue_execution_permit eng test request key (ba_ttl args) ''astp-policy-engine'' (ba_key_id args)
              (Some current) uuid clock) (\<lambda>permit.
     rbind (require (pp_target (sp_payload permit) = wi_target item \<and>
                     pp_http_method (sp_payload permit) = Some (str_upper (wi_method item)))
              [Txt ''issued permit is not bound to the exact queue action'']) (\<lambda>_.
       Inr \<lparr>br_queue_id = wi_queue_id item, br_engagement_id = eng_id eng, br_test_id = test_id test,
            br_target = wi_target item, br_permit = permit, br_issued_at = current\<rparr>)))))))))"

section \<open>The worker protocol\<close>

datatype worker_operation =
    BROWSER_NAVIGATE
  | BROWSER_DOM_SNAPSHOT
  | BROWSER_SCREENSHOT
  | NMAP_DISCOVERY
  | NUCLEI_SAFE
  | ZAP_BASELINE

record worker_request =
  wq_request_id :: string
  wq_permit_id :: string
  wq_action_id :: string
  wq_engagement_id :: string
  wq_operation :: worker_operation
  wq_target :: string
  wq_timeout :: rat
  wq_max_output :: int
  wq_arguments :: "string list"

definition mk_worker_request :: "worker_request \<Rightarrow> worker_request result" where
  "mk_worker_request q =
     rbind (require (0 < wq_timeout q \<and> wq_timeout q \<le> 300) [Txt ''timeout_seconds out of range'']) (\<lambda>_.
     rbind (require (1024 \<le> wq_max_output q \<and> wq_max_output q \<le> 16777216) [Txt ''max_output_bytes out of range'']) (\<lambda>_.
       Inr q))"

fun allowed_arguments :: "worker_operation \<Rightarrow> string list" where
  "allowed_arguments BROWSER_NAVIGATE = []"
| "allowed_arguments BROWSER_DOM_SNAPSHOT = []"
| "allowed_arguments BROWSER_SCREENSHOT = []"
| "allowed_arguments NMAP_DISCOVERY = [''tcp-connect-bounded'', ''service-detection-bounded'']"
| "allowed_arguments NUCLEI_SAFE = [''info'', ''low-impact'']"
| "allowed_arguments ZAP_BASELINE = [''passive-baseline'']"

definition validate_worker_request :: "worker_request \<Rightarrow> string list" where
  "validate_worker_request q =
     (if strip (wq_permit_id q) = [] \<or> strip (wq_action_id q) = []
      then [''worker request requires permit and action bindings''] else []) @
     (if \<not> list_all (\<lambda>a. a \<in> set (allowed_arguments (wq_operation q))) (wq_arguments q)
      then [''worker request contains a non-allowlisted argument''] else [])"

section \<open>Compiled commands\<close>

text \<open>
  \<open>src/astp/worker_command.py\<close>: the only command lines a worker runs. The target is the last word of the
  command or the value of its first option; no argument of the request is copied into it.
\<close>

record worker_command =
  wc_executable :: string
  wc_argv :: "string list"
  wc_target :: string

definition host_from_target :: "string \<Rightarrow> string result" where
  "host_from_target target =
     rbind (urlsplit (if contains target ''://'' then target else ''//'' @ target)) (\<lambda>u.
       case url_hostname u of
         None \<Rightarrow> value_error ''worker target must resolve to a hostname''
       | Some h \<Rightarrow> Inr h)"

definition url_target :: "string \<Rightarrow> string result" where
  "url_target target =
     rbind (urlsplit target) (\<lambda>u.
       if url_scheme u \<notin> {''http'', ''https''} \<or> url_hostname u = None \<or> url_hostname u = Some []
       then value_error ''HTTP tool target must be an absolute http(s) URL'' else Inr target)"

definition first_argument :: "worker_request \<Rightarrow> string \<Rightarrow> string" where
  "first_argument q d = (case wq_arguments q of [] \<Rightarrow> d | a # _ \<Rightarrow> a)"

fun nmap_argv :: "string \<Rightarrow> string \<Rightarrow> string list result" where
  "nmap_argv mode host =
     (if mode = ''tcp-connect-bounded''
      then Inr [''-sT'', ''-Pn'', ''--max-retries'', ''1'', ''--host-timeout'', ''30s'', host]
      else if mode = ''service-detection-bounded''
      then Inr [''-sT'', ''-sV'', ''--version-light'', ''-Pn'', ''--max-retries'', ''1'', ''--host-timeout'', ''30s'', host]
      else value_error ''unsupported bounded Nmap mode'')"

definition compile_worker_command :: "worker_request \<Rightarrow> worker_command result" where
  "compile_worker_command q =
     (let blockers = validate_worker_request q in
      if blockers \<noteq> [] then Inl (ValueError [Txt (join ''; '' blockers)])
      else case wq_operation q of
        NMAP_DISCOVERY \<Rightarrow>
          rbind (host_from_target (wq_target q)) (\<lambda>host.
          rbind (nmap_argv (first_argument q ''tcp-connect-bounded'') host) (\<lambda>argv.
            Inr \<lparr>wc_executable = ''nmap'', wc_argv = argv, wc_target = host\<rparr>))
      | NUCLEI_SAFE \<Rightarrow>
          rbind (url_target (wq_target q)) (\<lambda>target.
            Inr \<lparr>wc_executable = ''nuclei'',
                 wc_argv = [''-u'', target, ''-severity'',
                   (if first_argument q ''info'' = ''info'' then ''info'' else ''info,low''), ''-jsonl'', ''-silent''],
                 wc_target = target\<rparr>)
      | ZAP_BASELINE \<Rightarrow>
          rbind (url_target (wq_target q)) (\<lambda>target.
            Inr \<lparr>wc_executable = ''zap-baseline.py'',
                 wc_argv = [''-t'', target, ''-J'', ''/tmp/astp-zap-report.json'', ''-I''], wc_target = target\<rparr>)
      | _ \<Rightarrow> value_error ''browser operations are not subprocess tool commands'')"

section \<open>Consumption with a proof\<close>

record consumption_proof =
  pf_permit_id :: string
  pf_engagement_id :: string
  pf_test_id :: string
  pf_target :: string
  pf_action_id :: string
  pf_consumed_at :: datetime
  pf_signature_sha256 :: string
  pf_status :: lifecycle_status

definition proof_json :: "consumption_proof \<Rightarrow> json" where
  "proof_json p = JObj
     [(''permit_id'', JStr (pf_permit_id p)), (''engagement_id'', JStr (pf_engagement_id p)),
      (''test_id'', JStr (pf_test_id p)), (''target'', JStr (pf_target p)), (''action_id'', JStr (pf_action_id p)),
      (''consumed_at'', JStr (json_datetime (pf_consumed_at p))),
      (''permit_signature_sha256'', JStr (pf_signature_sha256 p)),
      (''lifecycle_status'', JStr (lifecycle_value (pf_status p)))]"

definition binding_hash :: "consumption_proof \<Rightarrow> string" where
  "binding_hash p = sha256_hex (canonical_json (proof_json p))"

text \<open>The arguments of \<open>consume_worker_request_permit\<close> other than the state file.\<close>

record worker_call =
  wk_permit :: signed_permit
  wk_request :: worker_request
  wk_engagement :: engagement
  wk_test :: test_definition
  wk_keys :: keys
  wk_now :: "datetime option"
  wk_clock :: datetime

definition wk_bindings :: "worker_call \<Rightarrow> unit result" where
  "wk_bindings c =
     (let p = sp_payload (wk_permit c); q = wk_request c; eng = wk_engagement c in
      rbind (require (pp_engagement_id p = eng_id eng) [Txt ''permit engagement does not match the active engagement'']) (\<lambda>_.
      rbind (require (pp_test_id p = test_id (wk_test c)) [Txt ''permit test does not match the active test'']) (\<lambda>_.
      rbind (require (wq_engagement_id q = eng_id eng)
               [Txt ''worker request engagement does not match the active engagement'']) (\<lambda>_.
      rbind (require (wq_permit_id q = pp_permit_id p)
               [Txt ''worker request permit_id does not match the signed permit'']) (\<lambda>_.
      rbind (require (wq_target q = pp_target p) [Txt ''worker request target does not match the signed permit'']) (\<lambda>_.
        require (strip (wq_action_id q) \<noteq> []) [Txt ''worker request action_id is required'']))))))"

definition wk_current :: "worker_call \<Rightarrow> datetime" where
  "wk_current c = or_else (wk_now c) (wk_clock c)"

definition wk_consume :: "worker_call \<Rightarrow> consume_call" where
  "wk_consume c =
     (let p = sp_payload (wk_permit c) in
      \<lparr>cc_permit = wk_permit c, cc_engagement = wk_engagement c, cc_test = wk_test c,
       cc_request = \<lparr>vq_target = wq_target (wk_request c), vq_http_method = pp_http_method p,
         vq_identity = pp_identity p, vq_rps = Some (pp_max_rps p), vq_now = Some (wk_current c)\<rparr>,
       cc_keys = wk_keys c, cc_clock = wk_clock c\<rparr>)"

definition consumption_proof_of :: "worker_call \<Rightarrow> consumption_proof" where
  "consumption_proof_of c =
     (let p = sp_payload (wk_permit c) in
      \<lparr>pf_permit_id = pp_permit_id p, pf_engagement_id = eng_id (wk_engagement c), pf_test_id = test_id (wk_test c),
       pf_target = wq_target (wk_request c), pf_action_id = wq_action_id (wk_request c),
       pf_consumed_at = wk_current c, pf_signature_sha256 = sha256_hex (sp_signature (wk_permit c)),
       pf_status = CONSUMED\<rparr>)"

definition consume_worker_request_permit :: "worker_call \<Rightarrow> state_file \<Rightarrow> (state_file, consumption_proof) outcome" where
  "consume_worker_request_permit c f =
     obind (wk_bindings c, f) (\<lambda>_ f.
     obind (consume_execution_permit (wk_consume c) f) (\<lambda>r f.
       (if \<not> cr_accepted r \<or> cr_status r \<noteq> CONSUMED
        then Inl (ValueError (Txt ''permit consumption failed: '' # cr_message r))
        else Inr (consumption_proof_of c), f)))"

section \<open>Lemmas of the component\<close>

lemma broker_queue_item_permitD:
  assumes "broker_queue_item_permit item eng test key args uuid clock = Inr r"
  obtains clears auth where "broker_clears item (ba_clears args) = Inr clears"
    "wi_engagement_id item = eng_id eng" "wi_test_id item = test_id test" "wi_requires_new_permit item"
    "authorize_test eng test (broker_request item args clears (or_else (ba_now args) clock)) clock = Inr auth"
    "ar_decision auth = ALLOW"
    "issue_execution_permit eng test (broker_request item args clears (or_else (ba_now args) clock)) key (ba_ttl args)
       ''astp-policy-engine'' (ba_key_id args) (Some (or_else (ba_now args) clock)) uuid clock = Inr (br_permit r)"
    "pp_target (sp_payload (br_permit r)) = wi_target item"
    "pp_http_method (sp_payload (br_permit r)) = Some (str_upper (wi_method item))"
    "br_queue_id r = wi_queue_id item" "br_target r = wi_target item"
  using assms
  by (auto simp: broker_queue_item_permit_def mk_auth_request_def Let_def result_simps)

lemma wk_bindings_Inr:
  "wk_bindings c = Inr u \<longleftrightarrow>
     pp_engagement_id (sp_payload (wk_permit c)) = eng_id (wk_engagement c) \<and>
     pp_test_id (sp_payload (wk_permit c)) = test_id (wk_test c) \<and>
     wq_engagement_id (wk_request c) = eng_id (wk_engagement c) \<and>
     wq_permit_id (wk_request c) = pp_permit_id (sp_payload (wk_permit c)) \<and>
     wq_target (wk_request c) = pp_target (sp_payload (wk_permit c)) \<and> strip (wq_action_id (wk_request c)) \<noteq> []"
  by (auto simp: wk_bindings_def Let_def result_simps)

lemma wk_consume_id: "cc_permit_id (wk_consume c) = pp_permit_id (sp_payload (wk_permit c))"
  by (simp add: cc_permit_id_def wk_consume_def Let_def)

text \<open>A proof is handed out exactly when the bindings hold and the permit was consumed for this call.\<close>

lemma consume_worker_Inr:
  "consume_worker_request_permit c f = (Inr p, f') \<longleftrightarrow>
     wk_bindings c = Inr () \<and> p = consumption_proof_of c \<and>
     (\<exists>r. consume_execution_permit (wk_consume c) f = (Inr r, f') \<and> cr_accepted r)"
proof -
  have "cr_accepted r \<Longrightarrow> cr_status r = CONSUMED" if "consume_execution_permit (wk_consume c) f = (Inr r, f')" for r
    using consume_execution_permitD [OF that] by blast
  then show ?thesis
    unfolding consume_worker_request_permit_def
    by (cases "wk_bindings c"; cases "consume_execution_permit (wk_consume c) f"; cases "fst (consume_execution_permit (wk_consume c) f)")
      (auto split: if_splits)
qed

lemma consume_worker_Inl: "consume_worker_request_permit c f = (Inl e, f') \<Longrightarrow> f' = f"
  using consume_execution_permit_refused [of "wk_consume c" f]
  unfolding consume_worker_request_permit_def
  by (cases "wk_bindings c"; cases "consume_execution_permit (wk_consume c) f"; cases "fst (consume_execution_permit (wk_consume c) f)")
    (auto simp: admitted_Returned split: if_splits dest!: consume_execution_permitD)

section \<open>Handing out proofs is a ledger\<close>

definition worker_consume :: "worker_call \<Rightarrow> state_file \<Rightarrow> bool \<times> state_file" where
  "worker_consume c f =
     (case consume_worker_request_permit c f of (Inl _, f') \<Rightarrow> (False, f') | (Inr _, f') \<Rightarrow> (True, f'))"

definition wk_permit_id :: "worker_call \<Rightarrow> string" where
  "wk_permit_id c = pp_permit_id (sp_payload (wk_permit c))"

lemma worker_consume_True: "worker_consume c f = (True, f') \<Longrightarrow> file_consume (wk_consume c) f = (True, f')"
  by (auto simp: worker_consume_def file_consume_def consume_worker_Inr admitted_Returned split: prod.splits sum.splits)

lemma worker_consume_False: "worker_consume c f = (False, f') \<Longrightarrow> f' = f"
  using consume_worker_Inl by (auto simp: worker_consume_def split: prod.splits sum.splits)

interpretation worker_ledger: permit_ledger file_status worker_consume file_revoke wk_permit_id rv_permit_id
proof (unfold_locales, goal_cases)
  case (1 c f f')
  from file_ledger.consume_accepted [OF worker_consume_True [OF 1]] show ?case
    by (simp add: wk_consume_id wk_permit_id_def)
next
  case (2 c f ok f' p)
  then show ?case
    using worker_consume_False file_ledger.consume_frame [OF worker_consume_True, of c f f' p]
    by (cases ok) (auto simp: wk_consume_id wk_permit_id_def)
next
  case (3 b f f')
  then show ?case by (rule file_ledger.revoke_accepted)
next
  case (4 b f ok f' p)
  then show ?case by (rule file_ledger.revoke_frame)
qed

end
