(* ===== verification/CapabilityGrants.thy ===== *)
theory CapabilityGrants
  imports PermitBroker
begin

text \<open>
  \<open>src/astp/capability_action.py\<close> and \<open>src/astp/capability_grant.py\<close>: one exact network action with its
  digest, and the grant a verified permit is turned into for it. Grants are signed like permits, under a key
  or a key ring.
\<close>

section \<open>Actions\<close>

datatype capability_operation = DNS_A | DNS_AAAA | DNS_CNAME | TLS_HANDSHAKE | HTTP_GET | HTTP_HEAD

fun operation_value :: "capability_operation \<Rightarrow> string" where
  "operation_value DNS_A = ''dns.a''"
| "operation_value DNS_AAAA = ''dns.aaaa''"
| "operation_value DNS_CNAME = ''dns.cname''"
| "operation_value TLS_HANDSHAKE = ''tls.handshake''"
| "operation_value HTTP_GET = ''http.get''"
| "operation_value HTTP_HEAD = ''http.head''"

record capability_action =
  ca_capability_id :: string
  ca_operation :: capability_operation
  ca_target :: string
  ca_port :: "int option"
  ca_identity :: "string option"
  ca_metadata :: "(string \<times> string) list"

definition mk_capability_action :: "capability_action \<Rightarrow> capability_action result" where
  "mk_capability_action a =
     rbind (require (strip (ca_target a) \<noteq> []) [Txt ''capability action target must not be empty'']) (\<lambda>_.
     rbind (require (case ca_port a of None \<Rightarrow> True | Some p \<Rightarrow> 1 \<le> p \<and> p \<le> 65535) [Txt ''port out of range'']) (\<lambda>_.
       Inr (a\<lparr>ca_target := strip (ca_target a)\<rparr>)))"

definition capability_json :: "capability_action \<Rightarrow> json" where
  "capability_json a = JObj
     [(''capability_id'', JStr (ca_capability_id a)), (''operation'', JStr (operation_value (ca_operation a))),
      (''target'', JStr (ca_target a)), (''port'', json_opt json_int (ca_port a)),
      (''identity'', json_opt JStr (ca_identity a)),
      (''metadata'', JObj (map (\<lambda>(k, v). (k, JStr v)) (ca_metadata a)))]"

definition capability_action_id :: "capability_action \<Rightarrow> string" where
  "capability_action_id a = sha256_hex (canonical_json (capability_json a))"

text \<open>\<open>operation.value.split(".", 1)[1].upper()\<close> of the operations that start with \<open>http.\<close>.\<close>

definition operation_method :: "capability_operation \<Rightarrow> string option" where
  "operation_method op =
     (if startswith (operation_value op) ''http.''
      then Some (str_upper (snd (snd (partition_at (CHR ''.'') (operation_value op))))) else None)"

section \<open>Grants\<close>

record grant_payload =
  gp_schema_version :: string
  gp_permit_id :: string
  gp_key_id :: "string option"
  gp_engagement_id :: string
  gp_test_id :: string
  gp_action_id :: string
  gp_capability_id :: string
  gp_operation :: string
  gp_target :: string
  gp_port :: "int option"
  gp_issued_at :: datetime
  gp_expires_at :: datetime

record signed_grant =
  sg_algorithm :: string
  sg_payload :: grant_payload
  sg_signature :: string

definition mk_grant_payload :: "grant_payload \<Rightarrow> grant_payload result" where
  "mk_grant_payload p =
     rbind (require (aware (gp_issued_at p) \<and> aware (gp_expires_at p)) [Txt ''grant timestamps must include a timezone''])
       (\<lambda>_. Inr p)"

definition grant_json :: "grant_payload \<Rightarrow> json" where
  "grant_json p = JObj
     [(''schema_version'', JStr (gp_schema_version p)), (''permit_id'', JStr (gp_permit_id p)),
      (''key_id'', json_opt JStr (gp_key_id p)), (''engagement_id'', JStr (gp_engagement_id p)),
      (''test_id'', JStr (gp_test_id p)), (''action_id'', JStr (gp_action_id p)),
      (''capability_id'', JStr (gp_capability_id p)), (''operation'', JStr (gp_operation p)),
      (''target'', JStr (gp_target p)), (''port'', json_opt json_int (gp_port p)),
      (''issued_at'', JStr (json_datetime (gp_issued_at p))), (''expires_at'', JStr (json_datetime (gp_expires_at p)))]"

text \<open>The key of a ring under the key id, or its only key.\<close>

definition grant_key :: "keys \<Rightarrow> string option \<Rightarrow> string result" where
  "grant_key ks key_id =
     rbind (case ks of
              SingleKey k \<Rightarrow> Inr k
            | KeyRing ring \<Rightarrow>
                (case (case key_id of None \<Rightarrow> None | Some i \<Rightarrow> dict_get ring i) of
                   Some k \<Rightarrow> Inr k
                 | None \<Rightarrow>
                     (case ring of
                        [(_, k)] \<Rightarrow> Inr k
                      | _ \<Rightarrow> value_error ''no signing key is available for capability grant key_id''))) (\<lambda>k.
     rbind (require (\<not> length k < 32) [Txt ''capability grant signing key must contain at least 32 bytes'']) (\<lambda>_. Inr k))"

definition grant_signature :: "grant_payload \<Rightarrow> string \<Rightarrow> string" where
  "grant_signature p key = hmac_sha256_hex key (canonical_json (grant_json p))"

definition issue_capability_grant ::
  "signed_permit \<Rightarrow> capability_action \<Rightarrow> engagement \<Rightarrow> test_definition \<Rightarrow> keys \<Rightarrow> datetime option \<Rightarrow> datetime \<Rightarrow>
   signed_grant result" where
  "issue_capability_grant permit a eng test ks now clock =
     (let current = or_else now clock; p = sp_payload permit in
      rbind (verify_execution_permit permit eng test
               \<lparr>vq_target = ca_target a, vq_http_method = operation_method (ca_operation a),
                vq_identity = ca_identity a, vq_rps = None, vq_now = Some current\<rparr> ks clock) (\<lambda>v.
      rbind (require (vr_valid v) [Txt ''underlying execution permit failed verification'']) (\<lambda>_.
      rbind (require (ca_target a = pp_target p)
               [Txt ''capability action target must exactly match the execution permit'']) (\<lambda>_.
      rbind (case operation_method (ca_operation a) of
               Some m \<Rightarrow> require (pp_http_method p = Some m)
                 [Txt ''HTTP capability operation does not match permit method binding'']
             | None \<Rightarrow> require (pp_http_method p = None)
                 [Txt ''non-HTTP capability actions require a permit without http_method'']) (\<lambda>_.
      rbind (mk_grant_payload
               \<lparr>gp_schema_version = ''1'', gp_permit_id = pp_permit_id p, gp_key_id = pp_key_id p,
                gp_engagement_id = pp_engagement_id p, gp_test_id = pp_test_id p,
                gp_action_id = capability_action_id a, gp_capability_id = ca_capability_id a,
                gp_operation = operation_value (ca_operation a), gp_target = ca_target a, gp_port = ca_port a,
                gp_issued_at = current, gp_expires_at = pp_expires_at p\<rparr>) (\<lambda>payload.
      rbind (grant_key ks (gp_key_id payload)) (\<lambda>key.
        Inr \<lparr>sg_algorithm = ''hmac-sha256'', sg_payload = payload, sg_signature = grant_signature payload key\<rparr>)))))))"

text \<open>Only an error of the key selection is turned into a refusal.\<close>

definition verify_capability_grant ::
  "signed_grant \<Rightarrow> signed_permit \<Rightarrow> capability_action \<Rightarrow> keys \<Rightarrow> datetime option \<Rightarrow> datetime \<Rightarrow> bool \<times> message" where
  "verify_capability_grant g permit a ks now clock =
     (let current = or_else now clock; p = sg_payload g in
      if gp_permit_id p \<noteq> pp_permit_id (sp_payload permit) then
        (False, [Txt ''grant is bound to a different execution permit''])
      else if dt_less current (gp_issued_at p) \<or> dt_le (gp_expires_at p) current then
        (False, [Txt ''capability grant is outside its validity window''])
      else if \<not> dt_same (gp_expires_at p) (pp_expires_at (sp_payload permit)) then
        (False, [Txt ''grant expiry does not match the underlying permit''])
      else if gp_action_id p \<noteq> capability_action_id a then
        (False, [Txt ''grant action_id does not match the exact requested action''])
      else if gp_capability_id p \<noteq> ca_capability_id a then
        (False, [Txt ''grant capability binding mismatch''])
      else if gp_operation p \<noteq> operation_value (ca_operation a) then
        (False, [Txt ''grant operation binding mismatch''])
      else if gp_target p \<noteq> ca_target a \<or> gp_port p \<noteq> ca_port a then
        (False, [Txt ''grant target binding mismatch''])
      else
        (case grant_key ks (gp_key_id p) of
           Inl e \<Rightarrow> (False, error_text e)
         | Inr key \<Rightarrow>
             if sg_signature g \<noteq> grant_signature p key then (False, [Txt ''capability grant signature is invalid''])
             else (True, [Txt ''capability grant is valid for this exact action''])))"

section \<open>Lemmas of the component\<close>

lemma verify_grant_True:
  "fst (verify_capability_grant g permit a ks now clock) \<longleftrightarrow>
     (let p = sg_payload g; current = or_else now clock in
      gp_permit_id p = pp_permit_id (sp_payload permit) \<and> dt_us (gp_issued_at p) \<le> dt_us current \<and>
      dt_us current < dt_us (gp_expires_at p) \<and> dt_us (gp_expires_at p) = dt_us (pp_expires_at (sp_payload permit)) \<and>
      gp_action_id p = capability_action_id a \<and> gp_capability_id p = ca_capability_id a \<and>
      gp_operation p = operation_value (ca_operation a) \<and> gp_target p = ca_target a \<and> gp_port p = ca_port a \<and>
      (\<exists>key. grant_key ks (gp_key_id p) = Inr key \<and> sg_signature g = grant_signature p key))"
  by (auto simp: verify_capability_grant_def Let_def time_simps split: sum.splits)

lemma issue_capability_grantD:
  assumes "issue_capability_grant permit a eng test ks now clock = Inr g"
  obtains v key where "verify_execution_permit permit eng test
      \<lparr>vq_target = ca_target a, vq_http_method = operation_method (ca_operation a), vq_identity = ca_identity a,
       vq_rps = None, vq_now = Some (or_else now clock)\<rparr> ks clock = Inr v" "vr_valid v"
    "ca_target a = pp_target (sp_payload permit)" "operation_method (ca_operation a) = pp_http_method (sp_payload permit)"
    "sg_payload g =
       \<lparr>gp_schema_version = ''1'', gp_permit_id = pp_permit_id (sp_payload permit), gp_key_id = pp_key_id (sp_payload permit),
        gp_engagement_id = pp_engagement_id (sp_payload permit), gp_test_id = pp_test_id (sp_payload permit),
        gp_action_id = capability_action_id a, gp_capability_id = ca_capability_id a,
        gp_operation = operation_value (ca_operation a), gp_target = ca_target a, gp_port = ca_port a,
        gp_issued_at = or_else now clock, gp_expires_at = pp_expires_at (sp_payload permit)\<rparr>"
    "grant_key ks (gp_key_id (sg_payload g)) = Inr key" "sg_signature g = grant_signature (sg_payload g) key"
proof -
  let ?m = "operation_method (ca_operation a)"
  have m: "(case ?m of Some m \<Rightarrow> require (pp_http_method (sp_payload permit) = Some m) e | None \<Rightarrow> require (pp_http_method (sp_payload permit) = None) e') = Inr u
      \<longleftrightarrow> ?m = pp_http_method (sp_payload permit)" for e e' u
    by (auto simp: require_def split: option.splits)
  from assms show thesis
    unfolding issue_capability_grant_def Let_def mk_grant_payload_def rbind_Inr_iff require_Inr_iff m
    by clarify (rule that, assumption, assumption, simp_all)
qed

section \<open>The digest of an action\<close>

lemma operation_value_inj [simp]: "operation_value a = operation_value b \<longleftrightarrow> a = b"
  by (cases a; cases b) simp_all

lemma json_opt_int [simp]:
  "json_wf (json_opt json_int x)" "sort_keys (json_opt json_int x) = json_opt json_int x"
  "json_opt json_int x = json_opt json_int y \<longleftrightarrow> x = y"
proof -
  have n: "json_int n \<noteq> JNull" for n by (simp add: json_int_def)
  show "json_wf (json_opt json_int x)" "sort_keys (json_opt json_int x) = json_opt json_int x"
    by (cases x; simp add: json_opt_def)+
  show "json_opt json_int x = json_opt json_int y \<longleftrightarrow> x = y"
    using n n [symmetric] by (cases x; cases y) (simp_all add: json_opt_def)
qed

lemma capability_json_wf: "json_wf (capability_json a)" "distinct (json_keys (capability_json a))"
  by (auto simp: capability_json_def list_all_iff)

lemma capability_json_get:
  "json_get ''capability_id'' (capability_json a) = Some (JStr (ca_capability_id a))"
  "json_get ''operation'' (capability_json a) = Some (JStr (operation_value (ca_operation a)))"
  "json_get ''target'' (capability_json a) = Some (JStr (ca_target a))"
  "json_get ''port'' (capability_json a) = Some (json_opt json_int (ca_port a))"
  "json_get ''identity'' (capability_json a) = Some (json_opt JStr (ca_identity a))"
  "json_get ''metadata'' (capability_json a) = Some (JObj (map (\<lambda>(k, v). (k, JStr v)) (ca_metadata a)))"
  by (simp_all add: capability_json_def)

text \<open>Two actions with one canonical text are the same action, up to the order of the metadata.\<close>

lemma capability_json_determines:
  assumes "canonical_json (capability_json a) = canonical_json (capability_json b)"
    and "distinct (map fst (ca_metadata a))" "distinct (map fst (ca_metadata b))"
  shows "ca_capability_id a = ca_capability_id b \<and> ca_operation a = ca_operation b \<and> ca_target a = ca_target b \<and>
    ca_port a = ca_port b \<and> ca_identity a = ca_identity b \<and>
    (\<forall>k. dict_get (ca_metadata a) k = dict_get (ca_metadata b) k)"
proof -
  note m = canonical_json_member [OF assms(1) capability_json_wf(1) capability_json_wf(1) capability_json_wf(2) capability_json_wf(2)]
  have fields: "ca_capability_id a = ca_capability_id b \<and> ca_operation a = ca_operation b \<and> ca_target a = ca_target b \<and>
      ca_port a = ca_port b \<and> ca_identity a = ca_identity b"
    using m [of "''capability_id''"] m [of "''operation''"] m [of "''target''"] m [of "''port''"] m [of "''identity''"]
    by (simp add: capability_json_get)
  have get: "dict_get (map (\<lambda>(k, v). (k, JStr v)) d) k = map_option JStr (dict_get d k)" for d k
    by (induction d) auto
  have keys: "map fst (map (\<lambda>(k, v). (k, JStr v)) d) = map fst d" for d :: "(string \<times> string) list"
    by (induction d) auto
  have s: "sort_keys (JObj (map (\<lambda>(k, v). (k, JStr v)) (ca_metadata a))) = sort_keys (JObj (map (\<lambda>(k, v). (k, JStr v)) (ca_metadata b)))"
    using m [of "''metadata''"] by (simp only: capability_json_get option.map option.inject)
  have "dict_get (ca_metadata a) k = dict_get (ca_metadata b) k" for k
  proof -
    have "map_option sort_keys (json_get k (JObj (map (\<lambda>(k, v). (k, JStr v)) (ca_metadata a)))) =
        map_option sort_keys (json_get k (JObj (map (\<lambda>(k, v). (k, JStr v)) (ca_metadata b))))"
      using s assms(2,3) by (metis json_get_sort_keys json_keys.simps(1) keys)
    then show ?thesis by (cases "dict_get (ca_metadata a) k"; cases "dict_get (ca_metadata b) k") (simp_all add: get)
  qed
  with fields show ?thesis by blast
qed

end
