(* ===== verification/ChainProperties.thy ===== *)
theory ChainProperties
  imports CapabilityGrants Examples
begin

text \<open>
  The properties of the way from a planned action to a worker: the broker adds nothing to the plan's
  authorization and loses nothing of it, the permit it issues runs one worker request, and a
  capability grant holds for one exact action.
\<close>

section \<open>Helpers\<close>

lemma char_upper_idem [simp]: "char_upper (char_upper c) = char_upper c"
proof -
  have "char_upper c = c \<or> is_lower c" by (auto simp: char_upper_def)
  moreover have "\<not> is_lower (char_upper c)" if "is_lower c"
  proof -
    from that have "97 \<le> ord c" "ord c \<le> 122" by (auto simp: is_lower_def)
    moreover have "char_upper c = char_of (ord c - 32)" using that by (simp add: char_upper_def)
    ultimately show ?thesis by (simp add: is_lower_def ord_char_of)
  qed
  ultimately show ?thesis by (metis char_upper_def)
qed

lemma str_upper_idem [simp]: "str_upper (str_upper s) = str_upper s"
  by (simp add: str_upper_def comp_def)

section \<open>The broker\<close>

text \<open>
  C17: a brokered permit rests on a fresh ALLOW for exactly the queued action, under the clearances of the
  item's own review: it names the item's target and upper-case method, the engagement and the test of the item,
  no identity, and lives at most the TTL.
\<close>

theorem broker_permit_sound:
  assumes "broker_queue_item_permit item eng test key args uuid clock = Inr r"
  shows "\<exists>request auth. authorize_test eng test request clock = Inr auth \<and> ar_decision auth = ALLOW \<and>
    rq_target request = wi_target item \<and> rq_http_method request = Some (wi_method item) \<and>
    rq_now request = Some (or_else (ba_now args) clock) \<and>
    (wi_review_bound item \<longrightarrow> rq_excl_clears request = wi_clears item) \<and>
    pp_target (sp_payload (br_permit r)) = wi_target item \<and>
    pp_http_method (sp_payload (br_permit r)) = Some (str_upper (wi_method item)) \<and>
    pp_identity (sp_payload (br_permit r)) = None \<and>
    pp_engagement_id (sp_payload (br_permit r)) = wi_engagement_id item \<and>
    pp_test_id (sp_payload (br_permit r)) = wi_test_id item \<and> 
    dt_us (pp_expires_at (sp_payload (br_permit r))) \<le> dt_us (or_else (ba_now args) clock) + ba_ttl args * 1000000 \<and>
    wi_requires_new_permit item"
proof -
  obtain clears auth where b: "broker_clears item (ba_clears args) = Inr clears"
    "wi_engagement_id item = eng_id eng" "wi_test_id item = test_id test" "wi_requires_new_permit item"
    "authorize_test eng test (broker_request item args clears (or_else (ba_now args) clock)) clock = Inr auth"
    "ar_decision auth = ALLOW"
    "issue_execution_permit eng test (broker_request item args clears (or_else (ba_now args) clock)) key (ba_ttl args)
       ''astp-policy-engine'' (ba_key_id args) (Some (or_else (ba_now args) clock)) uuid clock = Inr (br_permit r)"
    "pp_target (sp_payload (br_permit r)) = wi_target item"
    "pp_http_method (sp_payload (br_permit r)) = Some (str_upper (wi_method item))"
    "br_queue_id r = wi_queue_id item" "br_target r = wi_target item"
    by (rule broker_queue_item_permitD [OF assms])
  have "wi_review_bound item \<longrightarrow> clears = wi_clears item" using b(1) by (auto simp: broker_clears_def split: if_splits)
  moreover have "dt_us (pp_expires_at (sp_payload (br_permit r))) \<le> dt_us (or_else (ba_now args) clock) + ba_ttl args * 1000000"
    using issue_execution_permitD [OF b(7)] permit_expiry_le_ttl by auto
  ultimately show ?thesis
    using b issue_execution_permit_fields [OF b(7)]
    by (intro exI [of _ "broker_request item args clears (or_else (ba_now args) clock)"] exI [of _ auth])
      (simp add: broker_request_def)
qed

definition ex_broker_item :: work_item where
  "ex_broker_item = ex_item\<lparr>wi_test_id := ''headers''\<rparr>"

definition ex_broker_args :: broker_args where
  "ex_broker_args = default_broker_args"

definition ex_broker_request :: auth_request where
  "ex_broker_request = broker_request ex_broker_item ex_broker_args {} ex_clock"

lemma ex_broker_allowed:
  "case authorize_test ex_engagement ex_plan_test ex_broker_request ex_clock of
     Inr r \<Rightarrow> ar_decision r = ALLOW \<and> ar_effective_rps r = Some 1 \<and> ar_valid_until r = None
   | Inl _ \<Rightarrow> False"
  by code_simp

lemma ex_brokered:
  obtains r where "broker_queue_item_permit ex_broker_item ex_engagement ex_plan_test ex_key ex_broker_args ''permit-1'' ex_clock = Inr r"
    "pp_permit_id (sp_payload (br_permit r)) = ''permit-1''" "pp_issued_at (sp_payload (br_permit r)) = ex_clock"
    "pp_expires_at (sp_payload (br_permit r)) = dt_plus ex_clock (seconds 120)"
proof -
  obtain auth where a: "authorize_test ex_engagement ex_plan_test ex_broker_request ex_clock = Inr auth" "ar_decision auth = ALLOW"
    "ar_effective_rps auth = Some 1" "ar_valid_until auth = None"
    using ex_broker_allowed by (auto split: sum.splits)
  have k: "length ex_key = 32" by (simp add: ex_key_def)
  have f: "wi_engagement_id ex_broker_item = eng_id ex_engagement" "wi_test_id ex_broker_item = test_id ex_plan_test"
    "wi_requires_new_permit ex_broker_item" "broker_clears ex_broker_item (ba_clears ex_broker_args) = Inr {}"
    "ba_now ex_broker_args = None" "ba_ttl ex_broker_args = 120" "ba_rps ex_broker_args = None"
    by (simp_all add: ex_broker_item_def ex_item_def ex_engagement_def ex_plan_test_def ex_test_def broker_clears_def
        ex_broker_args_def default_broker_args_def)
  have m: "mk_auth_request (broker_request ex_broker_item ex_broker_args {} ex_clock) = Inr ex_broker_request"
    by (simp add: mk_auth_request_def valid_opt_rate_def broker_request_def f ex_broker_request_def)
  have e: "\<not> dt_le (permit_expiry ex_clock 120 None) ex_clock" "aware ex_clock" "aware (permit_expiry ex_clock 120 None)"
    by (simp_all add: permit_expiry_def time_simps ex_clock_def)
  have "\<exists>p. issue_execution_permit ex_engagement ex_plan_test ex_broker_request ex_key 120 ''astp-policy-engine''
      (ba_key_id ex_broker_args) (Some ex_clock) ''permit-1'' ex_clock = Inr p"
    using e k by (simp add: issue_execution_permit_def a MAX_PERMIT_TTL_SECONDS_def mk_permit_payload_def valid_rate_def
        Let_def permit_signature_Inr MIN_SIGNING_KEY_BYTES_def permit_signature_def signing_key_def)
  then obtain p where p: "issue_execution_permit ex_engagement ex_plan_test ex_broker_request ex_key 120 ''astp-policy-engine''
      (ba_key_id ex_broker_args) (Some ex_clock) ''permit-1'' ex_clock = Inr p" by blast
  have t: "pp_target (sp_payload p) = wi_target ex_broker_item"
    "pp_http_method (sp_payload p) = Some (str_upper (wi_method ex_broker_item))" "pp_permit_id (sp_payload p) = ''permit-1''"
    using issue_execution_permit_fields [OF p]
    by (simp_all add: ex_broker_request_def broker_request_def upper_method_def ex_broker_item_def ex_item_def)
  have d: "pp_issued_at (sp_payload p) = ex_clock" "pp_expires_at (sp_payload p) = dt_plus ex_clock (seconds 120)"
    using issue_execution_permitD [OF p] a by (auto simp: permit_expiry_def)
  have "broker_queue_item_permit ex_broker_item ex_engagement ex_plan_test ex_key ex_broker_args ''permit-1'' ex_clock =
      Inr \<lparr>br_queue_id = wi_queue_id ex_broker_item, br_engagement_id = eng_id ex_engagement, br_test_id = test_id ex_plan_test,
        br_target = wi_target ex_broker_item, br_permit = p, br_issued_at = ex_clock\<rparr>"
    using p t(1,2) by (simp add: broker_queue_item_permit_def f m a Let_def)
  from that [OF this] t d show ?thesis by simp
qed

theorem broker_permit_sound_witness:
  "\<exists>r. broker_queue_item_permit ex_broker_item ex_engagement ex_plan_test ex_key ex_broker_args ''permit-1'' ex_clock = Inr r \<and>
     pp_target (sp_payload (br_permit r)) = ''https://example.com/''"
proof -
  obtain r where r: "broker_queue_item_permit ex_broker_item ex_engagement ex_plan_test ex_key ex_broker_args ''permit-1'' ex_clock = Inr r"
    by (rule ex_brokered)
  from broker_permit_sound [OF r] r show ?thesis by (auto simp: ex_broker_item_def ex_item_def)
qed

text \<open>
  C18: what the planner calls authorizable passes the broker: for the queue item of an authorizable plan item,
  brokered at the plan's instant with the plan's attestation, lease and rate, the broker does neither more nor less
  than issue a permit for the plan's own request.
\<close>

theorem planned_item_passes_broker:
  assumes "build_observation_plan reg eng test pargs clock = Inr p" "i \<in> set (pl_items p)" "pi_status i = AUTHORIZABLE"
    and "snd (semantic_review pargs (pi_target i)) = {}"
    and "ba_attestation args = pa_attestation pargs" "ba_lease args = pa_lease pargs" "ba_lease_store args = pa_lease_store pargs"
    and "ba_rps args = pa_rps pargs" "ba_clears args = None" "ba_now args = Some (or_else (pa_now pargs) clock)"
  shows "broker_queue_item_permit (queue_item n p i) eng test key args uuid clock =
    rbind (issue_execution_permit eng test (plan_request pargs (pi_target i) (or_else (pa_now pargs) clock)) key (ba_ttl args)
             ''astp-policy-engine'' (ba_key_id args) (ba_now args) uuid clock) (\<lambda>permit.
      Inr \<lparr>br_queue_id = wi_queue_id (queue_item n p i), br_engagement_id = eng_id eng, br_test_id = test_id test,
           br_target = pi_target i, br_permit = permit, br_issued_at = or_else (pa_now pargs) clock\<rparr>)"
proof -
  let ?now = "or_else (pa_now pargs) clock"
  from assms(1) have es: "plan_entries eng test pargs ?now clock 1 (tr_entries reg) = Inr (pl_items p)"
    and ids: "pl_engagement_id p = eng_id eng" "pl_test_id p = test_id test"
    by (auto simp: build_observation_plan_def Let_def result_simps split: if_splits)
  from assms(2) obtain j where j: "j < length (pl_items p)" "pl_items p ! j = i" by (auto simp: in_set_conv_nth)
  with plan_entries_nth [OF es] have e: "plan_entry eng test pargs ?now clock (1 + j) (tr_entries reg ! j) = Inr i" by force
  from plan_entry_authorizable [OF e] assms(3) obtain r
    where auth: "authorize_test eng test (plan_request pargs (pi_target i) ?now) clock = Inr r" "ar_decision r = ALLOW" by auto
  from e assms(3) have i: "pi_method i = ''GET''" "pi_clears i = fst (semantic_review pargs (pi_target i))"
    "mk_auth_request (plan_request pargs (pi_target i) ?now) = Inr (plan_request pargs (pi_target i) ?now)"
    by (auto simp: plan_entry_def Let_def result_simps mk_auth_request_def split: if_splits)
  have rq: "broker_request (queue_item n p i) args (pi_clears i) ?now = plan_request pargs (pi_target i) ?now"
    using assms(4-10) i by (simp add: broker_request_def plan_request_def queue_item_def)
  have c: "broker_clears (queue_item n p i) (ba_clears args) = Inr (pi_clears i)"
    using assms(9) by (simp add: broker_clears_def queue_item_def)
  have bound: "pp_target (sp_payload sp) = wi_target (queue_item n p i) \<and>
      pp_http_method (sp_payload sp) = Some (str_upper (wi_method (queue_item n p i)))"
    if "issue_execution_permit eng test (plan_request pargs (pi_target i) ?now) key (ba_ttl args)
             ''astp-policy-engine'' (ba_key_id args) (Some ?now) uuid clock = Inr sp" for sp
    using issue_execution_permit_fields [OF that] i(1) by (simp add: plan_request_def queue_item_def upper_method_def)
  have q: "wi_engagement_id (queue_item n p i) = eng_id eng" "wi_test_id (queue_item n p i) = test_id test"
    "wi_requires_new_permit (queue_item n p i)" "wi_target (queue_item n p i) = pi_target i"
    using ids by (simp_all add: queue_item_def)
  show ?thesis
    unfolding broker_queue_item_permit_def c assms(10)
    using bound by (cases "issue_execution_permit eng test (plan_request pargs (pi_target i) ?now) key (ba_ttl args)
             ''astp-policy-engine'' (ba_key_id args) (Some ?now) uuid clock")
      (simp_all add: q c rq i(3) auth Let_def)
qed

theorem planned_item_passes_broker_witness:
  "\<exists>p i q. build_observation_plan ex_registry ex_engagement ex_plan_test ex_plan_args ex_clock = Inr p \<and> i \<in> set (pl_items p) \<and>
     broker_queue_item_permit (queue_item 0 p i) ex_engagement ex_plan_test ex_key (ex_broker_args\<lparr>ba_now := Some ex_clock\<rparr>) ''permit-1''
       ex_clock = q"
proof -
  obtain p :: plan and i :: plan_item where p: "build_observation_plan ex_registry ex_engagement ex_plan_test ex_plan_args ex_clock = Inr p"
    "pl_items p = [i]" "pi_status i = AUTHORIZABLE" using ex_plan by auto
  have "i \<in> set (pl_items p)" using p(2) by simp
  from planned_item_passes_broker [OF p(1) this p(3), of "ex_broker_args\<lparr>ba_now := Some ex_clock\<rparr>" 0 ex_key "''permit-1''"] p \<open>i \<in> set (pl_items p)\<close>
  show ?thesis by (auto simp: ex_plan_args_def semantic_review_def ex_broker_args_def default_broker_args_def)
qed

section \<open>The worker\<close>

text \<open>
  A proof of consumption is handed out for a permit that verified at that instant for the target of the worker's
  request, was available in a readable state file and is consumed in the new one; the proof names the permit, the
  digest of its signature, and the request's target and action.
\<close>

theorem consumption_proof_sound:
  assumes "consume_worker_request_permit c f = (Inr pf, f')"
  shows "\<exists>v. verify_execution_permit (wk_permit c) (wk_engagement c) (wk_test c) (cc_request (wk_consume c)) (wk_keys c) (wk_clock c) = Inr v \<and>
    vr_valid v \<and> vq_target (cc_request (wk_consume c)) = wq_target (wk_request c) \<and>
    pp_target (sp_payload (wk_permit c)) = pf_target pf \<and> pf_target pf = wq_target (wk_request c) \<and>
    pf_permit_id pf = wq_permit_id (wk_request c) \<and> pf_permit_id pf = pp_permit_id (sp_payload (wk_permit c)) \<and>
    pf_engagement_id pf = wq_engagement_id (wk_request c) \<and> pf_action_id pf = wq_action_id (wk_request c) \<and>
    pf_signature_sha256 pf = sha256_hex (sp_signature (wk_permit c)) \<and>
    file_status f (pf_permit_id pf) = Some AVAILABLE \<and> file_status f' = (file_status f)(pf_permit_id pf := Some CONSUMED)"
proof -
  from assms obtain r where b: "wk_bindings c = Inr ()" "pf = consumption_proof_of c"
    and r: "consume_execution_permit (wk_consume c) f = (Inr r, f')" "cr_accepted r" by (auto simp: consume_worker_Inr)
  from consume_execution_permitD [OF r] obtain e where v: "cc_verify (wk_consume c) = Inr (cr_verification r)" "vr_valid (cr_verification r)"
    and e: "consume_state f (cc_permit_id (wk_consume c)) (or_else (vq_now (cc_request (wk_consume c))) (cc_clock (wk_consume c))) = (Inr e, f')"
    by blast
  from consume_state_Inr [OF e] have "file_status f (pf_permit_id pf) = Some AVAILABLE"
    "file_status f' = (file_status f)(pf_permit_id pf := Some CONSUMED)"
    by (auto simp: wk_consume_id b(2) consumption_proof_of_def Let_def fun_eq_iff)
  with v b show ?thesis by (auto simp: wk_bindings_Inr cc_verify_def wk_consume_def consumption_proof_of_def Let_def)
qed

text \<open>The worker of the example: its request names the permit.\<close>

definition ex_worker_call :: "signed_permit \<Rightarrow> string \<Rightarrow> worker_call" where
  "ex_worker_call sp action =
     \<lparr>wk_permit = sp,
      wk_request = \<lparr>wq_request_id = ''r1'', wq_permit_id = pp_permit_id (sp_payload sp), wq_action_id = action,
        wq_engagement_id = ''eng-1'', wq_operation = NUCLEI_SAFE, wq_target = ''https://example.com/'', wq_timeout = 30,
        wq_max_output = 1048576, wq_arguments = []\<rparr>,
      wk_engagement = ex_engagement, wk_test = ex_test, wk_keys = SingleKey ex_key,
      wk_now = Some (dt_plus ex_clock (seconds 5)), wk_clock = ex_clock\<rparr>"

lemma ex_worker_consumes:
  assumes "strip action \<noteq> []"
  obtains pf f' where "consume_worker_request_permit (ex_worker_call ex_permit action) Missing = (Inr pf, f')"
proof -
  let ?c = "ex_worker_call ex_permit action"
  have b: "wk_bindings ?c = Inr ()"
    using assms by (simp add: wk_bindings_Inr ex_worker_call_def ex_permit_def ex_payload_def ex_engagement_def ex_test_def)
  obtain v where v: "cc_verify (wk_consume ?c) = Inr v" "vr_valid v"
    by (rule ex_permit_verifies [of "cc_request (wk_consume ?c)" ex_clock])
      (simp_all add: cc_verify_def wk_consume_def ex_worker_call_def wk_current_def ex_permit_def ex_payload_def Let_def time_simps)
  have "file_status Missing (cc_permit_id (wk_consume ?c)) = Some AVAILABLE"
    by (simp add: file_status_def permit_status_def load_state_def)
  from consume_accepts [OF this v] obtain r f' where "consume_execution_permit (wk_consume ?c) Missing = (Inr r, f')" "cr_accepted r"
    by blast
  with b that show ?thesis by (auto simp: consume_worker_Inr)
qed

theorem consumption_proof_sound_witness:
  "\<exists>pf f'. consume_worker_request_permit (ex_worker_call ex_permit ''act'') Missing = (Inr pf, f') \<and>
     pf_permit_id pf = ''permit-1'' \<and> file_status f' ''permit-1'' = Some CONSUMED"
proof -
  have "strip ''act'' \<noteq> []" by code_simp
  then obtain pf f' where c: "consume_worker_request_permit (ex_worker_call ex_permit ''act'') Missing = (Inr pf, f')"
    by (rule ex_worker_consumes)
  have "pp_permit_id (sp_payload (wk_permit (ex_worker_call ex_permit ''act''))) = ''permit-1''"
    by (simp add: ex_worker_call_def ex_permit_def ex_payload_def)
  with consumption_proof_sound [OF c] have "pf_permit_id pf = ''permit-1''" "file_status f' ''permit-1'' = Some CONSUMED" by auto
  with c show ?thesis by blast
qed

text \<open>
  One permit, one proof: in every sequence of worker calls, whatever they carry, and revocations by the operator,
  from every state file, at most one proof is handed out per permit.
\<close>

theorem one_proof_per_permit:
  "count_rows (consumes wk_permit_id p) (fst (ledger_run worker_consume file_revoke ops f)) \<le> 1"
  by (metis worker_ledger.run_at_most_once prod.collapse)

text \<open>
  The action of a proof is not bound by the permit: whatever non-blank action identifier the worker's request
  carries, the permit is consumed for it and the proof names it.
\<close>

theorem proof_action_unbound:
  assumes "consume_worker_request_permit c f = (Inr pf, f')" "strip other \<noteq> []"
  shows "consume_worker_request_permit (c\<lparr>wk_request := (wk_request c)\<lparr>wq_action_id := other\<rparr>\<rparr>) f =
    (Inr (pf\<lparr>pf_action_id := other\<rparr>), f')"
proof -
  let ?d = "c\<lparr>wk_request := (wk_request c)\<lparr>wq_action_id := other\<rparr>\<rparr>"
  from assms(1) obtain r where b: "wk_bindings c = Inr ()" "pf = consumption_proof_of c"
    and r: "consume_execution_permit (wk_consume c) f = (Inr r, f')" "cr_accepted r" by (auto simp: consume_worker_Inr)
  have "wk_bindings ?d = Inr ()" using b(1) assms(2) by (simp add: wk_bindings_Inr)
  moreover have "wk_consume ?d = wk_consume c" by (simp add: wk_consume_def wk_current_def Let_def)
  moreover have "consumption_proof_of ?d = pf\<lparr>pf_action_id := other\<rparr>"
    by (simp add: b(2) consumption_proof_of_def wk_current_def Let_def)
  ultimately show ?thesis using r consume_worker_Inr by metis
qed

theorem proof_action_unbound_witness:
  "\<exists>pf f'. consume_worker_request_permit (ex_worker_call ex_permit ''anything'') Missing = (Inr pf, f') \<and> pf_action_id pf = ''anything''"
proof -
  have s: "strip ''act'' \<noteq> []" "strip ''anything'' \<noteq> []" by code_simp+
  obtain pf f' where c: "consume_worker_request_permit (ex_worker_call ex_permit ''act'') Missing = (Inr pf, f')"
    by (rule ex_worker_consumes [OF s(1)])
  have "(ex_worker_call ex_permit ''act'')\<lparr>wk_request := (wk_request (ex_worker_call ex_permit ''act''))\<lparr>wq_action_id := ''anything''\<rparr>\<rparr> =
      ex_worker_call ex_permit ''anything''" by (simp add: ex_worker_call_def)
  with proof_action_unbound [OF c s(2)] show ?thesis by auto
qed

text \<open>
  C19: a brokered permit runs once: with the key it was signed with, a worker request that names it and its target gets
  its proof at every instant of the permit's life from a file where it is available, and after that no sequence
  of calls gets another.
\<close>

theorem brokered_permit_runs_once:
  assumes "broker_queue_item_permit item eng test key args uuid clock = Inr r"
    and "wk_permit c = br_permit r" "wk_engagement c = eng" "wk_test c = test" "wk_keys c = SingleKey key"
    and "wq_engagement_id (wk_request c) = eng_id eng" "wq_permit_id (wk_request c) = uuid"
    and "wq_target (wk_request c) = wi_target item" "strip (wq_action_id (wk_request c)) \<noteq> []"
    and "dt_us (pp_issued_at (sp_payload (br_permit r))) \<le> dt_us (wk_current c)"
    and "dt_us (wk_current c) < dt_us (pp_expires_at (sp_payload (br_permit r)))"
    and "file_status f uuid = Some AVAILABLE"
  shows "\<exists>pf f'. consume_worker_request_permit c f = (Inr pf, f') \<and> pf_permit_id pf = uuid \<and>
    (\<forall>ops. count_rows (consumes wk_permit_id uuid) (fst (ledger_run worker_consume file_revoke ops f')) = 0)"
proof -
  obtain clears auth where b: "broker_clears item (ba_clears args) = Inr clears"
    "wi_engagement_id item = eng_id eng" "wi_test_id item = test_id test" "wi_requires_new_permit item"
    "authorize_test eng test (broker_request item args clears (or_else (ba_now args) clock)) clock = Inr auth"
    "ar_decision auth = ALLOW"
    "issue_execution_permit eng test (broker_request item args clears (or_else (ba_now args) clock)) key (ba_ttl args)
       ''astp-policy-engine'' (ba_key_id args) (Some (or_else (ba_now args) clock)) uuid clock = Inr (br_permit r)"
    "pp_target (sp_payload (br_permit r)) = wi_target item"
    "pp_http_method (sp_payload (br_permit r)) = Some (str_upper (wi_method item))"
    "br_queue_id r = wi_queue_id item" "br_target r = wi_target item"
    by (rule broker_queue_item_permitD [OF assms(1)])
  note p = issue_execution_permit_fields [OF b(7)]
  have bind: "wk_bindings c = Inr ()"
    using assms(2-9) p b(8) by (simp add: wk_bindings_Inr)
  have "upper_method (pp_http_method (sp_payload (br_permit r))) = pp_http_method (sp_payload (br_permit r))"
    using p(9) by (auto simp: upper_method_def broker_request_def str_upper_def split: if_splits option.splits)
  then have "vr_valid (verify_bindings (wk_permit c) eng test (cc_request (wk_consume c)) (wk_clock c) k)" for k
    unfolding verify_bindings_valid using assms(2-11) p b(8) by (simp add: wk_consume_def Let_def)
  then obtain v where v: "cc_verify (wk_consume c) = Inr v" "vr_valid v"
    using p(1) assms(2-5) by (simp add: cc_verify_def wk_consume_def verify_execution_permit_def select_key_def Let_def)
  have id: "cc_permit_id (wk_consume c) = uuid" by (simp add: wk_consume_id assms(2) p(3))
  obtain cr f' where cr: "consume_execution_permit (wk_consume c) f = (Inr cr, f')" "cr_accepted cr"
    by (rule consume_accepts [OF _ v]) (use assms(12) id in simp_all)
  then have w: "consume_worker_request_permit c f = (Inr (consumption_proof_of c), f')"
    using bind by (simp add: consume_worker_Inr)
  have wp: "wk_permit_id c = uuid" by (simp add: wk_permit_id_def assms(2) p(3))
  have "worker_consume c f = (True, f')" by (simp add: worker_consume_def w)
  from worker_ledger.consume_accepted [OF this] wp have st: "file_status f' uuid = Some CONSUMED" by simp
  have "count_rows (consumes wk_permit_id uuid) (fst (ledger_run worker_consume file_revoke ops f')) = 0" for ops
    using worker_ledger.run_consumed [OF st, of ops] by (cases "ledger_run worker_consume file_revoke ops f'") (auto simp: count_rows_def)
  with w wp show ?thesis by (auto simp: consumption_proof_of_def wk_permit_id_def Let_def)
qed

theorem brokered_permit_runs_once_witness:
  "\<exists>sp pf f'. consume_worker_request_permit (ex_worker_call sp ''act''\<lparr>wk_test := ex_plan_test\<rparr>) Missing = (Inr pf, f')"
proof -
  obtain r where r: "broker_queue_item_permit ex_broker_item ex_engagement ex_plan_test ex_key ex_broker_args ''permit-1'' ex_clock = Inr r"
    "pp_permit_id (sp_payload (br_permit r)) = ''permit-1''" "pp_issued_at (sp_payload (br_permit r)) = ex_clock"
    "pp_expires_at (sp_payload (br_permit r)) = dt_plus ex_clock (seconds 120)"
    by (rule ex_brokered)
  let ?c = "ex_worker_call (br_permit r) ''act''\<lparr>wk_test := ex_plan_test\<rparr>"
  have s: "strip ''act'' \<noteq> []" by code_simp
  have c: "wk_permit ?c = br_permit r" "wk_engagement ?c = ex_engagement" "wk_test ?c = ex_plan_test" "wk_keys ?c = SingleKey ex_key"
    "wq_engagement_id (wk_request ?c) = eng_id ex_engagement" "wq_permit_id (wk_request ?c) = ''permit-1''"
    "wq_target (wk_request ?c) = wi_target ex_broker_item" "strip (wq_action_id (wk_request ?c)) \<noteq> []"
    using s r(2) by (simp_all add: ex_worker_call_def ex_engagement_def ex_broker_item_def ex_item_def)
  have t: "dt_us (pp_issued_at (sp_payload (br_permit r))) \<le> dt_us (wk_current ?c)"
    "dt_us (wk_current ?c) < dt_us (pp_expires_at (sp_payload (br_permit r)))"
    by (simp_all add: r wk_current_def ex_worker_call_def seconds_def)
  have "file_status Missing ''permit-1'' = Some AVAILABLE" by (simp add: file_status_def permit_status_def load_state_def)
  from brokered_permit_runs_once [OF r(1) c t this] show ?thesis by blast
qed

section \<open>Grants\<close>

text \<open>
  A grant is issued only for an action the permit verifies for, and then verifies for that action, with the same keys,
  at every instant between its issuance and the permit's expiry.
\<close>

theorem grant_roundtrip:
  assumes "issue_capability_grant permit a eng test ks now clock = Inr g"
    and "dt_us (or_else now clock) \<le> dt_us (or_else later clock')" "dt_us (or_else later clock') < dt_us (pp_expires_at (sp_payload permit))"
  shows "verify_capability_grant g permit a ks later clock' = (True, [Txt ''capability grant is valid for this exact action'']) \<and>
    ca_target a = pp_target (sp_payload permit) \<and> operation_method (ca_operation a) = pp_http_method (sp_payload permit) \<and>
    ca_identity a = pp_identity (sp_payload permit)"
proof -
  obtain v key where g: "verify_execution_permit permit eng test
      \<lparr>vq_target = ca_target a, vq_http_method = operation_method (ca_operation a), vq_identity = ca_identity a,
       vq_rps = None, vq_now = Some (or_else now clock)\<rparr> ks clock = Inr v" "vr_valid v"
    "ca_target a = pp_target (sp_payload permit)" "operation_method (ca_operation a) = pp_http_method (sp_payload permit)"
    "sg_payload g =
       \<lparr>gp_schema_version = ''1'', gp_permit_id = pp_permit_id (sp_payload permit), gp_key_id = pp_key_id (sp_payload permit),
        gp_engagement_id = pp_engagement_id (sp_payload permit), gp_test_id = pp_test_id (sp_payload permit),
        gp_action_id = capability_action_id a, gp_capability_id = ca_capability_id a,
        gp_operation = operation_value (ca_operation a), gp_target = ca_target a, gp_port = ca_port a,
        gp_issued_at = or_else now clock, gp_expires_at = pp_expires_at (sp_payload permit)\<rparr>"
    "grant_key ks (gp_key_id (sg_payload g)) = Inr key" "sg_signature g = grant_signature (sg_payload g) key"
    by (rule issue_capability_grantD [OF assms(1)])
  have "ca_identity a = pp_identity (sp_payload permit)"
    using g(2) verify_valid_iff [OF g(1)] by (auto simp: verify_bindings_valid Let_def)
  moreover have "verify_capability_grant g permit a ks later clock' = (True, [Txt ''capability grant is valid for this exact action''])"
    using g(6,7) assms(2,3) unfolding verify_capability_grant_def Let_def
    by (simp add: g(5) time_simps)
  ultimately show ?thesis using g(3,4) by blast
qed

definition ex_action :: capability_action where
  "ex_action = \<lparr>ca_capability_id = ''http-read'', ca_operation = HTTP_GET, ca_target = ''https://example.com/'', ca_port = None,
     ca_identity = None, ca_metadata = []\<rparr>"

lemma ex_grant:
  obtains g where "issue_capability_grant ex_permit ex_action ex_engagement ex_test (SingleKey ex_key) None ex_clock = Inr g"
proof -
  have m: "operation_method HTTP_GET = Some ''GET''" "upper_method (Some ''GET'') = Some ''GET''" by code_simp+
  let ?q = "\<lparr>vq_target = ca_target ex_action, vq_http_method = operation_method (ca_operation ex_action),
    vq_identity = ca_identity ex_action, vq_rps = None, vq_now = Some ex_clock\<rparr>"
  obtain v where v: "verify_execution_permit ex_permit ex_engagement ex_test ?q (SingleKey ex_key) ex_clock = Inr v" "vr_valid v"
    by (rule ex_permit_verifies [of ?q ex_clock]) (simp_all add: ex_action_def m ex_payload_def time_simps)
  have k: "grant_key (SingleKey ex_key) x = Inr ex_key" for x by (simp add: grant_key_def ex_key_def)
  have a: "aware (pp_expires_at ex_payload)" "aware ex_clock" by (simp_all add: ex_payload_def ex_clock_def time_simps)
  have "\<exists>g. issue_capability_grant ex_permit ex_action ex_engagement ex_test (SingleKey ex_key) None ex_clock = Inr g"
    using v by (simp add: issue_capability_grant_def k mk_grant_payload_def Let_def)
      (simp add: ex_action_def ex_permit_def m a, simp add: ex_payload_def m)
  with that show ?thesis by blast
qed

theorem grant_roundtrip_witness:
  "\<exists>g. fst (verify_capability_grant g ex_permit ex_action (SingleKey ex_key) None ex_clock)"
proof -
  obtain g where g: "issue_capability_grant ex_permit ex_action ex_engagement ex_test (SingleKey ex_key) None ex_clock = Inr g"
    by (rule ex_grant)
  have "dt_us ex_clock < dt_us (pp_expires_at (sp_payload ex_permit))"
    by (simp add: ex_permit_def ex_payload_def seconds_def)
  with grant_roundtrip [OF g, of None ex_clock] show ?thesis by (metis fst_conv or_else.simps(1) order_refl)
qed

text \<open>
  C20: a grant holds for one exact action: if it verifies for two, they are the same capability, operation, target, port,
  identity and metadata, or their canonical texts are a collision of SHA-256.
\<close>

theorem grant_exact_action:
  assumes "fst (verify_capability_grant g permit a ks now clock)" "fst (verify_capability_grant g permit' b ks' now' clock')"
    and "distinct (map fst (ca_metadata a))" "distinct (map fst (ca_metadata b))"
  shows "(ca_capability_id a = ca_capability_id b \<and> ca_operation a = ca_operation b \<and> ca_target a = ca_target b \<and>
      ca_port a = ca_port b \<and> ca_identity a = ca_identity b \<and> (\<forall>k. dict_get (ca_metadata a) k = dict_get (ca_metadata b) k)) \<or>
    (canonical_json (capability_json a) \<noteq> canonical_json (capability_json b) \<and>
     sha256_hex (canonical_json (capability_json a)) = sha256_hex (canonical_json (capability_json b)))"
proof -
  have "sha256_hex (canonical_json (capability_json a)) = sha256_hex (canonical_json (capability_json b))"
    using assms(1,2) unfolding verify_grant_True Let_def capability_action_id_def by metis
  with capability_json_determines [OF _ assms(3,4)] show ?thesis by blast
qed

theorem grant_exact_action_witness:
  "\<exists>g. fst (verify_capability_grant g ex_permit ex_action (SingleKey ex_key) None ex_clock) \<and>
     (ca_target ex_action = ''https://example.com/'' \<or> canonical_json (capability_json ex_action) \<noteq> canonical_json (capability_json ex_action))"
proof -
  obtain g where g: "issue_capability_grant ex_permit ex_action ex_engagement ex_test (SingleKey ex_key) None ex_clock = Inr g"
    by (rule ex_grant)
  have t: "dt_us ex_clock < dt_us (pp_expires_at (sp_payload ex_permit))"
    by (simp add: ex_permit_def ex_payload_def seconds_def)
  have "verify_capability_grant g ex_permit ex_action (SingleKey ex_key) None ex_clock =
      (True, [Txt ''capability grant is valid for this exact action''])"
    unfolding verify_capability_grant_def Let_def
    by (rule issue_capability_grantD [OF g]) (use t in \<open>simp add: time_simps\<close>)
  then have v: "fst (verify_capability_grant g ex_permit ex_action (SingleKey ex_key) None ex_clock)" by simp
  from grant_exact_action [OF v v] v show ?thesis by (auto simp: ex_action_def)
qed

end
