(* ===== verification/HashChain.thy ===== *)
theory HashChain
  imports PyJson PyHash
begin

text \<open>
  The interface of the program's hash-linked journals (the permit audit log, the execution
  trace, the evidence manifest): records with a sequence number, the link to the previous
  record and a digest of their own canonical JSON body. The locale states what a journal's
  record constructor promises; its lemmas are the integrity properties every such journal
  has. Nothing is assumed of the digest: a forgery is exhibited as two different texts
  with one digest.
\<close>

definition json_digest :: "json \<Rightarrow> string" where
  "json_digest j = sha256_hex (canonical_json j)"

lemma length_json_digest [simp]: "length (json_digest j) = 64"
  by (simp add: json_digest_def)

text \<open>The verification loop over records, from a link and an expected sequence number.\<close>

fun chain_valid ::
  "('r \<Rightarrow> int) \<Rightarrow> ('r \<Rightarrow> 'p) \<Rightarrow> ('r \<Rightarrow> string) \<Rightarrow> ('r \<Rightarrow> json) \<Rightarrow> (string \<Rightarrow> 'p) \<Rightarrow>
   'p \<Rightarrow> int \<Rightarrow> 'r list \<Rightarrow> bool" where
  "chain_valid seq_of prev_of hash_of body link prev n [] = True"
| "chain_valid seq_of prev_of hash_of body link prev n (r # rs) =
     (seq_of r = n \<and> prev_of r = prev \<and> json_digest (body r) = hash_of r \<and>
      chain_valid seq_of prev_of hash_of body link (link (hash_of r)) (n + 1) rs)"

text \<open>The link and number the next record gets.\<close>

definition next_link :: "('r \<Rightarrow> string) \<Rightarrow> (string \<Rightarrow> 'p) \<Rightarrow> 'p \<Rightarrow> 'r list \<Rightarrow> 'p" where
  "next_link hash_of link genesis rs = (if rs = [] then genesis else link (hash_of (last rs)))"

definition next_seq :: "('r \<Rightarrow> int) \<Rightarrow> 'r list \<Rightarrow> int" where
  "next_seq seq_of rs = (if rs = [] then 1 else seq_of (last rs) + 1)"

text \<open>Two record lists collide at a position: different canonical texts, same digest.\<close>

definition chains_collide :: "('r \<Rightarrow> json) \<Rightarrow> 'r list \<Rightarrow> 'r list \<Rightarrow> bool" where
  "chains_collide body rs rs' \<longleftrightarrow>
     (\<exists>i < min (length rs) (length rs').
        canonical_json (body (rs ! i)) \<noteq> canonical_json (body (rs' ! i)) \<and>
        json_digest (body (rs ! i)) = json_digest (body (rs' ! i)))"

locale hash_chain =
  fixes seq_of :: "'r \<Rightarrow> int"
    and prev_of :: "'r \<Rightarrow> 'p"
    and hash_of :: "'r \<Rightarrow> string"
    and body :: "'r \<Rightarrow> json"
    and link :: "string \<Rightarrow> 'p"
    and genesis :: 'p
    and seal :: "'d \<Rightarrow> int \<Rightarrow> 'p \<Rightarrow> 'r"
    and ok :: "'r \<Rightarrow> bool"
  assumes seal_seq: "seq_of (seal d n p) = n"
    and seal_prev: "prev_of (seal d n p) = p"
    and seal_hash: "hash_of (seal d n p) = json_digest (body (seal d n p))"
    and link_inj: "link h = link h' \<Longrightarrow> h = h'"
    and body_link: "ok r \<Longrightarrow> ok r' \<Longrightarrow> canonical_json (body r) = canonical_json (body r') \<Longrightarrow>
      prev_of r = prev_of r'"
begin

lemma valid_append:
  "chain_valid seq_of prev_of hash_of body link p n (rs @ rs') \<longleftrightarrow>
     chain_valid seq_of prev_of hash_of body link p n rs \<and>
     chain_valid seq_of prev_of hash_of body link (next_link hash_of link p rs) (n + int (length rs)) rs'"
  by (induction rs arbitrary: p n) (auto simp: next_link_def algebra_simps)

lemma valid_seq:
  "chain_valid seq_of prev_of hash_of body link p n rs \<Longrightarrow> i < length rs \<Longrightarrow> seq_of (rs ! i) = n + int i"
proof (induction rs arbitrary: p n i)
  case Nil
  then show ?case by simp
next
  case (Cons r rs)
  show ?case
  proof (cases i)
    case 0
    with Cons.prems show ?thesis by simp
  next
    case (Suc j)
    with Cons.prems Cons.IH [of "link (hash_of r)" "n + 1" j] show ?thesis by simp
  qed
qed

lemma valid_next_seq:
  assumes "chain_valid seq_of prev_of hash_of body link p 1 rs"
  shows "next_seq seq_of rs = 1 + int (length rs)"
  using assms by (cases rs rule: rev_cases) (auto simp: next_seq_def valid_append)

text \<open>Sealing a record with the next number and link extends a valid chain.\<close>

lemma append_valid:
  assumes "chain_valid seq_of prev_of hash_of body link genesis 1 rs"
  shows "chain_valid seq_of prev_of hash_of body link genesis 1
           (rs @ [seal d (next_seq seq_of rs) (next_link hash_of link genesis rs)])"
  using assms valid_next_seq [OF assms]
  by (simp add: valid_append seal_seq seal_prev seal_hash [symmetric])

lemma prefix_valid:
  "chain_valid seq_of prev_of hash_of body link genesis 1 rs \<Longrightarrow>
   chain_valid seq_of prev_of hash_of body link genesis 1 (take k rs)"
  by (metis append_take_drop_id valid_append)

text \<open>
  Two valid chains of one length with the same final digest hold the same bodies, or a
  pair of their bodies is a collision of the digest.
\<close>

lemma same_head_same_bodies:
  assumes "chain_valid seq_of prev_of hash_of body link p n rs"
    and "chain_valid seq_of prev_of hash_of body link p n rs'"
    and "length rs = length rs'" "rs \<noteq> []" "hash_of (last rs) = hash_of (last rs')"
    and "\<forall>r \<in> set rs \<union> set rs'. ok r" "\<not> chains_collide body rs rs'"
  shows "map (\<lambda>r. canonical_json (body r)) rs = map (\<lambda>r. canonical_json (body r)) rs' \<and>
         map hash_of rs = map hash_of rs'"
  using assms
proof (induction rs arbitrary: rs' rule: rev_induct)
  case Nil
  then show ?case by simp
next
  case (snoc r rs)
  from snoc.prems(3) obtain qs q where rs': "rs' = qs @ [q]"
    by (cases rs' rule: rev_cases) auto
  have len: "length rs = length qs" using snoc.prems rs' by simp
  have r: "json_digest (body r) = hash_of r" "json_digest (body q) = hash_of q"
      "prev_of r = next_link hash_of link p rs" "prev_of q = next_link hash_of link p qs"
    using snoc.prems(1,2) rs' by (auto simp: valid_append)
  have hq: "hash_of r = hash_of q" using snoc.prems(5) rs' by simp
  have body: "canonical_json (body r) = canonical_json (body q)"
  proof (rule ccontr)
    assume "canonical_json (body r) \<noteq> canonical_json (body q)"
    with r hq len rs' have "chains_collide body (rs @ [r]) rs'"
      unfolding chains_collide_def by (intro exI [of _ "length rs"]) (simp add: nth_append)
    with snoc.prems show False by simp
  qed
  with body_link [of r q] snoc.prems(6) rs' have prev: "prev_of r = prev_of q" by simp
  have nc: "\<not> chains_collide body rs qs"
  proof
    assume "chains_collide body rs qs"
    then obtain i where "i < min (length rs) (length qs)"
        "canonical_json (body (rs ! i)) \<noteq> canonical_json (body (qs ! i))"
        "json_digest (body (rs ! i)) = json_digest (body (qs ! i))"
      unfolding chains_collide_def by blast
    then have "chains_collide body (rs @ [r]) rs'"
      unfolding chains_collide_def rs' by (intro exI [of _ i]) (auto simp: nth_append)
    with snoc.prems show False by simp
  qed
  show ?case
  proof (cases "rs = []")
    case True
    with len body hq rs' show ?thesis by simp
  next
    case False
    with len have "qs \<noteq> []" by auto
    with False prev r have "hash_of (last rs) = hash_of (last qs)"
      by (auto simp: next_link_def dest: link_inj)
    with snoc.IH [of qs] snoc.prems False len rs' nc body hq show ?thesis
      by (simp add: valid_append)
  qed
qed

end

end
