(* ===== verification/EvidenceStore.thy ===== *)
theory EvidenceStore
  imports HashChain Files
begin

text \<open>
  \<open>src/astp/evidence_store.py\<close>: the evidence manifest, a hash-linked register of artifact
  files and their digests. The artifacts are a function from paths to contents (\<open>None\<close> where
  \<open>Path.is_file()\<close> is false), so verification reads the files as they are at that moment.
\<close>

datatype sensitivity_label = PUBLIC | INTERNAL | SENSITIVE

fun sensitivity_value :: "sensitivity_label \<Rightarrow> string" where
  "sensitivity_value PUBLIC = ''public''"
| "sensitivity_value INTERNAL = ''internal''"
| "sensitivity_value SENSITIVE = ''sensitive''"

definition EVIDENCE_GENESIS :: string where
  "EVIDENCE_GENESIS = replicate 64 (CHR ''0'')"

record evidence_entry =
  ee_schema_version :: string
  ee_sequence :: int
  ee_evidence_id :: string
  ee_evidence_type :: string
  ee_created_at :: datetime
  ee_permit_id :: "string option"
  ee_action_id :: "string option"
  ee_sensitivity :: sensitivity_label
  ee_artifact_path :: string
  ee_artifact_sha256 :: string
  ee_previous_hash :: string
  ee_entry_hash :: string

definition mk_evidence_entry :: "evidence_entry \<Rightarrow> evidence_entry result" where
  "mk_evidence_entry e =
     rbind (require (aware (ee_created_at e)) [Txt ''created_at must include a timezone'']) (\<lambda>_. Inr e)"

definition evidence_body :: "evidence_entry \<Rightarrow> json" where
  "evidence_body e = JObj
     [(''schema_version'', JStr (ee_schema_version e)), (''sequence'', json_int (ee_sequence e)),
      (''evidence_id'', JStr (ee_evidence_id e)), (''evidence_type'', JStr (ee_evidence_type e)),
      (''created_at'', JStr (json_datetime (ee_created_at e))),
      (''permit_id'', json_opt JStr (ee_permit_id e)), (''action_id'', json_opt JStr (ee_action_id e)),
      (''sensitivity'', JStr (sensitivity_value (ee_sensitivity e))),
      (''artifact_path'', JStr (ee_artifact_path e)), (''artifact_sha256'', JStr (ee_artifact_sha256 e)),
      (''previous_hash'', JStr (ee_previous_hash e))]"

definition evidence_hash :: "json \<Rightarrow> string" where
  "evidence_hash data = sha256_hex (canonical_json data)"

text \<open>The digest of a file read in blocks of one megabyte is the digest of its contents.\<close>

definition sha256_file :: "string \<Rightarrow> string" where
  "sha256_file contents = sha256_hex contents"

type_synonym artifacts = "string \<Rightarrow> string option"

definition read_manifest :: "evidence_entry log_file \<Rightarrow> evidence_entry list result" where
  "read_manifest f =
     read_log_file (\<lambda>n. [Txt ''Invalid evidence manifest record at line '', Num n, Txt ''.'']) f"

record evidence_args =
  ea_type :: string
  ea_id :: "string option"
  ea_permit_id :: "string option"
  ea_action_id :: "string option"
  ea_sensitivity :: sensitivity_label
  ea_now :: "datetime option"

text \<open>\<open>evidence_id or str(uuid4())\<close>: the empty string counts as missing.\<close>

definition evidence_id_or :: "string option \<Rightarrow> string \<Rightarrow> string" where
  "evidence_id_or i uuid = (case i of None \<Rightarrow> uuid | Some s \<Rightarrow> if s = [] then uuid else s)"

record evidence_source =
  es_path :: string
  es_contents :: string
  es_args :: evidence_args
  es_uuid :: string
  es_clock :: datetime

definition preliminary_entry :: "evidence_source \<Rightarrow> int \<Rightarrow> string \<Rightarrow> evidence_entry" where
  "preliminary_entry d n p =
     \<lparr>ee_schema_version = ''1'', ee_sequence = n,
      ee_evidence_id = evidence_id_or (ea_id (es_args d)) (es_uuid d),
      ee_evidence_type = ea_type (es_args d),
      ee_created_at = or_else (ea_now (es_args d)) (es_clock d),
      ee_permit_id = ea_permit_id (es_args d), ee_action_id = ea_action_id (es_args d),
      ee_sensitivity = ea_sensitivity (es_args d), ee_artifact_path = es_path d,
      ee_artifact_sha256 = sha256_file (es_contents d), ee_previous_hash = p,
      ee_entry_hash = ''pending''\<rparr>"

definition seal_entry :: "evidence_source \<Rightarrow> int \<Rightarrow> string \<Rightarrow> evidence_entry" where
  "seal_entry d n p =
     (let e = preliminary_entry d n p
      in e\<lparr>ee_entry_hash := evidence_hash (evidence_body e)\<rparr>)"

definition register_evidence ::
  "artifacts \<Rightarrow> string \<Rightarrow> evidence_args \<Rightarrow> string \<Rightarrow> datetime \<Rightarrow> evidence_entry log_file \<Rightarrow>
   (evidence_entry log_file, evidence_entry) outcome" where
  "register_evidence fs path a uuid clock f =
     (case fs path of
        None \<Rightarrow> (Inl (ValueError [Txt ''Evidence artifact does not exist: '', Txt path]), f)
      | Some contents \<Rightarrow>
          obind (olift (read_manifest f) f) (\<lambda>entries f.
            let previous_hash = (if entries = [] then EVIDENCE_GENESIS else ee_entry_hash (last entries));
                sequence = (if entries = [] then 1 else ee_sequence (last entries) + 1);
                source = \<lparr>es_path = path, es_contents = contents, es_args = a, es_uuid = uuid, es_clock = clock\<rparr>
            in obind (olift (mk_evidence_entry (preliminary_entry source sequence previous_hash)) f)
                 (\<lambda>_ f. let entry = seal_entry source sequence previous_hash
                        in (Inr entry, append_line f entry))))"

fun verify_entries :: "artifacts \<Rightarrow> bool \<Rightarrow> string \<Rightarrow> int \<Rightarrow> evidence_entry list \<Rightarrow> message option" where
  "verify_entries fs artifacts_too previous_hash n [] = None"
| "verify_entries fs artifacts_too previous_hash n (e # es) =
     (if ee_sequence e \<noteq> n
      then Some [Txt ''Unexpected sequence at evidence record '', Num (ee_sequence e), Txt ''.'']
      else if ee_previous_hash e \<noteq> previous_hash
      then Some [Txt ''Broken previous_hash at evidence record '', Num (ee_sequence e), Txt ''.'']
      else if evidence_hash (evidence_body e) \<noteq> ee_entry_hash e
      then Some [Txt ''Entry hash mismatch at evidence record '', Num (ee_sequence e), Txt ''.'']
      else if artifacts_too \<and> fs (ee_artifact_path e) = None
      then Some [Txt ''Missing artifact for evidence '', Txt (ee_evidence_id e), Txt ''.'']
      else if artifacts_too \<and> map_option sha256_file (fs (ee_artifact_path e)) \<noteq> Some (ee_artifact_sha256 e)
      then Some [Txt ''Artifact hash mismatch for evidence '', Txt (ee_evidence_id e), Txt ''.'']
      else verify_entries fs artifacts_too (ee_entry_hash e) (n + 1) es)"

definition verify_evidence_manifest ::
  "artifacts \<Rightarrow> bool \<Rightarrow> evidence_entry log_file \<Rightarrow> (bool \<times> message) result" where
  "verify_evidence_manifest fs artifacts_too f =
     rbind (read_manifest f) (\<lambda>entries.
       Inr (case verify_entries fs artifacts_too EVIDENCE_GENESIS 1 entries of
              Some m \<Rightarrow> (False, m)
            | None \<Rightarrow>
                (True, [Txt ''Evidence manifest valid ('', Num (int (length entries)), Txt '' records).''])))"

section \<open>The manifest is a hash chain\<close>

lemma evidence_body_hash [simp]: "evidence_body (r\<lparr>ee_entry_hash := h\<rparr>) = evidence_body r"
  by (simp add: evidence_body_def)

lemma evidence_hash_digest: "evidence_hash j = json_digest j"
  by (simp add: evidence_hash_def json_digest_def)

lemma evidence_body_wf: "json_wf (evidence_body e)"
  by (simp add: evidence_body_def)

lemma evidence_body_member:
  assumes "canonical_json (evidence_body e) = canonical_json (evidence_body e')"
  shows "map_option sort_keys (json_get k (evidence_body e)) =
         map_option sort_keys (json_get k (evidence_body e'))"
  by (intro canonical_json_member assms evidence_body_wf) (simp_all add: evidence_body_def)

interpretation evidence_chain:
  hash_chain ee_sequence ee_previous_hash ee_entry_hash evidence_body "\<lambda>h. h" EVIDENCE_GENESIS
    seal_entry "\<lambda>_. True"
proof (unfold_locales, goal_cases)
  case (5 r r')
  from evidence_body_member [OF 5(3), of "''previous_hash''"] show ?case
    by (simp add: evidence_body_def)
qed (simp_all add: seal_entry_def preliminary_entry_def Let_def evidence_hash_digest evidence_body_def)

abbreviation evidence_valid :: "evidence_entry list \<Rightarrow> bool" where
  "evidence_valid \<equiv>
     chain_valid ee_sequence ee_previous_hash ee_entry_hash evidence_body (\<lambda>h. h) EVIDENCE_GENESIS 1"

text \<open>The artifacts are on disk with the registered digests.\<close>

definition artifacts_match :: "artifacts \<Rightarrow> evidence_entry list \<Rightarrow> bool" where
  "artifacts_match fs es \<longleftrightarrow>
     list_all (\<lambda>e. map_option sha256_file (fs (ee_artifact_path e)) = Some (ee_artifact_sha256 e)) es"

lemma verify_entries_chain:
  "verify_entries fs b p n es = None \<longleftrightarrow>
     chain_valid ee_sequence ee_previous_hash ee_entry_hash evidence_body (\<lambda>h. h) p n es \<and>
     (b \<longrightarrow> artifacts_match fs es)"
  by (induction es arbitrary: p n) (auto simp: evidence_hash_digest artifacts_match_def)

lemma verify_evidence_manifest_iff:
  "verify_evidence_manifest fs b f = Inr (True, m) \<longleftrightarrow>
   (\<exists>es. read_manifest f = Inr es \<and> evidence_valid es \<and> (b \<longrightarrow> artifacts_match fs es) \<and>
      m = [Txt ''Evidence manifest valid ('', Num (int (length es)), Txt '' records).''])"
proof -
  have "verify_evidence_manifest fs b f = Inr (True, m) \<longleftrightarrow>
    (\<exists>es. read_manifest f = Inr es \<and> verify_entries fs b EVIDENCE_GENESIS 1 es = None \<and>
      m = [Txt ''Evidence manifest valid ('', Num (int (length es)), Txt '' records).''])"
    by (auto simp: verify_evidence_manifest_def result_simps split: option.splits)
  then show ?thesis by (simp only: verify_entries_chain conj_assoc)
qed

lemma preliminary_created: "ee_created_at (preliminary_entry d n p) = or_else (ea_now (es_args d)) (es_clock d)"
  by (simp add: preliminary_entry_def)

lemma register_evidence_seal:
  assumes "register_evidence fs path a uuid clock f = (Inr e, f')"
  shows "\<exists>es contents. read_manifest f = Inr es \<and> read_manifest f' = Inr (es @ [e]) \<and>
     fs path = Some contents \<and> aware (ee_created_at e) \<and>
     e = seal_entry \<lparr>es_path = path, es_contents = contents, es_args = a, es_uuid = uuid, es_clock = clock\<rparr>
           (next_seq ee_sequence es) (next_link ee_entry_hash (\<lambda>h. h) EVIDENCE_GENESIS es)"
proof -
  from assms obtain contents es where c: "fs path = Some contents" "read_manifest f = Inr es"
    by (auto simp: register_evidence_def result_simps split: option.splits)
  let ?d = "\<lparr>es_path = path, es_contents = contents, es_args = a, es_uuid = uuid, es_clock = clock\<rparr>"
  have e: "e = seal_entry ?d (next_seq ee_sequence es) (next_link ee_entry_hash (\<lambda>h. h) EVIDENCE_GENESIS es)"
    and f': "f' = append_line f e"
    and m: "aware (or_else (ea_now a) clock)"
    using assms c
    by (auto simp: register_evidence_def mk_evidence_entry_def require_def Let_def
        next_seq_def next_link_def preliminary_created split: if_splits)
  have "read_manifest f' = Inr (es @ [e])"
    using c(2) unfolding f' read_manifest_def by (rule read_log_file_append)
  moreover have "ee_created_at e = or_else (ea_now a) clock"
    by (simp add: e seal_entry_def preliminary_entry_def Let_def)
  ultimately show ?thesis using c e m by metis
qed

lemma seal_entry_artifact [simp]:
  "ee_artifact_path (seal_entry d n p) = es_path d"
  "ee_artifact_sha256 (seal_entry d n p) = sha256_file (es_contents d)"
  by (simp_all add: seal_entry_def preliminary_entry_def Let_def)

lemma register_evidence_valid:
  assumes "register_evidence fs path a uuid clock f = (Inr e, f')"
    and "verify_evidence_manifest fs True f = Inr (True, m)"
  shows "\<exists>m'. verify_evidence_manifest fs True f' = Inr (True, m')"
proof -
  from register_evidence_seal [OF assms(1)] obtain es contents where es:
    "read_manifest f = Inr es" "read_manifest f' = Inr (es @ [e])" "fs path = Some contents"
    and e: "e = seal_entry
        \<lparr>es_path = path, es_contents = contents, es_args = a, es_uuid = uuid, es_clock = clock\<rparr>
        (next_seq ee_sequence es) (next_link ee_entry_hash (\<lambda>h. h) EVIDENCE_GENESIS es)"
    by blast
  from assms(2) es(1) have v: "evidence_valid es" "artifacts_match fs es"
    by (auto simp: verify_evidence_manifest_iff)
  have "evidence_valid (es @ [e])"
    unfolding e by (rule evidence_chain.append_valid [OF v(1)])
  moreover have "artifacts_match fs (es @ [e])"
    using v(2) es(3) by (simp add: artifacts_match_def e)
  ultimately show ?thesis using es(2) by (auto simp: verify_evidence_manifest_iff)
qed

end
