(* ===== verification/ObservationModels.thy ===== *)
theory ObservationModels
  imports EvidenceStore
begin

text \<open>
  The evidence types of \<open>src/astp/observation.py\<close> and \<open>transport.py\<close>, their JSON forms
  (\<open>model_dump(mode="json")\<close>), the evidence hash with its verification, and the provenance rule.
\<close>

record resolved_endpoint =
  rs_hostname :: string
  rs_port :: int
  rs_addresses :: "string list"
  rs_connected :: "string option"
  rs_tls_protocol :: "string option"
  rs_tls_cipher :: "string option"
  rs_certificate :: "string option"

record redirect_observation =
  ro_target :: string
  ro_in_scope :: bool
  ro_same_origin :: bool
  ro_requires_new_permit :: bool
  ro_followed :: bool

datatype provenance_source = TARGET | ASTP_BOUNDARY | OFFLINE_DERIVED

fun provenance_value :: "provenance_source \<Rightarrow> string" where
  "provenance_value TARGET = ''target''"
| "provenance_value ASTP_BOUNDARY = ''astp_boundary''"
| "provenance_value OFFLINE_DERIVED = ''offline_derived''"

record response_provenance =
  rv_source :: provenance_source
  rv_observed :: bool
  rv_synthetic :: bool
  rv_producer :: string
  rv_reason :: "string option"

record boundary_decision =
  bd_producer :: string
  bd_reason :: string
  bd_redirect_followed :: "bool option"

record response_hop =
  hop_target :: string
  hop_status :: int
  hop_headers :: "(string \<times> string) list"
  hop_body_sha256 :: string
  hop_body_bytes :: int
  hop_provenance :: response_provenance

record body_artifact =
  art_persisted :: bool
  art_path :: string
  art_sha256 :: string
  art_size :: int
  art_sensitivity :: sensitivity_label

record http_evidence =
  he_schema_version :: string
  he_evidence_id :: string
  he_action_id :: string
  he_sensitivity :: sensitivity_label
  he_permit_id :: string
  he_engagement_id :: string
  he_test_id :: string
  he_observed_at :: datetime
  he_method :: string
  he_target :: string
  he_status_code :: int
  he_reason :: "string option"
  he_headers :: "(string \<times> string) list"
  he_content_type :: "string option"
  he_body_bytes :: int
  he_body_truncated :: bool
  he_body_sha256 :: string
  he_body_preview :: "string option"
  he_body_artifact :: "body_artifact option"
  he_redirect :: "redirect_observation option"
  he_endpoint :: "resolved_endpoint option"
  he_transport_failure :: "string option"
  he_provenance :: "response_provenance option"
  he_boundary :: "boundary_decision option"
  he_chain :: "response_hop list"
  he_evidence_hash :: string

definition mk_http_evidence :: "http_evidence \<Rightarrow> http_evidence result" where
  "mk_http_evidence e =
     rbind (require (aware (he_observed_at e)) [Txt ''observed_at must include a timezone'']) (\<lambda>_. Inr e)"

definition has_target_response_provenance :: "http_evidence \<Rightarrow> bool" where
  "has_target_response_provenance e =
     (case he_provenance e of
        None \<Rightarrow> False
      | Some p \<Rightarrow> rv_source p = TARGET \<and> rv_observed p \<and> \<not> rv_synthetic p)"

record failure_evidence =
  fe_schema_version :: string
  fe_evidence_id :: string
  fe_action_id :: string
  fe_sensitivity :: sensitivity_label
  fe_permit_id :: string
  fe_engagement_id :: string
  fe_test_id :: string
  fe_observed_at :: datetime
  fe_method :: string
  fe_target :: string
  fe_failure_kind :: string
  fe_evidence_hash :: string

section \<open>JSON forms\<close>

definition headers_json :: "(string \<times> string) list \<Rightarrow> json" where
  "headers_json hs = JObj (map (\<lambda>(k, v). (k, JStr v)) hs)"

definition endpoint_json :: "resolved_endpoint \<Rightarrow> json" where
  "endpoint_json r = JObj
     [(''hostname'', JStr (rs_hostname r)), (''port'', json_int (rs_port r)), (''addresses'', json_strs (rs_addresses r)),
      (''connected_address'', json_opt JStr (rs_connected r)), (''tls_protocol'', json_opt JStr (rs_tls_protocol r)),
      (''tls_cipher'', json_opt JStr (rs_tls_cipher r)), (''peer_certificate_sha256'', json_opt JStr (rs_certificate r))]"

definition redirect_json :: "redirect_observation \<Rightarrow> json" where
  "redirect_json r = JObj
     [(''target'', JStr (ro_target r)), (''in_scope'', JBool (ro_in_scope r)), (''same_origin'', JBool (ro_same_origin r)),
      (''requires_new_permit'', JBool (ro_requires_new_permit r)), (''followed'', JBool (ro_followed r))]"

definition provenance_json :: "response_provenance \<Rightarrow> json" where
  "provenance_json p = JObj
     [(''source'', JStr (provenance_value (rv_source p))), (''target_response_observed'', JBool (rv_observed p)),
      (''synthetic'', JBool (rv_synthetic p)), (''producer'', JStr (rv_producer p)), (''reason'', json_opt JStr (rv_reason p))]"

definition boundary_json :: "boundary_decision \<Rightarrow> json" where
  "boundary_json b = JObj
     [(''producer'', JStr (bd_producer b)), (''reason'', JStr (bd_reason b)),
      (''redirect_followed'', json_opt JBool (bd_redirect_followed b))]"

definition hop_json :: "response_hop \<Rightarrow> json" where
  "hop_json h = JObj
     [(''target'', JStr (hop_target h)), (''status_code'', json_int (hop_status h)),
      (''response_headers'', headers_json (hop_headers h)), (''body_sha256'', JStr (hop_body_sha256 h)),
      (''body_bytes_captured'', json_int (hop_body_bytes h)), (''provenance'', provenance_json (hop_provenance h))]"

definition body_artifact_json :: "body_artifact \<Rightarrow> json" where
  "body_artifact_json a = JObj
     [(''persisted'', JBool (art_persisted a)), (''path'', JStr (art_path a)), (''sha256'', JStr (art_sha256 a)),
      (''size_bytes'', json_int (art_size a)), (''sensitivity'', JStr (sensitivity_value (art_sensitivity a)))]"

text \<open>The dump without the hash.\<close>

definition http_evidence_fields :: "http_evidence \<Rightarrow> (string \<times> json) list" where
  "http_evidence_fields e =
     [(''schema_version'', JStr (he_schema_version e)), (''evidence_id'', JStr (he_evidence_id e)),
      (''action_id'', JStr (he_action_id e)), (''sensitivity'', JStr (sensitivity_value (he_sensitivity e))),
      (''permit_id'', JStr (he_permit_id e)), (''engagement_id'', JStr (he_engagement_id e)),
      (''test_id'', JStr (he_test_id e)), (''observed_at'', JStr (json_datetime (he_observed_at e))),
      (''method'', JStr (he_method e)), (''target'', JStr (he_target e)), (''status_code'', json_int (he_status_code e)),
      (''reason'', json_opt JStr (he_reason e)), (''response_headers'', headers_json (he_headers e)),
      (''content_type'', json_opt JStr (he_content_type e)), (''body_bytes_captured'', json_int (he_body_bytes e)),
      (''body_truncated'', JBool (he_body_truncated e)), (''body_sha256'', JStr (he_body_sha256 e)),
      (''body_preview'', json_opt JStr (he_body_preview e)), (''body_artifact'', json_opt body_artifact_json (he_body_artifact e)),
      (''redirect'', json_opt redirect_json (he_redirect e)), (''resolved_endpoint'', json_opt endpoint_json (he_endpoint e)),
      (''transport_failure'', json_opt JStr (he_transport_failure e)),
      (''response_provenance'', json_opt provenance_json (he_provenance e)),
      (''boundary'', json_opt boundary_json (he_boundary e)), (''response_chain'', JArr (map hop_json (he_chain e)))]"

definition failure_fields :: "failure_evidence \<Rightarrow> (string \<times> json) list" where
  "failure_fields e =
     [(''schema_version'', JStr (fe_schema_version e)), (''evidence_id'', JStr (fe_evidence_id e)),
      (''action_id'', JStr (fe_action_id e)), (''sensitivity'', JStr (sensitivity_value (fe_sensitivity e))),
      (''permit_id'', JStr (fe_permit_id e)), (''engagement_id'', JStr (fe_engagement_id e)),
      (''test_id'', JStr (fe_test_id e)), (''observed_at'', JStr (json_datetime (fe_observed_at e))),
      (''method'', JStr (fe_method e)), (''target'', JStr (fe_target e)), (''failure_kind'', JStr (fe_failure_kind e))]"

definition payload_hash :: "(string \<times> json) list \<Rightarrow> string" where
  "payload_hash dump = sha256_hex (canonical_json (JObj dump))"

text \<open>
  \<open>fields_set\<close> is what pydantic records: the keys the evidence was made from. A document of an older
  schema lacks some of the three additive fields, which the second digest leaves out.
\<close>

definition additive_fields :: "string list" where
  "additive_fields = [''response_provenance'', ''boundary'', ''response_chain'']"

definition verify_observation_evidence :: "string set \<Rightarrow> http_evidence \<Rightarrow> bool" where
  "verify_observation_evidence fields_set e =
     (if payload_hash (http_evidence_fields e) = he_evidence_hash e then True
      else let legacy_optional = filter (\<lambda>k. k \<notin> fields_set) additive_fields
           in if legacy_optional \<noteq> []
              then payload_hash (filter (\<lambda>kv. fst kv \<notin> set legacy_optional) (http_evidence_fields e)) = he_evidence_hash e
              else False)"

text \<open>\<open>json.dumps(value, indent=2, sort_keys=True)\<close> of the evidence files.\<close>

definition newline_indent :: "nat \<Rightarrow> string" where
  "newline_indent n = CHR 0x0A # replicate n (CHR '' '')"

function render_indented :: "nat \<Rightarrow> json \<Rightarrow> string" where
  "render_indented n (JArr xs) =
     (if xs = [] then ''[]''
      else ''['' @ newline_indent (n + 2) @ join ('','' @ newline_indent (n + 2)) (map (render_indented (n + 2)) xs) @
        newline_indent n @ '']'')"
| "render_indented n (JObj kvs) =
     (if kvs = [] then ''{}''
      else ''{'' @ newline_indent (n + 2) @ join ('','' @ newline_indent (n + 2))
          (map (\<lambda>kv. quote_str (fst kv) @ '': '' @ render_indented (n + 2) (snd kv)) kvs) @ newline_indent n @ ''}'')"
| "render_indented n JNull = ''null''"
| "render_indented n (JBool b) = (if b then ''true'' else ''false'')"
| "render_indented n (JNum s) = s"
| "render_indented n (JStr s) = quote_str s"
  by pat_completeness auto
termination
proof (relation "measure (\<lambda>(_, j). size j)", goal_cases)
  case (3 n kvs kv)
  obtain k v where "kv = (k, v)" by (cases kv)
  with 3(2) show ?case
    by (induction kvs) auto
qed (auto simp: size_list_estimation' less_Suc_eq_le)

definition evidence_file_text :: "(string \<times> json) list \<Rightarrow> string \<Rightarrow> string" where
  "evidence_file_text dump hash =
     render_indented 0 (sort_keys (JObj (dump @ [(''evidence_hash'', JStr hash)]))) @ [CHR 0x0A]"

section \<open>Facts about them\<close>

lemma sealed_evidence_verifies:
  "he_evidence_hash e = payload_hash (http_evidence_fields e) \<Longrightarrow> verify_observation_evidence fields_set e"
  by (simp add: verify_observation_evidence_def)

lemma http_evidence_fields_hash [simp]: "http_evidence_fields (e\<lparr>he_evidence_hash := h\<rparr>) = http_evidence_fields e"
  by (simp add: http_evidence_fields_def)

lemma failure_fields_hash [simp]: "failure_fields (e\<lparr>fe_evidence_hash := h\<rparr>) = failure_fields e"
  by (simp add: failure_fields_def)

end
