(* ===== verification/HttpTargets.thy ===== *)
theory HttpTargets
  imports PyPath PyJson PyHash
begin

text \<open>
  \<open>src/astp/action.py\<close>: the canonical form of an HTTP target, from which action identifiers and rate
  keys are digested. The main lemma says that the canonical form is a normal form: it parses to the
  components it was built from, so canonicalising it again changes nothing.
\<close>

definition canonical_host :: "string \<Rightarrow> string" where
  "canonical_host host = (if CHR '':'' \<in> set host \<and> \<not> startswith host ''['' then ''['' @ host @ '']'' else host)"

definition canonical_http_target :: "string \<Rightarrow> string result" where
  "canonical_http_target target =
     rbind (urlsplit target) (\<lambda>parsed.
       let scheme = str_lower (url_scheme parsed);
           host = str_lower (or_else (url_hostname parsed) [])
       in if scheme = [] \<or> host = [] then value_error ''HTTP target must include a scheme and hostname.''
          else (case url_port parsed of
                  Inl e \<Rightarrow> value_error ''HTTP target contains an invalid port.''
                | Inr port \<Rightarrow>
                    let default_port = (scheme = ''http'' \<and> port = Some 80 \<or> scheme = ''https'' \<and> port = Some 443);
                        netloc = canonical_host host @
                          (case port of None \<Rightarrow> [] | Some n \<Rightarrow> if default_port then [] else '':'' @ nat_str n);
                        path = (if url_path parsed = [] then ''/'' else url_path parsed)
                    in Inr (urlunsplit \<lparr>url_scheme = scheme, url_netloc = netloc, url_path = path,
                              url_query = url_query parsed, url_fragment = []\<rparr>)))"

definition http_action_id :: "string \<Rightarrow> string \<Rightarrow> string option \<Rightarrow> string result" where
  "http_action_id target method identity =
     rbind (canonical_http_target target) (\<lambda>t.
       Inr (sha256_hex (canonical_json (JObj
         [(''identity'', json_opt JStr identity), (''method'', JStr (str_upper method)), (''target'', JStr t)]))))"

definition http_target_rate_key :: "string \<Rightarrow> string result" where
  "http_target_rate_key target = rbind (canonical_http_target target) (\<lambda>t. Inr (sha256_hex t))"

section \<open>Splitting what was put together\<close>

text \<open>The characters \<open>urlsplit\<close> removes, and those that end a network location.\<close>

definition url_clean :: "string \<Rightarrow> bool" where
  "url_clean s \<longleftrightarrow> (\<forall>c \<in> set s. ord c \<notin> {9, 10, 13})"

lemma clean_url_clean: "url_clean (clean_url s)"
  by (auto simp: url_clean_def clean_url_def)

lemma clean_url_id: "url_clean s \<Longrightarrow> s = [] \<or> 32 < ord (hd s) \<Longrightarrow> clean_url s = s"
  by (cases s) (auto simp: url_clean_def clean_url_def)

lemma url_clean_append [simp]: "url_clean (a @ b) \<longleftrightarrow> url_clean a \<and> url_clean b"
  by (auto simp: url_clean_def)

lemma url_clean_Nil [simp]: "url_clean []"
  by (simp add: url_clean_def)

lemma url_clean_Cons: "url_clean (c # s) \<longleftrightarrow> ord c \<notin> {9, 10, 13} \<and> url_clean s"
  by (auto simp: url_clean_def)

lemma partition_at_parts: "partition_at c s = (a, sep, b) \<Longrightarrow> s = a @ sep @ b"
  by (induction c s arbitrary: a rule: partition_at.induct) (auto split: if_splits prod.splits)

lemma partition_at_nosep: "partition_at c s = (a, [], b) \<Longrightarrow> b = [] \<and> c \<notin> set s"
  by (induction c s arbitrary: a rule: partition_at.induct) (auto split: if_splits prod.splits)

text \<open>The components of a split text.\<close>

lemma urlsplit_parts:
  assumes "urlsplit s = Inr u"
  shows "url_clean (url_netloc u) \<and> url_clean (url_path u) \<and> url_clean (url_query u) \<and>
    set (url_netloc u) \<inter> {CHR ''/'', CHR ''?'', CHR ''#''} = {} \<and>
    CHR ''#'' \<notin> set (url_path u) \<and> CHR ''?'' \<notin> set (url_path u) \<and> CHR ''#'' \<notin> set (url_query u) \<and>
    (url_netloc u \<noteq> [] \<longrightarrow> url_path u = [] \<or> hd (url_path u) = CHR ''/'') \<and> url_clean (url_fragment u)"
proof -
  obtain scheme s1 where sc: "take_scheme (clean_url s) = (scheme, s1)" by fastforce
  then have c1: "url_clean s1"
    using clean_url_clean [of s] by (auto simp: take_scheme_def split: prod.splits if_splits dest!: partition_at_parts)
  from assms sc obtain netloc s2 where n: "take_netloc s1 = Inr (netloc, s2)" by (auto simp: urlsplit_def result_simps)
  obtain s3 x fragment where f: "partition_at (CHR ''#'') s2 = (s3, x, fragment)" by (cases "partition_at (CHR ''#'') s2")
  obtain path y query where q: "partition_at (CHR ''?'') s3 = (path, y, query)" by (cases "partition_at (CHR ''?'') s3")
  have u: "u = \<lparr>url_scheme = scheme, url_netloc = netloc, url_path = path, url_query = query, url_fragment = fragment\<rparr>"
    using assms by (simp add: urlsplit_def sc n f q)
  have net: "url_clean netloc \<and> url_clean s2 \<and> set netloc \<inter> {CHR ''/'', CHR ''?'', CHR ''#''} = {} \<and>
      (netloc \<noteq> [] \<longrightarrow> s2 = [] \<or> hd s2 \<in> {CHR ''/'', CHR ''?'', CHR ''#''})"
  proof (cases "startswith s1 ''//''")
    case True
    let ?stop = "\<lambda>c. c \<notin> {CHR ''/'', CHR ''?'', CHR ''#''}"
    from n True have nl: "netloc = takeWhile ?stop (drop 2 s1)" and "s2 = drop (length netloc) (drop 2 s1)"
      by (auto simp: take_netloc_def Let_def split: if_splits)
    then have s2: "s2 = dropWhile ?stop (drop 2 s1)" by (simp add: dropWhile_eq_drop)
    have "url_clean (drop 2 s1)" using c1 by (auto simp: url_clean_def dest: in_set_dropD)
    then have "url_clean netloc" "url_clean s2" unfolding nl s2 url_clean_def
      by (meson set_takeWhileD set_dropWhileD)+
    moreover have "set netloc \<inter> {CHR ''/'', CHR ''?'', CHR ''#''} = {}" unfolding nl by (auto dest: set_takeWhileD)
    moreover have "s2 = [] \<or> \<not> ?stop (hd s2)" unfolding s2 using hd_dropWhile by blast
    ultimately show ?thesis by blast
  next
    case False
    with n c1 show ?thesis by (simp add: take_netloc_def url_clean_def)
  qed
  note pf = partition_at_parts [OF f] partition_at_notin [OF f] and pq = partition_at_parts [OF q] partition_at_notin [OF q]
  have "url_clean path \<and> url_clean query \<and> url_clean fragment" using net pf(1) pq(1) by simp
  moreover have "CHR ''#'' \<notin> set path \<and> CHR ''#'' \<notin> set query" using pf(2) pq(1) by simp
  moreover have "path = [] \<or> hd path = CHR ''/''" if "netloc \<noteq> []"
  proof (cases path)
    case (Cons c cs)
    with pf(1) pq(1) have "s2 \<noteq> []" "hd s2 = c" by simp_all
    with net that Cons pq(2) pf(2) pq(1) show ?thesis by auto
  qed simp
  ultimately show ?thesis using net pq(2) by (simp add: u)
qed

text \<open>What \<open>urlsplit\<close> takes for a network location it takes again.\<close>

definition valid_netloc :: "string \<Rightarrow> bool" where
  "valid_netloc net \<longleftrightarrow> (CHR ''['' \<in> set net \<longleftrightarrow> CHR '']'' \<in> set net) \<and> (CHR ''['' \<in> set net \<longrightarrow> valid_bracketed net)"

lemma take_netloc_valid: "take_netloc s = Inr (net, r) \<Longrightarrow> valid_netloc net"
  by (auto simp: take_netloc_def valid_netloc_def Let_def split: if_splits)

lemma urlsplit_valid_netloc: "urlsplit s = Inr u \<Longrightarrow> valid_netloc (url_netloc u)"
proof -
  assume u: "urlsplit s = Inr u"
  obtain scheme s1 where sc: "take_scheme (clean_url s) = (scheme, s1)" by fastforce
  from u sc obtain net s2 where n: "take_netloc s1 = Inr (net, s2)" by (auto simp: urlsplit_def result_simps)
  with u sc have "url_netloc u = net" by (auto simp: urlsplit_def split: prod.splits)
  with take_netloc_valid [OF n] show ?thesis by simp
qed

text \<open>Splitting what was joined from an HTTP scheme, a network location, a rooted or empty path, a query and a fragment.\<close>

lemma urlsplit_joined:
  assumes "url_scheme v \<in> {''http'', ''https''}" "url_netloc v \<noteq> []" "set (url_netloc v) \<inter> {CHR ''/'', CHR ''?'', CHR ''#''} = {}"
    and "valid_netloc (url_netloc v)" "url_path v = [] \<or> hd (url_path v) = CHR ''/''"
    and "CHR ''#'' \<notin> set (url_path v)" "CHR ''?'' \<notin> set (url_path v)" "CHR ''#'' \<notin> set (url_query v)"
    and "url_clean (url_netloc v)" "url_clean (url_path v)" "url_clean (url_query v)" "url_clean (url_fragment v)"
  shows "urlsplit (urlunsplit v) = Inr v"
proof -
  obtain scheme net path query fragment where v: "v = \<lparr>url_scheme = scheme, url_netloc = net, url_path = path,
      url_query = query, url_fragment = fragment\<rparr>" by (cases v)
  note assms = assms [unfolded v, simplified]
  let ?front = "path @ (if query = [] then [] else ''?'' @ query)"
  let ?tail = "?front @ (if fragment = [] then [] else ''#'' @ fragment)"
  have shape: "urlunsplit v = scheme @ '':'' @ ''//'' @ net @ ?tail"
    using assms(1,2,5) by (cases path) (auto simp: v urlunsplit_def Let_def)
  have "url_clean scheme" "ord (hd scheme) > 32" "scheme \<noteq> []" using assms(1) by (auto simp: url_clean_def ord_def)
  moreover have "url_clean ?tail" "url_clean '':''" "url_clean ''//''"
    using assms(10,11,12) by (auto simp: url_clean_def ord_def)
  ultimately have clean: "clean_url (scheme @ '':'' @ ''//'' @ net @ ?tail) = scheme @ '':'' @ ''//'' @ net @ ?tail"
    using assms(9) by (intro clean_url_id) (auto simp: url_clean_Cons)
  have part: "partition_at (CHR '':'') (scheme @ '':'' @ ''//'' @ net @ ?tail) = (scheme, '':'', ''//'' @ net @ ?tail)"
    using partition_at_fresh [of "CHR '':''" scheme "''//'' @ net @ ?tail"] assms(1) by auto
  have "is_alpha (hd scheme)" "list_all scheme_char scheme" "str_lower scheme = scheme"
    using assms(1) by (elim disjE; simp; code_simp)+
  with part \<open>scheme \<noteq> []\<close> have sc: "take_scheme (scheme @ '':'' @ ''//'' @ net @ ?tail) = (scheme, ''//'' @ net @ ?tail)"
    by (simp add: take_scheme_def)
  have tw: "takeWhile (\<lambda>c. c \<notin> {CHR ''/'', CHR ''?'', CHR ''#''}) (net @ ?tail) = net"
    using assms(3,5) by (cases path) (auto simp: takeWhile_append)
  have tn: "take_netloc (''//'' @ net @ ?tail) = Inr (net, ?tail)"
    using tw assms(4) by (simp add: take_netloc_def valid_netloc_def Let_def)
  have fr: "partition_at (CHR ''#'') ?tail = (?front, (if fragment = [] then [] else ''#''), fragment)"
    using assms(6,8) partition_at_fresh [of "CHR ''#''" ?front fragment] partition_at_none [of "CHR ''#''" ?front] by auto
  have qu: "partition_at (CHR ''?'') ?front = (path, (if query = [] then [] else ''?''), query)"
    using assms(7) partition_at_fresh [of "CHR ''?''" path query] partition_at_none [of "CHR ''?''" path] by auto
  show ?thesis
    unfolding shape urlsplit_def clean sc by (simp only: Let_def prod.case tn rbind.simps fr qu v)
qed

section \<open>The normal form\<close>

lemma str_lower_absent: "\<not> is_lower d \<Longrightarrow> d \<notin> set s \<Longrightarrow> d \<notin> set (str_lower s)"
proof -
  assume d: "\<not> is_lower d" "d \<notin> set s"
  have "char_lower c \<noteq> d" if "c \<noteq> d" for c
  proof (cases "is_upper c")
    case True
    then have "65 \<le> ord c" "ord c \<le> 90" by (auto simp: is_upper_def)
    then have "is_lower (char_of (ord c + 32))" by (simp add: is_lower_def ord_char_of)
    with True d(1) show ?thesis by (auto simp: char_lower_def)
  qed (use that in \<open>simp add: char_lower_def\<close>)
  note other = this
  show ?thesis
  proof
    assume "d \<in> set (str_lower s)"
    then obtain c where c: "c \<in> set s" "d = char_lower c" by (auto simp: str_lower_def)
    with d(2) have "c \<noteq> d" by auto
    with other c(2) show False by metis
  qed
qed

lemma url_clean_lower: "url_clean s \<Longrightarrow> url_clean (str_lower s)"
proof -
  assume s: "url_clean s"
  have c: "ord (char_lower c) \<in> {9, 10, 13} \<Longrightarrow> ord c \<in> {9, 10, 13}" for c
    by (auto simp: char_lower_def is_upper_def ord_char_of split: if_splits)
  from s c show ?thesis by (auto simp: url_clean_def str_lower_def)
qed

lemma rpartition_last:
  assumes "rpartition_at c s = (a, sep, b)"
  shows "c \<notin> set b \<and> set b \<subseteq> set s"
proof -
  obtain x y z where p: "partition_at c (rev s) = (x, y, z)" by (cases "partition_at c (rev s)")
  from partition_at_parts [OF p] have "set x \<subseteq> set s" by (metis set_append set_rev sup_ge1)
  moreover have "c \<notin> set x" by (rule partition_at_notin [OF p])
  moreover have "b = s \<and> x = rev s \<or> b = rev x"
    using assms p partition_at_nosep [of c "rev s" x z] partition_at_parts [OF p] by (auto simp: rpartition_at_def split: if_splits)
  ultimately show ?thesis by auto
qed

lemma rpartition_none: "c \<notin> set s \<Longrightarrow> rpartition_at c s = ([], [], s)"
  using partition_at_none [of c "rev s"] by (simp add: rpartition_at_def)

text \<open>Host and port of a network location without user and brackets.\<close>

definition plain_host :: "string \<Rightarrow> bool" where
  "plain_host h \<longleftrightarrow> h \<noteq> [] \<and> set h \<inter> {CHR ''/'', CHR ''?'', CHR ''#'', CHR ''['', CHR '']'', CHR ''@'', CHR '':''} = {} \<and> url_clean h"

lemma hostinfo_plain:
  assumes "url_netloc u = h @ (case port of None \<Rightarrow> [] | Some n \<Rightarrow> '':'' @ nat_str n)" "plain_host h"
  shows "hostinfo u = (h, case port of None \<Rightarrow> [] | Some n \<Rightarrow> nat_str n)"
proof -
  have digits: "set (nat_str n) \<inter> {CHR ''['', CHR ''@'', CHR '':''} = {}" for n
    using nat_str_digits [of n] by (auto simp: list_all_iff is_digit_def ord_def)
  let ?t = "case port of None \<Rightarrow> [] | Some n \<Rightarrow> '':'' @ nat_str n"
  have "CHR ''@'' \<notin> set (h @ ?t)" "CHR ''['' \<notin> set (h @ ?t)"
    using assms(2) digits by (auto simp: plain_host_def split: option.splits)
  then have "rpartition_at (CHR ''@'') (h @ ?t) = ([], [], h @ ?t)" "partition_at (CHR ''['') (h @ ?t) = (h @ ?t, [], [])"
    by (simp_all add: rpartition_none partition_at_none)
  moreover have "partition_at (CHR '':'') (h @ ?t) = (h, (case port of None \<Rightarrow> [] | Some n \<Rightarrow> '':''), case port of None \<Rightarrow> [] | Some n \<Rightarrow> nat_str n)"
    using assms(2) partition_at_fresh [of "CHR '':''" h] partition_at_none [of "CHR '':''" h]
    by (auto simp: plain_host_def split: option.splits)
  ultimately show ?thesis using assms(1) by (simp add: hostinfo_def Let_def)
qed

lemma hostname_lower:
  assumes "fst (hostinfo u) = h" "h \<noteq> []" "str_lower h = h"
  shows "str_lower (or_else (url_hostname u) []) = h"
proof -
  obtain a sep z where p: "partition_at (CHR ''%'') h = (a, sep, z)" by (cases "partition_at (CHR ''%'') h")
  from partition_at_parts [OF p] have "str_lower (str_lower a @ sep @ z) = str_lower h" by simp
  with assms p show ?thesis by (simp add: url_hostname_def Let_def)
qed

lemma hostname_plain:
  assumes "urlsplit s = Inr u" "CHR ''['' \<notin> set (url_netloc u)" "url_hostname u = Some h"
  shows "plain_host (str_lower h)"
proof -
  obtain a sep info where i: "rpartition_at (CHR ''@'') (url_netloc u) = (a, sep, info)" by (cases "rpartition_at (CHR ''@'') (url_netloc u)")
  note info = rpartition_last [OF i]
  have "CHR ''['' \<notin> set info" using info assms(2) by blast
  then have nb: "partition_at (CHR ''['') info = (info, [], [])" by (rule partition_at_none)
  obtain host x port where q: "partition_at (CHR '':'') info = (host, x, port)" by (cases "partition_at (CHR '':'') info")
  have hi: "hostinfo u = (host, port)" by (simp add: hostinfo_def i nb q)
  obtain b y z where p: "partition_at (CHR ''%'') host = (b, y, z)" by (cases "partition_at (CHR ''%'') host")
  from assms(3) hi p have h: "h = str_lower b @ y @ z" "host \<noteq> []" by (auto simp: url_hostname_def split: if_splits)
  from partition_at_parts [OF p] have low: "str_lower h = str_lower host" by (simp add: h(1))
  have sub: "set host \<subseteq> set (url_netloc u)" using partition_at_parts [OF q] info by auto
  have "CHR '':'' \<notin> set host" using partition_at_notin [OF q] .
  moreover have "CHR ''@'' \<notin> set host" using info partition_at_parts [OF q] by auto
  moreover have "CHR '']'' \<notin> set (url_netloc u)" using urlsplit_valid_netloc [OF assms(1)] assms(2) by (simp add: valid_netloc_def)
  moreover note parts = urlsplit_parts [OF assms(1)]
  ultimately have absent: "set host \<inter> {CHR ''/'', CHR ''?'', CHR ''#'', CHR ''['', CHR '']'', CHR ''@'', CHR '':''} = {}"
    using sub assms(2) by blast
  have "url_clean host" using parts sub by (auto simp: url_clean_def)
  moreover have "d \<notin> set (str_lower host)" if "d \<in> {CHR ''/'', CHR ''?'', CHR ''#'', CHR ''['', CHR '']'', CHR ''@'', CHR '':''}" for d
  proof (rule str_lower_absent)
    show "\<not> is_lower d" using that by (auto simp: is_lower_def ord_def)
    show "d \<notin> set host" using that absent by blast
  qed
  ultimately show ?thesis unfolding plain_host_def low using h(2) url_clean_lower by (auto simp: str_lower_def)
qed

lemma canonical_http_target_normal:
  assumes "canonical_http_target t = Inr c" "urlsplit t = Inr u" "url_scheme u \<in> {''http'', ''https''}"
    and "CHR ''['' \<notin> set (url_netloc u)"
  obtains v where "urlsplit c = Inr v" "url_scheme v = url_scheme u" "url_query v = url_query u" "url_fragment v = []"
    "url_path v = (if url_path u = [] then ''/'' else url_path u)"
    "str_lower (or_else (url_hostname v) []) = str_lower (or_else (url_hostname u) [])"
    "CHR ''@'' \<notin> set (url_netloc v)" "canonical_http_target c = Inr c"
proof -
  let ?s = "url_scheme u" and ?path = "if url_path u = [] then ''/'' else url_path u"
  have low: "str_lower ?s = ?s" using assms(3) by (elim insertE emptyE; simp; code_simp)
  from assms(1,2) low obtain h port where h: "url_hostname u = Some h" "url_port u = Inr port"
    and c: "c = urlunsplit \<lparr>url_scheme = ?s, url_netloc = canonical_host (str_lower h) @
        (case port of None \<Rightarrow> [] | Some n \<Rightarrow>
           if ?s = ''http'' \<and> port = Some 80 \<or> ?s = ''https'' \<and> port = Some 443 then [] else '':'' @ nat_str n),
      url_path = ?path, url_query = url_query u, url_fragment = []\<rparr>"
  proof -
    have e: "str_lower [] = []" by (simp add: str_lower_def)
    from assms(1,2) low e that show ?thesis
      by (cases "url_hostname u"; cases "url_port u") (simp_all add: canonical_http_target_def Let_def split: if_splits)
  qed
  define kept where "kept = (if ?s = ''http'' \<and> port = Some 80 \<or> ?s = ''https'' \<and> port = Some 443 then None else port)"
  have plain: "plain_host (str_lower h)" by (rule hostname_plain [OF assms(2,4) h(1)])
  then have ch: "canonical_host (str_lower h) = str_lower h" by (auto simp: canonical_host_def plain_host_def)
  let ?net = "str_lower h @ (case kept of None \<Rightarrow> [] | Some n \<Rightarrow> '':'' @ nat_str n)"
  let ?v = "\<lparr>url_scheme = ?s, url_netloc = ?net, url_path = ?path, url_query = url_query u, url_fragment = []\<rparr>"
  have net: "canonical_host (str_lower h) @ (case port of None \<Rightarrow> [] | Some n \<Rightarrow>
       if ?s = ''http'' \<and> port = Some 80 \<or> ?s = ''https'' \<and> port = Some 443 then [] else '':'' @ nat_str n) = ?net"
    by (auto simp: ch kept_def split: option.splits)
  have c': "c = urlunsplit ?v" unfolding c net ..
  note parts = urlsplit_parts [OF assms(2)]
  have digits: "set (nat_str n) \<inter> {CHR ''/'', CHR ''?'', CHR ''#'', CHR ''['', CHR '']'', CHR ''@''} = {}" "url_clean (nat_str n)" for n
    using nat_str_digits [of n] by (auto simp: list_all_iff is_digit_def ord_def url_clean_def)
  have "h \<noteq> []" using plain by (auto simp: plain_host_def str_lower_def)
  then have nonempty: "url_netloc u \<noteq> []" using h(1) by (auto simp: url_hostname_def hostinfo_def rpartition_at_def Let_def split: if_splits)
  have net_ok: "set ?net \<inter> {CHR ''/'', CHR ''?'', CHR ''#'', CHR ''['', CHR '']''} = {}" "CHR ''@'' \<notin> set ?net" "url_clean ?net" "?net \<noteq> []"
    using plain digits by (auto simp: plain_host_def url_clean_Cons ord_def split: option.splits)
  have split: "urlsplit c = Inr ?v"
    unfolding c' using parts nonempty net_ok assms(3)
    by (intro urlsplit_joined) (auto simp: valid_netloc_def url_clean_Cons ord_def url_clean_def split: if_splits)
  have hi: "hostinfo ?v = (str_lower h, case kept of None \<Rightarrow> [] | Some n \<Rightarrow> nat_str n)"
    by (rule hostinfo_plain [OF _ plain]) simp
  have host: "str_lower (or_else (url_hostname ?v) []) = str_lower h"
    by (rule hostname_lower) (use hi plain in \<open>simp_all add: plain_host_def\<close>)
  have bound: "n \<le> 65535" if "kept = Some n" for n
    using that url_port_bound h(2) by (auto simp: kept_def split: if_splits)
  have port: "url_port ?v = Inr kept"
    using bound nat_str_digits by (auto simp: url_port_def hi Let_def all_digits_def split: option.splits)
  have scheme: "?s \<noteq> []" using assms(3) by auto
  have "canonical_http_target c = Inr c"
    unfolding canonical_http_target_def split using host port low plain scheme
    by (auto simp: ch c' plain_host_def kept_def Let_def split: option.splits)
  with that split host h(1) net_ok(2) show ?thesis by simp
qed

end
