(* ===== verification/Redaction.thy ===== *)
theory Redaction
  imports HttpTargets Models
begin

text \<open>
  The redaction of \<open>src/astp/observation.py\<close>: query parameters, headers, inline secrets, JSON fields
  and the body preview, with what they use of \<open>urllib.parse\<close> (\<open>parse_qsl\<close>, \<open>urlencode\<close>)
  and of \<open>re\<close>. Codecs and the JSON parser are arguments of the preview: they are given the body
  bytes and a charset, or a text.
\<close>

section \<open>\<open>parse_qsl\<close> and \<open>urlencode\<close>\<close>

definition plus_to_space :: "string \<Rightarrow> string" where
  "plus_to_space s = map (\<lambda>c. if c = CHR ''+'' then CHR '' '' else c) s"

definition parse_pair :: "string \<Rightarrow> string \<times> string" where
  "parse_pair s = (case partition_at (CHR ''='') s of (n, _, v) \<Rightarrow> (unquote (plus_to_space n), unquote (plus_to_space v)))"

text \<open>\<open>parse_qsl(query, keep_blank_values=True)\<close>: empty pieces are skipped.\<close>

definition parse_qsl :: "string \<Rightarrow> (string \<times> string) list" where
  "parse_qsl query = map parse_pair (filter (\<lambda>p. p \<noteq> []) (split_on (CHR ''&'') query))"

definition unreserved :: "char \<Rightarrow> bool" where
  "unreserved c \<longleftrightarrow> is_alpha c \<or> is_digit c \<or> c \<in> {CHR ''_'', CHR ''.'', CHR ''-'', CHR ''~''}"

definition upper_hex :: "nat \<Rightarrow> char" where
  "upper_hex n = ''0123456789ABCDEF'' ! (n mod 16)"

definition quote_plus_char :: "char \<Rightarrow> string" where
  "quote_plus_char c =
     (if unreserved c then [c] else if c = CHR '' '' then ''+''
      else [CHR ''%'', upper_hex (ord c div 16), upper_hex (ord c)])"

definition quote_plus :: "string \<Rightarrow> string" where
  "quote_plus s = concat (map quote_plus_char s)"

definition urlencode :: "(string \<times> string) list \<Rightarrow> string" where
  "urlencode q = join ''&'' (map (\<lambda>(n, v). quote_plus n @ ''='' @ quote_plus v) q)"

section \<open>Query parameters and headers\<close>

definition SENSITIVE_QUERY_NAMES :: "string list" where
  "SENSITIVE_QUERY_NAMES = [''access_token'', ''api_key'', ''apikey'', ''auth'', ''authorization'', ''key'', ''password'',
     ''passwd'', ''secret'', ''session'', ''sig'', ''signature'', ''token'']"

definition SENSITIVE_HEADER_NAMES :: "string list" where
  "SENSITIVE_HEADER_NAMES = [''authorization'', ''proxy-authorization'', ''cookie'', ''set-cookie'', ''x-api-key'',
     ''api-key'', ''x-auth-token'']"

definition REDACTED :: string where
  "REDACTED = ''[REDACTED]''"

definition redact_pair :: "string list \<Rightarrow> string \<times> string \<Rightarrow> string \<times> string" where
  "redact_pair names = (\<lambda>(name, value). (name, if str_lower name \<in> set names then REDACTED else value))"

definition redact_url :: "string \<Rightarrow> string list \<Rightarrow> string result" where
  "redact_url value extra =
     rbind (urlsplit value) (\<lambda>parsed.
       let sensitive_names = SENSITIVE_QUERY_NAMES @ extra
       in Inr (urlunsplit (parsed\<lparr>url_query :=
            urlencode (map (redact_pair sensitive_names) (parse_qsl (url_query parsed)))\<rparr>)))"

section \<open>Inline secrets\<close>

text \<open>
  \<open>pattern.sub\<close>: a matcher gives, for a match at the front of the text, its first group and its length;
  \<open>skip\<close> counts the characters of the last match still to pass over.
\<close>

fun sub_matches :: "(string \<Rightarrow> (string \<times> nat) option) \<Rightarrow> nat \<Rightarrow> string \<Rightarrow> string" where
  "sub_matches m skip [] = []"
| "sub_matches m (Suc skip) (c # s) = sub_matches m skip s"
| "sub_matches m 0 (c # s) =
     (case m (c # s) of
        None \<Rightarrow> c # sub_matches m 0 s
      | Some (g, n) \<Rightarrow> g @ REDACTED @ sub_matches m (n - 1) s)"

definition prefix_ci :: "string \<Rightarrow> string \<Rightarrow> bool" where
  "prefix_ci p s \<longleftrightarrow> str_lower (take (length p) s) = p"

definition token_char :: "char \<Rightarrow> bool" where
  "token_char c \<longleftrightarrow> is_alpha c \<or> is_digit c \<or> c \<in> set ''._~+-/''"

text \<open>\<open>(?i)(bearer\s+)[A-Za-z0-9._~+\-/]+=*\<close>.\<close>

definition match_bearer :: "string \<Rightarrow> (string \<times> nat) option" where
  "match_bearer s =
     (if prefix_ci ''bearer'' s
      then (let r = drop 6 s; space = takeWhile is_space r;
                t = drop (length space) r; tok = takeWhile token_char t;
                eqs = takeWhile (\<lambda>c. c = CHR ''='') (drop (length tok) t)
            in if space = [] \<or> tok = [] then None
               else Some (take 6 s @ space, 6 + length space + length tok + length eqs))
      else None)"

definition SECRET_FIELD_NAMES :: "string list" where
  "SECRET_FIELD_NAMES = [''access_token'', ''api_key'', ''apikey'', ''password'', ''secret'', ''token'']"

definition is_quote :: "char \<Rightarrow> bool" where
  "is_quote c \<longleftrightarrow> c = CHR 0x22 \<or> c = CHR 0x27"

text \<open>The length of an optional quotation mark at the front.\<close>

definition quote_length :: "string \<Rightarrow> nat" where
  "quote_length s = (if s \<noteq> [] \<and> is_quote (hd s) then 1 else 0)"

text \<open>
  \<open>(?i)(["']?(?:access_token|...|token)["']?\s*[:=]\s*["']?)[^\s,;"']+\<close>. No name is a prefix of another
  and neighbouring pieces start with different characters, so the match needs no backtracking.
\<close>

definition match_assignment :: "string \<Rightarrow> (string \<times> nat) option" where
  "match_assignment s =
     (let s1 = drop (quote_length s) s
      in case List.find (\<lambda>name. prefix_ci name s1) SECRET_FIELD_NAMES of
           None \<Rightarrow> None
         | Some name \<Rightarrow>
             let s2 = drop (length name) s1;
                 s3 = dropWhile is_space (drop (quote_length s2) s2)
             in if s3 = [] \<or> hd s3 \<notin> {CHR '':'', CHR ''=''} then None
                else let s4 = dropWhile is_space (tl s3);
                         s5 = drop (quote_length s4) s4;
                         value = takeWhile (\<lambda>c. \<not> is_space c \<and> \<not> is_quote c \<and> c \<noteq> CHR '','' \<and> c \<noteq> CHR '';'') s5;
                         front = length s - length s5
                     in if value = [] then None else Some (take front s, front + length value))"

definition redact_inline_secrets :: "string \<Rightarrow> string" where
  "redact_inline_secrets value = sub_matches match_assignment 0 (sub_matches match_bearer 0 value)"

definition redact_headers :: "(string \<times> string) list \<Rightarrow> string list \<Rightarrow> (string \<times> string) list" where
  "redact_headers headers extra =
     map (\<lambda>(name, value). (name, if str_lower name \<in> set (SENSITIVE_HEADER_NAMES @ extra) then REDACTED
                                  else redact_inline_secrets value)) headers"

section \<open>The body preview\<close>

definition media_type_of :: "string \<Rightarrow> string" where
  "media_type_of content_type = str_lower (strip (fst (partition_at (CHR '';'') content_type)))"

definition is_textual :: "string option \<Rightarrow> bool" where
  "is_textual content_type =
     (case content_type of
        None \<Rightarrow> False
      | Some ct \<Rightarrow> ct \<noteq> [] \<and>
          (let media_type = media_type_of ct
           in startswith media_type ''text/'' \<or> endswith media_type ''+json'' \<or> endswith media_type ''+xml'' \<or>
              media_type \<in> {''application/json'', ''application/xml'', ''application/javascript''}))"

function redact_json_fields :: "string list \<Rightarrow> json \<Rightarrow> json" where
  "redact_json_fields names (JObj kvs) =
     JObj (map (\<lambda>kv. (fst kv, if str_lower (fst kv) \<in> set names then JStr REDACTED
                              else redact_json_fields names (snd kv))) kvs)"
| "redact_json_fields names (JArr xs) = JArr (map (redact_json_fields names) xs)"
| "redact_json_fields names JNull = JNull"
| "redact_json_fields names (JBool b) = JBool b"
| "redact_json_fields names (JNum n) = JNum n"
| "redact_json_fields names (JStr s) = JStr s"
  by pat_completeness auto
termination
proof (relation "measure (\<lambda>(_, j). size j)", goal_cases)
  case (2 names kvs kv)
  obtain k v where "kv = (k, v)" by (cases kv)
  with 2(1) show ?case
    by (induction kvs) auto
qed (auto simp: size_list_estimation' less_Suc_eq_le)

definition strip_of :: "(char \<Rightarrow> bool) \<Rightarrow> string \<Rightarrow> string" where
  "strip_of p s = rstrip_of p (dropWhile p s)"

text \<open>The first \<open>charset\<close> parameter of a content type.\<close>

fun charset_in :: "string list \<Rightarrow> string" where
  "charset_in [] = ''utf-8''"
| "charset_in (part # parts) =
     (case partition_at (CHR ''='') (strip part) of (name, sep, value) \<Rightarrow>
        if sep \<noteq> [] \<and> str_lower name = ''charset'' \<and> value \<noteq> []
        then strip_of (\<lambda>c. c = CHR 0x22) (strip value) else charset_in parts)"

definition preview_charset :: "string \<Rightarrow> string" where
  "preview_charset content_type = charset_in (tl (split_on (CHR '';'') content_type))"

text \<open>
  \<open>decode\<close> is \<open>bytes.decode(charset, errors="replace")\<close>, \<open>None\<close> where the charset is unknown
  (\<open>LookupError\<close>); \<open>loads\<close> is \<open>json.loads\<close>, \<open>None\<close> where the text is no JSON.
\<close>

record codecs =
  cod_decode :: "string \<Rightarrow> string \<Rightarrow> string option"
  cod_loads :: "string \<Rightarrow> json option"

definition MAX_PREVIEW_CHARS :: nat where
  "MAX_PREVIEW_CHARS = 4096"

definition dumps_sorted :: "json \<Rightarrow> string" where
  "dumps_sorted j = render '', '' '': '' (sort_keys j)"

definition decode_preview :: "codecs \<Rightarrow> string \<Rightarrow> string option \<Rightarrow> string list \<Rightarrow> string option" where
  "decode_preview cod body content_type names =
     (case content_type of
        None \<Rightarrow> None
      | Some ct \<Rightarrow>
          if body = [] \<or> \<not> is_textual content_type then None
          else
            (let body_text = (case cod_decode cod (preview_charset ct) body of
                                Some t \<Rightarrow> t
                              | None \<Rightarrow> or_else (cod_decode cod ''utf-8'' body) []);
                 preview = take MAX_PREVIEW_CHARS body_text;
                 media_type = media_type_of ct;
                 shown = (if names \<noteq> [] \<and> (media_type = ''application/json'' \<or> endswith media_type ''+json'')
                          then (case cod_loads cod preview of
                                  None \<Rightarrow> preview
                                | Some parsed \<Rightarrow> dumps_sorted (redact_json_fields names parsed))
                          else preview)
             in Some (redact_inline_secrets shown)))"

section \<open>Facts about them\<close>

lemma split_on_fresh: "c \<notin> set s \<Longrightarrow> split_on c s = [s]"
  by (induction s) auto

lemma split_on_prefix: "c \<notin> set s \<Longrightarrow> split_on c (s @ c # t) = s # split_on c t"
  by (induction s) auto

lemma split_on_join: "ws \<noteq> [] \<Longrightarrow> \<forall>w \<in> set ws. c \<notin> set w \<Longrightarrow> split_on c (join [c] ws) = ws"
proof (induction ws)
  case (Cons w ws)
  then show ?case
    by (cases ws) (simp_all add: split_on_fresh split_on_prefix)
qed simp

text \<open>Quoting leaves no separator, and unquoting undoes it.\<close>

lemma upper_hex_value [simp]: "hex_value (upper_hex n) = Some (n mod 16)"
proof -
  have "n mod 16 < 16" by simp
  then have "n mod 16 \<in> set [0..<16]" by simp
  then show ?thesis unfolding upper_hex_def
    by (simp add: upt_rec hex_value_def is_digit_def ord_def) (elim disjE; simp)
qed

lemma upper_hex_unreserved: "unreserved (upper_hex n)"
proof -
  have "n mod 16 < 16" by simp
  then have "n mod 16 \<in> set [0..<16]" by simp
  then show ?thesis unfolding upper_hex_def
    by (simp add: upt_rec unreserved_def is_digit_def is_alpha_def is_upper_def is_lower_def ord_def) (elim disjE; simp)
qed

lemma quote_plus_chars: "c \<in> set (quote_plus s) \<Longrightarrow> unreserved c \<or> c = CHR ''+'' \<or> c = CHR ''%''"
  by (auto simp: quote_plus_def quote_plus_char_def upper_hex_unreserved split: if_splits)

lemma quote_plus_absent:
  "CHR ''&'' \<notin> set (quote_plus s)" "CHR ''='' \<notin> set (quote_plus s)" "CHR ''#'' \<notin> set (quote_plus s)" "CHR ''['' \<notin> set (quote_plus s)"
  by (auto dest!: quote_plus_chars simp: unreserved_def is_alpha_def is_upper_def is_lower_def is_digit_def ord_def)

lemma url_clean_quote_plus: "c \<in> set (quote_plus s) \<Longrightarrow> 32 < ord c"
  using quote_plus_chars [of c s]
  by (auto simp: unreserved_def is_alpha_def is_upper_def is_lower_def is_digit_def ord_def)

lemma unquote_plain: "c \<noteq> CHR ''%'' \<Longrightarrow> unquote (c # s) = c # unquote s"
  by (cases s; cases "tl s") auto

lemma plus_to_space_append: "plus_to_space (a @ b) = plus_to_space a @ plus_to_space b"
  by (simp add: plus_to_space_def)

lemma unreserved_plain: "unreserved c \<Longrightarrow> c \<noteq> CHR ''%'' \<and> c \<noteq> CHR ''+''"
  by (auto simp: unreserved_def is_alpha_def is_upper_def is_lower_def is_digit_def ord_def)

lemma unquote_quote_plus: "unquote (plus_to_space (quote_plus s)) = s"
proof (induction s)
  case Nil
  then show ?case by (simp add: quote_plus_def plus_to_space_def)
next
  case (Cons c s)
  have split: "quote_plus (c # s) = quote_plus_char c @ quote_plus s" by (simp add: quote_plus_def)
  consider "unreserved c" | "\<not> unreserved c" "c = CHR '' ''" | "\<not> unreserved c" "c \<noteq> CHR '' ''" by blast
  then show ?case
  proof cases
    case 1
    with Cons unreserved_plain [of c] show ?thesis
      by (simp add: split quote_plus_char_def plus_to_space_append) (simp add: plus_to_space_def unquote_plain)
  next
    case 2
    with Cons split show ?thesis
      by (simp add: quote_plus_char_def plus_to_space_append) (simp add: plus_to_space_def unquote_plain)
  next
    case 3
    have "char_of (16 * (ord c div 16 mod 16) + ord c mod 16) = c"
    proof -
      have "16 * (ord c div 16 mod 16) + ord c mod 16 = ord c mod 256"
        using mod_mult2_eq [of "ord c" 16 16] by simp
      then show ?thesis by (simp add: ord_def)
    qed
    moreover have "upper_hex n \<noteq> CHR ''+''" for n using unreserved_plain [OF upper_hex_unreserved] by blast
    ultimately show ?thesis using Cons 3
      by (simp add: split quote_plus_char_def plus_to_space_append) (simp add: plus_to_space_def)
  qed
qed

theorem parse_qsl_urlencode: "parse_qsl (urlencode q) = q"
proof (cases q)
  case Nil
  then show ?thesis by (simp add: urlencode_def parse_qsl_def)
next
  case (Cons x xs)
  let ?piece = "\<lambda>(n, v). quote_plus n @ ''='' @ quote_plus v"
  have "\<forall>w \<in> set (map ?piece q). CHR ''&'' \<notin> set w" using quote_plus_absent(1) by auto
  then have "split_on (CHR ''&'') (urlencode q) = map ?piece q"
    using split_on_join [of "map ?piece q" "CHR ''&''"] Cons by (simp add: urlencode_def)
  moreover have "filter (\<lambda>p. p \<noteq> []) (map ?piece q) = map ?piece q" by (intro filter_True) auto
  moreover have "parse_pair (?piece p) = p" for p
    using quote_plus_absent(2) partition_at_fresh [of "CHR ''=''" "quote_plus (fst p)" "quote_plus (snd p)"]
    by (auto simp: parse_pair_def unquote_quote_plus split: prod.splits)
  ultimately show ?thesis by (simp add: parse_qsl_def map_idI)
qed

lemma redact_pair_idem: "redact_pair names (redact_pair names p) = redact_pair names p"
  by (cases p) (simp add: redact_pair_def)

lemma urlencode_chars: "c \<in> set (urlencode q) \<Longrightarrow> 32 < ord c \<and> c \<noteq> CHR ''#'' \<and> c \<noteq> CHR ''[''"
proof -
  assume c: "c \<in> set (urlencode q)"
  have join_set: "set (join sep ws) \<subseteq> set sep \<union> \<Union> (set (map set ws))" for sep ws
    by (induction sep ws rule: join.induct) auto
  from c join_set [of "''&''"] have "c = CHR ''&'' \<or> c = CHR ''='' \<or> (\<exists>s. c \<in> set (quote_plus s))"
    unfolding urlencode_def by fastforce
  then show ?thesis using url_clean_quote_plus quote_plus_absent by (auto simp: ord_def)
qed

text \<open>A redacted URL is the same URL with other query parameters.\<close>

lemma redact_url_parts:
  assumes "redact_url s extra = Inr w" "urlsplit s = Inr u" "url_scheme u \<in> {''http'', ''https''}" "url_netloc u \<noteq> []"
  defines "q \<equiv> urlencode (map (redact_pair (SENSITIVE_QUERY_NAMES @ extra)) (parse_qsl (url_query u)))"
  shows "w = urlunsplit (u\<lparr>url_query := q\<rparr>)" "urlsplit w = Inr (u\<lparr>url_query := q\<rparr>)"
    "parse_qsl q = map (redact_pair (SENSITIVE_QUERY_NAMES @ extra)) (parse_qsl (url_query u))"
    "redact_url w extra = Inr w"
proof -
  show w: "w = urlunsplit (u\<lparr>url_query := q\<rparr>)" using assms(1,2) by (simp add: redact_url_def q_def Let_def)
  note parts = urlsplit_parts [OF assms(2)]
  have "CHR ''#'' \<notin> set q" "url_clean q"
    using urlencode_chars unfolding q_def url_clean_def by fastforce+
  then show split: "urlsplit w = Inr (u\<lparr>url_query := q\<rparr>)"
    unfolding w using parts assms(3,4) urlsplit_valid_netloc [OF assms(2)]
    by (intro urlsplit_joined) auto
  show qsl: "parse_qsl q = map (redact_pair (SENSITIVE_QUERY_NAMES @ extra)) (parse_qsl (url_query u))"
    unfolding q_def by (rule parse_qsl_urlencode)
  have "urlencode (map (redact_pair (SENSITIVE_QUERY_NAMES @ extra)) (parse_qsl q)) = q"
    unfolding qsl by (simp add: q_def redact_pair_idem o_def)
  then show "redact_url w extra = Inr w"
    unfolding redact_url_def split by (simp add: w Let_def)
qed

text \<open>The members of the objects inside a JSON value; after redaction no sensitive one keeps its value.\<close>

function json_members :: "json \<Rightarrow> (string \<times> json) list" where
  "json_members (JObj kvs) = kvs @ concat (map (\<lambda>kv. json_members (snd kv)) kvs)"
| "json_members (JArr xs) = concat (map json_members xs)"
| "json_members JNull = []"
| "json_members (JBool b) = []"
| "json_members (JNum n) = []"
| "json_members (JStr s) = []"
  by pat_completeness auto
termination
proof (relation "measure size", goal_cases)
  case (2 kvs kv)
  obtain k v where "kv = (k, v)" by (cases kv)
  with 2 show ?case
    by (induction kvs) auto
qed (auto simp: size_list_estimation' less_Suc_eq_le)

lemma redact_json_fields_hides:
  "(k, v) \<in> set (json_members (redact_json_fields names j)) \<Longrightarrow> str_lower k \<in> set names \<Longrightarrow> v = JStr REDACTED"
proof (induction names j arbitrary: k v rule: redact_json_fields.induct)
  case (1 names kvs)
  from "1.prems"(1) consider kv where "kv \<in> set kvs" "k = fst kv"
      "v = (if str_lower (fst kv) \<in> set names then JStr REDACTED else redact_json_fields names (snd kv))"
    | kv where "kv \<in> set kvs" "str_lower (fst kv) \<notin> set names" "(k, v) \<in> set (json_members (redact_json_fields names (snd kv)))"
    by (fastforce split: if_splits)
  then show ?case
  proof cases
    case 1
    with "1.prems"(2) show ?thesis by simp
  next
    case 2
    with "1.IH" "1.prems"(2) show ?thesis by blast
  qed
qed auto

end
