(* ===== verification/TargetDiscovery.thy ===== *)
theory TargetDiscovery
  imports ObservationModels Redaction HttpTargets Planner
begin

text \<open>
  \<open>src/astp/target_discovery.py\<close>: from the evidence of an observation to candidates for further
  ones. Discovery only classifies; whatever it finds still needs a plan, an authorization and a permit.
\<close>

section \<open>Candidate identity and origin\<close>

fun candidate_kind_value :: "candidate_kind \<Rightarrow> string" where
  "candidate_kind_value REDIRECT = ''redirect''"
| "candidate_kind_value LINK = ''link''"

definition candidate_id :: "candidate_kind \<Rightarrow> string option \<Rightarrow> string \<Rightarrow> string" where
  "candidate_id kind canonical source_id =
     ''target-'' @ take 16 (sha256_hex (canonical_json (JObj
       [(''kind'', JStr (candidate_kind_value kind)), (''target'', json_opt JStr canonical),
        (''source_evidence_id'', JStr source_id)])))"

definition port_or_default :: "split_url \<Rightarrow> nat result" where
  "port_or_default u =
     rbind (url_port u) (\<lambda>p.
       Inr (case p of
              None \<Rightarrow> if str_lower (url_scheme u) = ''https'' then 443 else 80
            | Some n \<Rightarrow> if n = 0 then if str_lower (url_scheme u) = ''https'' then 443 else 80 else n))"

definition same_origin :: "string \<Rightarrow> string \<Rightarrow> bool result" where
  "same_origin source target =
     rbind (urlsplit source) (\<lambda>a.
     rbind (urlsplit target) (\<lambda>b.
       case (url_hostname a, url_hostname b) of
         (Some ha, Some hb) \<Rightarrow>
           rbind (port_or_default a) (\<lambda>pa.
           rbind (port_or_default b) (\<lambda>pb.
             Inr (str_lower (url_scheme a) = str_lower (url_scheme b) \<and> str_lower ha = str_lower hb \<and> pa = pb)))
       | _ \<Rightarrow> Inr False))"

section \<open>Special addresses\<close>

text \<open>The tables of \<open>ipaddress\<close> (CPython 3.12).\<close>

definition ip4 :: "nat \<Rightarrow> nat \<Rightarrow> nat \<Rightarrow> nat \<Rightarrow> nat" where
  "ip4 a b c d = ((a * 256 + b) * 256 + c) * 256 + d"

definition private_ipv4 :: "ip_network list" where
  "private_ipv4 = map (\<lambda>(a, p). mk_net4 a p)
     [(ip4 0 0 0 0, 8), (ip4 10 0 0 0, 8), (ip4 127 0 0 0, 8), (ip4 169 254 0 0, 16), (ip4 172 16 0 0, 12),
      (ip4 192 0 0 0, 24), (ip4 192 0 0 170, 31), (ip4 192 0 2 0, 24), (ip4 192 168 0 0, 16), (ip4 198 18 0 0, 15),
      (ip4 198 51 100 0, 24), (ip4 203 0 113 0, 24), (ip4 240 0 0 0, 4), (ip4 255 255 255 255, 32)]"

definition public_ipv4 :: "ip_network list" where
  "public_ipv4 = [mk_net4 (ip4 192 0 0 9) 32, mk_net4 (ip4 192 0 0 10) 32]"

definition in_any :: "ip_address \<Rightarrow> ip_network list \<Rightarrow> bool" where
  "in_any a nets \<longleftrightarrow> list_ex (ip_in_network a) nets"

definition ipv4_is_private :: "nat \<Rightarrow> bool" where
  "ipv4_is_private a \<longleftrightarrow> in_any (IPv4 a) private_ipv4 \<and> \<not> in_any (IPv4 a) public_ipv4"

text \<open>Loopback and link-local, multicast, reserved and unspecified.\<close>

definition ipv4_is_special :: "nat \<Rightarrow> bool" where
  "ipv4_is_special a \<longleftrightarrow> in_any (IPv4 a)
     [mk_net4 (ip4 127 0 0 0) 8, mk_net4 (ip4 169 254 0 0) 16, mk_net4 (ip4 224 0 0 0) 4, mk_net4 (ip4 240 0 0 0) 4] \<or> a = 0"

text \<open>An IPv6 network by the leading bits of its address: the first 16-bit groups.\<close>

definition net6_of :: "nat list \<Rightarrow> nat \<Rightarrow> ip_network" where
  "net6_of groups p = mk_net6 (foldl (\<lambda>n g. 65536 * n + g) 0 (groups @ replicate (8 - length groups) 0)) p"

definition private_ipv6 :: "ip_network list" where
  "private_ipv6 = map (\<lambda>(g, p). net6_of g p)
     [([0, 0, 0, 0, 0, 0, 0, 1], 128), ([], 128), ([0, 0, 0, 0, 0, 0xffff], 96), ([0x64, 0xff9b, 1], 48), ([0x100], 64),
      ([0x2001], 23), ([0x2001, 0xdb8], 32), ([0x2002], 16), ([0xfc00], 7), ([0xfe80], 10)]"

definition public_ipv6 :: "ip_network list" where
  "public_ipv6 = map (\<lambda>(g, p). net6_of g p)
     [([0x2001, 1, 0, 0, 0, 0, 0, 1], 128), ([0x2001, 1, 0, 0, 0, 0, 0, 2], 128), ([0x2001, 3], 32), ([0x2001, 4, 0x112], 48),
      ([0x2001, 0x20], 28), ([0x2001, 0x30], 28)]"

definition reserved_ipv6 :: "ip_network list" where
  "reserved_ipv6 = map (\<lambda>(g, p). net6_of [g] p)
     [(0, 8), (0x100, 8), (0x200, 7), (0x400, 6), (0x800, 5), (0x1000, 4), (0x4000, 3), (0x6000, 3), (0x8000, 3),
      (0xa000, 3), (0xc000, 3), (0xe000, 4), (0xf000, 5), (0xf800, 6), (0xfe00, 9)]"

definition ipv6_is_private :: "nat \<Rightarrow> bool" where
  "ipv6_is_private a \<longleftrightarrow>
     (if a div 2 ^ 32 = 0xffff then ipv4_is_private (a mod 2 ^ 32)
      else in_any (IPv6 a) private_ipv6 \<and> \<not> in_any (IPv6 a) public_ipv6)"

definition ipv6_is_special :: "nat \<Rightarrow> bool" where
  "ipv6_is_special a \<longleftrightarrow> a = 1 \<or> a = 0 \<or> in_any (IPv6 a) ([net6_of [0xfe80] 10, net6_of [0xff00] 8] @ reserved_ipv6)"

fun address_is_private :: "ip_address \<Rightarrow> bool" where
  "address_is_private (IPv4 a) \<longleftrightarrow> ipv4_is_private a \<or> ipv4_is_special a"
| "address_is_private (IPv6 a) \<longleftrightarrow> ipv6_is_private a \<or> ipv6_is_special a"

definition literal_address_is_private :: "string \<Rightarrow> bool" where
  "literal_address_is_private hostname =
     (let normalized = rstrip_of (\<lambda>c. c = CHR ''.'') (str_lower (strip hostname))
      in if normalized = ''localhost'' \<or> normalized = ''localhost.localdomain'' then True
         else (case parse_ip_address normalized of None \<Rightarrow> False | Some a \<Rightarrow> address_is_private a))"

section \<open>Classification\<close>

record target_assessment =
  ta_canonical :: "string option"
  ta_safety :: candidate_safety
  ta_in_scope :: bool
  ta_same_origin :: bool
  ta_reason :: string

text \<open>The \<open>try\<close> block: a refusal, or the canonical target.\<close>

definition parse_discovered :: "string \<Rightarrow> (candidate_safety \<times> string) + string" where
  "parse_discovered discovered =
     (let invalid = Inl (INVALID, ''Target is not a valid HTTP URL.'') in
      case urlsplit discovered of
        Inl e \<Rightarrow> invalid
      | Inr parsed \<Rightarrow>
          if str_lower (url_scheme parsed) \<notin> {''http'', ''https''} then
            Inl (UNSAFE_SCHEME, ''Only HTTP(S) discoveries may become observation candidates.'')
          else if url_hostname parsed = None then Inl (INVALID, ''Target has no hostname.'')
          else if CHR ''@'' \<in> set (url_netloc parsed) then
            Inl (CREDENTIALS_EMBEDDED, ''Credentials embedded in discovered URLs are never executable.'')
          else (case canonical_http_target discovered of Inl e \<Rightarrow> invalid | Inr canonical \<Rightarrow> Inr canonical))"

definition assess_discovered_target :: "string \<Rightarrow> string \<Rightarrow> engagement \<Rightarrow> target_assessment result" where
  "assess_discovered_target source_target discovered eng =
     (if contains discovered REDACTED then
        Inr \<lparr>ta_canonical = None, ta_safety = REDACTED_TARGET, ta_in_scope = False, ta_same_origin = False,
             ta_reason = ''Target contains redacted material and cannot be promoted to execution.''\<rparr>
      else
        (case parse_discovered discovered of
           Inl (safety, reason) \<Rightarrow>
             Inr \<lparr>ta_canonical = None, ta_safety = safety, ta_in_scope = False, ta_same_origin = False, ta_reason = reason\<rparr>
         | Inr canonical \<Rightarrow>
             rbind (urlsplit source_target) (\<lambda>source.
             rbind (urlsplit canonical) (\<lambda>target.
             rbind (same_origin source_target canonical) (\<lambda>so.
             rbind (target_in_scope canonical (eng_scope eng)) (\<lambda>in_scope.
               let verdict = (\<lambda>safety scope reason.
                     \<lparr>ta_canonical = Some canonical, ta_safety = safety, ta_in_scope = scope, ta_same_origin = so, ta_reason = reason\<rparr>)
               in Inr (if str_lower (url_scheme source) = ''https'' \<and> str_lower (url_scheme target) = ''http'' then
                         verdict HTTPS_DOWNGRADE in_scope ''HTTPS-to-HTTP downgrade is not auto-promotable.''
                       else if (case url_hostname target of None \<Rightarrow> False | Some h \<Rightarrow> literal_address_is_private h) then
                         verdict PRIVATE_LITERAL in_scope ''Private/loopback/link-local literal destinations are not auto-promotable.''
                       else if \<not> in_scope then
                         verdict OUT_OF_SCOPE False ''Discovered target is outside current engagement scope.''
                       else
                         verdict READY_FOR_POLICY True
                           ''Candidate passed deterministic discovery safety checks and still requires policy evaluation.'')))))))"

definition make_candidate ::
  "http_evidence \<Rightarrow> string \<Rightarrow> candidate_kind \<Rightarrow> engagement \<Rightarrow> datetime \<Rightarrow> target_candidate result" where
  "make_candidate ev raw kind eng now =
     rbind (urljoin (he_target ev) raw) (\<lambda>absolute.
     rbind (assess_discovered_target (he_target ev) absolute eng) (\<lambda>a.
       Inr \<lparr>tc_id = candidate_id kind (ta_canonical a) (he_evidence_id ev),
            tc_canonical_target = ta_canonical a, tc_display_target = absolute, tc_kind = kind, tc_safety = ta_safety a,
            tc_in_scope = ta_in_scope a, tc_same_origin = ta_same_origin a, tc_requires_new_permit = True,
            tc_requires_semantic = (con_exclusions (eng_constraints eng) \<noteq> []), tc_executable = False,
            tc_reason = ta_reason a,
            tc_provenance = [\<lparr>pv_evidence_id = he_evidence_id ev, pv_source_action_id = he_action_id ev,
              pv_source_target = he_target ev, pv_source_kind = kind, pv_observed_at = he_observed_at ev\<rparr>],
            tc_discovered_at = now\<rparr>))"

section \<open>Links\<close>

text \<open>
  \<open>_LINK_RE.finditer\<close>: \<open>(?i)(?:href|src)\s*=\s*["']([^"']+)["']|https?://[^\s<>"']+\<close>. A matcher gives
  \<open>match.group(1) or match.group(0)\<close> and the length of the match; neighbouring pieces start with different
  characters, so a match needs no backtracking.
\<close>

definition match_attribute :: "string \<Rightarrow> (string \<times> nat) option" where
  "match_attribute s =
     (let s1 = (if prefix_ci ''href'' s then drop 4 s else drop 3 s);
          s2 = dropWhile is_space s1
      in if \<not> prefix_ci ''href'' s \<and> \<not> prefix_ci ''src'' s then None
         else if s2 = [] \<or> hd s2 \<noteq> CHR ''='' then None
         else let s3 = dropWhile is_space (tl s2)
              in if s3 = [] \<or> \<not> is_quote (hd s3) then None
                 else let value = takeWhile (\<lambda>c. \<not> is_quote c) (tl s3);
                          s4 = drop (length value) (tl s3)
                      in if value = [] \<or> s4 = [] then None else Some (value, length s - length s4 + 1))"

definition match_absolute :: "string \<Rightarrow> (string \<times> nat) option" where
  "match_absolute s =
     (let s1 = (if prefix_ci ''https'' s then drop 5 s else drop 4 s);
          run = takeWhile (\<lambda>c. \<not> is_space c \<and> \<not> is_quote c \<and> c \<noteq> CHR ''<'' \<and> c \<noteq> CHR ''>'') (drop 3 s1)
      in if prefix_ci ''http'' s \<and> startswith s1 ''://'' \<and> run \<noteq> []
         then Some (take (length s - length s1 + 3 + length run) s, length s - length s1 + 3 + length run)
         else None)"

definition match_link :: "string \<Rightarrow> (string \<times> nat) option" where
  "match_link s = (case match_attribute s of None \<Rightarrow> match_absolute s | Some m \<Rightarrow> Some m)"

fun find_links :: "nat \<Rightarrow> string \<Rightarrow> string list" where
  "find_links skip [] = []"
| "find_links (Suc skip) (c # s) = find_links skip s"
| "find_links 0 (c # s) =
     (case match_link (c # s) of
        None \<Rightarrow> find_links 0 s
      | Some (raw, n) \<Rightarrow> raw # find_links (n - 1) s)"

definition ignored_link :: "string \<Rightarrow> bool" where
  "ignored_link raw \<longleftrightarrow> raw = [] \<or> startswith raw ''#'' \<or> startswith raw ''mailto:'' \<or> startswith raw ''tel:'' \<or>
     startswith raw ''javascript:'' \<or> startswith raw ''data:''"

text \<open>The loop over the matches; \<open>seen\<close> holds the absolute targets taken so far.\<close>

fun link_candidates ::
  "http_evidence \<Rightarrow> engagement \<Rightarrow> datetime \<Rightarrow> int \<Rightarrow> string list \<Rightarrow> string list \<Rightarrow> target_candidate list result" where
  "link_candidates ev eng now limit seen [] = Inr []"
| "link_candidates ev eng now limit seen (m # ms) =
     (if ignored_link (strip m) then link_candidates ev eng now limit seen ms
      else rbind (urljoin (he_target ev) (strip m)) (\<lambda>absolute.
        if absolute \<in> set seen then link_candidates ev eng now limit seen ms
        else rbind (make_candidate ev (strip m) LINK eng now) (\<lambda>c.
          if limit \<le> int (length (absolute # seen)) then Inr [c]
          else rbind (link_candidates ev eng now limit (absolute # seen) ms) (\<lambda>cs. Inr (c # cs)))))"

record discovery_result =
  dr_source_evidence_id :: string
  dr_candidates :: "target_candidate list"

definition discover_targets ::
  "http_evidence \<Rightarrow> engagement \<Rightarrow> bool \<Rightarrow> int \<Rightarrow> datetime option \<Rightarrow> datetime \<Rightarrow> discovery_result result" where
  "discover_targets ev eng include_links limit now clock =
     (let current = or_else now clock; trusted = has_target_response_provenance ev in
      rbind (case he_redirect ev of
               Some r \<Rightarrow> if trusted then rbind (make_candidate ev (ro_target r) REDIRECT eng current) (\<lambda>c. Inr [c]) else Inr []
             | None \<Rightarrow> Inr []) (\<lambda>redirects.
      rbind (if include_links \<and> trusted
             then link_candidates ev eng current limit [] (find_links 0 (or_else (he_body_preview ev) []))
             else Inr []) (\<lambda>links.
        Inr \<lparr>dr_source_evidence_id = he_evidence_id ev, dr_candidates = redirects @ links\<rparr>)))"

section \<open>Facts about them\<close>

lemma contains_chars: "contains s p \<Longrightarrow> set p \<subseteq> set s"
  by (auto simp: contains_iff)

lemma parse_discovered_Inr:
  assumes "parse_discovered d = Inr c"
  shows "canonical_http_target d = Inr c \<and> (\<exists>u. urlsplit d = Inr u \<and> str_lower (url_scheme u) \<in> {''http'', ''https''} \<and>
    url_hostname u \<noteq> None \<and> CHR ''@'' \<notin> set (url_netloc u))"
  using assms by (auto simp: parse_discovered_def Let_def split: sum.splits if_splits)

lemma assess_ready:
  assumes "assess_discovered_target source d eng = Inr a" "ta_safety a = READY_FOR_POLICY"
  shows "\<exists>c s u. ta_canonical a = Some c \<and> ta_in_scope a \<and> parse_discovered d = Inr c \<and>
    target_in_scope c (eng_scope eng) = Inr True \<and> urlsplit source = Inr s \<and> urlsplit c = Inr u \<and>
    \<not> (str_lower (url_scheme s) = ''https'' \<and> str_lower (url_scheme u) = ''http'') \<and>
    (\<forall>h. url_hostname u = Some h \<longrightarrow> \<not> literal_address_is_private h)"
proof (cases "parse_discovered d")
  case (Inl r)
  obtain safety reason where r: "r = (safety, reason)" by (cases r)
  have "safety \<noteq> READY_FOR_POLICY"
    using Inl r by (auto simp: parse_discovered_def Let_def split: sum.splits if_splits)
  with assms Inl r show ?thesis by (auto simp: assess_discovered_target_def split: if_splits)
next
  case (Inr c)
  with assms show ?thesis
    by (auto simp: assess_discovered_target_def Let_def result_simps split: if_splits option.splits)
qed

lemma assess_redacted:
  assumes "assess_discovered_target source d eng = Inr a" "\<not> contains d REDACTED"
  shows "ta_safety a \<noteq> REDACTED_TARGET"
proof (cases "parse_discovered d")
  case (Inl r)
  obtain safety reason where r: "r = (safety, reason)" by (cases r)
  have "safety \<noteq> REDACTED_TARGET"
    using Inl r by (auto simp: parse_discovered_def Let_def split: sum.splits if_splits)
  with assms Inl r show ?thesis by (simp add: assess_discovered_target_def) auto
next
  case (Inr c)
  with assms show ?thesis
    by (simp add: assess_discovered_target_def Let_def) (auto simp: result_simps split: if_splits)
qed

lemma make_candidate_Inr:
  assumes "make_candidate ev raw kind eng now = Inr c"
  shows "\<exists>a. urljoin (he_target ev) raw = Inr (tc_display_target c) \<and>
    assess_discovered_target (he_target ev) (tc_display_target c) eng = Inr a \<and>
    tc_canonical_target c = ta_canonical a \<and> tc_safety c = ta_safety a \<and> tc_in_scope c = ta_in_scope a \<and>
    tc_kind c = kind \<and> \<not> tc_executable c \<and> tc_requires_new_permit c \<and> tc_discovered_at c = now \<and>
    tc_provenance c = [\<lparr>pv_evidence_id = he_evidence_id ev, pv_source_action_id = he_action_id ev,
       pv_source_target = he_target ev, pv_source_kind = kind, pv_observed_at = he_observed_at ev\<rparr>]"
  using assms by (auto simp: make_candidate_def result_simps)

lemma link_candidates_made:
  "link_candidates ev eng now limit seen ms = Inr cs \<Longrightarrow> c \<in> set cs \<Longrightarrow>
   \<exists>raw. make_candidate ev raw LINK eng now = Inr c \<and> \<not> ignored_link raw"
proof (induction ms arbitrary: seen cs)
  case (Cons m ms)
  then show ?case by (fastforce simp: result_simps split: if_splits)
qed simp

lemma link_candidates_kind:
  "link_candidates ev eng now limit seen ms = Inr cs \<Longrightarrow> c \<in> set cs \<Longrightarrow> tc_kind c = LINK"
  by (drule (1) link_candidates_made) (elim exE conjE, drule make_candidate_Inr, elim exE conjE, assumption)

text \<open>Each target once, and no more than the limit (one where the limit is below one).\<close>

lemma link_candidates_bounded:
  "link_candidates ev eng now limit seen ms = Inr cs \<Longrightarrow>
   distinct (map tc_display_target cs) \<and> set (map tc_display_target cs) \<inter> set seen = {} \<and>
   (int (length seen) < max 1 limit \<longrightarrow> int (length seen) + int (length cs) \<le> max 1 limit)"
proof (induction ev eng now limit seen ms arbitrary: cs rule: link_candidates.induct)
  case (2 ev eng now limit seen m ms)
  show ?case
  proof (cases "ignored_link (strip m)")
    case True
    with 2 show ?thesis by simp
  next
    case False
    with "2.prems" obtain t where t: "urljoin (he_target ev) (strip m) = Inr t" by (auto simp: result_simps)
    show ?thesis
    proof (cases "t \<in> set seen")
      case True
      with 2 False t show ?thesis by simp
    next
      case fresh: False
      with "2.prems" False t obtain c where c: "make_candidate ev (strip m) LINK eng now = Inr c" by (auto simp: result_simps)
      then have d: "tc_display_target c = t" using t make_candidate_Inr by fastforce
      show ?thesis
      proof (cases "limit \<le> int (length (t # seen))")
        case True
        with "2.prems" False t fresh c d show ?thesis by auto
      next
        case go: False
        with "2.prems" False t fresh c obtain rest
          where r: "link_candidates ev eng now limit (t # seen) ms = Inr rest" "cs = c # rest" by (auto simp: result_simps)
        from "2.IH"(3) [OF False t fresh c go r(1)] r(2) d fresh go show ?thesis by auto
      qed
    qed
  qed
qed simp

lemma discover_targets_parts:
  assumes "discover_targets ev eng include_links limit now clock = Inr r"
  obtains redirects links where "dr_candidates r = redirects @ links"
    "redirects = [] \<or> has_target_response_provenance ev \<and>
       (\<exists>c raw. redirects = [c] \<and> make_candidate ev raw REDIRECT eng (or_else now clock) = Inr c)"
    "links = [] \<or> has_target_response_provenance ev \<and>
       (\<exists>ms. link_candidates ev eng (or_else now clock) limit [] ms = Inr links)"
proof -
  from assms obtain redirects links
    where red: "(case he_redirect ev of
        Some r \<Rightarrow> if has_target_response_provenance ev
          then rbind (make_candidate ev (ro_target r) REDIRECT eng (or_else now clock)) (\<lambda>c. Inr [c]) else Inr []
      | None \<Rightarrow> Inr []) = Inr redirects"
    and links: "(if include_links \<and> has_target_response_provenance ev
      then link_candidates ev eng (or_else now clock) limit [] (find_links 0 (or_else (he_body_preview ev) []))
      else Inr []) = Inr links"
    and r: "dr_candidates r = redirects @ links"
    unfolding discover_targets_def Let_def by (elim rbind_InrE) auto
  have "redirects = [] \<or> has_target_response_provenance ev \<and>
      (\<exists>c raw. redirects = [c] \<and> make_candidate ev raw REDIRECT eng (or_else now clock) = Inr c)"
    using red by (cases "he_redirect ev") (auto simp: result_simps split: if_splits)
  moreover have "links = [] \<or> has_target_response_provenance ev \<and>
      (\<exists>ms. link_candidates ev eng (or_else now clock) limit [] ms = Inr links)"
    using links by (auto split: if_splits)
  ultimately show ?thesis using that r by blast
qed

end
