(* ===== verification/TargetProperties.thy ===== *)
theory TargetProperties
  imports TargetDiscovery Examples
begin

text \<open>
  Properties of the HTTP action identity and of target discovery, with their witnesses.
\<close>

section \<open>HTTP action identity\<close>



text \<open>An engagement whose scope is one short domain.\<close>

definition ex_small_engagement :: engagement where
  "ex_small_engagement = ex_engagement\<lparr>eng_scope :=
     \<lparr>allowed = [\<lparr>rule_kind = DOMAIN, rule_value = ''a.io''\<rparr>], denied = [], approval_required = []\<rparr>\<rparr>"

section \<open>Redaction\<close>



section \<open>Target discovery\<close>

text \<open>
  C29: Discovery promotes nothing by itself: every candidate comes from a response of the target (not from a
  boundary or offline material), names the evidence it was found in, is not executable and requires a new
  permit. A candidate offered for policy evaluation is the canonical form of an HTTP target without
  credentials or redacted material, inside the scope of the engagement, not a step from HTTPS down to HTTP,
  and its host is no private, loopback, link-local, multicast or reserved literal.
\<close>

theorem discovery_sound:
  assumes "discover_targets ev eng include_links limit now clock = Inr r" "c \<in> set (dr_candidates r)"
  shows "has_target_response_provenance ev \<and> \<not> tc_executable c \<and> tc_requires_new_permit c \<and>
    map pv_evidence_id (tc_provenance c) = [he_evidence_id ev] \<and>
    (tc_safety c = READY_FOR_POLICY \<longrightarrow>
      (\<exists>t s u v. tc_canonical_target c = Some t \<and> canonical_http_target (tc_display_target c) = Inr t \<and>
        \<not> contains (tc_display_target c) ''[REDACTED]'' \<and> target_in_scope t (eng_scope eng) = Inr True \<and>
        urlsplit (he_target ev) = Inr s \<and> urlsplit (tc_display_target c) = Inr u \<and> urlsplit t = Inr v \<and>
        str_lower (url_scheme u) \<in> {''http'', ''https''} \<and> CHR ''@'' \<notin> set (url_netloc u) \<and>
        \<not> (str_lower (url_scheme s) = ''https'' \<and> str_lower (url_scheme v) = ''http'') \<and>
        (\<forall>h. url_hostname v = Some h \<longrightarrow> \<not> literal_address_is_private h)))"
proof -
  obtain raw kind where m: "make_candidate ev raw kind eng (or_else now clock) = Inr c" and p: "has_target_response_provenance ev"
  proof (rule discover_targets_parts [OF assms(1)])
    fix redirects links
    assume r: "dr_candidates r = redirects @ links"
      "redirects = [] \<or> has_target_response_provenance ev \<and>
         (\<exists>c raw. redirects = [c] \<and> make_candidate ev raw REDIRECT eng (or_else now clock) = Inr c)"
      and l: "links = [] \<or> has_target_response_provenance ev \<and>
         (\<exists>ms. link_candidates ev eng (or_else now clock) limit [] ms = Inr links)"
    from assms(2) r(1) consider "c \<in> set redirects" | "c \<in> set links" by auto
    then show ?thesis
      using r(2) l that by cases (auto dest: link_candidates_made)
  qed
  from make_candidate_Inr [OF m] obtain a where a: "assess_discovered_target (he_target ev) (tc_display_target c) eng = Inr a"
    "tc_canonical_target c = ta_canonical a" "tc_safety c = ta_safety a" "\<not> tc_executable c" "tc_requires_new_permit c"
    "map pv_evidence_id (tc_provenance c) = [he_evidence_id ev]" by auto
  have ready: "\<exists>t s u v. tc_canonical_target c = Some t \<and> canonical_http_target (tc_display_target c) = Inr t \<and>
        \<not> contains (tc_display_target c) ''[REDACTED]'' \<and> target_in_scope t (eng_scope eng) = Inr True \<and>
        urlsplit (he_target ev) = Inr s \<and> urlsplit (tc_display_target c) = Inr u \<and> urlsplit t = Inr v \<and>
        str_lower (url_scheme u) \<in> {''http'', ''https''} \<and> CHR ''@'' \<notin> set (url_netloc u) \<and>
        \<not> (str_lower (url_scheme s) = ''https'' \<and> str_lower (url_scheme v) = ''http'') \<and>
        (\<forall>h. url_hostname v = Some h \<longrightarrow> \<not> literal_address_is_private h)"
    if safe: "tc_safety c = READY_FOR_POLICY"
  proof -
    from safe a(3) have sa: "ta_safety a = READY_FOR_POLICY" by simp
    obtain t s v where t: "ta_canonical a = Some t" "parse_discovered (tc_display_target c) = Inr t"
      "target_in_scope t (eng_scope eng) = Inr True" "urlsplit (he_target ev) = Inr s" "urlsplit t = Inr v"
      "\<not> (str_lower (url_scheme s) = ''https'' \<and> str_lower (url_scheme v) = ''http'')"
      "\<forall>h. url_hostname v = Some h \<longrightarrow> \<not> literal_address_is_private h"
      using assess_ready [OF a(1) sa] by blast
    obtain u where u: "canonical_http_target (tc_display_target c) = Inr t" "urlsplit (tc_display_target c) = Inr u"
      "str_lower (url_scheme u) \<in> {''http'', ''https''}" "CHR ''@'' \<notin> set (url_netloc u)"
      using parse_discovered_Inr [OF t(2)] by blast
    have "\<not> contains (tc_display_target c) ''[REDACTED]''"
      using a(1) sa by (auto simp: assess_discovered_target_def REDACTED_def)
    with a(2) t u show ?thesis by (intro exI [of _ t] exI [of _ s] exI [of _ u] exI [of _ v]) simp
  qed
  show ?thesis using a(4,5,6) p ready by blast
qed

text \<open>An observed page of the example with one link given twice.\<close>

definition ex_page :: string where
  "ex_page = ''href='' @ [CHR 0x22] @ ''/x'' @ [CHR 0x22] @ '' SRC='' @ [CHR 0x22] @ ''/x'' @ [CHR 0x22]"

definition ex_evidence :: http_evidence where
  "ex_evidence =
     \<lparr>he_schema_version = ''3'', he_evidence_id = ''ev-1'', he_action_id = ''action-1'', he_sensitivity = INTERNAL,
      he_permit_id = ''permit-1'', he_engagement_id = ''eng-1'', he_test_id = ''headers'', he_observed_at = ex_clock,
      he_method = ''GET'', he_target = ''https://a.io/'', he_status_code = 200, he_reason = None, he_headers = [],
      he_content_type = Some ''text/html'', he_body_bytes = 60, he_body_truncated = False, he_body_sha256 = ''digest'',
      he_body_preview = Some ex_page, he_body_artifact = None, he_redirect = None, he_endpoint = None,
      he_transport_failure = None,
      he_provenance = Some \<lparr>rv_source = TARGET, rv_observed = True, rv_synthetic = False, rv_producer = ''target'', rv_reason = None\<rparr>,
      he_boundary = None, he_chain = [], he_evidence_hash = ''hash''\<rparr>"

lemma ex_discovery:
  obtains c where "discover_targets ex_evidence ex_small_engagement True 50 None ex_clock =
      Inr \<lparr>dr_source_evidence_id = ''ev-1'', dr_candidates = [c]\<rparr>"
    "tc_safety c = READY_FOR_POLICY" "tc_display_target c = ''https://a.io/x''"
proof -
  have links: "find_links 0 ex_page = [''/x'', ''/x'']" by code_simp
  have "urljoin ''https://a.io/'' ''/x'' = Inr ''https://a.io/x'' \<and>
    strip ''/x'' = ''/x'' \<and> \<not> ignored_link ''/x'' \<and>
    (case assess_discovered_target ''https://a.io/'' ''https://a.io/x'' ex_small_engagement of
      Inr a \<Rightarrow> ta_safety a = READY_FOR_POLICY | Inl _ \<Rightarrow> False)" by code_simp
  then obtain a where j: "urljoin ''https://a.io/'' ''/x'' = Inr ''https://a.io/x''"
    and s: "strip ''/x'' = ''/x''" "\<not> ignored_link ''/x''"
    and a: "assess_discovered_target ''https://a.io/'' ''https://a.io/x'' ex_small_engagement = Inr a"
    "ta_safety a = READY_FOR_POLICY" by (auto split: sum.splits)
  have e: "he_target ex_evidence = ''https://a.io/''" "he_body_preview ex_evidence = Some ex_page"
    "he_redirect ex_evidence = None" "he_evidence_id ex_evidence = ''ev-1''" "has_target_response_provenance ex_evidence"
    by (simp_all add: ex_evidence_def has_target_response_provenance_def)
  obtain c where c: "make_candidate ex_evidence ''/x'' LINK ex_small_engagement ex_clock = Inr c" "tc_safety c = READY_FOR_POLICY"
      "tc_display_target c = ''https://a.io/x''"
  proof -
    have "\<exists>c. make_candidate ex_evidence ''/x'' LINK ex_small_engagement ex_clock = Inr c \<and> tc_safety c = READY_FOR_POLICY \<and>
        tc_display_target c = ''https://a.io/x''"
      unfolding make_candidate_def e(1) j rbind.simps a(1) by (intro exI conjI, rule refl) (simp_all add: a(2))
    then show ?thesis using that by blast
  qed
  have "discover_targets ex_evidence ex_small_engagement True 50 None ex_clock = Inr \<lparr>dr_source_evidence_id = ''ev-1'', dr_candidates = [c]\<rparr>"
    by (simp add: discover_targets_def e links s j c)
  with c that show ?thesis by blast
qed

theorem discovery_sound_witness:
  "\<exists>r c t :: string. discover_targets ex_evidence ex_small_engagement True 50 None ex_clock = Inr r \<and> dr_candidates r = [c] \<and>
     tc_canonical_target c = Some t \<and> canonical_http_target ''https://a.io/x'' = Inr t \<and>
     target_in_scope t (eng_scope ex_small_engagement) = Inr True"
proof (rule ex_discovery)
  fix c
  assume d: "discover_targets ex_evidence ex_small_engagement True 50 None ex_clock =
      Inr \<lparr>dr_source_evidence_id = ''ev-1'', dr_candidates = [c]\<rparr>"
    and c: "tc_safety c = READY_FOR_POLICY" "tc_display_target c = ''https://a.io/x''"
  have m: "c \<in> set (dr_candidates \<lparr>dr_source_evidence_id = ''ev-1'', dr_candidates = [c]\<rparr>)" by simp
  from discovery_sound [OF d m] d c show ?thesis by fastforce
qed

text \<open>
  Discovery is bounded: it returns at most one candidate for the redirect and then, for the links of the
  page, each absolute target once and at most the requested number (but one where that is not positive).
\<close>

theorem discovery_bounded:
  assumes "discover_targets ev eng include_links limit now clock = Inr r"
  shows "\<exists>redirects links. dr_candidates r = redirects @ links \<and> length redirects \<le> 1 \<and>
    (\<forall>c \<in> set redirects. tc_kind c = REDIRECT) \<and> (\<forall>c \<in> set links. tc_kind c = LINK) \<and>
    distinct (map tc_display_target links) \<and> int (length links) \<le> max 1 limit"
proof -
  obtain redirects links where r: "dr_candidates r = redirects @ links"
    and red: "redirects = [] \<or> has_target_response_provenance ev \<and>
       (\<exists>c raw. redirects = [c] \<and> make_candidate ev raw REDIRECT eng (or_else now clock) = Inr c)"
    and links: "links = [] \<or> has_target_response_provenance ev \<and>
       (\<exists>ms. link_candidates ev eng (or_else now clock) limit [] ms = Inr links)"
    by (rule discover_targets_parts [OF assms])
  have "length redirects \<le> 1 \<and> (\<forall>c \<in> set redirects. tc_kind c = REDIRECT)" using red by (auto dest: make_candidate_Inr)
  moreover have "\<forall>c \<in> set links. tc_kind c = LINK" using links by (auto dest: link_candidates_kind)
  moreover have "distinct (map tc_display_target links) \<and> int (length links) \<le> max 1 limit"
    using links by (auto dest: link_candidates_bounded)
  ultimately show ?thesis using r by blast
qed

theorem discovery_bounded_witness:
  "\<exists>r. discover_targets ex_evidence ex_small_engagement True 50 None ex_clock = Inr r \<and> int (length (dr_candidates r)) \<le> 51"
proof (rule ex_discovery)
  fix c
  assume d: "discover_targets ex_evidence ex_small_engagement True 50 None ex_clock =
      Inr \<lparr>dr_source_evidence_id = ''ev-1'', dr_candidates = [c]\<rparr>"
  from discovery_bounded [OF d] have "int (length [c]) \<le> 51" by fastforce
  with d show ?thesis by auto
qed



end
