(* ===== verification/RateLimit.thy ===== *)
theory RateLimit
  imports RuntimeState
begin

text \<open>
  \<open>src/astp/rate_limit.py\<close>: the rate limiter of the JSON state file, and its simulation by the one
  of the runtime database. A call holds the lock file from reading the state to writing it, so it is one step.
\<close>

record rate_state =
  rl_timestamps :: "(string \<times> rat list) list"

type_synonym rate_file = "rate_state json_file"

definition read_rates :: "rate_file \<Rightarrow> rate_state result" where
  "read_rates f = load_or \<lparr>rl_timestamps = []\<rparr> f"

text \<open>Whether the slot is granted, and the seconds to wait.\<close>

definition acquire_rate_slot ::
  "rate_file \<Rightarrow> string \<Rightarrow> rat \<Rightarrow> datetime option \<Rightarrow> datetime \<Rightarrow> (rate_file, bool \<times> rat) outcome" where
  "acquire_rate_slot f key max_rps now clock =
     (if max_rps \<le> 0 then (value_error ''Rate limit must be greater than zero.'', f)
      else
        (let instant = timestamp (or_else now clock);
             window_start = instant - 1
         in obind (olift (read_rates f) f) (\<lambda>st f.
            let recent = filter (\<lambda>stamp. window_start < stamp) (or_else (dict_get (rl_timestamps st) key) []);
                minimum_interval = 1 / max_rps;
                save = (\<lambda>stamps. Parsed (st\<lparr>rl_timestamps := dict_set (rl_timestamps st) key stamps\<rparr>))
            in (case recent of
                  t # ts \<Rightarrow>
                    if instant - foldl max t ts < minimum_interval
                    then (Inr (False, max 0 (minimum_interval - (instant - foldl max t ts))), save recent)
                    else (Inr (True, 0), save (recent @ [instant]))
                | [] \<Rightarrow> (Inr (True, 0), save (recent @ [instant]))))))"

section \<open>The two limiters\<close>

definition file_stamps :: "rate_state \<Rightarrow> string \<Rightarrow> rat list" where
  "file_stamps st key = or_else (dict_get (rl_timestamps st) key) []"

definition db_stamps :: "rate_event list \<Rightarrow> string \<Rightarrow> rat list" where
  "db_stamps rows key = map re_observed_at (filter (\<lambda>r. re_action_key r = key) rows)"

text \<open>
  From instant \<open>T\<close> on, both stores hold the same stamps inside the window. The file forgets old
  stamps at every call, the database only when it admits.
\<close>

definition rates_match :: "rat \<Rightarrow> rate_state \<Rightarrow> rate_event list \<Rightarrow> bool" where
  "rates_match T st rows \<longleftrightarrow>
     (\<forall>key w. T - 1 \<le> w \<longrightarrow> filter (\<lambda>t. w < t) (file_stamps st key) = filter (\<lambda>t. w < t) (db_stamps rows key))"

lemma rates_match_empty: "rates_match T \<lparr>rl_timestamps = []\<rparr> []"
  by (simp add: rates_match_def file_stamps_def db_stamps_def)

lemma db_stamps_prune:
  "db_stamps (prune_rates key w rows) k = (if k = key then filter (\<lambda>t. w < t) (db_stamps rows key) else db_stamps rows k)"
  by (induction rows) (auto simp: db_stamps_def prune_rates_def not_le)

lemma latest_rate_stamps: "latest_rate key rows = (case db_stamps rows key of [] \<Rightarrow> None | t # ts \<Rightarrow> Some (foldl max t ts))"
  by (simp add: latest_rate_def db_stamps_def)

lemma db_stamps_append: "db_stamps (rows @ rows') key = db_stamps rows key @ db_stamps rows' key"
  by (simp add: db_stamps_def)

lemma file_stamps_set:
  "file_stamps (st\<lparr>rl_timestamps := dict_set (rl_timestamps st) key stamps\<rparr>) k = (if k = key then stamps else file_stamps st k)"
  by (simp add: file_stamps_def)

lemma rates_match_later: "rates_match T st rows \<Longrightarrow> T \<le> T' \<Longrightarrow> rates_match T' st rows"
  by (auto simp: rates_match_def)

text \<open>Pruning the file's stamps of a key at a later instant, and adding one stamp to both.\<close>

lemma rates_match_pruned:
  assumes "rates_match T st rows" "T \<le> T'"
  shows "rates_match T' (st\<lparr>rl_timestamps := dict_set (rl_timestamps st) key
      (filter (\<lambda>t. T' - 1 < t) (file_stamps st key))\<rparr>) rows"
proof -
  have "filter (\<lambda>t. w < t) (filter (\<lambda>t. T' - 1 < t) xs) = filter (\<lambda>t. w < t) xs" if "T' - 1 \<le> w" for w and xs :: "rat list"
    using that by (induction xs) auto
  with assms show ?thesis unfolding rates_match_def file_stamps_set by auto
qed

lemma rates_match_added:
  assumes "rates_match T st rows" "T \<le> T'"
  shows "rates_match T' (st\<lparr>rl_timestamps := dict_set (rl_timestamps st) key
      (filter (\<lambda>t. T' - 1 < t) (file_stamps st key) @ [x])\<rparr>)
    (prune_rates key (T' - 1) rows @ [\<lparr>re_action_key = key, re_observed_at = x\<rparr>])"
proof -
  have one: "db_stamps [\<lparr>re_action_key = key, re_observed_at = x\<rparr>] k = (if k = key then [x] else [])" for k
    by (simp add: db_stamps_def)
  show ?thesis
    unfolding rates_match_def file_stamps_set db_stamps_append db_stamps_prune one
  proof (intro allI impI)
    fix k w assume w: "T' - 1 \<le> w"
    have "filter (\<lambda>t. T' - 1 < t) (file_stamps st key) = filter (\<lambda>t. T' - 1 < t) (db_stamps rows key)"
      "filter (\<lambda>t. w < t) (file_stamps st k) = filter (\<lambda>t. w < t) (db_stamps rows k)"
      using assms w by (simp_all add: rates_match_def)
    then show "filter (\<lambda>t. w < t) (if k = key then filter (\<lambda>t. T' - 1 < t) (file_stamps st key) @ [x] else file_stamps st k) =
        filter (\<lambda>t. w < t) ((if k = key then filter (\<lambda>t. T' - 1 < t) (db_stamps rows key) else db_stamps rows k) @
          (if k = key then [x] else []))" by (cases "k = key") simp_all
  qed
qed

end
