(* ===== verification/AuditLog.thy ===== *)
theory AuditLog
  imports HashChain Files
begin

text \<open>
  \<open>src/astp/lifecycle.py\<close>, the audit log: an append-only JSON-lines file whose records are
  linked by digest. \<open>append_audit_event\<close> seals one record behind the last one;
  \<open>verify_audit_chain\<close> rechecks numbers, links and digests. \<open>hash_chain\<close> is interpreted on
  these definitions.
\<close>

definition GENESIS_HASH :: string where
  "GENESIS_HASH = replicate 64 (CHR ''0'')"

record audit_record =
  au_schema_version :: int
  au_sequence :: int
  au_timestamp :: datetime
  au_event :: string
  au_permit_id :: "string option"
  au_details :: "(string \<times> json) list"
  au_previous_hash :: string
  au_record_hash :: string

text \<open>\<open>model_dump(mode="json", exclude={"record_hash"})\<close>.\<close>

definition audit_body :: "audit_record \<Rightarrow> json" where
  "audit_body r = JObj
     [(''schema_version'', json_int (au_schema_version r)), (''sequence'', json_int (au_sequence r)),
      (''timestamp'', JStr (json_datetime (au_timestamp r))), (''event'', JStr (au_event r)),
      (''permit_id'', json_opt JStr (au_permit_id r)), (''details'', JObj (au_details r)),
      (''previous_hash'', JStr (au_previous_hash r))]"

definition audit_hash :: "json \<Rightarrow> string" where
  "audit_hash payload = sha256_hex (canonical_json payload)"

definition read_audit_records :: "audit_record log_file \<Rightarrow> audit_record list result" where
  "read_audit_records f = read_log_file (\<lambda>n. [Txt ''invalid audit record at line '', Num n]) f"

definition append_audit_event ::
  "audit_record log_file \<Rightarrow> string \<Rightarrow> string option \<Rightarrow> (string \<times> json) list option \<Rightarrow>
   datetime option \<Rightarrow> datetime \<Rightarrow> (audit_record log_file, audit_record) outcome" where
  "append_audit_event f event permit_id details now clock =
     obind (olift (read_audit_records f) f) (\<lambda>records f.
       let previous_hash = (if records = [] then GENESIS_HASH else au_record_hash (last records));
           sequence = (if records = [] then 1 else au_sequence (last records) + 1);
           timestamp = or_else now clock;
           unsigned_record =
             \<lparr>au_schema_version = 1, au_sequence = sequence, au_timestamp = timestamp,
              au_event = event, au_permit_id = permit_id, au_details = or_else details [],
              au_previous_hash = previous_hash, au_record_hash = ''pending''\<rparr>;
           record = unsigned_record\<lparr>au_record_hash := audit_hash (audit_body unsigned_record)\<rparr>
       in (Inr record, append_line f record))"

fun verify_audit_records :: "string \<Rightarrow> int \<Rightarrow> audit_record list \<Rightarrow> message option" where
  "verify_audit_records previous_hash expected_sequence [] = None"
| "verify_audit_records previous_hash expected_sequence (r # rs) =
     (if au_sequence r \<noteq> expected_sequence
      then Some [Txt ''Unexpected sequence at record '', Num (au_sequence r), Txt ''.'']
      else if au_previous_hash r \<noteq> previous_hash
      then Some [Txt ''Broken previous_hash link at record '', Num (au_sequence r), Txt ''.'']
      else if audit_hash (audit_body r) \<noteq> au_record_hash r
      then Some [Txt ''Record hash mismatch at record '', Num (au_sequence r), Txt ''.'']
      else verify_audit_records (au_record_hash r) (expected_sequence + 1) rs)"

definition verify_audit_chain :: "audit_record log_file \<Rightarrow> (bool \<times> message) result" where
  "verify_audit_chain f =
     rbind (read_audit_records f) (\<lambda>records.
       Inr (case verify_audit_records GENESIS_HASH 1 records of
              Some m \<Rightarrow> (False, m)
            | None \<Rightarrow> (True, [Txt ''Audit chain valid ('', Num (int (length records)), Txt '' records).''])))"

section \<open>The audit log is a hash chain\<close>

text \<open>What a caller supplies for one event.\<close>

record audit_event =
  ae_event :: string
  ae_permit_id :: "string option"
  ae_details :: "(string \<times> json) list"
  ae_timestamp :: datetime

definition seal_audit :: "audit_event \<Rightarrow> int \<Rightarrow> string \<Rightarrow> audit_record" where
  "seal_audit e n p =
     (let r = \<lparr>au_schema_version = 1, au_sequence = n, au_timestamp = ae_timestamp e,
               au_event = ae_event e, au_permit_id = ae_permit_id e, au_details = ae_details e,
               au_previous_hash = p, au_record_hash = ''pending''\<rparr>
      in r\<lparr>au_record_hash := audit_hash (audit_body r)\<rparr>)"

text \<open>Details whose numbers are JSON numbers.\<close>

definition audit_ok :: "audit_record \<Rightarrow> bool" where
  "audit_ok r \<longleftrightarrow> json_wf (JObj (au_details r))"

lemma audit_body_hash [simp]: "audit_body (r\<lparr>au_record_hash := h\<rparr>) = audit_body r"
  by (simp add: audit_body_def)

lemma audit_hash_digest: "audit_hash j = json_digest j"
  by (simp add: audit_hash_def json_digest_def)

lemma audit_body_wf: "audit_ok r \<Longrightarrow> json_wf (audit_body r)"
  by (simp add: audit_body_def audit_ok_def)

lemma audit_body_keys: "distinct (json_keys (audit_body r))"
  by (simp add: audit_body_def)

lemma audit_body_member:
  assumes "audit_ok r" "audit_ok r'" "canonical_json (audit_body r) = canonical_json (audit_body r')"
  shows "map_option sort_keys (json_get k (audit_body r)) = map_option sort_keys (json_get k (audit_body r'))"
  by (intro canonical_json_member) (simp_all add: assms audit_body_wf audit_body_keys)

interpretation audit_chain:
  hash_chain au_sequence au_previous_hash au_record_hash audit_body "\<lambda>h. h" GENESIS_HASH seal_audit audit_ok
proof (unfold_locales, goal_cases)
  case (5 r r')
  from audit_body_member [OF this, of "''previous_hash''"] show ?case
    by (simp add: audit_body_def)
qed (simp_all add: seal_audit_def Let_def audit_hash_digest audit_body_def)

abbreviation audit_valid :: "audit_record list \<Rightarrow> bool" where
  "audit_valid \<equiv> chain_valid au_sequence au_previous_hash au_record_hash audit_body (\<lambda>h. h) GENESIS_HASH 1"

lemma verify_audit_records_chain:
  "verify_audit_records p n rs = None \<longleftrightarrow>
   chain_valid au_sequence au_previous_hash au_record_hash audit_body (\<lambda>h. h) p n rs"
  by (induction rs arbitrary: p n) (auto simp: audit_hash_digest)

lemma verify_audit_chain_iff:
  "verify_audit_chain f = Inr (True, m) \<longleftrightarrow>
   (\<exists>rs. read_audit_records f = Inr rs \<and> audit_valid rs \<and>
      m = [Txt ''Audit chain valid ('', Num (int (length rs)), Txt '' records).''])"
  by (auto simp: verify_audit_chain_def result_simps verify_audit_records_chain [symmetric]
      split: option.splits)

lemma append_audit_event_seal:
  assumes "append_audit_event f event permit_id details now clock = (Inr r, f')"
  shows "\<exists>rs. read_audit_records f = Inr rs \<and> read_audit_records f' = Inr (rs @ [r]) \<and>
     r = seal_audit \<lparr>ae_event = event, ae_permit_id = permit_id, ae_details = or_else details [],
                     ae_timestamp = or_else now clock\<rparr>
           (next_seq au_sequence rs) (next_link au_record_hash (\<lambda>h. h) GENESIS_HASH rs)"
  using assms
  by (cases "read_audit_records f")
    (auto simp: append_audit_event_def Let_def seal_audit_def next_seq_def next_link_def
      read_audit_records_def read_log_file_append)

lemma append_audit_event_total:
  "read_audit_records f = Inr rs \<Longrightarrow> \<exists>r f'. append_audit_event f event permit_id details now clock = (Inr r, f')"
  by (simp add: append_audit_event_def Let_def)

text \<open>Appending keeps a verified log verified, and keeps what was there.\<close>

lemma append_audit_event_valid:
  assumes "append_audit_event f event permit_id details now clock = (Inr r, f')"
    and "verify_audit_chain f = Inr (True, m)"
  shows "\<exists>rs. read_audit_records f = Inr rs \<and> read_audit_records f' = Inr (rs @ [r]) \<and>
     audit_valid (rs @ [r])"
  using append_audit_event_seal [OF assms(1)] assms(2) audit_chain.append_valid
  by (auto simp: verify_audit_chain_iff)

end
