(* ===== verification/Observation.thy ===== *)
theory Observation
  imports ObservationModels Redaction RateLimit AuditLog Scheduler
begin

text \<open>
  The observation worker, \<open>src/astp/observation.py\<close> (\<open>observe_http\<close>) with the capability check of
  \<open>contracts.py\<close>: one GET or HEAD request under a permit. The worker's world is one record: the permit
  state file or the runtime database, the rate file, the audit log, the evidence manifest, the files
  it writes and the network, an abstract state the transport (an argument) acts on.
\<close>

section \<open>Capabilities\<close>

record worker_capability =
  wcap_id :: string
  wcap_schemes :: "string list"
  wcap_methods :: "string list"
  wcap_follows_redirects :: bool
  wcap_state_changing :: bool
  wcap_max_timeout :: rat
  wcap_max_body :: int

definition HTTP_OBSERVATION_CAPABILITY :: worker_capability where
  "HTTP_OBSERVATION_CAPABILITY =
     \<lparr>wcap_id = ''http.observation.v1'', wcap_schemes = [''http'', ''https''], wcap_methods = [''GET'', ''HEAD''],
      wcap_follows_redirects = False, wcap_state_changing = False, wcap_max_timeout = 30, wcap_max_body = 1048576\<rparr>"

definition ensure_capability_compatible ::
  "worker_capability \<Rightarrow> signed_permit \<Rightarrow> string \<Rightarrow> string \<Rightarrow> rat \<Rightarrow> int \<Rightarrow> unit result" where
  "ensure_capability_compatible wc permit target method timeout max_body =
     rbind (urlsplit target) (\<lambda>u.
       let scheme = str_lower (url_scheme u); normalized_method = str_upper method in
       rbind (require (scheme \<in> set (wcap_schemes wc))
                [Txt ''Worker capability does not support URL scheme '', PyRepr scheme, Txt ''.'']) (\<lambda>_.
       rbind (require (normalized_method \<in> set (wcap_methods wc))
                [Txt ''Worker capability does not support HTTP method '', PyRepr normalized_method, Txt ''.'']) (\<lambda>_.
       rbind (require (pp_http_method (sp_payload permit) = Some normalized_method)
                [Txt ''Execution permit method does not match worker action.'']) (\<lambda>_.
       rbind (require (timeout \<le> wcap_max_timeout wc) [Txt ''Requested timeout exceeds worker capability.'']) (\<lambda>_.
       rbind (require (max_body \<le> wcap_max_body wc) [Txt ''Requested body capture exceeds worker capability.'']) (\<lambda>_.
         require (\<not> wcap_state_changing wc)
           [Txt ''Observation worker capability must remain non-state-changing.'']))))))"

section \<open>The call and its world\<close>

record observe_call =
  ob_permit :: signed_permit
  ob_engagement :: engagement
  ob_test :: test_definition
  ob_keys :: keys
  ob_target :: string
  ob_raw_method :: string
  ob_identity :: "string option"
  ob_rps :: "rat option"
  ob_runtime_db :: bool
  ob_evidence_path :: string
  ob_sensitivity :: sensitivity_label
  ob_timeout :: rat
  ob_max_body :: int
  ob_persist_body :: bool
  ob_now :: "datetime option"
  ob_clock :: datetime
  ob_uuid :: string

definition ob_method :: "observe_call \<Rightarrow> string" where
  "ob_method c = str_upper (ob_raw_method c)"

definition ob_permit_id :: "observe_call \<Rightarrow> string" where
  "ob_permit_id c = pp_permit_id (sp_payload (ob_permit c))"

record 'v observe_world =
  ow_permits :: state_file
  ow_runtime :: runtime_db
  ow_rates :: rate_file
  ow_audit :: "audit_record log_file"
  ow_manifest :: "evidence_entry log_file"
  ow_files :: artifacts
  ow_net :: 'v

datatype failure_kind = FAIL_DNS | FAIL_TLS | FAIL_TIMEOUT | FAIL_CONNECTION | FAIL_IO

fun failure_value :: "failure_kind \<Rightarrow> string" where
  "failure_value FAIL_DNS = ''dns''"
| "failure_value FAIL_TLS = ''tls''"
| "failure_value FAIL_TIMEOUT = ''timeout''"
| "failure_value FAIL_CONNECTION = ''connection''"
| "failure_value FAIL_IO = ''io''"

record http_request =
  hq_url :: string
  hq_method :: string
  hq_headers :: "(string \<times> string) list"

text \<open>
  What \<open>transport.open\<close> and reading the response give: a response whose body is what the socket
  yields or the exception reading it raises, an \<open>ObservationTransportError\<close>, or another exception.
\<close>

record transport_reply =
  tr_status :: int
  tr_reason :: "string option"
  tr_headers :: "(string \<times> string) list"
  tr_body :: "string result"
  tr_endpoint :: resolved_endpoint

datatype transport_answer = Answered transport_reply | TransportFailed failure_kind | TransportRaised py_error

type_synonym 'v transport = "http_request \<Rightarrow> rat \<Rightarrow> 'v \<Rightarrow> transport_answer \<times> 'v"

text \<open>One step on a part of the world.\<close>

definition on_part :: "('w \<Rightarrow> 'p) \<Rightarrow> ('p \<Rightarrow> 'w \<Rightarrow> 'w) \<Rightarrow> ('p \<Rightarrow> ('p, 'a) outcome) \<Rightarrow> 'w \<Rightarrow> ('w, 'a) outcome" where
  "on_part get put step w = (case step (get w) of (r, p) \<Rightarrow> (r, put p w))"

definition observe_audit :: "observe_call \<Rightarrow> string \<Rightarrow> (string \<times> json) list \<Rightarrow> 'v observe_world \<Rightarrow> ('v observe_world, audit_record) outcome" where
  "observe_audit c event details =
     on_part ow_audit (\<lambda>f w. w\<lparr>ow_audit := f\<rparr>)
       (\<lambda>f. append_audit_event f event (Some (ob_permit_id c)) (Some details) (ob_now c) (ob_clock c))"

definition register_artifact :: "observe_call \<Rightarrow> string \<Rightarrow> string \<Rightarrow> string \<Rightarrow> string \<Rightarrow>
   'v observe_world \<Rightarrow> ('v observe_world, evidence_entry) outcome" where
  "register_artifact c path kind evidence_id action_id w =
     on_part ow_manifest (\<lambda>f w. w\<lparr>ow_manifest := f\<rparr>)
       (register_evidence (ow_files w) path
          \<lparr>ea_type = kind, ea_id = Some evidence_id, ea_permit_id = Some (ob_permit_id c), ea_action_id = Some action_id,
           ea_sensitivity = ob_sensitivity c, ea_now = ob_now c\<rparr> (ob_uuid c) (ob_clock c)) w"

definition write_file :: "string \<Rightarrow> string \<Rightarrow> 'v observe_world \<Rightarrow> 'v observe_world" where
  "write_file path contents w = w\<lparr>ow_files := (ow_files w)(path \<mapsto> contents)\<rparr>"

section \<open>Checks before anything happens\<close>

abbreviation observation_error :: "message \<Rightarrow> 'a result" where
  "observation_error m \<equiv> Inl (RuntimeError m)"

definition require_observation :: "bool \<Rightarrow> message \<Rightarrow> unit result" where
  "require_observation b m = (if b then Inr () else observation_error m)"

definition MAX_TIMEOUT_SECONDS :: rat where "MAX_TIMEOUT_SECONDS = 30"

definition MAX_BODY_BYTES :: int where "MAX_BODY_BYTES = 1048576"

definition validate_observation_request :: "signed_permit \<Rightarrow> string \<Rightarrow> string \<Rightarrow> rat \<Rightarrow> int \<Rightarrow> unit result" where
  "validate_observation_request permit target method timeout max_body =
     rbind (urlsplit target) (\<lambda>parsed.
     rbind (require_observation (str_lower (url_scheme parsed) \<in> {''http'', ''https''})
              [Txt ''Observation target must use http or https.'']) (\<lambda>_.
     rbind (require_observation (url_hostname parsed \<noteq> None) [Txt ''Observation target must contain a hostname.'']) (\<lambda>_.
     rbind (require_observation (CHR ''@'' \<notin> set (url_netloc parsed))
              [Txt ''Credentials embedded in observation URLs are not allowed.'']) (\<lambda>_.
     rbind (require_observation (method \<in> {''GET'', ''HEAD''})
              [Txt ''M2 observation worker only permits GET and HEAD.'']) (\<lambda>_.
     rbind (require_observation (pp_http_method (sp_payload permit) \<in> {Some ''GET'', Some ''HEAD''})
              [Txt ''Execution permit is not bound to an observation-only HTTP method.'']) (\<lambda>_.
     rbind (require_observation (\<not> (timeout \<le> 0 \<or> MAX_TIMEOUT_SECONDS < timeout))
              [Txt ''Timeout must be greater than 0 and at most '', FmtG MAX_TIMEOUT_SECONDS, Txt '' seconds.'']) (\<lambda>_.
     rbind (require_observation (\<not> (max_body < 0 \<or> MAX_BODY_BYTES < max_body))
              [Txt ''Maximum body size must be between 0 and '', Num MAX_BODY_BYTES, Txt '' bytes.'']) (\<lambda>_.
       case ensure_capability_compatible HTTP_OBSERVATION_CAPABILITY permit target method timeout max_body of
         Inl e \<Rightarrow> if is_value_error e then observation_error (error_text e) else Inl e
       | Inr u \<Rightarrow> Inr u))))))))"

definition redacted_target :: "observe_call \<Rightarrow> string \<Rightarrow> string result" where
  "redacted_target c url = redact_url url (red_query_parameters (con_redaction (eng_constraints (ob_engagement c))))"

section \<open>Admission\<close>

definition observe_consume :: "observe_call \<Rightarrow> consume_call" where
  "observe_consume c =
     \<lparr>cc_permit = ob_permit c, cc_engagement = ob_engagement c, cc_test = ob_test c,
      cc_request = \<lparr>vq_target = ob_target c, vq_http_method = Some (ob_method c), vq_identity = ob_identity c,
                    vq_rps = ob_rps c, vq_now = ob_now c\<rparr>,
      cc_keys = ob_keys c, cc_clock = ob_clock c\<rparr>"

text \<open>\<open>requested_rps or permit.payload.max_requests_per_second\<close>.\<close>

definition observe_rate :: "observe_call \<Rightarrow> rat" where
  "observe_rate c =
     (case ob_rps c of None \<Rightarrow> pp_max_rps (sp_payload (ob_permit c))
      | Some r \<Rightarrow> if r = 0 then pp_max_rps (sp_payload (ob_permit c)) else r)"

text \<open>\<open>f"{seconds:.3f}"\<close> of a non-negative number.\<close>

definition fixed3 :: "rat \<Rightarrow> string" where
  "fixed3 x = (let n = half_even (1000 * x) in int_str (n div 1000) @ ''.'' @ pad_nat 3 (nat (n mod 1000)))"

definition admit_runtime :: "observe_call \<Rightarrow> 'v observe_world \<Rightarrow> ('v observe_world, unit) outcome" where
  "admit_runtime c w =
     obind (olift (http_target_rate_key (ob_target c)) w) (\<lambda>key w.
     obind (on_part ow_runtime (\<lambda>db w. w\<lparr>ow_runtime := db\<rparr>)
              (admit_worker_action \<lparr>ad_consume = observe_consume c, ad_action_key = key, ad_max_rps = observe_rate c\<rparr>) w)
       (\<lambda>admission w.
       if wa_accepted admission then (Inr (), w)
       else
         obind (olift (redacted_target c (ob_target c)) w) (\<lambda>shown w.
         obind (observe_audit c
                  (if 0 < wa_retry_after admission then ''observation.rate_limited'' else ''observation.rejected'')
                  [(''status'', JStr (lifecycle_value (wa_status admission))),
                   (''message'', JStr (literal_text (wa_message admission))),
                   (''retry_after_seconds'', json_float (wa_retry_after admission)), (''target'', JStr shown)] w)
           (\<lambda>_ w.
             (if 0 < wa_retry_after admission
              then observation_error [Txt ''Durable target rate limit reached; retry after '',
                     Txt (fixed3 (wa_retry_after admission)), Txt '' seconds. Permit remains available.'']
              else observation_error (wa_message admission), w)))))"

definition admit_file :: "observe_call \<Rightarrow> string \<Rightarrow> 'v observe_world \<Rightarrow> ('v observe_world, unit) outcome" where
  "admit_file c action_id w =
     obind (on_part ow_permits (\<lambda>f w. w\<lparr>ow_permits := f\<rparr>) (consume_execution_permit (observe_consume c)) w)
       (\<lambda>consumed w.
       if \<not> cr_accepted consumed then
         obind (olift (redacted_target c (ob_target c)) w) (\<lambda>shown w.
         obind (observe_audit c ''observation.rejected''
                  [(''status'', JStr (lifecycle_value (cr_status consumed))),
                   (''message'', JStr (literal_text (cr_message consumed))), (''target'', JStr shown)] w) (\<lambda>_ w.
           (observation_error (cr_message consumed), w)))
       else
         obind (olift (http_target_rate_key (ob_target c)) w) (\<lambda>key w.
         obind (on_part ow_rates (\<lambda>f w. w\<lparr>ow_rates := f\<rparr>)
                  (\<lambda>f. acquire_rate_slot f key (observe_rate c) (ob_now c) (ob_clock c)) w) (\<lambda>(acquired, retry_after) w.
           if acquired then (Inr (), w)
           else
             obind (olift (redacted_target c (ob_target c)) w) (\<lambda>shown w.
             obind (observe_audit c ''observation.rate_limited''
                      [(''action_id'', JStr action_id), (''retry_after_seconds'', json_float retry_after),
                       (''target'', JStr shown)] w) (\<lambda>_ w.
               (observation_error [Txt ''Durable target rate limit reached; retry after '', Txt (fixed3 retry_after),
                  Txt '' seconds.''], w))))))"

section \<open>The request\<close>

definition observation_user_agent :: "engagement \<Rightarrow> string" where
  "observation_user_agent eng =
     (case eng_program eng of
        None \<Rightarrow> ''ASTP/0.23 observation-worker''
      | Some b \<Rightarrow> (case pb_user_agent b of
                    None \<Rightarrow> ''ASTP/0.23 observation-worker''
                  | Some ua \<Rightarrow> if ua = [] then ''ASTP/0.23 observation-worker'' else ua))"

definition observe_request :: "observe_call \<Rightarrow> http_request" where
  "observe_request c =
     \<lparr>hq_url = ob_target c, hq_method = ob_method c,
      hq_headers = [(''User-Agent'', observation_user_agent (ob_engagement c)), (''Accept'', ''*/*'')]\<rparr>"

text \<open>\<open>{name: value for ... in headers.items()}\<close>: the last value of a name, names told apart by case.\<close>

definition header_dict :: "(string \<times> string) list \<Rightarrow> (string \<times> string) list" where
  "header_dict hs = foldl (\<lambda>d (name, value). dict_set d name value) [] hs"

text \<open>\<open>response.headers.get(name)\<close>: the first field of the name, whatever its case.\<close>

definition header_get :: "string \<Rightarrow> (string \<times> string) list \<Rightarrow> string option" where
  "header_get name hs = map_option snd (List.find (\<lambda>(n, _). str_lower n = str_lower name) hs)"

definition read_bounded :: "string result \<Rightarrow> string \<Rightarrow> int \<Rightarrow> (string \<times> bool) result" where
  "read_bounded stream method max_body =
     (if method = ''HEAD'' \<or> max_body = 0 then Inr ([], False)
      else rbind stream (\<lambda>content.
        let body = take (nat (max_body + 1)) content
        in Inr (if max_body < int (length body) then (take (nat max_body) body, True) else (body, False))))"

section \<open>Evidence\<close>

text \<open>\<open>evidence_path.with_name(f"{stem}.body.bin")\<close>.\<close>

definition path_stem :: "string \<Rightarrow> string" where
  "path_stem name =
     (case rpartition_at (CHR ''.'') name of (front, sep, suffix) \<Rightarrow>
        if sep = [] \<or> front = [] \<or> suffix = [] then name else front)"

definition body_artifact_path :: "string \<Rightarrow> string" where
  "body_artifact_path path =
     (case rpartition_at (CHR ''/'') path of (dir, sep, name) \<Rightarrow> dir @ sep @ path_stem name @ ''.body.bin'')"

definition seal_evidence :: "http_evidence \<Rightarrow> http_evidence" where
  "seal_evidence e = e\<lparr>he_evidence_hash := payload_hash (http_evidence_fields e)\<rparr>"

definition failure_evidence_of :: "observe_call \<Rightarrow> string \<Rightarrow> string \<Rightarrow> failure_kind \<Rightarrow> failure_evidence" where
  "failure_evidence_of c action_id shown kind =
     (let e = \<lparr>fe_schema_version = ''1'', fe_evidence_id = ob_uuid c, fe_action_id = action_id,
               fe_sensitivity = ob_sensitivity c, fe_permit_id = ob_permit_id c, fe_engagement_id = eng_id (ob_engagement c),
               fe_test_id = test_id (ob_test c), fe_observed_at = or_else (ob_now c) (ob_clock c), fe_method = ob_method c,
               fe_target = shown, fe_failure_kind = failure_value kind, fe_evidence_hash = ''pending''\<rparr>
      in e\<lparr>fe_evidence_hash := payload_hash (failure_fields e)\<rparr>)"

definition write_failure_evidence ::
  "observe_call \<Rightarrow> string \<Rightarrow> failure_kind \<Rightarrow> 'v observe_world \<Rightarrow> ('v observe_world, failure_evidence) outcome" where
  "write_failure_evidence c action_id kind w =
     obind (olift (redacted_target c (ob_target c)) w) (\<lambda>shown w.
       let e = failure_evidence_of c action_id shown kind;
           w1 = write_file (ob_evidence_path c) (evidence_file_text (failure_fields e) (fe_evidence_hash e)) w
       in obind (register_artifact c (ob_evidence_path c) ''http.observation.failure'' (fe_evidence_id e) action_id w1)
            (\<lambda>_ w. (Inr e, w)))"

text \<open>A failed transport: evidence, an audit event, and the error of the caller.\<close>

definition observe_failed ::
  "observe_call \<Rightarrow> string \<Rightarrow> failure_kind \<Rightarrow> 'v observe_world \<Rightarrow> ('v observe_world, 'a) outcome" where
  "observe_failed c action_id kind w =
     obind (write_failure_evidence c action_id kind w) (\<lambda>e w.
     obind (olift (redacted_target c (ob_target c)) w) (\<lambda>shown w.
     obind (observe_audit c ''observation.failed''
              [(''failure_kind'', JStr (failure_value kind)), (''evidence_id'', JStr (fe_evidence_id e)),
               (''target'', JStr shown)] w) (\<lambda>_ w.
       (observation_error [Txt ''Observation transport failed: '', Txt (failure_value kind), Txt ''.''], w))))"

text \<open>The redirect of a response, noted but never followed.\<close>

definition effective_port_of :: "split_url \<Rightarrow> nat result" where
  "effective_port_of u =
     rbind (url_port u) (\<lambda>p.
       Inr (let default_port = (if str_lower (url_scheme u) = ''https'' then 443 else 80)
            in case p of None \<Rightarrow> default_port | Some n \<Rightarrow> if n = 0 then default_port else n))"

definition observe_redirect ::
  "observe_call \<Rightarrow> int \<Rightarrow> (string \<times> string) list \<Rightarrow> redirect_observation option result" where
  "observe_redirect c status headers =
     (case dict_get headers ''Location'' of
        None \<Rightarrow> Inr None
      | Some location \<Rightarrow>
          if location = [] \<or> \<not> (300 \<le> status \<and> status < 400) then Inr None
          else
            rbind (urljoin (ob_target c) location) (\<lambda>redirect_target.
            rbind (urlsplit (ob_target c)) (\<lambda>current.
            rbind (urlsplit redirect_target) (\<lambda>redirected.
            rbind (effective_port_of current) (\<lambda>current_port.
            rbind (effective_port_of redirected) (\<lambda>redirected_port.
            rbind (redacted_target c redirect_target) (\<lambda>shown.
            rbind (target_in_scope redirect_target (eng_scope (ob_engagement c))) (\<lambda>in_scope.
              Inr (Some \<lparr>ro_target = shown, ro_in_scope = in_scope,
                ro_same_origin = (str_lower (url_scheme current) = str_lower (url_scheme redirected) \<and>
                  str_lower (or_else (url_hostname current) []) = str_lower (or_else (url_hostname redirected) []) \<and>
                  current_port = redirected_port),
                ro_requires_new_permit = True, ro_followed = False\<rparr>)))))))))"

record captured =
  ca_status :: int
  ca_reason :: "string option"
  ca_headers :: "(string \<times> string) list"
  ca_content_type :: "string option"
  ca_body :: string
  ca_truncated :: bool
  ca_endpoint :: resolved_endpoint

definition TARGET_PROVENANCE :: response_provenance where
  "TARGET_PROVENANCE = \<lparr>rv_source = TARGET, rv_observed = True, rv_synthetic = False, rv_producer = ''target'', rv_reason = None\<rparr>"

definition evidence_of ::
  "codecs \<Rightarrow> observe_call \<Rightarrow> string \<Rightarrow> string \<Rightarrow> captured \<Rightarrow> redirect_observation option \<Rightarrow> body_artifact option \<Rightarrow> http_evidence" where
  "evidence_of cod c action_id shown r redirect artifact =
     (let red = con_redaction (eng_constraints (ob_engagement c));
          headers = redact_headers (ca_headers r) (red_headers red);
          digest = sha256_hex (ca_body r)
      in seal_evidence
        \<lparr>he_schema_version = ''3'', he_evidence_id = ob_uuid c, he_action_id = action_id, he_sensitivity = ob_sensitivity c,
         he_permit_id = ob_permit_id c, he_engagement_id = eng_id (ob_engagement c), he_test_id = test_id (ob_test c),
         he_observed_at = or_else (ob_now c) (ob_clock c), he_method = ob_method c, he_target = shown,
         he_status_code = ca_status r, he_reason = ca_reason r, he_headers = headers, he_content_type = ca_content_type r,
         he_body_bytes = int (length (ca_body r)), he_body_truncated = ca_truncated r, he_body_sha256 = digest,
         he_body_preview = decode_preview cod (ca_body r) (ca_content_type r) (red_body_fields red),
         he_body_artifact = artifact, he_redirect = redirect, he_endpoint = Some (ca_endpoint r),
         he_transport_failure = None, he_provenance = Some TARGET_PROVENANCE, he_boundary = None,
         he_chain = [\<lparr>hop_target = shown, hop_status = ca_status r, hop_headers = headers, hop_body_sha256 = digest,
           hop_body_bytes = int (length (ca_body r)), hop_provenance = TARGET_PROVENANCE\<rparr>],
         he_evidence_hash = ''pending''\<rparr>)"

record observe_result =
  or_evidence :: http_evidence
  or_evidence_path :: string
  or_body_artifact_path :: "string option"

section \<open>The observation\<close>

text \<open>What follows a response that could be read.\<close>

definition observe_completed ::
  "codecs \<Rightarrow> observe_call \<Rightarrow> string \<Rightarrow> captured \<Rightarrow> 'v observe_world \<Rightarrow> ('v observe_world, observe_result) outcome" where
  "observe_completed cod c action_id r w =
     obind (olift (observe_redirect c (ca_status r) (ca_headers r)) w) (\<lambda>redirect w.
     let persisted = (ob_persist_body c \<and> ob_method c \<noteq> ''HEAD'');
         body_path = body_artifact_path (ob_evidence_path c);
         artifact = (if persisted
           then Some \<lparr>art_persisted = True, art_path = body_path, art_sha256 = sha256_hex (ca_body r),
                  art_size = int (length (ca_body r)), art_sensitivity = ob_sensitivity c\<rparr>
           else None);
         w1 = (if persisted then write_file body_path (ca_body r) w else w)
     in obind (olift (redacted_target c (ob_target c)) w1) (\<lambda>shown w.
        obind (olift (mk_http_evidence (evidence_of cod c action_id shown r redirect artifact)) w) (\<lambda>e w.
        let w2 = write_file (ob_evidence_path c) (evidence_file_text (http_evidence_fields e) (he_evidence_hash e)) w
        in obind (if persisted
                  then obind (register_artifact c body_path ''http.observation.body'' (he_evidence_id e) action_id w2)
                         (\<lambda>_ w. (Inr (), w))
                  else (Inr (), w2)) (\<lambda>_ w.
           obind (register_artifact c (ob_evidence_path c) ''http.observation'' (he_evidence_id e) action_id w) (\<lambda>entry w.
           obind (observe_audit c ''observation.completed''
                    [(''status_code'', json_int (ca_status r)), (''evidence_hash'', JStr (he_evidence_hash e)),
                     (''evidence_id'', JStr (he_evidence_id e)), (''manifest_entry_hash'', JStr (ee_entry_hash entry)),
                     (''evidence_path'', JStr (ob_evidence_path c)), (''redirect_followed'', JBool False)] w) (\<lambda>_ w.
             (Inr \<lparr>or_evidence = e, or_evidence_path = ob_evidence_path c,
                   or_body_artifact_path = (if persisted then Some body_path else None)\<rparr>, w)))))))"

definition capture :: "observe_call \<Rightarrow> transport_reply \<Rightarrow> captured result" where
  "capture c r =
     rbind (read_bounded (tr_body r) (ob_method c) (ob_max_body c)) (\<lambda>(body, truncated).
       Inr \<lparr>ca_status = tr_status r, ca_reason = tr_reason r, ca_headers = header_dict (tr_headers r),
            ca_content_type = header_get ''Content-Type'' (tr_headers r), ca_body = body, ca_truncated = truncated,
            ca_endpoint = tr_endpoint r\<rparr>)"

text \<open>The request and what becomes of its answer. An exception that is no \<open>ObservationTransportError\<close> propagates.\<close>

definition observe_send ::
  "codecs \<Rightarrow> 'v transport \<Rightarrow> observe_call \<Rightarrow> string \<Rightarrow> 'v observe_world \<Rightarrow> ('v observe_world, observe_result) outcome" where
  "observe_send cod net c action_id w =
     (case net (observe_request c) (ob_timeout c) (ow_net w) of (answer, v) \<Rightarrow>
        let w1 = w\<lparr>ow_net := v\<rparr> in
        (case answer of
           TransportFailed kind \<Rightarrow> observe_failed c action_id kind w1
         | TransportRaised e \<Rightarrow> (Inl e, w1)
         | Answered r \<Rightarrow> obind (olift (capture c r) w1) (\<lambda>captured w. observe_completed cod c action_id captured w)))"

text \<open>What comes before the request: its action identifier, once the permit is consumed and the start is on record.\<close>

definition observe_admit :: "observe_call \<Rightarrow> 'v observe_world \<Rightarrow> ('v observe_world, string) outcome" where
  "observe_admit c w =
     obind (olift (http_action_id (ob_target c) (ob_method c) (ob_identity c)) w) (\<lambda>action_id w.
     obind (olift (validate_observation_request (ob_permit c) (ob_target c) (ob_method c) (ob_timeout c) (ob_max_body c)) w) (\<lambda>_ w.
     obind (if ob_runtime_db c then admit_runtime c w else admit_file c action_id w) (\<lambda>_ w.
     obind (olift (redacted_target c (ob_target c)) w) (\<lambda>shown w.
     obind (observe_audit c ''observation.started''
              [(''method'', JStr (ob_method c)), (''target'', JStr shown)] w) (\<lambda>_ w. (Inr action_id, w))))))"

definition observe_http ::
  "codecs \<Rightarrow> 'v transport \<Rightarrow> observe_call \<Rightarrow> 'v observe_world \<Rightarrow> ('v observe_world, observe_result) outcome" where
  "observe_http cod net c w = obind (observe_admit c w) (\<lambda>action_id w. observe_send cod net c action_id w)"

end
