(* ===== verification/ObservationSystem.thy ===== *)
theory ObservationSystem
  imports Observation Lifecycle
begin

text \<open>
  What every step of an observation keeps of the world, and with it what an observation does to the
  permit ledgers: the single-use contract holds for whole observations, whatever the network does.
\<close>

section \<open>What sequences keep\<close>

text \<open>A relation between the world before and after that sequencing respects, on every exit.\<close>

locale kept =
  fixes R :: "'w \<Rightarrow> 'w \<Rightarrow> bool"
  assumes refl: "R w w"
    and trans: "R w w' \<Longrightarrow> R w' w'' \<Longrightarrow> R w w''"
begin

lemma bind:
  assumes "R w (snd r)" "\<And>x w1. r = (Inr x, w1) \<Longrightarrow> R w1 (snd (f x w1))"
  shows "R w (snd (obind r f))"
  using assms refl trans by (cases r; cases "fst r") auto

lemma lift: "(\<And>x. r = Inr x \<Longrightarrow> R w (snd (f x w))) \<Longrightarrow> R w (snd (obind (olift r w) f))"
  using bind [of w "olift r w" f] refl by simp

end

lemma on_part_snd: "snd (on_part get put step w) = put (snd (step (get w))) w"
  by (simp add: on_part_def split: prod.splits)

lemma observe_audit_world: "\<exists>f. snd (observe_audit c event details w) = w\<lparr>ow_audit := f\<rparr>"
  by (auto simp: observe_audit_def on_part_snd)

lemma register_artifact_world: "\<exists>f. snd (register_artifact c path kind i a w) = w\<lparr>ow_manifest := f\<rparr>"
  by (auto simp: register_artifact_def on_part_snd)

text \<open>Only the audit log and the rate file change.\<close>

definition only_logs :: "'v observe_world \<Rightarrow> 'v observe_world \<Rightarrow> bool" where
  "only_logs w w' \<longleftrightarrow> ow_permits w' = ow_permits w \<and> ow_runtime w' = ow_runtime w \<and> ow_manifest w' = ow_manifest w \<and>
     ow_files w' = ow_files w \<and> ow_net w' = ow_net w"

interpretation only_logs: kept only_logs
  by unfold_locales (auto simp: only_logs_def)

text \<open>The ledgers and the network stay.\<close>

definition same_ledgers :: "'v observe_world \<Rightarrow> 'v observe_world \<Rightarrow> bool" where
  "same_ledgers w w' \<longleftrightarrow> ow_permits w' = ow_permits w \<and> ow_runtime w' = ow_runtime w \<and> ow_net w' = ow_net w"

interpretation same_ledgers: kept same_ledgers
  by unfold_locales (auto simp: same_ledgers_def)

named_theorems kept_steps "steps that keep the world apart from their own part"

lemma audit_only_logs [kept_steps]: "only_logs w (snd (observe_audit c event details w))"
  using observe_audit_world [of c event details w] by (auto simp: only_logs_def)

lemma audit_same_ledgers [kept_steps]: "same_ledgers w (snd (observe_audit c event details w))"
  using observe_audit_world [of c event details w] by (auto simp: same_ledgers_def)

lemma register_same_ledgers [kept_steps]: "same_ledgers w (snd (register_artifact c path kind i a w))"
  using register_artifact_world [of c path kind i a w] by (auto simp: same_ledgers_def)

lemma write_same_ledgers [kept_steps]: "same_ledgers w (write_file path contents w)"
  by (simp add: same_ledgers_def write_file_def)

lemma rates_only_logs [kept_steps]: "only_logs w (snd (on_part ow_rates (\<lambda>f w. w\<lparr>ow_rates := f\<rparr>) step w))"
  by (simp add: on_part_snd only_logs_def)

lemma write_failure_ledgers [kept_steps]: "same_ledgers w (snd (write_failure_evidence c a kind w))"
  unfolding write_failure_evidence_def Let_def
  by (rule same_ledgers.lift, rule same_ledgers.trans [OF write_same_ledgers], rule same_ledgers.bind,
      rule register_same_ledgers) (simp add: same_ledgers.refl)

lemma observe_failed_ledgers [kept_steps]: "same_ledgers w (snd (observe_failed c a kind w))"
  unfolding observe_failed_def
  by (rule same_ledgers.bind, rule write_failure_ledgers, rule same_ledgers.lift, rule same_ledgers.bind,
      rule audit_same_ledgers) (simp add: same_ledgers.refl)

lemma observe_completed_ledgers [kept_steps]: "same_ledgers w (snd (observe_completed cod c a r w))"
proof -
  have body: "same_ledgers w1 (snd (if b then obind (register_artifact c path kind i a w1) (\<lambda>_ w. (Inr (), w)) else (Inr (), w1)))"
    for b path kind i and w1 :: "'b observe_world"
    using same_ledgers.bind [OF register_same_ledgers [of w1 c path kind i a], of "\<lambda>_ w. (Inr (), w)"]
    by (simp add: same_ledgers.refl)
  have start: "same_ledgers w (if b then write_file path contents w else w)" for b path contents and w :: "'b observe_world"
    by (simp add: write_same_ledgers same_ledgers.refl)
  show ?thesis
    unfolding observe_completed_def Let_def
    by (rule same_ledgers.lift, rule same_ledgers.trans [OF start], rule same_ledgers.lift, rule same_ledgers.lift,
        rule same_ledgers.trans [OF write_same_ledgers], rule same_ledgers.bind, rule body, rule same_ledgers.bind,
        rule register_same_ledgers, rule same_ledgers.bind, rule audit_same_ledgers) (simp add: same_ledgers.refl)
qed

text \<open>The rest of an observation leaves the ledgers alone; only the network has moved.\<close>

lemma observe_send_ledgers:
  "ow_permits (snd (observe_send cod net c a w)) = ow_permits w \<and> ow_runtime (snd (observe_send cod net c a w)) = ow_runtime w"
proof -
  obtain answer v where n: "net (observe_request c) (ob_timeout c) (ow_net w) = (answer, v)" by fastforce
  have "same_ledgers (w\<lparr>ow_net := v\<rparr>) (snd (observe_send cod net c a w))"
  proof (cases answer)
    case (Answered r)
    then show ?thesis using n
      by (simp add: observe_send_def) (rule same_ledgers.lift [unfolded olift_simps], rule observe_completed_ledgers)
  qed (use n in \<open>simp_all add: observe_send_def observe_failed_ledgers same_ledgers.refl\<close>)
  then show ?thesis by (simp add: same_ledgers_def)
qed

section \<open>Admission\<close>

text \<open>A sequence whose last step raises raises.\<close>

lemma isl_obind: "(\<And>x w. isl (fst (f x w))) \<Longrightarrow> isl (fst (obind r f))"
  by (cases r; cases "fst r") auto

lemma admit_file_ledger:
  assumes "admit_file c a w = (r, w')"
  shows "ow_runtime w' = ow_runtime w \<and> ow_net w' = ow_net w \<and> ow_files w' = ow_files w \<and> ow_manifest w' = ow_manifest w \<and>
    (ow_permits w' = ow_permits w \<and> isl r \<or>
     (\<exists>q. consume_execution_permit (observe_consume c) (ow_permits w) = (Inr q, ow_permits w') \<and> cr_accepted q))"
proof -
  obtain q f where q: "consume_execution_permit (observe_consume c) (ow_permits w) = (q, f)" by fastforce
  let ?w = "w\<lparr>ow_permits := f\<rparr>"
  have part: "on_part ow_permits (\<lambda>f w. w\<lparr>ow_permits := f\<rparr>) (consume_execution_permit (observe_consume c)) w = (q, ?w)"
    by (simp add: on_part_def q)
  have logs: "only_logs ?w (snd (admit_file c a w))"
    unfolding admit_file_def part
    by (rule only_logs.bind) (auto intro!: only_logs.bind only_logs.lift [unfolded olift_simps] audit_only_logs rates_only_logs
        simp: only_logs.refl split: prod.splits)
  have "ow_permits w' = ow_permits w \<and> isl r" if "\<not> admitted (Returned q)"
  proof -
    from consume_execution_permit_refused [OF q that] have f: "f = ow_permits w" .
    have "isl (fst (admit_file c a w))"
      unfolding admit_file_def part using that
      by (cases q) (auto simp: admitted_Returned intro!: isl_obind)
    with logs f assms show ?thesis by (auto simp: only_logs_def)
  qed
  moreover have "\<exists>x. consume_execution_permit (observe_consume c) (ow_permits w) = (Inr x, ow_permits w') \<and> cr_accepted x"
    if "admitted (Returned q)"
    using that logs assms q by (auto simp: admitted_Returned only_logs_def)
  ultimately show ?thesis using logs assms by (auto simp: only_logs_def)
qed

lemma admit_runtime_ledger:
  assumes "admit_runtime c w = (r, w')"
  shows "ow_permits w' = ow_permits w \<and> ow_net w' = ow_net w \<and> ow_files w' = ow_files w \<and> ow_manifest w' = ow_manifest w \<and>
    (ow_runtime w' = ow_runtime w \<and> isl r \<or>
     (\<exists>a q. ad_consume a = observe_consume c \<and> admit_worker_action a (ow_runtime w) = (Inr q, ow_runtime w') \<and> wa_accepted q \<and>
        r = Inr ()))"
proof (cases "http_target_rate_key (ob_target c)")
  case (Inl e)
  with assms show ?thesis by (auto simp: admit_runtime_def)
next
  case (Inr key)
  let ?a = "\<lparr>ad_consume = observe_consume c, ad_action_key = key, ad_max_rps = observe_rate c\<rparr>"
  obtain q db where q: "admit_worker_action ?a (ow_runtime w) = (q, db)" by fastforce
  let ?w = "w\<lparr>ow_runtime := db\<rparr>"
  have part: "on_part ow_runtime (\<lambda>db w. w\<lparr>ow_runtime := db\<rparr>) (admit_worker_action ?a) w = (q, ?w)"
    by (simp add: on_part_def q)
  have logs: "only_logs ?w (snd (admit_runtime c w))"
    unfolding admit_runtime_def Inr olift_simps obind.simps part
    by (rule only_logs.bind) (auto intro!: only_logs.bind only_logs.lift [unfolded olift_simps] audit_only_logs
        simp: only_logs.refl)
  show ?thesis
  proof (cases "\<exists>x. q = Inr x \<and> wa_accepted x")
    case True
    then obtain x where x: "q = Inr x" "wa_accepted x" by blast
    then have "r = Inr ()" using assms unfolding admit_runtime_def Inr olift_simps obind.simps part by simp
    with x logs assms q show ?thesis by (intro conjI disjI2 exI [of _ ?a] exI [of _ x]) (auto simp: only_logs_def)
  next
    case False
    then have "runtime_consume ?a (ow_runtime w) = (False, db)" by (auto simp: runtime_consume_def q split: sum.splits)
    then have st: "db = ow_runtime w" by (rule runtime_consume_False)
    have "isl (fst (admit_runtime c w))"
      unfolding admit_runtime_def Inr olift_simps obind.simps part using False
      by (cases q) (auto intro!: isl_obind [unfolded olift_simps])
    with st logs assms show ?thesis by (auto simp: only_logs_def)
  qed
qed

text \<open>The status of a permit in the ledger the worker was started with.\<close>

definition spent_status :: "bool \<Rightarrow> 'v observe_world \<Rightarrow> string \<Rightarrow> lifecycle_status option" where
  "spent_status db w = (if db then runtime_status (ow_runtime w) else file_status (ow_permits w))"

lemma observe_consume_id [simp]: "cc_permit_id (observe_consume c) = ob_permit_id c"
  by (simp add: cc_permit_id_def observe_consume_def ob_permit_id_def)

lemma file_consumed_status:
  assumes "consume_execution_permit k f = (Inr q, f')" "cr_accepted q"
  shows "file_status f (cc_permit_id k) = Some AVAILABLE \<and> file_status f' = (file_status f)(cc_permit_id k := Some CONSUMED) \<and>
    (\<exists>v. cc_verify k = Inr v \<and> vr_valid v)"
proof -
  have c: "file_consume k f = (True, f')" using assms by (simp add: file_consume_def)
  have "file_status f' p = ((file_status f)(cc_permit_id k := Some CONSUMED)) p" for p
    using file_ledger.consume_accepted [OF c] file_ledger.consume_frame [OF c, of p] by (cases "p = cc_permit_id k") auto
  with file_ledger.consume_accepted [OF c] consume_execution_permitD [OF assms] show ?thesis by blast
qed

lemma runtime_consumed_status:
  assumes "admit_worker_action a db = (Inr q, db')" "wa_accepted q"
  shows "runtime_status db (ad_permit_id a) = Some AVAILABLE \<and>
    runtime_status db' = (runtime_status db)(ad_permit_id a := Some CONSUMED) \<and>
    (\<exists>v. cc_verify (ad_consume a) = Inr v \<and> vr_valid v)"
proof -
  have c: "runtime_consume a db = (True, db')" using assms by (simp add: runtime_consume_def)
  have "runtime_status db' p = ((runtime_status db)(ad_permit_id a := Some CONSUMED)) p" for p
    using runtime_consume_status [OF c, of p] by simp
  with runtime_consume_status [OF c] admit_accepted [OF assms] show ?thesis by blast
qed

lemma observe_admit_ledger:
  assumes "observe_admit c w = (r, w')"
  shows "ow_net w' = ow_net w \<and> ow_files w' = ow_files w \<and> ow_manifest w' = ow_manifest w"
    "(spent_status (ob_runtime_db c) w' = spent_status (ob_runtime_db c) w \<and> isl r) \<or>
     (spent_status (ob_runtime_db c) w (ob_permit_id c) = Some AVAILABLE \<and>
      spent_status (ob_runtime_db c) w' = (spent_status (ob_runtime_db c) w)(ob_permit_id c := Some CONSUMED) \<and>
      (\<exists>v. cc_verify (observe_consume c) = Inr v \<and> vr_valid v))"
    "r = Inr a \<Longrightarrow> http_action_id (ob_target c) (ob_method c) (ob_identity c) = Inr a \<and>
      validate_observation_request (ob_permit c) (ob_target c) (ob_method c) (ob_timeout c) (ob_max_body c) = Inr ()"
proof -
  let ?id = "http_action_id (ob_target c) (ob_method c) (ob_identity c)"
  let ?valid = "validate_observation_request (ob_permit c) (ob_target c) (ob_method c) (ob_timeout c) (ob_max_body c)"
  show "r = Inr a \<Longrightarrow> ?id = Inr a \<and> ?valid = Inr ()"
    using assms by (cases ?id; cases ?valid) (auto simp: observe_admit_def result_simps)
  have "(ow_net w' = ow_net w \<and> ow_files w' = ow_files w \<and> ow_manifest w' = ow_manifest w) \<and>
    (spent_status (ob_runtime_db c) w' = spent_status (ob_runtime_db c) w \<and> isl r \<or>
     (spent_status (ob_runtime_db c) w (ob_permit_id c) = Some AVAILABLE \<and>
      spent_status (ob_runtime_db c) w' = (spent_status (ob_runtime_db c) w)(ob_permit_id c := Some CONSUMED) \<and>
      (\<exists>v. cc_verify (observe_consume c) = Inr v \<and> vr_valid v)))"
  proof (cases "\<exists>i. ?id = Inr i \<and> ?valid = Inr ()")
    case False
    then have "isl (fst (observe_admit c w)) \<and> snd (observe_admit c w) = w"
    proof (cases ?id)
      case (Inr i)
      with False obtain e where "?valid = Inl e" by (cases ?valid) auto
      with Inr show ?thesis by (simp add: observe_admit_def)
    qed (simp add: observe_admit_def)
    with assms show ?thesis by simp
  next
    case True
    then obtain i where i: "?id = Inr i" "?valid = Inr ()" by blast
    obtain r1 w1 where adm: "(if ob_runtime_db c then admit_runtime c w else admit_file c i w) = (r1, w1)" by fastforce
    have "only_logs w1 (snd (observe_admit c w))"
      unfolding observe_admit_def i olift_simps obind.simps adm
      by (rule only_logs.bind) (auto intro!: only_logs.bind only_logs.lift [unfolded olift_simps] audit_only_logs
          simp: only_logs.refl)
    with assms have logs: "only_logs w1 w'" by simp
    have raised: "isl r" if "isl r1"
    proof -
      from that obtain e where "r1 = Inl e" by (cases r1) auto
      with assms show ?thesis unfolding observe_admit_def i olift_simps obind.simps adm by auto
    qed
    show ?thesis
    proof (cases "ob_runtime_db c")
      case True
      with adm have "admit_runtime c w = (r1, w1)" by simp
      from admit_runtime_ledger [OF this] logs raised True runtime_consumed_status show ?thesis
        by (fastforce simp: only_logs_def spent_status_def ad_permit_id_def)
    next
      case False
      with adm have "admit_file c i w = (r1, w1)" by simp
      from admit_file_ledger [OF this] logs raised False file_consumed_status show ?thesis
        by (fastforce simp: only_logs_def spent_status_def)
    qed
  qed
  then show "ow_net w' = ow_net w \<and> ow_files w' = ow_files w \<and> ow_manifest w' = ow_manifest w"
    "(spent_status (ob_runtime_db c) w' = spent_status (ob_runtime_db c) w \<and> isl r) \<or>
     (spent_status (ob_runtime_db c) w (ob_permit_id c) = Some AVAILABLE \<and>
      spent_status (ob_runtime_db c) w' = (spent_status (ob_runtime_db c) w)(ob_permit_id c := Some CONSUMED) \<and>
      (\<exists>v. cc_verify (observe_consume c) = Inr v \<and> vr_valid v))" by simp_all
qed

section \<open>Whole observations and the ledgers\<close>

lemma observe_http_ledger:
  "spent_status db (snd (observe_http cod net c w)) = spent_status db (snd (observe_admit c w))"
proof (cases "observe_admit c w")
  case (Pair r w1)
  then show ?thesis
    by (cases r) (simp_all add: observe_http_def spent_status_def observe_send_ledgers)
qed

text \<open>One observation with a ledger: whether it spent its permit, and whether it sent its request.\<close>

definition observe_spends :: "bool \<Rightarrow> codecs \<Rightarrow> 'v transport \<Rightarrow> observe_call \<Rightarrow> 'v observe_world \<Rightarrow> bool \<times> 'v observe_world" where
  "observe_spends db cod net c w =
     (let w' = snd (observe_http cod net (c\<lparr>ob_runtime_db := db\<rparr>) w)
      in (spent_status db w (ob_permit_id c) = Some AVAILABLE \<and> spent_status db w' (ob_permit_id c) = Some CONSUMED, w'))"

definition observe_sends :: "bool \<Rightarrow> codecs \<Rightarrow> 'v transport \<Rightarrow> observe_call \<Rightarrow> 'v observe_world \<Rightarrow> bool \<times> 'v observe_world" where
  "observe_sends db cod net c w =
     (\<not> isl (fst (observe_admit (c\<lparr>ob_runtime_db := db\<rparr>) w)), snd (observe_http cod net (c\<lparr>ob_runtime_db := db\<rparr>) w))"

text \<open>The operator revokes a permit in the ledger.\<close>

definition world_revoke :: "bool \<Rightarrow> revocation \<Rightarrow> 'v observe_world \<Rightarrow> bool \<times> 'v observe_world" where
  "world_revoke db b w =
     (if db then (case runtime_revoke b (ow_runtime w) of (ok, d) \<Rightarrow> (ok, w\<lparr>ow_runtime := d\<rparr>))
      else (case file_revoke b (ow_permits w) of (ok, f) \<Rightarrow> (ok, w\<lparr>ow_permits := f\<rparr>)))"

lemma ob_permit_id_db [simp]: "ob_permit_id (c\<lparr>ob_runtime_db := db\<rparr>) = ob_permit_id c"
  by (simp add: ob_permit_id_def)

lemma observe_status:
  fixes c :: observe_call and db :: bool
  defines "c' \<equiv> c\<lparr>ob_runtime_db := db\<rparr>"
  shows "(spent_status db (snd (observe_http cod net c' w)) = spent_status db w \<and> isl (fst (observe_admit c' w))) \<or>
    (spent_status db w (ob_permit_id c) = Some AVAILABLE \<and>
     spent_status db (snd (observe_http cod net c' w)) = (spent_status db w)(ob_permit_id c := Some CONSUMED))"
proof -
  have "ob_runtime_db c' = db" "ob_permit_id c' = ob_permit_id c" by (simp_all add: c'_def)
  then show ?thesis
    unfolding observe_http_ledger
    using observe_admit_ledger(2) [of c' w "fst (observe_admit c' w)" "snd (observe_admit c' w)"] by auto
qed

interpretation observation_ledger:
  permit_ledger "spent_status db" "observe_spends db cod net" "world_revoke db" ob_permit_id rv_permit_id for db cod net
proof (unfold_locales, goal_cases)
  case (1 a s s')
  then show ?case by (auto simp: observe_spends_def Let_def)
next
  case (2 a s ok s' p)
  then show ?case using observe_status [of db cod net a s] by (auto simp: observe_spends_def Let_def)
next
  case (3 b s s')
  then show ?case
    using runtime_ledger.revoke_accepted [of b "ow_runtime s"] file_ledger.revoke_accepted [of b "ow_permits s"]
    by (auto simp: world_revoke_def spent_status_def split: if_splits prod.splits)
next
  case (4 b s ok s' p)
  then show ?case
    using runtime_ledger.revoke_frame [of b "ow_runtime s"] file_ledger.revoke_frame [of b "ow_permits s"]
    by (auto simp: world_revoke_def spent_status_def split: if_splits prod.splits)
qed

text \<open>An operation that accepts less, with the same effect, is counted at most as often.\<close>

lemma ledger_run_fewer:
  assumes "\<And>a s. snd (sends a s) = snd (consume a s)" "\<And>a s. fst (sends a s) \<Longrightarrow> fst (consume a s)"
  shows "count_rows (consumes pid p) (fst (ledger_run sends revoke ops s)) \<le>
    count_rows (consumes pid p) (fst (ledger_run consume revoke ops s))"
proof (induction ops arbitrary: s)
  case (Cons op ops)
  show ?case
  proof (cases op)
    case (Consume a)
    obtain ok s1 where c: "consume a s = (ok, s1)" by fastforce
    obtain ok' where c': "sends a s = (ok', s1)" using assms(1) [of a s] c by (cases "sends a s") auto
    have "ok' \<longrightarrow> ok" using assms(2) [of a s] c c' by auto
    with c c' Consume Cons.IH [of s1] show ?thesis
      by (auto simp: count_rows_def Let_def split: prod.splits)
  next
    case (Revoke b)
    obtain ok s1 where r: "revoke b s = (ok, s1)" by fastforce
    with Revoke Cons.IH [of s1] show ?thesis by (auto simp: count_rows_def Let_def split: prod.splits)
  qed
qed simp

lemma sends_spends:
  "snd (observe_sends db cod net c w) = snd (observe_spends db cod net c w)"
  "fst (observe_sends db cod net c w) \<Longrightarrow> fst (observe_spends db cod net c w)"
  using observe_status [of db cod net c w] by (auto simp: observe_sends_def observe_spends_def Let_def)

section \<open>The journals\<close>

definition audit_ok_world :: "'v observe_world \<Rightarrow> bool" where
  "audit_ok_world w \<longleftrightarrow> (\<exists>m. verify_audit_chain (ow_audit w) = Inr (True, m))"

definition manifest_ok :: "'v observe_world \<Rightarrow> bool" where
  "manifest_ok w \<longleftrightarrow> (\<exists>m. verify_evidence_manifest (ow_files w) True (ow_manifest w) = Inr (True, m))"

text \<open>No entry of the manifest is about these paths.\<close>

definition unregistered :: "string set \<Rightarrow> 'v observe_world \<Rightarrow> bool" where
  "unregistered paths w \<longleftrightarrow> (\<forall>es. read_manifest (ow_manifest w) = Inr es \<longrightarrow> (\<forall>e \<in> set es. ee_artifact_path e \<notin> paths))"

text \<open>Sequencing from a good world, where each step gives a good one.\<close>

lemma post_lift: "Q w \<Longrightarrow> (\<And>x. r = Inr x \<Longrightarrow> Q (snd (f x w))) \<Longrightarrow> Q (snd (obind (olift r w) f))"
  by (cases r) auto

lemma post_bind: "Q (snd r) \<Longrightarrow> (\<And>x w. r = (Inr x, w) \<Longrightarrow> Q w \<Longrightarrow> Q (snd (f x w))) \<Longrightarrow> Q (snd (obind r f))"
  by (cases r; cases "fst r") auto

lemmas audit_post = post_lift [where Q = audit_ok_world, unfolded olift_simps] post_bind [where Q = audit_ok_world]

lemmas manifest_lift = post_lift [where Q = manifest_ok]

lemmas manifest_bind = post_bind [where Q = manifest_ok]

lemma observe_audit_ok: "audit_ok_world w \<Longrightarrow> audit_ok_world (snd (observe_audit c event details w))"
proof -
  assume "audit_ok_world w"
  then obtain m where v: "verify_audit_chain (ow_audit w) = Inr (True, m)" by (auto simp: audit_ok_world_def)
  then obtain rs where "read_audit_records (ow_audit w) = Inr rs" by (auto simp: verify_audit_chain_iff)
  then obtain r f where a: "append_audit_event (ow_audit w) event (Some (ob_permit_id c)) (Some details) (ob_now c) (ob_clock c) = (Inr r, f)"
    using append_audit_event_total by blast
  from append_audit_event_valid [OF a v] a show ?thesis
    by (auto simp: observe_audit_def on_part_snd audit_ok_world_def verify_audit_chain_iff)
qed

lemma audit_ok_parts [simp]:
  "audit_ok_world (w\<lparr>ow_permits := f\<rparr>) = audit_ok_world w" "audit_ok_world (w\<lparr>ow_runtime := db\<rparr>) = audit_ok_world w"
  "audit_ok_world (w\<lparr>ow_rates := rf\<rparr>) = audit_ok_world w" "audit_ok_world (w\<lparr>ow_manifest := mf\<rparr>) = audit_ok_world w"
  "audit_ok_world (w\<lparr>ow_net := v\<rparr>) = audit_ok_world w" "audit_ok_world (write_file path contents w) = audit_ok_world w"
  by (simp_all add: audit_ok_world_def write_file_def)

lemma register_audit_ok: "audit_ok_world w \<Longrightarrow> audit_ok_world (snd (register_artifact c path kind i a w))"
  by (simp add: register_artifact_def on_part_snd)

lemma part_audit_ok:
  "audit_ok_world w \<Longrightarrow> audit_ok_world (snd (on_part ow_permits (\<lambda>f w. w\<lparr>ow_permits := f\<rparr>) step w))"
  "audit_ok_world w \<Longrightarrow> audit_ok_world (snd (on_part ow_runtime (\<lambda>f w. w\<lparr>ow_runtime := f\<rparr>) step' w))"
  "audit_ok_world w \<Longrightarrow> audit_ok_world (snd (on_part ow_rates (\<lambda>f w. w\<lparr>ow_rates := f\<rparr>) step'' w))"
  by (simp_all add: on_part_snd)

lemma observe_admit_audit: "audit_ok_world w \<Longrightarrow> audit_ok_world (snd (observe_admit c w))"
  unfolding observe_admit_def admit_runtime_def admit_file_def
  by (auto intro!: audit_post part_audit_ok observe_audit_ok split: prod.splits)

lemma observe_send_audit: "audit_ok_world w \<Longrightarrow> audit_ok_world (snd (observe_send cod net c a w))"
  unfolding observe_send_def observe_failed_def write_failure_evidence_def observe_completed_def Let_def
  by (auto intro!: audit_post register_audit_ok observe_audit_ok
      split: prod.splits transport_answer.splits)

section \<open>The manifest\<close>

lemma register_evidence_Inl: "register_evidence fs path a uuid clock f = (Inl e, f') \<Longrightarrow> f' = f"
  by (cases "read_manifest f") (auto simp: register_evidence_def mk_evidence_entry_def require_def Let_def split: option.splits if_splits)

lemma register_manifest_ok: "manifest_ok w \<Longrightarrow> manifest_ok (snd (register_artifact c path kind i a w))"
proof -
  assume "manifest_ok w"
  then obtain m where v: "verify_evidence_manifest (ow_files w) True (ow_manifest w) = Inr (True, m)" by (auto simp: manifest_ok_def)
  let ?args = "\<lparr>ea_type = kind, ea_id = Some i, ea_permit_id = Some (ob_permit_id c), ea_action_id = Some a,
    ea_sensitivity = ob_sensitivity c, ea_now = ob_now c\<rparr>"
  obtain r f where r: "register_evidence (ow_files w) path ?args (ob_uuid c) (ob_clock c) (ow_manifest w) = (r, f)" by fastforce
  show ?thesis
  proof (cases r)
    case (Inl e)
    with r register_evidence_Inl v show ?thesis by (fastforce simp: register_artifact_def on_part_snd manifest_ok_def)
  next
    case (Inr e)
    with r register_evidence_valid [OF _ v] show ?thesis by (fastforce simp: register_artifact_def on_part_snd manifest_ok_def)
  qed
qed

lemma write_manifest_ok: "manifest_ok w \<Longrightarrow> unregistered paths w \<Longrightarrow> path \<in> paths \<Longrightarrow> manifest_ok (write_file path contents w)"
  by (fastforce simp: manifest_ok_def unregistered_def write_file_def verify_evidence_manifest_iff artifacts_match_def list_all_iff)

lemma manifest_ok_parts [simp]:
  "manifest_ok (w\<lparr>ow_net := v\<rparr>) = manifest_ok w" "unregistered paths (w\<lparr>ow_net := v\<rparr>) = unregistered paths w"
  "unregistered paths (write_file path contents w) = unregistered paths w"
  by (simp_all add: manifest_ok_def unregistered_def write_file_def)

lemma audit_manifest_ok: "manifest_ok w \<Longrightarrow> manifest_ok (snd (observe_audit c event details w))"
  using observe_audit_world [of c event details w] by (auto simp: manifest_ok_def)

lemma observe_completed_manifest:
  assumes "manifest_ok w" "unregistered {ob_evidence_path c, body_artifact_path (ob_evidence_path c)} w"
  shows "manifest_ok (snd (observe_completed cod c a r w))"
proof -
  let ?paths = "{ob_evidence_path c, body_artifact_path (ob_evidence_path c)}"
  have body: "manifest_ok (snd (if b then obind (register_artifact c path kind i a w1) (\<lambda>_ w. (Inr (), w)) else (Inr (), w1)))"
    if m: "manifest_ok w1" for b path kind i and w1 :: "'b observe_world"
    using m by (cases b) (auto intro!: manifest_bind register_manifest_ok)
  have start: "manifest_ok (if b then write_file (body_artifact_path (ob_evidence_path c)) contents w else w) \<and>
      unregistered ?paths (if b then write_file (body_artifact_path (ob_evidence_path c)) contents w else w)" for b contents
    using assms write_manifest_ok [OF assms] by simp
  show ?thesis
    unfolding observe_completed_def Let_def
  proof (rule manifest_lift [OF assms(1)], rule manifest_lift [OF conjunct1 [OF start]], rule manifest_lift [OF conjunct1 [OF start]],
      rule manifest_bind [OF body], goal_cases)
    case (1 redirect shown e)
    show ?case using start by (intro write_manifest_ok [of _ ?paths]) auto
  next
    case (2 redirect shown e x w1)
    show ?case
      by (rule manifest_bind [OF register_manifest_ok [OF 2(5)]], rule manifest_bind [OF audit_manifest_ok], assumption, simp)
  qed
qed

lemma observe_failed_manifest:
  assumes "manifest_ok w" "unregistered {ob_evidence_path c} w"
  shows "manifest_ok (snd (observe_failed c a kind w))"
proof -
  have "manifest_ok (snd (write_failure_evidence c a kind w))"
    unfolding write_failure_evidence_def Let_def
    by (rule manifest_lift [OF assms(1)], rule manifest_bind, rule register_manifest_ok, rule write_manifest_ok [OF assms]) simp_all
  then show ?thesis
    unfolding observe_failed_def
    by (rule manifest_bind) (auto intro!: manifest_lift [unfolded olift_simps] manifest_bind audit_manifest_ok)
qed

section \<open>What a completed observation leaves behind\<close>

lemma obind_InrE:
  assumes "obind r f = (Inr y, s')"
  obtains x s where "r = (Inr x, s)" "f x s = (Inr y, s')"
  using assms by (cases r; cases "fst r") auto

lemma on_part_Inr: "on_part get put step w = (Inr x, w') \<Longrightarrow> \<exists>p. step (get w) = (Inr x, p) \<and> w' = put p w"
  by (auto simp: on_part_def split: prod.splits)

lemma observe_audit_Inr:
  assumes "observe_audit c event details w = (Inr r, w')"
  shows "\<exists>rs. read_audit_records (ow_audit w') = Inr (rs @ [r]) \<and> au_event r = event \<and>
    au_permit_id r = Some (ob_permit_id c) \<and> au_details r = details \<and>
    ow_files w' = ow_files w \<and> ow_manifest w' = ow_manifest w \<and> ow_net w' = ow_net w"
proof -
  from on_part_Inr [OF assms [unfolded observe_audit_def]] obtain f
    where f: "append_audit_event (ow_audit w) event (Some (ob_permit_id c)) (Some details) (ob_now c) (ob_clock c) = (Inr r, f)"
      "w' = w\<lparr>ow_audit := f\<rparr>" by blast
  from append_audit_event_seal [OF f(1)] f(2) show ?thesis by (auto simp: seal_audit_def Let_def)
qed

lemma register_artifact_Inr:
  assumes "register_artifact c path kind i a w = (Inr e, w')"
  shows "\<exists>es. read_manifest (ow_manifest w') = Inr (es @ [e]) \<and> ee_artifact_path e = path \<and>
    map_option sha256_file (ow_files w path) = Some (ee_artifact_sha256 e) \<and> ow_files w' = ow_files w \<and> ow_net w' = ow_net w"
proof -
  from on_part_Inr [OF assms [unfolded register_artifact_def]] obtain f
    where f: "register_evidence (ow_files w) path \<lparr>ea_type = kind, ea_id = Some i, ea_permit_id = Some (ob_permit_id c),
        ea_action_id = Some a, ea_sensitivity = ob_sensitivity c, ea_now = ob_now c\<rparr> (ob_uuid c) (ob_clock c) (ow_manifest w) = (Inr e, f)"
      "w' = w\<lparr>ow_manifest := f\<rparr>" by blast
  from register_evidence_seal [OF f(1)] f(2) show ?thesis by auto
qed

text \<open>The artifact of a completed observation, its manifest entry and its last audit record.\<close>

definition recorded :: "observe_call \<Rightarrow> http_evidence \<Rightarrow> 'v observe_world \<Rightarrow> bool" where
  "recorded c e w \<longleftrightarrow>
     (\<exists>es entry rs rec. ow_files w (ob_evidence_path c) = Some (evidence_file_text (http_evidence_fields e) (he_evidence_hash e)) \<and>
        read_manifest (ow_manifest w) = Inr (es @ [entry]) \<and> ee_artifact_path entry = ob_evidence_path c \<and>
        ee_artifact_sha256 entry = sha256_file (evidence_file_text (http_evidence_fields e) (he_evidence_hash e)) \<and>
        read_audit_records (ow_audit w) = Inr (rs @ [rec]) \<and> au_event rec = ''observation.completed'' \<and>
        au_permit_id rec = Some (ob_permit_id c) \<and>
        dict_get (au_details rec) ''evidence_hash'' = Some (JStr (he_evidence_hash e)) \<and>
        dict_get (au_details rec) ''manifest_entry_hash'' = Some (JStr (ee_entry_hash entry)))"

lemma observe_completedD:
  assumes "observe_completed cod c a r w = (Inr q, w')"
  shows "recorded c (or_evidence q) w' \<and> ow_net w' = ow_net w \<and>
    (\<exists>redirect artifact shown. observe_redirect c (ca_status r) (ca_headers r) = Inr redirect \<and>
       redacted_target c (ob_target c) = Inr shown \<and> or_evidence q = evidence_of cod c a shown r redirect artifact)"
proof -
  let ?body = "body_artifact_path (ob_evidence_path c)" and ?p = "ob_persist_body c \<and> ob_method c \<noteq> ''HEAD''"
  let ?w1 = "if ?p then write_file ?body (ca_body r) w else w"
  let ?art = "if ?p then Some \<lparr>art_persisted = True, art_path = ?body, art_sha256 = sha256_hex (ca_body r),
      art_size = int (length (ca_body r)), art_sensitivity = ob_sensitivity c\<rparr> else None"
  obtain redirect where redirect: "observe_redirect c (ca_status r) (ca_headers r) = Inr redirect"
    using assms by (cases "observe_redirect c (ca_status r) (ca_headers r)") (simp_all add: observe_completed_def)
  obtain shown where shown: "redacted_target c (ob_target c) = Inr shown"
    using assms by (cases "redacted_target c (ob_target c)") (simp_all add: observe_completed_def redirect)
  let ?e = "evidence_of cod c a shown r redirect ?art"
  have mk: "mk_http_evidence ?e = Inr ?e"
    using assms unfolding observe_completed_def redirect shown Let_def olift_simps obind.simps
    by (cases "mk_http_evidence ?e") (auto simp: mk_http_evidence_def result_simps require_def split: if_splits)
  let ?contents = "evidence_file_text (http_evidence_fields ?e) (he_evidence_hash ?e)"
  let ?w2 = "write_file (ob_evidence_path c) ?contents ?w1"
  let ?first = "if ?p then obind (register_artifact c ?body ''http.observation.body'' (he_evidence_id ?e) a ?w2) (\<lambda>_ w. (Inr (), w))
    else (Inr (), ?w2)"
  note rest = assms [unfolded observe_completed_def redirect shown Let_def olift_simps obind.simps mk]
  from rest obtain u w3 where first: "?first = (Inr u, w3)"
    by (elim obind_InrE) simp
  have w3: "ow_files w3 = ow_files ?w2 \<and> ow_net w3 = ow_net ?w2"
  proof (cases ?p)
    case True
    with first obtain e' where "register_artifact c ?body ''http.observation.body'' (he_evidence_id ?e) a ?w2 = (Inr e', w3)"
      by (auto elim!: obind_InrE)
    from register_artifact_Inr [OF this] show ?thesis by simp
  next
    case False
    with first show ?thesis by auto
  qed
  from rest [unfolded first obind.simps] obtain entry w4 rec where
    entry: "register_artifact c (ob_evidence_path c) ''http.observation'' (he_evidence_id ?e) a w3 = (Inr entry, w4)" and
    rec: "observe_audit c ''observation.completed''
      [(''status_code'', json_int (ca_status r)), (''evidence_hash'', JStr (he_evidence_hash ?e)),
       (''evidence_id'', JStr (he_evidence_id ?e)), (''manifest_entry_hash'', JStr (ee_entry_hash entry)),
       (''evidence_path'', JStr (ob_evidence_path c)), (''redirect_followed'', JBool False)] w4 = (Inr rec, w')" and
    q: "or_evidence q = ?e"
    by (elim obind_InrE) auto
  have written: "ow_files w3 (ob_evidence_path c) = Some ?contents" using w3 by (simp add: write_file_def)
  have net: "ow_net w3 = ow_net w" using w3 by (simp add: write_file_def)
  from register_artifact_Inr [OF entry] written obtain es where es: "read_manifest (ow_manifest w4) = Inr (es @ [entry])"
    "ee_artifact_path entry = ob_evidence_path c" "ee_artifact_sha256 entry = sha256_file ?contents"
    "ow_files w4 = ow_files w3" "ow_net w4 = ow_net w3" by auto
  from observe_audit_Inr [OF rec] obtain rs where rs: "read_audit_records (ow_audit w') = Inr (rs @ [rec])"
    "au_event rec = ''observation.completed''" "au_permit_id rec = Some (ob_permit_id c)"
    "dict_get (au_details rec) ''evidence_hash'' = Some (JStr (he_evidence_hash ?e))"
    "dict_get (au_details rec) ''manifest_entry_hash'' = Some (JStr (ee_entry_hash entry))"
    "ow_files w' = ow_files w4" "ow_manifest w' = ow_manifest w4" "ow_net w' = ow_net w4" by auto
  have "recorded c ?e w'"
    unfolding recorded_def using rs es written
    by (intro exI [of _ es] exI [of _ entry] exI [of _ rs] exI [of _ rec]) simp
  with q redirect shown rs(8) es(5) net show ?thesis by auto
qed

lemma observe_admit_started:
  assumes "observe_admit c w = (Inr a, w1)"
  shows "\<exists>rs rec. read_audit_records (ow_audit w1) = Inr (rs @ [rec]) \<and> au_event rec = ''observation.started'' \<and>
    au_permit_id rec = Some (ob_permit_id c)"
proof -
  from assms obtain details rec w0 where "observe_audit c ''observation.started'' details w0 = (Inr rec, w1)"
    unfolding observe_admit_def by (elim obind_InrE) auto
  from observe_audit_Inr [OF this] show ?thesis by blast
qed

lemma validate_observation_Inr:
  assumes "validate_observation_request permit target method timeout max_body = Inr ()"
  shows "(\<exists>u. urlsplit target = Inr u \<and> str_lower (url_scheme u) \<in> {''http'', ''https''} \<and> url_hostname u \<noteq> None \<and>
      CHR ''@'' \<notin> set (url_netloc u)) \<and>
    method \<in> {''GET'', ''HEAD''} \<and> 0 < timeout \<and> timeout \<le> 30 \<and> 0 \<le> max_body \<and> max_body \<le> 1048576"
  using assms
  unfolding validate_observation_request_def require_observation_def MAX_TIMEOUT_SECONDS_def MAX_BODY_BYTES_def
  by (auto elim!: rbind_InrE split: if_splits)

text \<open>With an available permit that verifies, readable files and a free slot, the request goes out.\<close>

lemma observe_audit_total:
  "read_audit_records (ow_audit w) = Inr rs \<Longrightarrow>
   \<exists>r f. observe_audit c event details w = (Inr r, w\<lparr>ow_audit := f\<rparr>) \<and> (\<exists>rs'. read_audit_records f = Inr rs')"
proof -
  assume rs: "read_audit_records (ow_audit w) = Inr rs"
  from append_audit_event_total [OF this] obtain r f
    where a: "append_audit_event (ow_audit w) event (Some (ob_permit_id c)) (Some details) (ob_now c) (ob_clock c) = (Inr r, f)"
    by blast
  from append_audit_event_seal [OF a] a show ?thesis by (auto simp: observe_audit_def on_part_def)
qed

lemma register_artifact_total:
  assumes "read_manifest (ow_manifest w) = Inr es" "ow_files w path = Some contents" "aware (or_else (ob_now c) (ob_clock c))"
  shows "\<exists>e f. register_artifact c path kind i a w = (Inr e, w\<lparr>ow_manifest := f\<rparr>) \<and> (\<exists>es'. read_manifest f = Inr es')"
proof -
  let ?args = "\<lparr>ea_type = kind, ea_id = Some i, ea_permit_id = Some (ob_permit_id c), ea_action_id = Some a,
    ea_sensitivity = ob_sensitivity c, ea_now = ob_now c\<rparr>"
  from assms obtain e f where r: "register_evidence (ow_files w) path ?args (ob_uuid c) (ob_clock c) (ow_manifest w) = (Inr e, f)"
    by (simp add: register_evidence_def mk_evidence_entry_def require_def preliminary_created Let_def)
  from register_evidence_seal [OF r] r show ?thesis by (auto simp: register_artifact_def on_part_def)
qed

lemma read_bounded_Inr:
  assumes "read_bounded stream method n = Inr (body, truncated)" "0 \<le> n"
  shows "int (length body) \<le> n \<and>
    (if method = ''HEAD'' \<or> n = 0 then body = [] else \<exists>content. stream = Inr content \<and> body = take (nat n) content)"
proof (cases "method = ''HEAD'' \<or> n = 0")
  case False
  with assms(1) obtain content where content: "stream = Inr content" by (cases stream) (auto simp: read_bounded_def)
  have "nat (n + 1) = Suc (nat n)" using assms(2) by simp
  with assms False content show ?thesis
    by (auto simp: read_bounded_def Let_def min_def split: if_splits)
qed (use assms in \<open>auto simp: read_bounded_def\<close>)

lemma observe_failed_raises: "isl (fst (observe_failed c a kind w))"
  unfolding observe_failed_def by (intro isl_obind) simp

lemma observe_http_Inr:
  assumes "observe_http cod net c w = (Inr q, w')"
  obtains a w1 reply v captured where "observe_admit c w = (Inr a, w1)" "ow_net w1 = ow_net w"
    "net (observe_request c) (ob_timeout c) (ow_net w) = (Answered reply, v)" "capture c reply = Inr captured"
    "observe_completed cod c a captured (w1\<lparr>ow_net := v\<rparr>) = (Inr q, w')"
proof -
  obtain a w1 where a: "observe_admit c w = (Inr a, w1)" and s: "observe_send cod net c a w1 = (Inr q, w')"
    using assms unfolding observe_http_def by (elim obind_InrE) auto
  have n: "ow_net w1 = ow_net w" using observe_admit_ledger(1) [OF a] by blast
  obtain answer v where v: "net (observe_request c) (ob_timeout c) (ow_net w) = (answer, v)" by fastforce
  have "\<exists>reply. answer = Answered reply"
  proof (cases answer)
    case (TransportFailed k)
    with s n v have "observe_failed c a k (w1\<lparr>ow_net := v\<rparr>) = (Inr q, w')" by (simp add: observe_send_def)
    with observe_failed_raises [of c a k "w1\<lparr>ow_net := v\<rparr>"] show ?thesis by (metis fst_conv isl_def sum.simps(4))
  qed (use s n v in \<open>simp_all add: observe_send_def\<close>)
  then obtain reply where r: "answer = Answered reply" by blast
  with s n v obtain captured where "capture c reply = Inr captured"
    "observe_completed cod c a captured (w1\<lparr>ow_net := v\<rparr>) = (Inr q, w')"
    by (cases "capture c reply") (auto simp: observe_send_def)
  with that a n v r show ?thesis by blast
qed

lemma seal_evidence_verifies: "verify_observation_evidence fields_set (seal_evidence e)"
  by (rule sealed_evidence_verifies) (simp add: seal_evidence_def)

lemma observe_redirect_noted:
  "observe_redirect c status headers = Inr (Some ro) \<Longrightarrow> \<not> ro_followed ro \<and> ro_requires_new_permit ro"
  by (auto simp: observe_redirect_def result_simps split: option.splits if_splits)

lemma redact_headers_sensitive:
  "(name, value) \<in> set (redact_headers hs extra) \<Longrightarrow> str_lower name \<in> set (SENSITIVE_HEADER_NAMES @ extra) \<Longrightarrow> value = REDACTED"
  by (auto simp: redact_headers_def)

end
