(* ===== verification/ObservationProperties.thy ===== *)
theory ObservationProperties
  imports ObservationSystem Examples
begin

text \<open>
  Properties of the observation worker: one request per permit, what a request presupposes, what a
  completed observation leaves behind, what a lost one does not, and that the journals stay valid.
\<close>

section \<open>The permit and the request\<close>



section \<open>What is left behind\<close>

text \<open>
  C25: a completed observation is on record: the response it evidences is the one the transport gave to its request, its
  body cut at the bound; the evidence verifies and has target provenance; no redirect was followed; every sensitive
  header is redacted; the evidence file, the last manifest entry (with the digest of that file) and the last audit
  event (with the hashes of both) agree.
\<close>

theorem observation_recorded:
  assumes "observe_http cod net c w = (Inr q, w')"
  shows "\<exists>reply body. net (observe_request c) (ob_timeout c) (ow_net w) = (Answered reply, ow_net w') \<and>
    recorded c (or_evidence q) w' \<and>
    verify_observation_evidence fields_set (or_evidence q) \<and> has_target_response_provenance (or_evidence q) \<and>
    he_permit_id (or_evidence q) = ob_permit_id c \<and> he_method (or_evidence q) = ob_method c \<and>
    he_status_code (or_evidence q) = tr_status reply \<and>
    he_body_sha256 (or_evidence q) = sha256_hex body \<and> int (length body) \<le> ob_max_body c \<and>
    (if ob_method c = ''HEAD'' \<or> ob_max_body c = 0 then body = []
     else \<exists>content. tr_body reply = Inr content \<and> body = take (nat (ob_max_body c)) content) \<and>
    (\<forall>ro. he_redirect (or_evidence q) = Some ro \<longrightarrow> \<not> ro_followed ro \<and> ro_requires_new_permit ro) \<and>
    (\<forall>(name, value) \<in> set (he_headers (or_evidence q)).
       str_lower name \<in> set (SENSITIVE_HEADER_NAMES @ red_headers (con_redaction (eng_constraints (ob_engagement c)))) \<longrightarrow>
       value = ''[REDACTED]'')"
proof (rule observe_http_Inr [OF assms])
  fix a w1 reply v captured
  assume a: "observe_admit c w = (Inr a, w1)" and n: "ow_net w1 = ow_net w"
    and reply: "net (observe_request c) (ob_timeout c) (ow_net w) = (Answered reply, v)"
    and captured: "capture c reply = Inr captured"
    and run: "observe_completed cod c a captured (w1\<lparr>ow_net := v\<rparr>) = (Inr q, w')"
  from observe_completedD [OF run] obtain redirect artifact shown where
    rec: "recorded c (or_evidence q) w'" and v: "ow_net w' = v"
    and red: "observe_redirect c (ca_status captured) (ca_headers captured) = Inr redirect"
    and e: "or_evidence q = evidence_of cod c a shown captured redirect artifact" by auto
  from captured obtain truncated where body: "read_bounded (tr_body reply) (ob_method c) (ob_max_body c) = Inr (ca_body captured, truncated)"
    and status: "ca_status captured = tr_status reply"
    by (auto simp: capture_def result_simps)
  have bound: "0 \<le> ob_max_body c"
    using validate_observation_Inr observe_admit_ledger(3) [OF a] by blast
  note rb = read_bounded_Inr [OF body bound]
  have fields: "he_permit_id (or_evidence q) = ob_permit_id c" "he_method (or_evidence q) = ob_method c"
    "he_status_code (or_evidence q) = tr_status reply" "he_body_sha256 (or_evidence q) = sha256_hex (ca_body captured)"
    "he_redirect (or_evidence q) = redirect" "has_target_response_provenance (or_evidence q)"
    "he_headers (or_evidence q) = redact_headers (ca_headers captured) (red_headers (con_redaction (eng_constraints (ob_engagement c))))"
    by (simp_all add: e evidence_of_def seal_evidence_def Let_def status has_target_response_provenance_def TARGET_PROVENANCE_def)
  have seal: "verify_observation_evidence fields_set (or_evidence q)"
    unfolding e evidence_of_def Let_def by (rule seal_evidence_verifies)
  have noted: "\<forall>ro. redirect = Some ro \<longrightarrow> \<not> ro_followed ro \<and> ro_requires_new_permit ro"
    using observe_redirect_noted red by blast
  have secret: "\<forall>(name, value) \<in> set (he_headers (or_evidence q)).
       str_lower name \<in> set (SENSITIVE_HEADER_NAMES @ red_headers (con_redaction (eng_constraints (ob_engagement c)))) \<longrightarrow>
       value = ''[REDACTED]''"
    unfolding fields(7) using redact_headers_sensitive unfolding REDACTED_def by blast
  show ?thesis
    using reply v rec seal fields(1-6) rb noted secret
    by (intro exI [of _ reply] exI [of _ "ca_body captured"]) simp
qed

text \<open>
  C26: an observation keeps the journals: when the audit log and the evidence manifest, with its files, verify before, and
  no entry is about the files this call writes, they verify after it, whatever the transport answers and wherever the
  observation stops.
\<close>

theorem observation_keeps_journals:
  assumes "observe_http cod net c w = (r, w')"
    and "verify_audit_chain (ow_audit w) = Inr (True, m)"
    and "verify_evidence_manifest (ow_files w) True (ow_manifest w) = Inr (True, m')" "read_manifest (ow_manifest w) = Inr es"
    and "\<forall>e \<in> set es. ee_artifact_path e \<notin> {ob_evidence_path c, body_artifact_path (ob_evidence_path c)}"
  shows "(\<exists>m. verify_audit_chain (ow_audit w') = Inr (True, m)) \<and>
    (\<exists>m'. verify_evidence_manifest (ow_files w') True (ow_manifest w') = Inr (True, m'))"
proof -
  obtain q w1 where a: "observe_admit c w = (q, w1)" by fastforce
  have audit1: "audit_ok_world w1" using observe_admit_audit [of w c] assms(2) a by (auto simp: audit_ok_world_def)
  have man1: "manifest_ok w1" and free1: "unregistered {ob_evidence_path c, body_artifact_path (ob_evidence_path c)} w1"
    using observe_admit_ledger(1) [OF a] assms(3-5) by (auto simp: manifest_ok_def unregistered_def)
  have "audit_ok_world w' \<and> manifest_ok w'"
  proof (cases q)
    case (Inl e)
    with assms(1) a audit1 man1 show ?thesis by (simp add: observe_http_def)
  next
    case (Inr i)
    with assms(1) a have s: "w' = snd (observe_send cod net c i w1)" by (simp add: observe_http_def)
    have "manifest_ok (snd (observe_send cod net c i w1))"
      using man1 free1
      by (auto simp: observe_send_def Let_def unregistered_def split: prod.splits transport_answer.splits
          intro!: manifest_lift [unfolded olift_simps] observe_completed_manifest observe_failed_manifest)
    with s observe_send_audit [OF audit1] show ?thesis by simp
  qed
  then show ?thesis by (simp add: audit_ok_world_def manifest_ok_def)
qed

text \<open>
  C27: what a lost observation does not leave: when reading the response raises, or its Location header cannot be parsed, the
  permit is spent and the request was answered, yet neither evidence nor a closing audit event is written: the log still
  ends with the start of the observation.
\<close>

theorem observation_lost:
  assumes "observe_admit c w = (Inr a, w1)" "net (observe_request c) (ob_timeout c) (ow_net w) = (Answered reply, v)"
    and "tr_body reply = Inl e \<and> ob_method c \<noteq> ''HEAD'' \<and> ob_max_body c \<noteq> 0 \<or>
      (\<exists>captured. capture c reply = Inr captured \<and> observe_redirect c (ca_status captured) (ca_headers captured) = Inl e)"
  shows "\<exists>w' rs rec. observe_http cod net c w = (Inl e, w') \<and>
    spent_status (ob_runtime_db c) w' (ob_permit_id c) = Some CONSUMED \<and>
    ow_files w' = ow_files w \<and> ow_manifest w' = ow_manifest w \<and>
    read_audit_records (ow_audit w') = Inr (rs @ [rec]) \<and> au_event rec = ''observation.started''"
proof -
  note l = observe_admit_ledger [OF assms(1)]
  have n: "ow_net w1 = ow_net w" using l(1) by blast
  have out: "observe_http cod net c w = (Inl e, w1\<lparr>ow_net := v\<rparr>)"
    using assms n by (auto simp: observe_http_def observe_send_def capture_def read_bounded_def observe_completed_def)
  from l(2) have "spent_status (ob_runtime_db c) w1 (ob_permit_id c) = Some CONSUMED" by auto
  moreover obtain rs rec where "read_audit_records (ow_audit w1) = Inr (rs @ [rec])" "au_event rec = ''observation.started''"
    using observe_admit_started [OF assms(1)] by blast
  ultimately show ?thesis using out l(1) by (auto simp: spent_status_def)
qed

section \<open>A run of the example\<close>

definition ex_observation :: observe_call where
  "ex_observation =
     \<lparr>ob_permit = ex_permit, ob_engagement = ex_engagement, ob_test = ex_test, ob_keys = SingleKey ex_key,
      ob_target = ''https://example.com/'', ob_raw_method = ''GET'', ob_identity = None, ob_rps = Some 1,
      ob_runtime_db = False, ob_evidence_path = ''e.json'', ob_sensitivity = INTERNAL, ob_timeout = 10, ob_max_body = 100,
      ob_persist_body = False, ob_now = Some (dt_plus ex_clock (seconds 5)), ob_clock = ex_clock, ob_uuid = ''ev-1''\<rparr>"

text \<open>Empty files and a network that counts its requests and gives one answer.\<close>

definition ex_observe_world :: "nat observe_world" where
  "ex_observe_world =
     \<lparr>ow_permits = Missing, ow_runtime = \<lparr>rd_permits = [], rd_rates = []\<rparr>, ow_rates = Missing, ow_audit = None,
      ow_manifest = None, ow_files = Map.empty, ow_net = 0\<rparr>"

definition ex_net :: "transport_reply \<Rightarrow> nat transport" where
  "ex_net reply q timeout n = (Answered reply, n + 1)"

definition ex_reply :: "string result \<Rightarrow> transport_reply" where
  "ex_reply body =
     \<lparr>tr_status = 200, tr_reason = Some ''OK'', tr_headers = [], tr_body = body,
      tr_endpoint = \<lparr>rs_hostname = ''example.com'', rs_port = 443, rs_addresses = [''93.184.216.34''], rs_connected = None,
        rs_tls_protocol = None, rs_tls_cipher = None, rs_certificate = None\<rparr>\<rparr>"

lemma ex_observation_fields [simp]:
  "ob_permit ex_observation = ex_permit" "ob_engagement ex_observation = ex_engagement" "ob_test ex_observation = ex_test"
  "ob_keys ex_observation = SingleKey ex_key" "ob_target ex_observation = ''https://example.com/''"
  "ob_identity ex_observation = None" "ob_rps ex_observation = Some 1" "ob_runtime_db ex_observation = False"
  "ob_evidence_path ex_observation = ''e.json''" "ob_timeout ex_observation = 10" "ob_max_body ex_observation = 100"
  "ob_persist_body ex_observation = False" "ob_now ex_observation = Some (dt_plus ex_clock (seconds 5))"
  "ob_clock ex_observation = ex_clock"
  by (simp_all add: ex_observation_def)

lemma ex_observation_target:
  "canonical_http_target ''https://example.com/'' = Inr ''https://example.com/''"
  "redact_url ''https://example.com/'' [] = Inr ''https://example.com/''"
  "\<exists>u. urlsplit ''https://example.com/'' = Inr u \<and> str_lower (url_scheme u) = ''https'' \<and> url_hostname u \<noteq> None \<and>
     CHR ''@'' \<notin> set (url_netloc u)"
  "str_upper ''GET'' = ''GET''"
proof -
  have "canonical_http_target ''https://example.com/'' = Inr ''https://example.com/'' \<and>
    redact_url ''https://example.com/'' [] = Inr ''https://example.com/'' \<and>
    (case urlsplit ''https://example.com/'' of Inl _ \<Rightarrow> False
     | Inr u \<Rightarrow> str_lower (url_scheme u) = ''https'' \<and> url_hostname u \<noteq> None \<and> CHR ''@'' \<notin> set (url_netloc u)) \<and>
    str_upper ''GET'' = ''GET''" by code_simp
  then show "canonical_http_target ''https://example.com/'' = Inr ''https://example.com/''"
    "redact_url ''https://example.com/'' [] = Inr ''https://example.com/''"
    "\<exists>u. urlsplit ''https://example.com/'' = Inr u \<and> str_lower (url_scheme u) = ''https'' \<and> url_hostname u \<noteq> None \<and>
       CHR ''@'' \<notin> set (url_netloc u)"
    "str_upper ''GET'' = ''GET''" by (auto split: sum.splits)
qed

lemma ex_method: "ob_method ex_observation = ''GET''"
  using ex_observation_target(4) by (simp add: ob_method_def ex_observation_def)

lemma ex_shown: "redacted_target ex_observation ''https://example.com/'' = Inr ''https://example.com/''"
  using ex_observation_target(2)
  by (simp add: redacted_target_def ex_engagement_def ex_constraints_def default_constraints_def)

lemma ex_validated: "validate_observation_request ex_permit ''https://example.com/'' ''GET'' 10 100 = Inr ()"
proof -
  obtain u where u: "urlsplit ''https://example.com/'' = Inr u" "str_lower (url_scheme u) = ''https''" "url_hostname u \<noteq> None"
    "CHR ''@'' \<notin> set (url_netloc u)" using ex_observation_target(3) by blast
  then show ?thesis
    by (simp add: validate_observation_request_def require_observation_def MAX_TIMEOUT_SECONDS_def MAX_BODY_BYTES_def
        ensure_capability_compatible_def HTTP_OBSERVATION_CAPABILITY_def require_def ex_permit_def ex_payload_def Let_def
        ex_observation_target(4))
qed

lemma ex_consume: "\<exists>r f. consume_execution_permit (observe_consume ex_observation) Missing = (Inr r, f) \<and> cr_accepted r"
proof -
  let ?c = "observe_consume ex_observation"
  obtain v where v: "cc_verify ?c = Inr v" "vr_valid v"
    by (rule ex_permit_verifies [of "cc_request ?c" ex_clock])
      (simp_all add: cc_verify_def observe_consume_def ex_method ex_payload_def time_simps)
  have "file_status Missing (cc_permit_id ?c) = Some AVAILABLE"
    by (simp add: file_status_def permit_status_def load_state_def)
  from consume_accepts [OF this v] show ?thesis by blast
qed

lemma ex_admitted:
  obtains a :: string and w1 where "observe_admit ex_observation ex_observe_world = (Inr a, w1)"
    "ow_files w1 = Map.empty" "ow_manifest w1 = None" "ow_net w1 = 0" "\<exists>rs. read_audit_records (ow_audit w1) = Inr rs"
proof -
  note t = ex_observation_target(1)
  obtain a where a: "http_action_id ''https://example.com/'' ''GET'' None = Inr a"
    by (simp add: http_action_id_def t)
  obtain k where k: "http_target_rate_key ''https://example.com/'' = Inr k"
    by (simp add: http_target_rate_key_def t)
  obtain r f where c: "consume_execution_permit (observe_consume ex_observation) Missing = (Inr r, f)" "cr_accepted r"
    using ex_consume by blast
  have rate: "observe_rate ex_observation = 1" by (simp add: observe_rate_def)
  obtain g where g: "acquire_rate_slot Missing k 1 (Some (dt_plus ex_clock (seconds 5))) ex_clock = (Inr (True, 0), g)"
    by (simp add: acquire_rate_slot_def read_rates_def Let_def)
  let ?w0 = "ex_observe_world\<lparr>ow_permits := f, ow_rates := g\<rparr>"
  have "admit_file ex_observation a ex_observe_world = (Inr (), ?w0)"
    by (simp add: admit_file_def on_part_def c k rate g ex_observe_world_def)
  moreover obtain e h where "observe_audit ex_observation ''observation.started''
      [(''method'', JStr ''GET''), (''target'', JStr ''https://example.com/'')] ?w0 = (Inr e, ?w0\<lparr>ow_audit := h\<rparr>)"
    "\<exists>rs. read_audit_records h = Inr rs"
    using observe_audit_total [of ?w0 "[]" ex_observation "''observation.started''"
        "[(''method'', JStr ''GET''), (''target'', JStr ''https://example.com/'')]"]
    by (auto simp: ex_observe_world_def read_audit_records_def)
  ultimately have "observe_admit ex_observation ex_observe_world = (Inr a, ?w0\<lparr>ow_audit := h\<rparr>)"
    by (simp add: observe_admit_def ex_method a ex_validated ex_shown)
  with that \<open>\<exists>rs. read_audit_records h = Inr rs\<close> show ?thesis by (simp add: ex_observe_world_def)
qed

text \<open>The answered run completes; the run whose body cannot be read is lost.\<close>

lemma ex_observed:
  obtains q w' where "observe_http cod (ex_net (ex_reply (Inr ''hello''))) ex_observation ex_observe_world = (Inr q, w')" "ow_net w' = 1"
proof (rule ex_admitted)
  fix a and w1 :: "nat observe_world"
  let ?net = "ex_net (ex_reply (Inr ''hello''))" and ?w2 = "w1\<lparr>ow_net := 1\<rparr>"
  assume a: "observe_admit ex_observation ex_observe_world = (Inr a, w1)"
    and w1: "ow_files w1 = Map.empty" "ow_manifest w1 = None" "ow_net w1 = 0" "\<exists>rs. read_audit_records (ow_audit w1) = Inr rs"
  let ?cap = "\<lparr>ca_status = 200, ca_reason = Some ''OK'', ca_headers = [], ca_content_type = None, ca_body = ''hello'',
      ca_truncated = False, ca_endpoint = tr_endpoint (ex_reply (Inr ''hello''))\<rparr>"
  have cap: "capture ex_observation (ex_reply (Inr ''hello'')) = Inr ?cap"
    by (simp add: capture_def ex_reply_def read_bounded_def ex_method header_dict_def header_get_def)
  have red: "observe_redirect ex_observation (ca_status ?cap) (ca_headers ?cap) = Inr None"
    by (simp add: observe_redirect_def)
  let ?e = "evidence_of cod ex_observation a ''https://example.com/'' ?cap None None"
  have mk: "mk_http_evidence ?e = Inr ?e"
    by (simp add: mk_http_evidence_def require_def evidence_of_def seal_evidence_def Let_def ex_clock_def time_simps)
  let ?w3 = "write_file ''e.json'' (evidence_file_text (http_evidence_fields ?e) (he_evidence_hash ?e)) ?w2"
  have man: "read_manifest (ow_manifest ?w3) = Inr []" "ow_files ?w3 ''e.json'' = Some (evidence_file_text (http_evidence_fields ?e) (he_evidence_hash ?e))"
    "aware (or_else (ob_now ex_observation) (ob_clock ex_observation))"
    by (simp_all add: write_file_def w1 read_manifest_def ex_clock_def time_simps)
  from register_artifact_total [OF man] obtain entry f
    where entry: "register_artifact ex_observation ''e.json'' ''http.observation'' (he_evidence_id ?e) a ?w3 = (Inr entry, ?w3\<lparr>ow_manifest := f\<rparr>)"
    by blast
  obtain rs where rs: "read_audit_records (ow_audit (?w3\<lparr>ow_manifest := f\<rparr>)) = Inr rs"
    using w1 by (auto simp: write_file_def)
  from observe_audit_total [OF rs] obtain rec h where
    rec: "observe_audit ex_observation ''observation.completed''
      [(''status_code'', json_int (ca_status ?cap)), (''evidence_hash'', JStr (he_evidence_hash ?e)),
       (''evidence_id'', JStr (he_evidence_id ?e)), (''manifest_entry_hash'', JStr (ee_entry_hash entry)),
       (''evidence_path'', JStr ''e.json''), (''redirect_followed'', JBool False)] (?w3\<lparr>ow_manifest := f\<rparr>) =
      (Inr rec, ?w3\<lparr>ow_manifest := f, ow_audit := h\<rparr>)" by blast
  have "observe_completed cod ex_observation a ?cap ?w2 =
      (Inr \<lparr>or_evidence = ?e, or_evidence_path = ''e.json'', or_body_artifact_path = None\<rparr>, ?w3\<lparr>ow_manifest := f, ow_audit := h\<rparr>)"
    unfolding observe_completed_def red olift_simps obind.simps Let_def
    by (simp add: ex_shown mk entry [simplified] rec [simplified])
  then have "observe_http cod ?net ex_observation ex_observe_world =
      (Inr \<lparr>or_evidence = ?e, or_evidence_path = ''e.json'', or_body_artifact_path = None\<rparr>, ?w3\<lparr>ow_manifest := f, ow_audit := h\<rparr>)"
    by (simp add: observe_http_def a observe_send_def ex_net_def w1(3) cap)
  moreover have "ow_net (?w3\<lparr>ow_manifest := f, ow_audit := h\<rparr>) = 1" by (simp add: write_file_def)
  ultimately show ?thesis using that by blast
qed

text \<open>ASCII text, and no JSON.\<close>

definition ex_codecs :: codecs where
  "ex_codecs = \<lparr>cod_decode = \<lambda>_ b. Some b, cod_loads = \<lambda>_. None\<rparr>"


theorem observation_recorded_witness:
  "\<exists>q w'. observe_http ex_codecs (ex_net (ex_reply (Inr ''hello''))) ex_observation ex_observe_world = (Inr q, w') \<and>
     recorded ex_observation (or_evidence q) w' \<and> he_status_code (or_evidence q) = 200"
proof (rule ex_observed [of ex_codecs])
  fix q w'
  assume q: "observe_http ex_codecs (ex_net (ex_reply (Inr ''hello''))) ex_observation ex_observe_world = (Inr q, w')"
  from observation_recorded [OF q] have "recorded ex_observation (or_evidence q) w' \<and> he_status_code (or_evidence q) = 200"
    by (auto simp: ex_net_def ex_reply_def)
  with q show ?thesis by blast
qed

theorem observation_keeps_journals_witness:
  "\<exists>q w' m m'. observe_http ex_codecs (ex_net (ex_reply (Inr ''hello''))) ex_observation ex_observe_world = (Inr q, w') \<and>
     verify_audit_chain (ow_audit w') = Inr (True, m) \<and> verify_evidence_manifest (ow_files w') True (ow_manifest w') = Inr (True, m')"
proof (rule ex_observed [of ex_codecs])
  fix q w'
  assume q: "observe_http ex_codecs (ex_net (ex_reply (Inr ''hello''))) ex_observation ex_observe_world = (Inr q, w')"
  have start: "\<exists>m. verify_audit_chain (ow_audit ex_observe_world) = Inr (True, m)"
    "\<exists>m. verify_evidence_manifest (ow_files ex_observe_world) True (ow_manifest ex_observe_world) = Inr (True, m)"
    "read_manifest (ow_manifest ex_observe_world) = Inr []"
    by (simp_all add: ex_observe_world_def verify_audit_chain_def verify_evidence_manifest_def read_audit_records_def read_manifest_def)
  then obtain m m' where m: "verify_audit_chain (ow_audit ex_observe_world) = Inr (True, m)"
    "verify_evidence_manifest (ow_files ex_observe_world) True (ow_manifest ex_observe_world) = Inr (True, m')" by blast
  have none: "\<forall>e \<in> set []. ee_artifact_path e \<notin> {ob_evidence_path ex_observation, body_artifact_path (ob_evidence_path ex_observation)}"
    by simp
  from observation_keeps_journals [OF q m start(3) none] q show ?thesis by blast
qed

theorem observation_lost_witness:
  "\<exists>w'. observe_http ex_codecs (ex_net (ex_reply (Inl (OSError [])))) ex_observation ex_observe_world = (Inl (OSError []), w') \<and>
     spent_status False w' ''permit-1'' = Some CONSUMED \<and> ow_files w' = Map.empty"
proof (rule ex_admitted)
  fix a and w1 :: "nat observe_world"
  assume a: "observe_admit ex_observation ex_observe_world = (Inr a, w1)"
  have n: "ex_net (ex_reply (Inl (OSError []))) (observe_request ex_observation) (ob_timeout ex_observation) (ow_net ex_observe_world) =
      (Answered (ex_reply (Inl (OSError []))), 1)" by (simp add: ex_net_def ex_observe_world_def)
  have l: "tr_body (ex_reply (Inl (OSError []))) = Inl (OSError []) \<and> ob_method ex_observation \<noteq> ''HEAD'' \<and> ob_max_body ex_observation \<noteq> 0"
    by (simp add: ex_reply_def ex_method)
  have p: "ob_permit_id ex_observation = ''permit-1''" "ow_files ex_observe_world = Map.empty"
    by (simp_all add: ob_permit_id_def ex_permit_def ex_payload_def ex_observe_world_def)
  show ?thesis
    using observation_lost [where net = "ex_net (ex_reply (Inl (OSError [])))" and cod = ex_codecs, OF a n disjI1, OF l] unfolding p by auto
qed

end
