(* ===== verification/Frontier.thy ===== *)
theory Frontier
  imports TargetDiscovery "HOL-Library.Product_Lexorder" "HOL-Library.Multiset"
begin

text \<open>
  What becomes of discovered targets: \<open>src/astp/feedback.py\<close> merges the targets of one response into
  the registry, \<open>frontier.py\<close> and \<open>depth_frontier.py\<close> keep a crawl frontier bounded in depth, and
  \<open>prioritization.py\<close> ranks the registry. At the end, the invariant of a frontier under every operation.
\<close>

section \<open>Feedback (\<open>feedback.py\<close>)\<close>

record feedback_result =
  fb_discovered :: discovery_result
  fb_registry :: target_registry
  fb_added :: int

definition apply_evidence_feedback ::
  "http_evidence \<Rightarrow> engagement \<Rightarrow> target_registry \<Rightarrow> bool \<Rightarrow> int \<Rightarrow> datetime \<Rightarrow> feedback_result result" where
  "apply_evidence_feedback ev eng reg include_links max_candidates clock =
     rbind (discover_targets ev eng include_links max_candidates None clock) (\<lambda>discovered.
       let updated = merge_discovery reg (dr_candidates discovered) None clock
       in Inr \<lparr>fb_discovered = discovered, fb_registry = updated,
               fb_added = max 0 (int (length (tr_entries updated)) - int (length (tr_entries reg)))\<rparr>)"

section \<open>The frontier (\<open>frontier.py\<close>, \<open>depth_frontier.py\<close>)\<close>

datatype frontier_state = FR_READY | FR_VISITED | FR_BLOCKED

record frontier_item =
  fi_target_id :: string
  fi_target :: string
  fi_depth :: int
  fi_state :: frontier_state
  fi_parent :: "string option"

record crawl_frontier =
  cf_created_at :: datetime
  cf_max_depth :: int
  cf_items :: "frontier_item list"

definition frontier_root :: "registry_entry \<Rightarrow> frontier_item" where
  "frontier_root e =
     \<lparr>fi_target_id = tc_id (en_latest e), fi_target = en_canonical_target e, fi_depth = 0, fi_state = FR_READY, fi_parent = None\<rparr>"

definition build_frontier :: "target_registry \<Rightarrow> int \<Rightarrow> datetime \<Rightarrow> crawl_frontier result" where
  "build_frontier reg max_depth clock =
     (if max_depth < 0 then value_error ''max_depth cannot be negative''
      else Inr \<lparr>cf_created_at = clock, cf_max_depth = max_depth,
                cf_items = map frontier_root (filter (\<lambda>e. tc_in_scope (en_latest e)) (tr_entries reg))\<rparr>)"

definition mark_frontier_visited :: "crawl_frontier \<Rightarrow> string \<Rightarrow> crawl_frontier result" where
  "mark_frontier_visited f target_id =
     (if \<exists>i \<in> set (cf_items f). fi_target_id i = target_id
      then Inr (f\<lparr>cf_items := map (\<lambda>i. if fi_target_id i = target_id then i\<lparr>fi_state := FR_VISITED\<rparr> else i) (cf_items f)\<rparr>)
      else Inl (ValueError [Txt ''unknown frontier target: '', Txt target_id]))"

record frontier_admission =
  fa_admitted :: bool
  fa_reason :: string
  fa_frontier :: crawl_frontier

definition frontier_child :: "target_candidate \<Rightarrow> int \<Rightarrow> string \<Rightarrow> frontier_item" where
  "frontier_child c depth parent =
     \<lparr>fi_target_id = tc_id c,
      fi_target = (case tc_canonical_target c of None \<Rightarrow> tc_display_target c
                   | Some t \<Rightarrow> if t = [] then tc_display_target c else t),
      fi_depth = depth, fi_state = FR_READY, fi_parent = Some parent\<rparr>"

definition admit_candidate :: "crawl_frontier \<Rightarrow> target_candidate \<Rightarrow> string \<Rightarrow> frontier_admission result" where
  "admit_candidate f c parent =
     (case filter (\<lambda>i. fi_target_id i = parent) (cf_items f) of
        [] \<Rightarrow> value_error ''unknown parent frontier target''
      | p # _ \<Rightarrow>
          let depth = fi_depth p + 1 in
          if tc_safety c \<noteq> READY_FOR_POLICY then
            Inr \<lparr>fa_admitted = False, fa_reason = ''candidate failed safety checks'', fa_frontier = f\<rparr>
          else if cf_max_depth f < depth then
            Inr \<lparr>fa_admitted = False, fa_reason = ''maximum discovery depth exceeded'', fa_frontier = f\<rparr>
          else if \<exists>i \<in> set (cf_items f). Some (fi_target i) = tc_canonical_target c then
            Inr \<lparr>fa_admitted = False, fa_reason = ''target already exists in frontier'', fa_frontier = f\<rparr>
          else
            Inr \<lparr>fa_admitted = True, fa_reason = ''candidate admitted for policy evaluation'',
                 fa_frontier = f\<lparr>cf_items := cf_items f @ [frontier_child c depth parent]\<rparr>\<rparr>)"

section \<open>Priorities (\<open>prioritization.py\<close>)\<close>

record prioritized_target =
  pt_target :: string
  pt_score :: int
  pt_reasons :: "(string \<times> int) list"

text \<open>One test of the source: the score and the reason it adds.\<close>

definition weigh :: "bool \<Rightarrow> string \<Rightarrow> int \<Rightarrow> int \<times> (string \<times> int) list \<Rightarrow> int \<times> (string \<times> int) list" where
  "weigh b label weight = (\<lambda>(score, reasons). if b then (score + weight, reasons @ [(label, weight)]) else (score, reasons))"

definition STATIC_SUFFIXES :: "string list" where
  "STATIC_SUFFIXES = [''.svg'', ''.ico'', ''.png'', ''.jpg'', ''.jpeg'', ''.gif'', ''.woff'', ''.woff2'']"

text \<open>The tests of a candidate and its path, in the order of the source.\<close>

definition priority_weights :: "target_candidate \<Rightarrow> string \<Rightarrow> (bool \<times> string \<times> int) list" where
  "priority_weights c path =
     (let lower_path = str_lower path;
          static = (\<exists>s \<in> set STATIC_SUFFIXES. endswith lower_path s);
          depth = length (filter (\<lambda>part. part \<noteq> []) (split_on (CHR ''/'') path))
      in [(tc_in_scope c, ''in_scope'', 50),
          (tc_same_origin c, ''same_origin'', 20),
          (tc_kind c = REDIRECT, ''observed_redirect'', 10),
          (endswith lower_path ''.js'', ''javascript_artifact'', 15),
          (contains lower_path ''/api/'' \<or> startswith lower_path ''/api/'', ''api_surface'', 25),
          (static, ''low_value_static_asset'', -20),
          (\<not> static \<and> endswith lower_path ''.css'', ''stylesheet_asset'', -5),
          (depth \<le> 2, ''shallow_path'', 5)])"

definition prioritize_entry :: "registry_entry \<Rightarrow> prioritized_target result" where
  "prioritize_entry e =
     rbind (urlsplit (en_canonical_target e)) (\<lambda>u.
       let path = (if url_path u = [] then ''/'' else url_path u);
           counted = min (int (length (en_provenance e))) 5;
           (score, reasons) = fold (\<lambda>(b, label, weight). weigh b label weight) (priority_weights (en_latest e) path) (0, [])
       in Inr \<lparr>pt_target = en_canonical_target e, pt_score = score + counted,
               pt_reasons = (if en_provenance e = [] then reasons else reasons @ [(''provenance_count'', counted)])\<rparr>)"

definition prioritize_registry :: "target_registry \<Rightarrow> prioritized_target list result" where
  "prioritize_registry reg =
     rbind (rmap prioritize_entry (tr_entries reg)) (\<lambda>rows.
       Inr (sort_key (\<lambda>r. (- pt_score r, pt_target r)) rows))"

section \<open>The invariant of a frontier\<close>

text \<open>
  Depths are bounded, targets are distinct, and every item but the roots hangs one level below an
  earlier item: the first with the identifier it names as its parent.
\<close>

definition hangs_below :: "frontier_item list \<Rightarrow> frontier_item \<Rightarrow> bool" where
  "hangs_below before i \<longleftrightarrow>
     (case fi_parent i of None \<Rightarrow> fi_depth i = 0
      | Some p \<Rightarrow> \<exists>j. List.find (\<lambda>j. fi_target_id j = p) before = Some j \<and> fi_depth i = fi_depth j + 1)"

definition frontier_ok :: "crawl_frontier \<Rightarrow> bool" where
  "frontier_ok f \<longleftrightarrow>
     distinct (map fi_target (cf_items f)) \<and> (\<forall>i \<in> set (cf_items f). 0 \<le> fi_depth i \<and> fi_depth i \<le> cf_max_depth f) \<and>
     (\<forall>k < length (cf_items f). hangs_below (take k (cf_items f)) (cf_items f ! k))"

text \<open>The operations of a crawl; one that is refused or raises leaves the frontier as it is.\<close>

datatype crawl_op = Visit string | Admit http_evidence string candidate_kind string

fun crawl_step :: "engagement \<Rightarrow> datetime \<Rightarrow> crawl_op \<Rightarrow> crawl_frontier \<Rightarrow> crawl_frontier" where
  "crawl_step eng now (Visit target_id) f = (case mark_frontier_visited f target_id of Inl _ \<Rightarrow> f | Inr g \<Rightarrow> g)"
| "crawl_step eng now (Admit ev raw kind parent) f =
     (case make_candidate ev raw kind eng now of
        Inl _ \<Rightarrow> f
      | Inr c \<Rightarrow> (case admit_candidate f c parent of Inl _ \<Rightarrow> f | Inr a \<Rightarrow> fa_frontier a))"

text \<open>What every step keeps of an item: all but its state.\<close>

definition item_core :: "frontier_item \<Rightarrow> frontier_item" where
  "item_core i = i\<lparr>fi_state := FR_READY\<rparr>"

lemma item_core_fields [simp]:
  "fi_target_id (item_core i) = fi_target_id i" "fi_target (item_core i) = fi_target i"
  "fi_depth (item_core i) = fi_depth i" "fi_parent (item_core i) = fi_parent i"
  by (simp_all add: item_core_def)

lemma item_core_target [simp]: "fi_target \<circ> item_core = fi_target"
  by (simp add: comp_def)

lemma find_core:
  "map_option item_core (List.find (\<lambda>j. fi_target_id j = p) xs) = List.find (\<lambda>j. fi_target_id j = p) (map item_core xs)"
  by (induction xs) auto

lemma hangs_below_core: "hangs_below (map item_core before) (item_core i) \<longleftrightarrow> hangs_below before i"
  unfolding hangs_below_def find_core [symmetric]
  by (auto split: option.splits)

lemma frontier_ok_core:
  assumes "map item_core (cf_items f) = map item_core (cf_items g)" "cf_max_depth f = cf_max_depth g"
  shows "frontier_ok f \<longleftrightarrow> frontier_ok g"
proof -
  have frontier: "frontier_ok h \<longleftrightarrow> distinct (map fi_target (map item_core (cf_items h))) \<and>
      (\<forall>i \<in> set (map item_core (cf_items h)). 0 \<le> fi_depth i \<and> fi_depth i \<le> cf_max_depth h) \<and>
      (\<forall>k < length (map item_core (cf_items h)). hangs_below (take k (map item_core (cf_items h))) (map item_core (cf_items h) ! k))" for h
  proof -
    have "map fi_target (map item_core (cf_items h)) = map fi_target (cf_items h)" by simp
    moreover have "hangs_below (take k (map item_core (cf_items h))) (map item_core (cf_items h) ! k) \<longleftrightarrow>
        hangs_below (take k (cf_items h)) (cf_items h ! k)" if "k < length (cf_items h)" for k
      using that by (simp add: take_map hangs_below_core)
    ultimately show ?thesis unfolding frontier_ok_def by auto
  qed
  show ?thesis unfolding frontier [of f] frontier [of g] assms ..
qed

lemma mark_frontier_visited_core:
  "mark_frontier_visited f p = Inr g \<Longrightarrow> map item_core (cf_items g) = map item_core (cf_items f) \<and> cf_max_depth g = cf_max_depth f"
  by (auto simp: mark_frontier_visited_def item_core_def split: if_splits)

lemma frontier_ok_snoc:
  assumes "frontier_ok f" "0 \<le> fi_depth i" "fi_depth i \<le> cf_max_depth f" "fi_target i \<notin> fi_target ` set (cf_items f)"
    and "hangs_below (cf_items f) i"
  shows "frontier_ok (f\<lparr>cf_items := cf_items f @ [i]\<rparr>)"
  using assms unfolding frontier_ok_def by (auto simp: nth_append less_Suc_eq)

lemma filter_find: "filter p xs = y # ys \<Longrightarrow> List.find p xs = Some y \<and> y \<in> set xs \<and> p y"
  by (induction xs) (auto split: if_splits)

text \<open>A discovered candidate is admitted under its canonical target, if at all.\<close>

lemma admit_candidate_ok:
  assumes "frontier_ok f" "admit_candidate f c parent = Inr a" "fa_admitted a"
    and "tc_canonical_target c = Some t" "t \<noteq> []"
  shows "frontier_ok (fa_frontier a) \<and>
    (\<exists>i. cf_items (fa_frontier a) = cf_items f @ [i] \<and> fi_target i = t \<and> tc_safety c = READY_FOR_POLICY) \<and>
    cf_max_depth (fa_frontier a) = cf_max_depth f"
proof -
  obtain p ps where p: "filter (\<lambda>i. fi_target_id i = parent) (cf_items f) = p # ps"
    using assms(2) by (auto simp: admit_candidate_def split: list.splits)
  let ?i = "frontier_child c (fi_depth p + 1) parent"
  have a: "fa_frontier a = f\<lparr>cf_items := cf_items f @ [?i]\<rparr>" "tc_safety c = READY_FOR_POLICY"
    "fi_depth p + 1 \<le> cf_max_depth f" "t \<notin> fi_target ` set (cf_items f)"
    using assms(2-4) p by (auto simp: admit_candidate_def Let_def split: if_splits)
  note q = filter_find [OF p]
  have i: "fi_target ?i = t" "fi_depth ?i = fi_depth p + 1" "hangs_below (cf_items f) ?i"
    using assms(4,5) q by (simp_all add: frontier_child_def hangs_below_def)
  have "0 \<le> fi_depth p" using assms(1) q by (auto simp: frontier_ok_def)
  then have "frontier_ok (f\<lparr>cf_items := cf_items f @ [?i]\<rparr>)"
    using assms(1) a i by (intro frontier_ok_snoc) simp_all
  with a i show ?thesis by auto
qed

lemma admit_candidate_refused: "admit_candidate f c parent = Inr a \<Longrightarrow> \<not> fa_admitted a \<Longrightarrow> fa_frontier a = f"
  by (auto simp: admit_candidate_def Let_def split: list.splits if_splits)

text \<open>The target of a candidate ready for policy: canonical, in scope and no private literal.\<close>

definition safe_target :: "engagement \<Rightarrow> string \<Rightarrow> bool" where
  "safe_target eng t \<longleftrightarrow> target_in_scope t (eng_scope eng) = Inr True \<and>
     (\<exists>u. urlsplit t = Inr u \<and> (\<forall>h. url_hostname u = Some h \<longrightarrow> \<not> literal_address_is_private h))"

lemma candidate_ready:
  assumes "make_candidate ev raw kind eng now = Inr c" "tc_safety c = READY_FOR_POLICY"
  obtains t where "tc_canonical_target c = Some t" "t \<noteq> []" "safe_target eng t"
proof -
  from make_candidate_Inr [OF assms(1)] obtain a where a: "assess_discovered_target (he_target ev) (tc_display_target c) eng = Inr a"
    "tc_canonical_target c = ta_canonical a" "tc_safety c = ta_safety a" by auto
  from assess_ready [OF a(1)] a(3) assms(2) obtain t u where t: "ta_canonical a = Some t"
    "parse_discovered (tc_display_target c) = Inr t" "target_in_scope t (eng_scope eng) = Inr True" "urlsplit t = Inr u"
    "\<forall>h. url_hostname u = Some h \<longrightarrow> \<not> literal_address_is_private h" by auto
  have "t \<noteq> []"
  proof
    assume "t = []"
    with parse_discovered_Inr [OF t(2)] have c: "canonical_http_target (tc_display_target c) = Inr []" by blast
    then obtain x where "urlsplit (tc_display_target c) = Inr x" by (auto simp: canonical_http_target_def result_simps)
    with c show False
      by (cases "url_port x") (auto simp: canonical_http_target_def Let_def urlunsplit_def split: if_splits)
  qed
  with t a(2) that show ?thesis by (auto simp: safe_target_def)
qed

lemma crawl_step_ok:
  assumes "frontier_ok f" "g = crawl_step eng now op f"
  shows "frontier_ok g \<and> cf_max_depth g = cf_max_depth f \<and>
    (\<exists>added. map item_core (cf_items g) = map item_core (cf_items f) @ added \<and> (\<forall>i \<in> set added. safe_target eng (fi_target i)))"
proof (cases op)
  case (Visit p)
  show ?thesis
  proof (cases "mark_frontier_visited f p")
    case (Inr h)
    from mark_frontier_visited_core [OF this] frontier_ok_core [of h f] assms Visit Inr show ?thesis by simp
  qed (use assms Visit in simp)
next
  case (Admit ev raw kind parent)
  show ?thesis
  proof (cases "make_candidate ev raw kind eng now")
    case (Inr c)
    show ?thesis
    proof (cases "admit_candidate f c parent")
      case a: (Inr a)
      have g: "g = fa_frontier a" using assms(2) Admit Inr a by simp
      show ?thesis
      proof (cases "fa_admitted a")
        case True
        with a have "tc_safety c = READY_FOR_POLICY"
          by (auto simp: admit_candidate_def Let_def split: list.splits if_splits)
        from candidate_ready [OF Inr this] obtain t where t: "tc_canonical_target c = Some t" "t \<noteq> []" "safe_target eng t" .
        from admit_candidate_ok [OF assms(1) a True t(1,2)] t(3) g show ?thesis by auto
      qed (use admit_candidate_refused [OF a] g assms(1) in simp)
    qed (use assms Admit Inr in simp)
  qed (use assms Admit in simp)
qed

lemma build_frontier_ok:
  assumes "build_frontier reg max_depth clock = Inr f" "distinct (map en_canonical_target (tr_entries reg))"
  shows "frontier_ok f"
proof -
  let ?es = "filter (\<lambda>e. tc_in_scope (en_latest e)) (tr_entries reg)"
  have f: "cf_items f = map frontier_root ?es" "0 \<le> cf_max_depth f"
    using assms(1) by (auto simp: build_frontier_def split: if_splits)
  have "map fi_target (cf_items f) = map en_canonical_target ?es" by (simp add: f frontier_root_def)
  then have "distinct (map fi_target (cf_items f))" using assms(2) by (simp add: distinct_map_filter)
  with f show ?thesis by (auto simp: frontier_ok_def frontier_root_def hangs_below_def)
qed

lemma crawl_run_ok:
  assumes "frontier_ok f" "g = fold (crawl_step eng now) ops f"
  shows "frontier_ok g \<and> cf_max_depth g = cf_max_depth f \<and>
    (\<exists>added. map item_core (cf_items g) = map item_core (cf_items f) @ added \<and> (\<forall>i \<in> set added. safe_target eng (fi_target i)))"
  using assms
proof (induction ops arbitrary: f)
  case (Cons op ops)
  from crawl_step_ok [OF Cons.prems(1) refl, of eng now op] obtain added where
    1: "frontier_ok (crawl_step eng now op f)" "cf_max_depth (crawl_step eng now op f) = cf_max_depth f"
      "map item_core (cf_items (crawl_step eng now op f)) = map item_core (cf_items f) @ added"
      "\<forall>i \<in> set added. safe_target eng (fi_target i)" by blast
  from Cons.IH [OF 1(1)] Cons.prems(2) obtain js where
    2: "frontier_ok g" "cf_max_depth g = cf_max_depth (crawl_step eng now op f)"
      "map item_core (cf_items g) = map item_core (cf_items (crawl_step eng now op f)) @ js"
      "\<forall>i \<in> set js. safe_target eng (fi_target i)" by auto
  with 1 show ?case by (intro conjI exI [of _ "added @ js"]) auto
qed auto

section \<open>Priorities\<close>

lemma weigh_fold:
  "fold (\<lambda>(b, label, weight). weigh b label weight) ws acc =
     (fst acc + sum_list (map (\<lambda>(b, _, w). if b then w else 0) ws),
      snd acc @ map snd (filter fst ws))"
  by (induction ws arbitrary: acc) (auto simp: weigh_def)

lemma weights_sum: "sum_list (map snd (map snd (filter fst ws))) = sum_list (map (\<lambda>(b, _, w). if b then w else (0 :: int)) ws)"
  by (induction ws) auto

lemma prioritize_entry_sum:
  assumes "prioritize_entry e = Inr r"
  shows "pt_target r = en_canonical_target e \<and> pt_score r = sum_list (map snd (pt_reasons r)) \<and>
    -25 \<le> pt_score r \<and> pt_score r \<le> 130"
proof -
  obtain ws :: "(bool \<times> string \<times> int) list" where r: "pt_target r = en_canonical_target e"
    "pt_score r = sum_list (map (\<lambda>(b, _, w). if b then w else 0) ws) + min (int (length (en_provenance e))) 5"
    "pt_reasons r = (if en_provenance e = [] then map snd (filter fst ws)
       else map snd (filter fst ws) @ [(''provenance_count'', min (int (length (en_provenance e))) 5)])"
    and w: "map (snd \<circ> snd) ws = [50, 20, 10, 15, 25, -20, -5, 5]"
  proof -
    from assms obtain u where u: "urlsplit (en_canonical_target e) = Inr u" by (auto simp: prioritize_entry_def result_simps)
    let ?ws = "priority_weights (en_latest e) (if url_path u = [] then ''/'' else url_path u)"
    have "map (snd \<circ> snd) ?ws = [50, 20, 10, 15, 25, -20, -5, 5]" by (simp add: priority_weights_def Let_def)
    with assms u show ?thesis
      by (intro that [of ?ws]) (auto simp: prioritize_entry_def weigh_fold Let_def)
  qed
  have "sum_list (map (\<lambda>(b, _, w). if b then w else 0) xs) \<le> sum_list (map (max 0 \<circ> snd \<circ> snd) xs) \<and>
      sum_list (map (min 0 \<circ> snd \<circ> snd) xs) \<le> sum_list (map (\<lambda>(b, _, w). if b then w else (0 :: int)) xs)"
    for xs :: "(bool \<times> string \<times> int) list" by (induction xs) auto
  from this [of ws] have "sum_list (map (\<lambda>(b, _, w). if b then w else 0) ws) \<le> sum_list (map (max 0) (map (snd \<circ> snd) ws)) \<and>
      sum_list (map (min 0) (map (snd \<circ> snd) ws)) \<le> sum_list (map (\<lambda>(b, _, w). if b then w else 0) ws)" by (simp add: comp_assoc)
  then have "sum_list (map (\<lambda>(b, _, w). if b then w else 0) ws) \<le> 125 \<and> -25 \<le> sum_list (map (\<lambda>(b, _, w). if b then w else 0) ws)"
    unfolding w by simp
  then show ?thesis using r weights_sum [of ws] by auto
qed

lemma prioritize_registry_Inr:
  assumes "prioritize_registry reg = Inr rows"
  shows "sorted (map (\<lambda>r. (- pt_score r, pt_target r)) rows) \<and> mset (map pt_target rows) = mset (map en_canonical_target (tr_entries reg)) \<and>
    (\<forall>r \<in> set rows. pt_score r = sum_list (map snd (pt_reasons r)) \<and> -25 \<le> pt_score r \<and> pt_score r \<le> 130)"
proof -
  obtain rs where rs: "rmap prioritize_entry (tr_entries reg) = Inr rs" "rows = sort_key (\<lambda>r. (- pt_score r, pt_target r)) rs"
    using assms by (auto simp: prioritize_registry_def result_simps)
  have "map pt_target rs = map en_canonical_target es \<and>
      (\<forall>r \<in> set rs. pt_score r = sum_list (map snd (pt_reasons r)) \<and> -25 \<le> pt_score r \<and> pt_score r \<le> 130)"
    if "rmap prioritize_entry es = Inr rs" for es
    using that by (induction es arbitrary: rs) (auto simp: result_simps dest: prioritize_entry_sum)
  note r = this [OF rs(1)]
  have "mset (map pt_target rows) = mset (map pt_target rs)" using rs(2) by simp
  then have "mset (map pt_target rows) = mset (map en_canonical_target (tr_entries reg))" using r by metis
  moreover have "sorted (map (\<lambda>r. (- pt_score r, pt_target r)) rows)" using rs(2) by simp
  moreover have "set rows = set rs" using rs(2) by simp
  ultimately show ?thesis using r by metis
qed

end
