(* ===== verification/Coordination.thy ===== *)
theory Coordination
  imports Planner TransitionSystem
begin

text \<open>
  The durable state of planned items, \<open>src/astp/planner_state.py\<close>, a SQLite table that several workers
  share, and the stage gates of the assessment coordinator (\<open>coordinator.py\<close>, \<open>coordinator_gates.py\<close>).
  A transition reads the row in one transaction and writes it in another, so it is modelled both as one
  function and as the steps that interleave with other workers.
\<close>

section \<open>Planner items\<close>

datatype item_state = I_QUEUED | I_PERMIT_ISSUED | I_RUNNING | I_COMPLETED | I_BLOCKED | I_FAILED

fun item_value :: "item_state \<Rightarrow> string" where
  "item_value I_QUEUED = ''queued''"
| "item_value I_PERMIT_ISSUED = ''permit_issued''"
| "item_value I_RUNNING = ''running''"
| "item_value I_COMPLETED = ''completed''"
| "item_value I_BLOCKED = ''blocked''"
| "item_value I_FAILED = ''failed''"

fun item_transitions :: "item_state \<Rightarrow> item_state list" where
  "item_transitions I_QUEUED = [I_PERMIT_ISSUED, I_BLOCKED]"
| "item_transitions I_PERMIT_ISSUED = [I_RUNNING, I_BLOCKED]"
| "item_transitions I_RUNNING = [I_COMPLETED, I_FAILED]"
| "item_transitions I_FAILED = [I_QUEUED, I_BLOCKED]"
| "item_transitions I_COMPLETED = []"
| "item_transitions I_BLOCKED = []"

definition item_final :: "item_state \<Rightarrow> bool" where
  "item_final s \<longleftrightarrow> s \<in> {I_COMPLETED, I_BLOCKED}"

interpretation item_table: transition_table item_transitions item_final
proof
  fix s
  show "item_final s \<Longrightarrow> item_transitions s = []" by (cases s) (simp_all add: item_final_def)
  show "item_transitions s = [] \<Longrightarrow> item_final s" by (cases s) (simp_all add: item_final_def)
qed

record planner_row =
  pn_queue_id :: string
  pn_state :: item_state
  pn_permit_id :: "string option"
  pn_evidence_id :: "string option"
  pn_attempts :: int
  pn_message :: "string option"
  pn_updated_at :: datetime

text \<open>The table under its primary key.\<close>

type_synonym planner_db = "(string \<times> planner_row) list"

definition initialize_planner_state :: "planner_db \<Rightarrow> work_queue \<Rightarrow> datetime \<Rightarrow> planner_db" where
  "initialize_planner_state db q now =
     fold (\<lambda>i db.
       if dict_get db (wi_queue_id i) \<noteq> None then db
       else db @ [(wi_queue_id i, \<lparr>pn_queue_id = wi_queue_id i, pn_state = I_QUEUED, pn_permit_id = None,
                     pn_evidence_id = None, pn_attempts = 0, pn_message = None, pn_updated_at = now\<rparr>)])
       (wq_items q) db"

definition get_planner_state :: "planner_db \<Rightarrow> string \<Rightarrow> planner_row result" where
  "get_planner_state db queue_id =
     (case dict_get db queue_id of
        None \<Rightarrow> Inl (ValueError [Txt ''unknown queue item: '', Txt queue_id])
      | Some row \<Rightarrow> Inr row)"

record transition_call =
  tn_queue_id :: string
  tn_state :: item_state
  tn_permit_id :: "string option"
  tn_evidence_id :: "string option"
  tn_message :: "string option"
  tn_now :: datetime

text \<open>The check against the row that was read.\<close>

definition check_transition :: "planner_row \<Rightarrow> transition_call \<Rightarrow> unit result" where
  "check_transition row t =
     require (tn_state t \<in> set (item_transitions (pn_state row)))
       [Txt ''invalid planner state transition: '', Txt (item_value (pn_state row)), Txt '' -> '', Txt (item_value (tn_state t))]"

text \<open>The UPDATE: its attempts come from the row that was read, everything else from the row it finds.\<close>

definition write_transition :: "planner_row \<Rightarrow> transition_call \<Rightarrow> planner_db \<Rightarrow> planner_db" where
  "write_transition read t db =
     (case dict_get db (tn_queue_id t) of
        None \<Rightarrow> db
      | Some row \<Rightarrow>
          dict_set db (tn_queue_id t)
            (row\<lparr>pn_state := tn_state t,
                 pn_permit_id := (case tn_permit_id t of None \<Rightarrow> pn_permit_id row | Some p \<Rightarrow> Some p),
                 pn_evidence_id := (case tn_evidence_id t of None \<Rightarrow> pn_evidence_id row | Some e \<Rightarrow> Some e),
                 pn_attempts := pn_attempts read + (if tn_state t = I_RUNNING then 1 else 0),
                 pn_message := tn_message t, pn_updated_at := tn_now t\<rparr>))"

definition transition_planner_state :: "transition_call \<Rightarrow> planner_db \<Rightarrow> (planner_db, planner_row) outcome" where
  "transition_planner_state t db =
     obind (olift (get_planner_state db (tn_queue_id t)) db) (\<lambda>row db.
     obind (olift (check_transition row t) db) (\<lambda>_ db.
       let db' = write_transition row t db in olift (get_planner_state db' (tn_queue_id t)) db'))"

section \<open>Interleaved transitions\<close>

text \<open>Where a worker stands: about to read, with the row it read, or returned with its result.\<close>

datatype planner_pc = T_START | T_READ planner_row | T_WRITTEN | T_DONE "planner_row result"

type_synonym planner_system = "planner_db \<times> (transition_call \<times> planner_pc) list"

inductive planner_step :: "planner_system \<Rightarrow> planner_system \<Rightarrow> bool" where
  step_read: "i < length ws \<Longrightarrow> ws ! i = (t, T_START) \<Longrightarrow>
    planner_step (db, ws) (db, ws[i := (t,
      case rbind (get_planner_state db (tn_queue_id t)) (\<lambda>row. rbind (check_transition row t) (\<lambda>_. Inr row)) of
        Inl e \<Rightarrow> T_DONE (Inl e) | Inr row \<Rightarrow> T_READ row)])"
| step_write: "i < length ws \<Longrightarrow> ws ! i = (t, T_READ row) \<Longrightarrow>
    planner_step (db, ws) (write_transition row t db, ws[i := (t, T_WRITTEN)])"
| step_return: "i < length ws \<Longrightarrow> ws ! i = (t, T_WRITTEN) \<Longrightarrow>
    planner_step (db, ws) (db, ws[i := (t, T_DONE (get_planner_state db (tn_queue_id t)))])"

text \<open>A worker that is not interrupted does what the function does.\<close>

lemma steps_alone:
  assumes "i < length ws" "ws ! i = (t, T_START)" "transition_planner_state t db = (r, db')"
  shows "planner_step\<^sup>*\<^sup>* (db, ws) (db', ws[i := (t, T_DONE r)])"
proof (cases "rbind (get_planner_state db (tn_queue_id t)) (\<lambda>row. rbind (check_transition row t) (\<lambda>_. Inr row))")
  case (Inl e)
  then have "r = Inl e \<and> db' = db"
    using assms(3) unfolding transition_planner_state_def
    by (cases "get_planner_state db (tn_queue_id t)"; cases "check_transition (projr (get_planner_state db (tn_queue_id t))) t") auto
  with step_read [OF assms(1,2), of db] Inl show ?thesis by auto
next
  case (Inr row)
  let ?db = "write_transition row t db"
  have row: "get_planner_state db (tn_queue_id t) = Inr row" "check_transition row t = Inr ()"
    using Inr by (auto simp: result_simps)
  then have r: "r = get_planner_state ?db (tn_queue_id t)" "db' = ?db"
    using assms(3) by (auto simp: transition_planner_state_def Let_def)
  have "planner_step (db, ws) (db, ws[i := (t, T_READ row)])" using step_read [OF assms(1,2), of db] Inr by simp
  moreover have "planner_step (db, ws[i := (t, T_READ row)]) (?db, ws[i := (t, T_WRITTEN)])"
    using step_write [of i "ws[i := (t, T_READ row)]" t row db] assms(1) by simp
  moreover have "planner_step (?db, ws[i := (t, T_WRITTEN)]) (?db, ws[i := (t, T_DONE r)])"
    using step_return [of i "ws[i := (t, T_WRITTEN)]" t ?db] assms(1) r by simp
  ultimately show ?thesis unfolding r by (meson converse_rtranclp_into_rtranclp r_into_rtranclp)
qed

section \<open>Histories without interleaving\<close>

text \<open>The states an item enters in a sequence of calls, and the row at the end.\<close>

fun planner_run :: "transition_call list \<Rightarrow> planner_db \<Rightarrow> (transition_call \<times> bool) list \<times> planner_db" where
  "planner_run [] db = ([], db)"
| "planner_run (t # ts) db =
     (case transition_planner_state t db of (r, db1) \<Rightarrow>
        case planner_run ts db1 of (trail, db2) \<Rightarrow> ((t, \<not> isl r) # trail, db2))"

definition entered :: "string \<Rightarrow> (transition_call \<times> bool) list \<Rightarrow> item_state list" where
  "entered q trail = map (\<lambda>(t, _). tn_state t) (filter (\<lambda>(t, ok). ok \<and> tn_queue_id t = q) trail)"

lemma transition_planner_cases:
  assumes "transition_planner_state t db = (r, db')"
  obtains (refused) e where "r = Inl e" "db' = db"
  | (moved) row row' where "dict_get db (tn_queue_id t) = Some row" "tn_state t \<in> set (item_transitions (pn_state row))"
      "r = Inr row'" "db' = dict_set db (tn_queue_id t) row'" "pn_state row' = tn_state t"
      "pn_attempts row' = pn_attempts row + (if tn_state t = I_RUNNING then 1 else 0)"
      "pn_permit_id row \<noteq> None \<longrightarrow> pn_permit_id row' \<noteq> None"
proof (cases "dict_get db (tn_queue_id t)")
  case None
  with assms have "r = Inl (ValueError [Txt ''unknown queue item: '', Txt (tn_queue_id t)])" "db' = db"
    by (auto simp: transition_planner_state_def get_planner_state_def)
  then show ?thesis by (rule refused)
next
  case (Some row)
  show ?thesis
  proof (cases "check_transition row t")
    case (Inl e)
    with assms Some have "r = Inl e" "db' = db" by (auto simp: transition_planner_state_def get_planner_state_def)
    then show ?thesis by (rule refused)
  next
    case (Inr u)
    with assms Some have "r = get_planner_state (write_transition row t db) (tn_queue_id t)" "db' = write_transition row t db"
      by (auto simp: transition_planner_state_def get_planner_state_def Let_def)
    with moved [OF Some] Some Inr show ?thesis
      by (auto simp: write_transition_def get_planner_state_def check_transition_def result_simps split: option.splits)
  qed
qed

lemma planner_run_history:
  assumes "planner_run ts db = (trail, db')" "dict_get db q = Some row"
  obtains row' where "dict_get db' q = Some row'" "table_path item_transitions (pn_state row) (entered q trail)"
    "pn_state row' = last (pn_state row # entered q trail)"
    "pn_attempts row' = pn_attempts row + int (count_list (entered q trail) I_RUNNING)"
    "pn_permit_id row \<noteq> None \<longrightarrow> pn_permit_id row' \<noteq> None"
proof -
  have "\<exists>row'. dict_get db' q = Some row' \<and> table_path item_transitions (pn_state row) (entered q trail) \<and>
      pn_state row' = last (pn_state row # entered q trail) \<and>
      pn_attempts row' = pn_attempts row + int (count_list (entered q trail) I_RUNNING) \<and>
      (pn_permit_id row \<noteq> None \<longrightarrow> pn_permit_id row' \<noteq> None)"
    using assms
  proof (induction ts arbitrary: db row trail)
    case (Cons t ts)
    obtain r db1 trail1 where t: "transition_planner_state t db = (r, db1)" "planner_run ts db1 = (trail1, db')"
      "trail = (t, \<not> isl r) # trail1"
      using Cons.prems(1) by (auto split: prod.splits)
    from t(1) show ?case
    proof (cases rule: transition_planner_cases)
      case (refused e)
      with Cons.IH [of db1 trail1 row] t Cons.prems(2) show ?thesis by (auto simp: entered_def)
    next
      case (moved old new)
      show ?thesis
      proof (cases "tn_queue_id t = q")
        case True
        then have old: "old = row" using moved(1) Cons.prems(2) by simp
        have "dict_get db1 q = Some new" using moved(4) True by simp
        from Cons.IH [OF t(2) this] obtain row' where row': "dict_get db' q = Some row'"
          "table_path item_transitions (pn_state new) (entered q trail1)" "pn_state row' = last (pn_state new # entered q trail1)"
          "pn_attempts row' = pn_attempts new + int (count_list (entered q trail1) I_RUNNING)"
          "pn_permit_id new \<noteq> None \<longrightarrow> pn_permit_id row' \<noteq> None" by blast
        have e: "entered q trail = tn_state t # entered q trail1" using t(3) moved(3) True by (simp add: entered_def)
        show ?thesis using row' moved(2,5-7) unfolding e old by (intro exI [of _ row']) auto
      next
        case False
        then have "dict_get db1 q = Some row" "entered q trail = entered q trail1"
          using moved(4) Cons.prems(2) t(3) by (simp_all add: entered_def)
        with Cons.IH [OF t(2), of row] show ?thesis by simp
      qed
    qed
  qed (auto simp: entered_def)
  with that show ?thesis by blast
qed

section \<open>Stage gates (\<open>coordinator.py\<close>, \<open>coordinator_gates.py\<close>)\<close>

record coordinator_plan =
  cp_engagement_id :: string
  cp_stages :: "coordinator_stage list"
  cp_network_execution :: bool
  cp_fresh_permit_per_action :: bool
  cp_state_changing_autonomy :: bool
  cp_blockers :: "string list"

definition STAGE_ORDER :: "coordinator_stage list" where
  "STAGE_ORDER = [INTAKE, DISCOVERY, OBSERVATION, VERIFICATION, RETEST, REPORT, REVIEW_STAGE, CLOSURE]"

definition build_coordinator_plan :: "string \<Rightarrow> coordinator_plan" where
  "build_coordinator_plan engagement_id =
     \<lparr>cp_engagement_id = engagement_id, cp_stages = STAGE_ORDER, cp_network_execution = False,
      cp_fresh_permit_per_action = True, cp_state_changing_autonomy = False,
      cp_blockers = [''operator approval remains mandatory for state-changing/intrusive actions'']\<rparr>"

datatype gate_decision = GATE_ALLOW | GATE_BLOCK

record gate_context =
  gc_evidence_available :: bool
  gc_verification_queue_empty :: bool
  gc_unresolved_retests :: bool
  gc_report_ready :: bool
  gc_review_approved :: bool

record gate_result =
  gr_from_stage :: coordinator_stage
  gr_to_stage :: coordinator_stage
  gr_decision :: gate_decision
  gr_reason :: string

text \<open>\<open>_STAGE_ORDER.index(stage)\<close>.\<close>

definition stage_index :: "coordinator_stage \<Rightarrow> nat" where
  "stage_index s = length (takeWhile (\<lambda>t. t \<noteq> s) STAGE_ORDER)"

definition evaluate_stage_transition :: "coordinator_stage \<Rightarrow> coordinator_stage \<Rightarrow> gate_context \<Rightarrow> gate_result" where
  "evaluate_stage_transition from_stage to_stage c =
     (let answer = (\<lambda>d reason. \<lparr>gr_from_stage = from_stage, gr_to_stage = to_stage, gr_decision = d, gr_reason = reason\<rparr>)
      in if stage_index to_stage \<noteq> stage_index from_stage + 1 then
           answer GATE_BLOCK ''coordinator transitions must advance exactly one stage''
         else if to_stage = VERIFICATION \<and> \<not> gc_evidence_available c then
           answer GATE_BLOCK ''verification requires evidence from the observation stage''
         else if to_stage = RETEST \<and> \<not> gc_verification_queue_empty c then
           answer GATE_BLOCK ''retest cannot start while verification work remains unresolved''
         else if to_stage = REPORT \<and> gc_unresolved_retests c then
           answer GATE_BLOCK ''report stage requires all scheduled retests to reach a terminal state''
         else if to_stage = REVIEW_STAGE \<and> \<not> gc_report_ready c then
           answer GATE_BLOCK ''operator review requires a finalized report candidate''
         else if to_stage = CLOSURE \<and> \<not> gc_review_approved c then
           answer GATE_BLOCK ''closure requires an approved operator review''
         else answer GATE_ALLOW ''stage prerequisites are satisfied'')"

text \<open>The prerequisite of a stage.\<close>

definition stage_ready :: "coordinator_stage \<Rightarrow> gate_context \<Rightarrow> bool" where
  "stage_ready s c \<longleftrightarrow>
     (s = VERIFICATION \<longrightarrow> gc_evidence_available c) \<and> (s = RETEST \<longrightarrow> gc_verification_queue_empty c) \<and>
     (s = REPORT \<longrightarrow> \<not> gc_unresolved_retests c) \<and> (s = REVIEW_STAGE \<longrightarrow> gc_report_ready c) \<and>
     (s = CLOSURE \<longrightarrow> gc_review_approved c)"

text \<open>The stages one step ahead, as a ranked table.\<close>

definition next_stages :: "coordinator_stage \<Rightarrow> coordinator_stage list" where
  "next_stages s = take 1 (drop (Suc (stage_index s)) STAGE_ORDER)"

lemma stage_index_simps [simp]:
  "stage_index INTAKE = 0" "stage_index DISCOVERY = 1" "stage_index OBSERVATION = 2" "stage_index VERIFICATION = 3"
  "stage_index RETEST = 4" "stage_index REPORT = 5" "stage_index REVIEW_STAGE = 6" "stage_index CLOSURE = 7"
  by (simp_all add: stage_index_def STAGE_ORDER_def)

interpretation stage_table: ranked_table next_stages "\<lambda>s. s = CLOSURE" stage_index
proof
  fix s t
  show "s = CLOSURE \<Longrightarrow> next_stages s = []" by (simp add: next_stages_def STAGE_ORDER_def)
  show "next_stages s = [] \<Longrightarrow> s = CLOSURE" by (cases s) (simp_all add: next_stages_def STAGE_ORDER_def)
  show "t \<in> set (next_stages s) \<Longrightarrow> stage_index s < stage_index t"
    by (cases s) (simp_all add: next_stages_def STAGE_ORDER_def)
qed

lemma gate_allows_iff:
  "gr_decision (evaluate_stage_transition s t c) = GATE_ALLOW \<longleftrightarrow> t \<in> set (next_stages s) \<and> stage_ready t c"
proof -
  have "stage_index t = stage_index s + 1 \<longleftrightarrow> t \<in> set (next_stages s)"
    by (cases s; cases t) (simp_all add: next_stages_def STAGE_ORDER_def)
  then show ?thesis unfolding evaluate_stage_transition_def Let_def stage_ready_def by auto
qed

text \<open>A walk through the gates, each with its context.\<close>

fun gate_walk :: "coordinator_stage \<Rightarrow> (coordinator_stage \<times> gate_context) list \<Rightarrow> bool" where
  "gate_walk s [] = True"
| "gate_walk s ((t, c) # rest) = (gr_decision (evaluate_stage_transition s t c) = GATE_ALLOW \<and> gate_walk t rest)"

lemma gate_walk_path:
  "gate_walk s steps \<longleftrightarrow> table_path next_stages s (map fst steps) \<and> (\<forall>(t, c) \<in> set steps. stage_ready t c)"
  by (induction steps arbitrary: s) (auto simp: gate_allows_iff)

lemma stage_path_order:
  "table_path next_stages s ts \<Longrightarrow> ts = take (length ts) (drop (Suc (stage_index s)) STAGE_ORDER)"
proof (induction ts arbitrary: s)
  case (Cons t ts)
  then have t: "t \<in> set (next_stages s)" and ts: "ts = take (length ts) (drop (Suc (stage_index t)) STAGE_ORDER)" by simp_all
  from t have "drop (Suc (stage_index s)) STAGE_ORDER = t # drop (Suc (stage_index t)) STAGE_ORDER"
    by (cases s) (auto simp: next_stages_def STAGE_ORDER_def)
  with ts show ?case by simp
qed simp

end
