(* ===== verification/FrontierProperties.thy ===== *)
theory FrontierProperties
  imports Frontier Coordination TargetProperties
begin

text \<open>
  Properties of what follows discovery: the crawl frontier, the ranking of targets, the state of planned
  items with and without interleaving, and the stage gates.
\<close>

section \<open>The frontier\<close>




text \<open>
  The roots of a frontier are not checked: an entry whose latest candidate is in scope is a root ready for crawling
  although its safety verdict is another than ready (a downgrade to HTTP, a private literal), while the same candidate is
  refused under every parent.
\<close>

theorem frontier_roots_unchecked:
  assumes "build_frontier reg max_depth clock = Inr f" "e \<in> set (tr_entries reg)"
    and "tc_in_scope (en_latest e)" "tc_safety (en_latest e) \<noteq> READY_FOR_POLICY"
  shows "\<exists>i \<in> set (cf_items f). fi_target i = en_canonical_target e \<and> fi_state i = FR_READY \<and>
    (\<exists>a. admit_candidate f (en_latest e) (fi_target_id i) = Inr a \<and> \<not> fa_admitted a)"
proof -
  have f: "cf_items f = map frontier_root (filter (\<lambda>e. tc_in_scope (en_latest e)) (tr_entries reg))"
    using assms(1) by (auto simp: build_frontier_def split: if_splits)
  have i: "frontier_root e \<in> set (cf_items f)" using assms(2,3) f by auto
  then have "filter (\<lambda>i. fi_target_id i = fi_target_id (frontier_root e)) (cf_items f) \<noteq> []" by (auto simp: filter_empty_conv)
  then obtain p ps where "filter (\<lambda>i. fi_target_id i = fi_target_id (frontier_root e)) (cf_items f) = p # ps"
    by (cases "filter (\<lambda>i. fi_target_id i = fi_target_id (frontier_root e)) (cf_items f)") auto
  then have "\<exists>a. admit_candidate f (en_latest e) (fi_target_id (frontier_root e)) = Inr a \<and> \<not> fa_admitted a"
    using assms(4) by (simp add: admit_candidate_def)
  with i show ?thesis by (intro bexI [of _ "frontier_root e"]) (auto simp: frontier_root_def)
qed

definition ex_downgraded :: registry_entry where
  "ex_downgraded = new_entry ''http://example.com/'' (ex_candidate\<lparr>tc_safety := HTTPS_DOWNGRADE\<rparr>)"

theorem frontier_roots_unchecked_witness:
  "\<exists>f i. build_frontier (ex_registry\<lparr>tr_entries := [ex_downgraded]\<rparr>) 3 ex_clock = Inr f \<and>
     i \<in> set (cf_items f) \<and> fi_target i = ''http://example.com/'' \<and> fi_state i = FR_READY"
proof -
  obtain f where f: "build_frontier (ex_registry\<lparr>tr_entries := [ex_downgraded]\<rparr>) 3 ex_clock = Inr f" by (simp add: build_frontier_def)
  have e: "ex_downgraded \<in> set (tr_entries (ex_registry\<lparr>tr_entries := [ex_downgraded]\<rparr>))"
    "tc_in_scope (en_latest ex_downgraded)" "tc_safety (en_latest ex_downgraded) \<noteq> READY_FOR_POLICY"
    "en_canonical_target ex_downgraded = ''http://example.com/''"
    by (simp_all add: ex_downgraded_def new_entry_def ex_candidate_def)
  from frontier_roots_unchecked [OF f e(1-3)] f e(4) show ?thesis by auto
qed

section \<open>The ranking\<close>

text \<open>
  A ranking is complete, ordered and explained: every registered target is ranked once, by falling score and then by
  target, and each score is the sum of the weights of its stated reasons, between -25 and 130.
\<close>

theorem ranking_explained:
  assumes "prioritize_registry reg = Inr rows"
  shows "sorted (map (\<lambda>r. (- pt_score r, pt_target r)) rows) \<and>
    mset (map pt_target rows) = mset (map en_canonical_target (tr_entries reg)) \<and>
    (\<forall>r \<in> set rows. pt_score r = sum_list (map snd (pt_reasons r)) \<and> -25 \<le> pt_score r \<and> pt_score r \<le> 130)"
  by (rule prioritize_registry_Inr [OF assms])

theorem ranking_explained_witness:
  "\<exists>rows. prioritize_registry ex_registry = Inr rows \<and> map pt_target rows = [''https://example.com/'']"
proof -
  have "\<exists>u. urlsplit ''https://example.com/'' = Inr u"
  proof -
    have "case urlsplit ''https://example.com/'' of Inr u \<Rightarrow> True | Inl _ \<Rightarrow> False" by code_simp
    then show ?thesis by (auto split: sum.splits)
  qed
  then obtain rows where rows: "prioritize_registry ex_registry = Inr rows"
    by (auto simp: prioritize_registry_def ex_registry_entries prioritize_entry_def weigh_fold Let_def)
  have single: "xs = [a]" if "mset xs = mset [a]" for xs :: "string list" and a using that by simp
  from ranking_explained [OF rows] have "mset (map pt_target rows) = mset (map en_canonical_target (tr_entries ex_registry))" by blast
  then have "mset (map pt_target rows) = mset [''https://example.com/'']" unfolding ex_registry_entries list.map new_entry_target .
  from single [OF this] have "map pt_target rows = [''https://example.com/'']" .
  with rows show ?thesis by (intro exI conjI)
qed

section \<open>Planned items\<close>

text \<open>
  One worker at a time keeps the history of a planned item: in every sequence of transitions of any items, refused or
  not, an item moves along the transition table only, its attempts count the times it was set running, its state is the
  last one entered, and a permit once recorded stays recorded.
\<close>

theorem planner_item_history:
  assumes "planner_run ts db = (trail, db')" "dict_get db q = Some row"
  shows "\<exists>row'. dict_get db' q = Some row' \<and> table_path item_transitions (pn_state row) (entered q trail) \<and>
    pn_state row' = last (pn_state row # entered q trail) \<and>
    pn_attempts row' = pn_attempts row + int (count_list (entered q trail) I_RUNNING) \<and>
    (pn_permit_id row \<noteq> None \<longrightarrow> pn_permit_id row' \<noteq> None)"
  by (rule planner_run_history [OF assms]) blast

definition ex_transition :: "item_state \<Rightarrow> transition_call" where
  "ex_transition s = \<lparr>tn_queue_id = ''q1'', tn_state = s, tn_permit_id = Some ''permit-1'', tn_evidence_id = None,
     tn_message = None, tn_now = ex_clock\<rparr>"

definition ex_planner_row :: "item_state \<Rightarrow> planner_row" where
  "ex_planner_row s = \<lparr>pn_queue_id = ''q1'', pn_state = s, pn_permit_id = Some ''permit-1'', pn_evidence_id = None,
     pn_attempts = 0, pn_message = None, pn_updated_at = ex_clock\<rparr>"

theorem planner_item_history_witness:
  "\<exists>trail db' row'. planner_run [ex_transition I_RUNNING, ex_transition I_QUEUED, ex_transition I_FAILED]
       [(''q1'', ex_planner_row I_PERMIT_ISSUED)] = (trail, db') \<and>
     dict_get db' ''q1'' = Some row' \<and> pn_state row' = I_FAILED \<and> pn_attempts row' = 1"
proof -
  obtain trail db' where r: "planner_run [ex_transition I_RUNNING, ex_transition I_QUEUED, ex_transition I_FAILED]
      [(''q1'', ex_planner_row I_PERMIT_ISSUED)] = (trail, db')" by fastforce
  then have e: "entered ''q1'' trail = [I_RUNNING, I_FAILED]"
    by (auto simp: entered_def transition_planner_state_def get_planner_state_def write_transition_def check_transition_def
        require_def ex_transition_def ex_planner_row_def Let_def)
  have row: "dict_get [(''q1'', ex_planner_row I_PERMIT_ISSUED)] ''q1'' = Some (ex_planner_row I_PERMIT_ISSUED)" by simp
  from planner_item_history [OF r row] r show ?thesis by (auto simp: e ex_planner_row_def)
qed

text \<open>
  C35: Two workers can both start one item: the transition is checked and written in different transactions, so two workers
  that set the same item running can both succeed, and its attempts then count one start; one after the other, the second
  is refused.
\<close>

theorem planner_double_start:
  assumes "dict_get db q = Some row" "pn_state row = I_PERMIT_ISSUED"
    and "tn_queue_id t = q" "tn_state t = I_RUNNING" "tn_queue_id t' = q" "tn_state t' = I_RUNNING"
  shows "(\<exists>db' a b. planner_step\<^sup>*\<^sup>* (db, [(t, T_START), (t', T_START)]) (db', [(t, T_DONE (Inr a)), (t', T_DONE (Inr b))]) \<and>
      pn_attempts a = pn_attempts row + 1 \<and> pn_attempts b = pn_attempts row + 1) \<and>
    map snd (fst (planner_run [t, t'] db)) = [True, False]"
proof -
  have check: "get_planner_state db q = Inr row" "check_transition row t = Inr ()" "check_transition row t' = Inr ()"
    using assms by (simp_all add: get_planner_state_def check_transition_def require_def)
  let ?d1 = "write_transition row t db" and ?d2 = "write_transition row t' (write_transition row t db)"
  have d: "\<exists>a. get_planner_state ?d1 q = Inr a \<and> pn_attempts a = pn_attempts row + 1 \<and> pn_state a = I_RUNNING"
    "\<exists>b. get_planner_state ?d2 q = Inr b \<and> pn_attempts b = pn_attempts row + 1"
    using assms by (simp_all add: write_transition_def get_planner_state_def)
  then obtain a b where a: "get_planner_state ?d1 q = Inr a" "pn_attempts a = pn_attempts row + 1" "pn_state a = I_RUNNING"
    and b: "get_planner_state ?d2 q = Inr b" "pn_attempts b = pn_attempts row + 1" by blast
  have "planner_step (db, [(t, T_START), (t', T_START)]) (db, [(t, T_READ row), (t', T_START)])"
    using step_read [of 0 "[(t, T_START), (t', T_START)]" t db] assms check by simp
  moreover have "planner_step (db, [(t, T_READ row), (t', T_START)]) (db, [(t, T_READ row), (t', T_READ row)])"
    using step_read [of 1 "[(t, T_READ row), (t', T_START)]" t' db] assms check by simp
  moreover have "planner_step (db, [(t, T_READ row), (t', T_READ row)]) (?d1, [(t, T_WRITTEN), (t', T_READ row)])"
    using step_write [of 0 "[(t, T_READ row), (t', T_READ row)]" t row db] by simp
  moreover have "planner_step (?d1, [(t, T_WRITTEN), (t', T_READ row)]) (?d1, [(t, T_DONE (Inr a)), (t', T_READ row)])"
    using step_return [of 0 "[(t, T_WRITTEN), (t', T_READ row)]" t ?d1] assms a by simp
  moreover have "planner_step (?d1, [(t, T_DONE (Inr a)), (t', T_READ row)]) (?d2, [(t, T_DONE (Inr a)), (t', T_WRITTEN)])"
    using step_write [of 1 "[(t, T_DONE (Inr a)), (t', T_READ row)]" t' row ?d1] by simp
  moreover have "planner_step (?d2, [(t, T_DONE (Inr a)), (t', T_WRITTEN)]) (?d2, [(t, T_DONE (Inr a)), (t', T_DONE (Inr b))])"
    using step_return [of 1 "[(t, T_DONE (Inr a)), (t', T_WRITTEN)]" t' ?d2] assms b by simp
  ultimately have steps: "planner_step\<^sup>*\<^sup>* (db, [(t, T_START), (t', T_START)]) (?d2, [(t, T_DONE (Inr a)), (t', T_DONE (Inr b))])"
    by (meson converse_rtranclp_into_rtranclp r_into_rtranclp)
  have "transition_planner_state t db = (Inr a, ?d1)" using assms check a by (simp add: transition_planner_state_def Let_def)
  moreover have "isl (fst (transition_planner_state t' ?d1))"
    using assms a by (simp add: transition_planner_state_def check_transition_def require_def)
  ultimately have "map snd (fst (planner_run [t, t'] db)) = [True, False]" by (auto split: prod.splits)
  with steps a(2) b(2) show ?thesis by blast
qed

theorem planner_double_start_witness:
  "map snd (fst (planner_run [ex_transition I_RUNNING, ex_transition I_RUNNING] [(''q1'', ex_planner_row I_PERMIT_ISSUED)])) = [True, False]"
  using planner_double_start [of "[(''q1'', ex_planner_row I_PERMIT_ISSUED)]" "''q1''" "ex_planner_row I_PERMIT_ISSUED"
      "ex_transition I_RUNNING" "ex_transition I_RUNNING"]
  by (simp add: ex_planner_row_def ex_transition_def)

section \<open>Stage gates\<close>

text \<open>
  The stages come in order: a walk through the gates from the intake visits the stages one by one in the order of the
  assessment, none skipped or repeated, each with its prerequisite, so a closed assessment had evidence, settled
  verifications and retests, a finalized report and an approved review on the way.
\<close>

theorem stages_in_order:
  assumes "gate_walk INTAKE steps"
  shows "map fst steps = take (length steps) (tl STAGE_ORDER) \<and> (\<forall>(t, c) \<in> set steps. stage_ready t c) \<and>
    (last (INTAKE # map fst steps) = CLOSURE \<longrightarrow>
      (\<exists>c. (VERIFICATION, c) \<in> set steps \<and> gc_evidence_available c) \<and>
      (\<exists>c. (CLOSURE, c) \<in> set steps \<and> gc_review_approved c))"
proof -
  have p: "table_path next_stages INTAKE (map fst steps)" and r: "\<forall>(t, c) \<in> set steps. stage_ready t c"
    using assms by (simp_all add: gate_walk_path)
  have order: "map fst steps = take (length steps) (tl STAGE_ORDER)"
    using stage_path_order [OF p] by (simp add: drop_Suc)
  have "VERIFICATION \<in> set (map fst steps) \<and> CLOSURE \<in> set (map fst steps)"
    if "last (INTAKE # map fst steps) = CLOSURE"
  proof -
    have "table_path next_stages INTAKE (map fst steps)" by (rule p)
    from stage_table.path_bound [OF this] that have "length steps \<le> 7" by simp
    moreover have "7 \<le> length steps"
    proof (rule ccontr)
      have short: "last (INTAKE # take n (tl STAGE_ORDER)) \<noteq> CLOSURE" if "n \<le> 6" for n
        using that by (auto simp: STAGE_ORDER_def le_Suc_eq numeral_eq_Suc)
      assume "\<not> 7 \<le> length steps"
      then have "length steps \<le> 6" by simp
      from short [OF this] order that show False by simp
    qed
    ultimately show ?thesis unfolding order by (simp add: STAGE_ORDER_def)
  qed
  moreover have "\<exists>c. (s, c) \<in> set steps \<and> stage_ready s c" if "s \<in> set (map fst steps)" for s
    using that r by fastforce
  ultimately show ?thesis using order r unfolding stage_ready_def by blast
qed

theorem stages_in_order_witness:
  "gate_walk INTAKE (map (\<lambda>s. (s, \<lparr>gc_evidence_available = True, gc_verification_queue_empty = True, gc_unresolved_retests = False,
     gc_report_ready = True, gc_review_approved = True\<rparr>)) (tl STAGE_ORDER)) \<and>
   (\<exists>c. (CLOSURE, c) \<in> set (map (\<lambda>s. (s, \<lparr>gc_evidence_available = True, gc_verification_queue_empty = True, gc_unresolved_retests = False,
     gc_report_ready = True, gc_review_approved = True\<rparr>)) (tl STAGE_ORDER)) \<and> gc_review_approved c)"
proof -
  let ?steps = "map (\<lambda>s. (s, \<lparr>gc_evidence_available = True, gc_verification_queue_empty = True, gc_unresolved_retests = False,
     gc_report_ready = True, gc_review_approved = True\<rparr>)) (tl STAGE_ORDER)"
  have w: "gate_walk INTAKE ?steps"
    by (simp add: STAGE_ORDER_def gate_allows_iff next_stages_def stage_ready_def)
  have "last (INTAKE # map fst ?steps) = CLOSURE" by (simp add: STAGE_ORDER_def)
  with stages_in_order [OF w] w show ?thesis by blast
qed

end
