(* ===== verification/CapabilityObservation.thy ===== *)
theory CapabilityObservation
  imports CapabilityGrants ObservationSystem
begin

text \<open>
  \<open>src/astp/capability_observation.py\<close>: DNS lookups and TLS handshakes under a capability grant. Each
  verifies the grant for its exact action, consumes the permit below it, asks the network (a resolver or a
  connector, an argument that acts on an abstract network state) and registers its evidence.
\<close>

section \<open>The call and its world\<close>

record capability_call =
  cq_grant :: signed_grant
  cq_permit :: signed_permit
  cq_action :: capability_action
  cq_engagement :: engagement
  cq_test :: test_definition
  cq_keys :: keys
  cq_evidence_path :: string
  cq_sensitivity :: sensitivity_label
  cq_timeout :: rat
  cq_now :: "datetime option"
  cq_clock :: datetime
  cq_uuid :: string

record 'v capability_world =
  cw_permits :: state_file
  cw_manifest :: "evidence_entry log_file"
  cw_files :: artifacts
  cw_net :: 'v

definition cq_permit_id :: "capability_call \<Rightarrow> string" where
  "cq_permit_id c = pp_permit_id (sp_payload (cq_permit c))"

text \<open>What a network call gives: a value, an \<open>OSError\<close> (\<open>SSLError\<close> is one) of a class, or another exception.\<close>

datatype 'a io_answer = IoOk 'a | IoFailed string | IoRaised py_error

datatype address_family = AF_INET | AF_INET6 | AF_UNSPEC

text \<open>
  A row of \<open>getaddrinfo\<close>: the address of its fifth component, where it has one. A handshake: protocol,
  cipher and certificate digest.
\<close>

type_synonym 'v resolver = "string \<Rightarrow> int \<Rightarrow> address_family \<Rightarrow> 'v \<Rightarrow> string option list io_answer \<times> 'v"

type_synonym 'v connector = "string \<Rightarrow> int \<Rightarrow> rat \<Rightarrow> 'v \<Rightarrow> (string option \<times> string option \<times> string option) io_answer \<times> 'v"

record dns_evidence =
  de_evidence_id :: string
  de_permit_id :: string
  de_action_id :: string
  de_hostname :: string
  de_query_type :: string
  de_addresses :: "string list"
  de_observed_at :: datetime
  de_evidence_hash :: string

record tls_evidence =
  te_evidence_id :: string
  te_permit_id :: string
  te_action_id :: string
  te_hostname :: string
  te_port :: int
  te_protocol :: "string option"
  te_cipher :: "string option"
  te_certificate :: "string option"
  te_observed_at :: datetime
  te_evidence_hash :: string

definition dns_json :: "dns_evidence \<Rightarrow> json" where
  "dns_json e = JObj
     [(''schema_version'', JStr ''1''), (''evidence_id'', JStr (de_evidence_id e)), (''permit_id'', JStr (de_permit_id e)),
      (''action_id'', JStr (de_action_id e)), (''hostname'', JStr (de_hostname e)), (''query_type'', JStr (de_query_type e)),
      (''addresses'', JArr (map JStr (de_addresses e))), (''observed_at'', JStr (json_datetime (de_observed_at e))),
      (''evidence_hash'', JStr (de_evidence_hash e))]"

definition tls_json :: "tls_evidence \<Rightarrow> json" where
  "tls_json e = JObj
     [(''schema_version'', JStr ''1''), (''evidence_id'', JStr (te_evidence_id e)), (''permit_id'', JStr (te_permit_id e)),
      (''action_id'', JStr (te_action_id e)), (''hostname'', JStr (te_hostname e)), (''port'', json_int (te_port e)),
      (''protocol'', json_opt JStr (te_protocol e)), (''cipher'', json_opt JStr (te_cipher e)),
      (''peer_certificate_sha256'', json_opt JStr (te_certificate e)), (''observed_at'', JStr (json_datetime (te_observed_at e))),
      (''evidence_hash'', JStr (te_evidence_hash e))]"

text \<open>\<open>_digest\<close> and \<open>_persist\<close>.\<close>

definition capability_digest :: "json \<Rightarrow> string" where
  "capability_digest j = sha256_hex (canonical_json j)"

definition capability_persist :: "json \<Rightarrow> string \<Rightarrow> 'v capability_world \<Rightarrow> 'v capability_world" where
  "capability_persist j path w = w\<lparr>cw_files := (cw_files w)(path \<mapsto> render_indented 0 j)\<rparr>"

abbreviation capability_error :: "message \<Rightarrow> 'a result" where
  "capability_error m \<equiv> Inl (RuntimeError m)"

section \<open>Before the network\<close>

definition capability_consume :: "capability_call \<Rightarrow> consume_call" where
  "capability_consume c =
     \<lparr>cc_permit = cq_permit c, cc_engagement = cq_engagement c, cc_test = cq_test c,
      cc_request = \<lparr>vq_target = ca_target (cq_action c), vq_http_method = None, vq_identity = ca_identity (cq_action c),
                    vq_rps = None, vq_now = cq_now c\<rparr>,
      cc_keys = cq_keys c, cc_clock = cq_clock c\<rparr>"

definition spend_permit :: "capability_call \<Rightarrow> 'v capability_world \<Rightarrow> ('v capability_world, unit) outcome" where
  "spend_permit c w =
     obind (on_part cw_permits (\<lambda>f w. w\<lparr>cw_permits := f\<rparr>) (consume_execution_permit (capability_consume c)) w) (\<lambda>consumption w.
       if cr_accepted consumption then (Inr (), w) else (capability_error (cr_message consumption), w))"

definition admit_dns :: "capability_call \<Rightarrow> 'v capability_world \<Rightarrow> ('v capability_world, unit) outcome" where
  "admit_dns c w =
     (case verify_capability_grant (cq_grant c) (cq_permit c) (cq_action c) (cq_keys c) (cq_now c) (cq_clock c) of
        (valid, message) \<Rightarrow>
          if \<not> valid then (capability_error message, w)
          else if ca_operation (cq_action c) \<notin> {DNS_A, DNS_AAAA, DNS_CNAME}
          then (capability_error [Txt ''action is not a DNS capability operation''], w)
          else spend_permit c w)"

definition admit_tls :: "capability_call \<Rightarrow> 'v capability_world \<Rightarrow> ('v capability_world, int) outcome" where
  "admit_tls c w =
     (case verify_capability_grant (cq_grant c) (cq_permit c) (cq_action c) (cq_keys c) (cq_now c) (cq_clock c) of
        (valid, message) \<Rightarrow>
          if \<not> valid then (capability_error message, w)
          else if ca_operation (cq_action c) \<noteq> TLS_HANDSHAKE
          then (capability_error [Txt ''action is not a TLS handshake operation''], w)
          else (case ca_port (cq_action c) of
                  None \<Rightarrow> (capability_error [Txt ''TLS handshake action requires an explicit port''], w)
                | Some port \<Rightarrow> obind (spend_permit c w) (\<lambda>_ w. (Inr port, w))))"

section \<open>After the network\<close>

definition register_capability ::
  "capability_call \<Rightarrow> string \<Rightarrow> datetime \<Rightarrow> 'v capability_world \<Rightarrow> ('v capability_world, evidence_entry) outcome" where
  "register_capability c kind observed_at w =
     on_part cw_manifest (\<lambda>f w. w\<lparr>cw_manifest := f\<rparr>)
       (register_evidence (cw_files w) (cq_evidence_path c)
          \<lparr>ea_type = kind, ea_id = Some (cq_uuid c), ea_permit_id = Some (cq_permit_id c),
           ea_action_id = Some (capability_action_id (cq_action c)), ea_sensitivity = cq_sensitivity c,
           ea_now = Some observed_at\<rparr> (cq_uuid c) (cq_clock c)) w"

definition dns_family :: "capability_operation \<Rightarrow> address_family" where
  "dns_family op =
     (let family = (if op = DNS_AAAA then AF_INET6 else AF_INET) in if op = DNS_CNAME then AF_UNSPEC else family)"

text \<open>\<open>action.port or 443\<close>.\<close>

definition dns_port :: "capability_action \<Rightarrow> int" where
  "dns_port a = (case ca_port a of None \<Rightarrow> 443 | Some n \<Rightarrow> if n = 0 then 443 else n)"

definition dns_addresses :: "string option list \<Rightarrow> string list" where
  "dns_addresses rows = sort (remdups (concat (map (\<lambda>r. case r of None \<Rightarrow> [] | Some a \<Rightarrow> [a]) rows)))"

definition dns_evidence_of :: "capability_call \<Rightarrow> string list \<Rightarrow> dns_evidence" where
  "dns_evidence_of c addresses =
     (let observed_at = or_else (cq_now c) (cq_clock c); a = cq_action c in
      \<lparr>de_evidence_id = cq_uuid c, de_permit_id = cq_permit_id c, de_action_id = capability_action_id a, de_hostname = ca_target a,
       de_query_type = operation_value (ca_operation a), de_addresses = addresses, de_observed_at = observed_at,
       de_evidence_hash = capability_digest (JObj
         [(''permit_id'', JStr (cq_permit_id c)), (''action_id'', JStr (capability_action_id a)), (''hostname'', JStr (ca_target a)),
          (''query_type'', JStr (operation_value (ca_operation a))), (''addresses'', JArr (map JStr addresses)),
          (''observed_at'', JStr (isoformat observed_at))])\<rparr>)"

definition tls_evidence_of :: "capability_call \<Rightarrow> int \<Rightarrow> string option \<times> string option \<times> string option \<Rightarrow> tls_evidence" where
  "tls_evidence_of c port = (\<lambda>(protocol, cipher, cert_hash).
     (let observed_at = or_else (cq_now c) (cq_clock c); a = cq_action c in
      \<lparr>te_evidence_id = cq_uuid c, te_permit_id = cq_permit_id c, te_action_id = capability_action_id a, te_hostname = ca_target a,
       te_port = port, te_protocol = protocol, te_cipher = cipher, te_certificate = cert_hash, te_observed_at = observed_at,
       te_evidence_hash = capability_digest (JObj
         [(''permit_id'', JStr (cq_permit_id c)), (''action_id'', JStr (capability_action_id a)), (''hostname'', JStr (ca_target a)),
          (''port'', json_int port), (''protocol'', json_opt JStr protocol), (''cipher'', json_opt JStr cipher),
          (''peer_certificate_sha256'', json_opt JStr cert_hash), (''observed_at'', JStr (isoformat observed_at))])\<rparr>))"

section \<open>The two observations\<close>

definition observe_dns :: "'v resolver \<Rightarrow> capability_call \<Rightarrow> 'v capability_world \<Rightarrow> ('v capability_world, dns_evidence) outcome" where
  "observe_dns resolve c w =
     obind (admit_dns c w) (\<lambda>_ w.
       case resolve (ca_target (cq_action c)) (dns_port (cq_action c)) (dns_family (ca_operation (cq_action c))) (cw_net w) of
         (answer, v) \<Rightarrow>
           let w = w\<lparr>cw_net := v\<rparr> in
           (case answer of
              IoFailed name \<Rightarrow> (capability_error [Txt ''DNS observation failed: '', Txt name], w)
            | IoRaised e \<Rightarrow> (Inl e, w)
            | IoOk rows \<Rightarrow>
                let e = dns_evidence_of c (dns_addresses rows); w = capability_persist (dns_json e) (cq_evidence_path c) w
                in obind (register_capability c ''dns.observation.v1'' (de_observed_at e) w) (\<lambda>_ w. (Inr e, w))))"

definition observe_tls :: "'v connector \<Rightarrow> capability_call \<Rightarrow> 'v capability_world \<Rightarrow> ('v capability_world, tls_evidence) outcome" where
  "observe_tls connect c w =
     obind (admit_tls c w) (\<lambda>port w.
       case connect (ca_target (cq_action c)) port (cq_timeout c) (cw_net w) of
         (answer, v) \<Rightarrow>
           let w = w\<lparr>cw_net := v\<rparr> in
           (case answer of
              IoFailed name \<Rightarrow> (capability_error [Txt ''TLS observation failed: '', Txt name], w)
            | IoRaised e \<Rightarrow> (Inl e, w)
            | IoOk handshake \<Rightarrow>
                let e = tls_evidence_of c port handshake; w = capability_persist (tls_json e) (cq_evidence_path c) w
                in obind (register_capability c ''tls.observation.v1'' (te_observed_at e) w) (\<lambda>_ w. (Inr e, w))))"

section \<open>What they do to the ledger\<close>

lemma on_part_world: "on_part get put step w = (r, w') \<Longrightarrow> \<exists>p. step (get w) = (r, p) \<and> w' = put p w"
  by (auto simp: on_part_def split: prod.splits)

lemma capability_consume_id [simp]: "cc_permit_id (capability_consume c) = cq_permit_id c"
  by (simp add: capability_consume_def cc_permit_id_def cq_permit_id_def)

text \<open>What an admission does: nothing but to spend the permit, which verified for the action.\<close>

definition spends_permit :: "capability_call \<Rightarrow> 'v capability_world \<Rightarrow> 'v capability_world \<Rightarrow> bool" where
  "spends_permit c w w' \<longleftrightarrow>
     file_status (cw_permits w) (cq_permit_id c) = Some AVAILABLE \<and>
     file_status (cw_permits w') = (file_status (cw_permits w))(cq_permit_id c := Some CONSUMED) \<and>
     (\<exists>v. cc_verify (capability_consume c) = Inr v \<and> vr_valid v)"

lemma spend_permit_cases:
  assumes "spend_permit c w = (r, w')"
  shows "(\<exists>f. w' = w\<lparr>cw_permits := f\<rparr>) \<and> (if isl r then cw_permits w' = cw_permits w else spends_permit c w w')"
proof -
  obtain q f where q: "consume_execution_permit (capability_consume c) (cw_permits w) = (q, f)" by fastforce
  show ?thesis
  proof (cases "admitted (Returned q)")
    case True
    then obtain x where x: "q = Inr x" "cr_accepted x" by (auto simp: admitted_Returned)
    with assms q have "w' = w\<lparr>cw_permits := f\<rparr>" "r = Inr ()" by (auto simp: spend_permit_def on_part_def)
    with file_consumed_status [of "capability_consume c" "cw_permits w" x f] q x show ?thesis by (auto simp: spends_permit_def)
  next
    case False
    from consume_execution_permit_refused [OF q False] have f: "f = cw_permits w" .
    with assms q False show ?thesis by (cases q) (auto simp: spend_permit_def on_part_def admitted_Returned intro!: exI [of _ f])
  qed
qed

text \<open>The gates of the two observations.\<close>

definition grant_accepts :: "capability_call \<Rightarrow> bool" where
  "grant_accepts c = fst (verify_capability_grant (cq_grant c) (cq_permit c) (cq_action c) (cq_keys c) (cq_now c) (cq_clock c))"

lemma admit_dns_cases:
  assumes "admit_dns c w = (r, w')"
  shows "(\<exists>f. w' = w\<lparr>cw_permits := f\<rparr>) \<and>
    (if isl r then cw_permits w' = cw_permits w
     else spends_permit c w w' \<and> grant_accepts c \<and> ca_operation (cq_action c) \<in> {DNS_A, DNS_AAAA, DNS_CNAME})"
proof (cases "grant_accepts c \<and> ca_operation (cq_action c) \<in> {DNS_A, DNS_AAAA, DNS_CNAME}")
  case True
  with assms have "spend_permit c w = (r, w')" by (auto simp: admit_dns_def grant_accepts_def split: prod.splits)
  from spend_permit_cases [OF this] True show ?thesis by auto
next
  case False
  with assms show ?thesis
    by (auto simp: admit_dns_def grant_accepts_def split: prod.splits if_splits intro: exI [of _ "cw_permits w"])
qed

lemma admit_tls_cases:
  assumes "admit_tls c w = (r, w')"
  shows "(\<exists>f. w' = w\<lparr>cw_permits := f\<rparr>) \<and>
    (if isl r then cw_permits w' = cw_permits w
     else spends_permit c w w' \<and> grant_accepts c \<and> ca_operation (cq_action c) = TLS_HANDSHAKE \<and> ca_port (cq_action c) = Some (projr r))"
proof (cases "grant_accepts c \<and> ca_operation (cq_action c) = TLS_HANDSHAKE \<and> ca_port (cq_action c) \<noteq> None")
  case True
  then obtain port where port: "ca_port (cq_action c) = Some port" by blast
  with True assms have "obind (spend_permit c w) (\<lambda>_ w. (Inr port, w)) = (r, w')"
    by (auto simp: admit_tls_def grant_accepts_def split: prod.splits)
  moreover obtain q w1 where q: "spend_permit c w = (q, w1)" by fastforce
  ultimately have "w' = w1" "isl r \<longleftrightarrow> isl q" "\<not> isl r \<longrightarrow> r = Inr port" by (cases q; auto)+
  with spend_permit_cases [OF q] True port show ?thesis by auto
next
  case False
  with assms show ?thesis
    by (auto simp: admit_tls_def grant_accepts_def split: prod.splits if_splits option.splits intro: exI [of _ "cw_permits w"])
qed

lemma register_capability_parts:
  "cw_permits (snd (register_capability c kind i w)) = cw_permits w \<and> cw_net (snd (register_capability c kind i w)) = cw_net w \<and>
   cw_files (snd (register_capability c kind i w)) = cw_files w"
  by (simp add: register_capability_def on_part_snd)

lemma obind_snd_pure: "snd (obind r (\<lambda>x w. (Inr (f x), w))) = snd r"
  by (cases r; cases "fst r") auto

lemma observe_dns_permits: "cw_permits (snd (observe_dns resolve c w)) = cw_permits (snd (admit_dns c w))"
proof -
  obtain q w1 where q: "admit_dns c w = (q, w1)" by fastforce
  obtain answer v where v: "resolve (ca_target (cq_action c)) (dns_port (cq_action c)) (dns_family (ca_operation (cq_action c))) (cw_net w1) =
      (answer, v)" by fastforce
  show ?thesis
    using q v by (cases q; cases answer)
      (simp_all add: observe_dns_def Let_def obind_snd_pure register_capability_parts capability_persist_def)
qed

lemma observe_tls_permits: "cw_permits (snd (observe_tls connect c w)) = cw_permits (snd (admit_tls c w))"
proof -
  obtain q w1 where q: "admit_tls c w = (q, w1)" by fastforce
  show ?thesis
  proof (cases q)
    case (Inr port)
    obtain answer v where v: "connect (ca_target (cq_action c)) port (cq_timeout c) (cw_net w1) = (answer, v)" by fastforce
    show ?thesis
      using q v Inr by (cases answer)
        (simp_all add: observe_tls_def Let_def obind_snd_pure register_capability_parts capability_persist_def)
  qed (use q in \<open>simp add: observe_tls_def\<close>)
qed

text \<open>The network is asked only after an admission.\<close>

lemma observe_dns_net:
  assumes "cw_net (snd (observe_dns resolve c w)) \<noteq> cw_net w"
  shows "\<exists>w1. admit_dns c w = (Inr (), w1)"
proof (cases "admit_dns c w")
  case (Pair q w1)
  with admit_dns_cases [OF Pair] assms show ?thesis by (cases q) (auto simp: observe_dns_def)
qed

lemma observe_tls_net:
  assumes "cw_net (snd (observe_tls connect c w)) \<noteq> cw_net w"
  shows "\<exists>port w1. admit_tls c w = (Inr port, w1)"
proof (cases "admit_tls c w")
  case (Pair q w1)
  with admit_tls_cases [OF Pair] assms show ?thesis by (cases q) (auto simp: observe_tls_def)
qed

section \<open>The single-use ledger\<close>

datatype capability_request = DnsRequest capability_call | TlsRequest capability_call

fun capability_request_id :: "capability_request \<Rightarrow> string" where
  "capability_request_id (DnsRequest c) = cq_permit_id c"
| "capability_request_id (TlsRequest c) = cq_permit_id c"

text \<open>One observation: whether it was admitted, and the world afterwards.\<close>

fun capability_spends :: "'v resolver \<Rightarrow> 'v connector \<Rightarrow> capability_request \<Rightarrow> 'v capability_world \<Rightarrow> bool \<times> 'v capability_world" where
  "capability_spends resolve connect (DnsRequest c) w = (\<not> isl (fst (admit_dns c w)), snd (observe_dns resolve c w))"
| "capability_spends resolve connect (TlsRequest c) w = (\<not> isl (fst (admit_tls c w)), snd (observe_tls connect c w))"

definition capability_status :: "'v capability_world \<Rightarrow> string \<Rightarrow> lifecycle_status option" where
  "capability_status w = file_status (cw_permits w)"

definition capability_revoke :: "revocation \<Rightarrow> 'v capability_world \<Rightarrow> bool \<times> 'v capability_world" where
  "capability_revoke b w = (case file_revoke b (cw_permits w) of (ok, f) \<Rightarrow> (ok, w\<lparr>cw_permits := f\<rparr>))"

lemma capability_spends_status:
  assumes "capability_spends resolve connect q w = (ok, w')"
  shows "if ok then capability_status w (capability_request_id q) = Some AVAILABLE \<and>
      capability_status w' = (capability_status w)(capability_request_id q := Some CONSUMED)
    else capability_status w' = capability_status w"
proof (cases q)
  case (DnsRequest c)
  obtain r w1 where a: "admit_dns c w = (r, w1)" by fastforce
  with assms DnsRequest observe_dns_permits [of resolve c w] have "cw_permits w' = cw_permits w1" "ok = (\<not> isl r)" by auto
  with admit_dns_cases [OF a] DnsRequest show ?thesis by (auto simp: capability_status_def spends_permit_def split: if_splits)
next
  case (TlsRequest c)
  obtain r w1 where a: "admit_tls c w = (r, w1)" by fastforce
  with assms TlsRequest observe_tls_permits [of connect c w] have "cw_permits w' = cw_permits w1" "ok = (\<not> isl r)" by auto
  with admit_tls_cases [OF a] TlsRequest show ?thesis by (auto simp: capability_status_def spends_permit_def split: if_splits)
qed

interpretation capability_ledger:
  permit_ledger capability_status "capability_spends resolve connect" capability_revoke capability_request_id rv_permit_id
  for resolve connect
proof (unfold_locales, goal_cases)
  case (1 a s s')
  then show ?case using capability_spends_status [of resolve connect a s True s'] by simp
next
  case (2 a s ok s' p)
  then show ?case using capability_spends_status [of resolve connect a s ok s'] by (auto split: if_splits)
next
  case (3 b s s')
  then show ?case
    using file_ledger.revoke_accepted [of b "cw_permits s"]
    by (auto simp: capability_revoke_def capability_status_def split: prod.splits)
next
  case (4 b s ok s' p)
  then show ?case
    using file_ledger.revoke_frame [of b "cw_permits s"]
    by (auto simp: capability_revoke_def capability_status_def split: prod.splits)
qed

end
