(* ===== verification/CapabilityProperties.thy ===== *)
theory CapabilityProperties
  imports CapabilityObservation Examples
begin

text \<open>
  Properties of the DNS and TLS observations: what they presuppose, that a permit pays for one of them, what
  a lookup leaves behind and what a failed one does not.
\<close>

section \<open>Authority\<close>

text \<open>
  One observation per permit: in every sequence of DNS and TLS observations, whatever their calls, and revocations by
  the operator, from every state of the files and with any network, at most one observation is admitted under a permit.
\<close>

theorem capability_single_use:
  "count_rows (consumes capability_request_id p) (fst (ledger_run (capability_spends resolve connect) capability_revoke ops w)) \<le> 1"
  by (rule capability_ledger.run_at_most_once [OF surjective_pairing])

fun capability_request_call :: "capability_request \<Rightarrow> capability_call" where
  "capability_request_call (DnsRequest c) = c"
| "capability_request_call (TlsRequest c) = c"

text \<open>
  C36: whatever reaches the network was granted: when an observation changes the network, its grant is valid for exactly
  this action, which is of the kind observed (with a port for a handshake), its permit was available, is spent by this
  call, names this target and identity, and is bound to no HTTP method.
\<close>

theorem capability_authorized:
  assumes "cw_net (snd (capability_spends resolve connect q w)) \<noteq> cw_net w"
  defines "c \<equiv> capability_request_call q"
  shows "grant_accepts c \<and> gp_action_id (sg_payload (cq_grant c)) = capability_action_id (cq_action c) \<and>
    (case q of DnsRequest _ \<Rightarrow> ca_operation (cq_action c) \<in> {DNS_A, DNS_AAAA, DNS_CNAME}
     | TlsRequest _ \<Rightarrow> ca_operation (cq_action c) = TLS_HANDSHAKE \<and> ca_port (cq_action c) \<noteq> None) \<and>
    capability_status w (cq_permit_id c) = Some AVAILABLE \<and>
    capability_status (snd (capability_spends resolve connect q w)) = (capability_status w)(cq_permit_id c := Some CONSUMED) \<and>
    pp_target (sp_payload (cq_permit c)) = ca_target (cq_action c) \<and>
    pp_identity (sp_payload (cq_permit c)) = ca_identity (cq_action c) \<and> pp_http_method (sp_payload (cq_permit c)) = None"
proof -
  obtain w1 where w1: "spends_permit c w w1" "grant_accepts c"
    "cw_permits (snd (capability_spends resolve connect q w)) = cw_permits w1"
    "case q of DnsRequest _ \<Rightarrow> ca_operation (cq_action c) \<in> {DNS_A, DNS_AAAA, DNS_CNAME}
     | TlsRequest _ \<Rightarrow> ca_operation (cq_action c) = TLS_HANDSHAKE \<and> ca_port (cq_action c) \<noteq> None"
  proof (cases q)
    case (DnsRequest d)
    with assms(1) observe_dns_net [of resolve d w] obtain w1 where a: "admit_dns d w = (Inr (), w1)" by auto
    with admit_dns_cases [OF a] observe_dns_permits [of resolve d w] DnsRequest that [of w1] show ?thesis by (auto simp: c_def)
  next
    case (TlsRequest d)
    with assms(1) observe_tls_net [of connect d w] obtain port w1 where a: "admit_tls d w = (Inr port, w1)" by auto
    with admit_tls_cases [OF a] observe_tls_permits [of connect d w] TlsRequest that [of w1] show ?thesis by (auto simp: c_def)
  qed
  from w1(1) obtain v where v: "cc_verify (capability_consume c) = Inr v" "vr_valid v" by (auto simp: spends_permit_def)
  then have "\<exists>k. vr_valid (verify_bindings (cq_permit c) (cq_engagement c) (cq_test c) (cc_request (capability_consume c)) (cq_clock c) k)"
    using verify_valid_iff [of "cq_permit c" "cq_engagement c" "cq_test c" "cc_request (capability_consume c)" "cq_keys c" "cq_clock c" v]
    by (auto simp: cc_verify_def capability_consume_def)
  then have "pp_target (sp_payload (cq_permit c)) = ca_target (cq_action c)"
    "pp_identity (sp_payload (cq_permit c)) = ca_identity (cq_action c)" "pp_http_method (sp_payload (cq_permit c)) = None"
    unfolding verify_bindings_valid by (auto simp: capability_consume_def Let_def upper_method_def)
  moreover have "gp_action_id (sg_payload (cq_grant c)) = capability_action_id (cq_action c)"
    using w1(2) unfolding grant_accepts_def verify_grant_True Let_def by blast
  ultimately show ?thesis using w1 by (auto simp: spends_permit_def capability_status_def)
qed

section \<open>What is left behind\<close>

text \<open>
  A DNS observation records the answer: the resolver was asked once, for the host, port and address family of the
  action, its addresses are in the evidence once each and in order, the evidence file is written, and the manifest ends
  with an entry for the permit and the action whose digest is that of the file.
\<close>

theorem dns_observation_recorded:
  assumes "observe_dns resolve c w = (Inr e, w')"
  shows "\<exists>rows es entry. resolve (ca_target (cq_action c)) (dns_port (cq_action c)) (dns_family (ca_operation (cq_action c))) (cw_net w) =
      (IoOk rows, cw_net w') \<and>
    sorted (de_addresses e) \<and> distinct (de_addresses e) \<and> set (de_addresses e) = {a. Some a \<in> set rows} \<and>
    de_permit_id e = cq_permit_id c \<and> de_action_id e = capability_action_id (cq_action c) \<and>
    cw_files w' = (cw_files w)(cq_evidence_path c \<mapsto> render_indented 0 (dns_json e)) \<and>
    read_manifest (cw_manifest w') = Inr (es @ [entry]) \<and> ee_artifact_path entry = cq_evidence_path c \<and>
    ee_artifact_sha256 entry = sha256_file (render_indented 0 (dns_json e))"
proof -
  obtain w1 where a: "admit_dns c w = (Inr (), w1)"
    using assms by (cases "admit_dns c w"; cases "fst (admit_dns c w)") (auto simp: observe_dns_def)
  from admit_dns_cases [OF a] obtain f where w1: "w1 = w\<lparr>cw_permits := f\<rparr>" by auto
  obtain answer v where n: "resolve (ca_target (cq_action c)) (dns_port (cq_action c)) (dns_family (ca_operation (cq_action c))) (cw_net w) =
      (answer, v)" by fastforce
  obtain rows where rows: "answer = IoOk rows"
    using assms a n w1 by (cases answer) (auto simp: observe_dns_def)
  let ?e = "dns_evidence_of c (dns_addresses rows)"
  let ?w = "capability_persist (dns_json ?e) (cq_evidence_path c) (w1\<lparr>cw_net := v\<rparr>)"
  from assms a n w1 rows obtain entry where e: "e = ?e"
    and r: "register_capability c ''dns.observation.v1'' (de_observed_at ?e) ?w = (Inr entry, w')"
    by (auto simp: observe_dns_def Let_def elim!: obind_InrE)
  from on_part_Inr [OF r [unfolded register_capability_def]] obtain g where
    g: "register_evidence (cw_files ?w) (cq_evidence_path c)
        \<lparr>ea_type = ''dns.observation.v1'', ea_id = Some (cq_uuid c), ea_permit_id = Some (cq_permit_id c),
         ea_action_id = Some (capability_action_id (cq_action c)), ea_sensitivity = cq_sensitivity c,
         ea_now = Some (de_observed_at ?e)\<rparr> (cq_uuid c) (cq_clock c) (cw_manifest ?w) = (Inr entry, g)" "w' = ?w\<lparr>cw_manifest := g\<rparr>"
    by blast
  have addresses: "set (dns_addresses rows) = {a. Some a \<in> set rows}"
    by (auto simp: dns_addresses_def split: option.splits)
  have "sorted (dns_addresses rows) \<and> distinct (dns_addresses rows)" by (simp add: dns_addresses_def)
  moreover from register_evidence_seal [OF g(1)] g(2) obtain es where "read_manifest (cw_manifest w') = Inr (es @ [entry])"
    "ee_artifact_path entry = cq_evidence_path c" "ee_artifact_sha256 entry = sha256_file (render_indented 0 (dns_json ?e))"
    by (auto simp: capability_persist_def)
  moreover have "cw_files w' = (cw_files w)(cq_evidence_path c \<mapsto> render_indented 0 (dns_json ?e))" "cw_net w' = v"
    using g(2) w1 by (simp_all add: capability_persist_def)
  ultimately show ?thesis
    using n rows addresses unfolding e
    by (intro exI [of _ rows] exI [of _ es] exI [of _ entry]) (simp add: dns_evidence_of_def Let_def)
qed

text \<open>
  A failed lookup costs the permit and leaves no trace: when the resolver fails after the admission, the permit is
  consumed and the call raises, while no evidence file and no manifest entry say that the network was asked.
\<close>

theorem dns_failure_unrecorded:
  assumes "admit_dns c w = (Inr (), w1)"
    and "resolve (ca_target (cq_action c)) (dns_port (cq_action c)) (dns_family (ca_operation (cq_action c))) (cw_net w) = (IoFailed name, v)"
  shows "\<exists>w'. observe_dns resolve c w = (capability_error [Txt ''DNS observation failed: '', Txt name], w') \<and>
    capability_status w' (cq_permit_id c) = Some CONSUMED \<and> cw_files w' = cw_files w \<and> cw_manifest w' = cw_manifest w"
  using admit_dns_cases [OF assms(1)] assms
  by (auto simp: observe_dns_def capability_status_def spends_permit_def)

section \<open>A lookup of the example\<close>

definition ex_dns_payload :: permit_payload where
  "ex_dns_payload = ex_payload\<lparr>pp_target := ''a.io'', pp_http_method := None\<rparr>"

definition ex_dns_permit :: signed_permit where
  "ex_dns_permit = \<lparr>sp_algorithm = ''hmac-sha256'', sp_payload = ex_dns_payload,
     sp_signature = hmac_sha256_hex ex_key (canonical_json (signed_data ex_dns_payload))\<rparr>"

definition ex_dns_action :: capability_action where
  "ex_dns_action = \<lparr>ca_capability_id = ''dns-read'', ca_operation = DNS_A, ca_target = ''a.io'', ca_port = None,
     ca_identity = None, ca_metadata = []\<rparr>"

definition ex_dns_call :: "signed_grant \<Rightarrow> capability_call" where
  "ex_dns_call g =
     \<lparr>cq_grant = g, cq_permit = ex_dns_permit, cq_action = ex_dns_action, cq_engagement = ex_engagement, cq_test = ex_test,
      cq_keys = SingleKey ex_key, cq_evidence_path = ''dns.json'', cq_sensitivity = INTERNAL, cq_timeout = 10, cq_now = None,
      cq_clock = ex_clock, cq_uuid = ''ev-1''\<rparr>"

definition ex_dns_world :: "nat capability_world" where
  "ex_dns_world = \<lparr>cw_permits = Missing, cw_manifest = None, cw_files = Map.empty, cw_net = 0\<rparr>"

definition ex_resolver :: "string option list io_answer \<Rightarrow> nat resolver" where
  "ex_resolver answer host port family n = (answer, n + 1)"

lemma ex_dns_verifies:
  assumes "vq_target q = ''a.io''" "vq_http_method q = None" "vq_identity q = None" "vq_rps q = None" "or_else (vq_now q) clock = ex_clock"
  obtains v where "verify_execution_permit ex_dns_permit ex_engagement ex_test q (SingleKey ex_key) clock = Inr v" "vr_valid v"
proof -
  have s: "permit_signature ex_dns_payload ex_key = Inr (hmac_sha256_hex ex_key (canonical_json (signed_data ex_dns_payload)))"
    by (simp add: permit_signature_Inr MIN_SIGNING_KEY_BYTES_def ex_key_def)
  have "vr_valid (verify_bindings ex_dns_permit ex_engagement ex_test q clock k)" for k
    unfolding verify_bindings_valid using assms
    by (simp add: ex_dns_permit_def ex_dns_payload_def ex_payload_def upper_method_def Let_def time_simps)
      (simp add: ex_engagement_def ex_test_def)
  with that show ?thesis
    by (simp add: verify_execution_permit_def select_key_def s ex_dns_permit_def)
qed

lemma ex_dns_granted:
  obtains g where "grant_accepts (ex_dns_call g)"
proof -
  have m: "operation_method DNS_A = None" by code_simp
  let ?q = "\<lparr>vq_target = ca_target ex_dns_action, vq_http_method = operation_method (ca_operation ex_dns_action),
    vq_identity = ca_identity ex_dns_action, vq_rps = None, vq_now = Some ex_clock\<rparr>"
  obtain v where v: "verify_execution_permit ex_dns_permit ex_engagement ex_test ?q (SingleKey ex_key) ex_clock = Inr v" "vr_valid v"
    by (rule ex_dns_verifies [of ?q ex_clock]) (simp_all add: ex_dns_action_def m)
  have k: "grant_key (SingleKey ex_key) x = Inr ex_key" for x by (simp add: grant_key_def ex_key_def)
  have a: "aware (pp_expires_at ex_dns_payload)" "aware ex_clock"
    by (simp_all add: ex_dns_payload_def ex_payload_def ex_clock_def time_simps)
  have "\<exists>g. issue_capability_grant ex_dns_permit ex_dns_action ex_engagement ex_test (SingleKey ex_key) None ex_clock = Inr g"
    using v by (simp add: issue_capability_grant_def k mk_grant_payload_def Let_def)
      (simp add: ex_dns_action_def ex_dns_permit_def m a, simp add: ex_dns_payload_def m)
  then obtain g where g: "issue_capability_grant ex_dns_permit ex_dns_action ex_engagement ex_test (SingleKey ex_key) None ex_clock = Inr g"
    by blast
  have "verify_capability_grant g ex_dns_permit ex_dns_action (SingleKey ex_key) None ex_clock =
      (True, [Txt ''capability grant is valid for this exact action''])"
    unfolding verify_capability_grant_def Let_def
    by (rule issue_capability_grantD [OF g]) (simp add: ex_dns_permit_def ex_dns_payload_def ex_payload_def time_simps)
  then have "grant_accepts (ex_dns_call g)" by (simp add: grant_accepts_def ex_dns_call_def)
  then show ?thesis by (rule that)
qed

lemma ex_dns_admitted:
  obtains g w1 where "grant_accepts (ex_dns_call g)" "admit_dns (ex_dns_call g) ex_dns_world = (Inr (), w1)"
proof -
  obtain g where g: "grant_accepts (ex_dns_call g)" by (rule ex_dns_granted)
  let ?k = "capability_consume (ex_dns_call g)"
  obtain v where v: "cc_verify ?k = Inr v" "vr_valid v"
    by (rule ex_dns_verifies [of "cc_request ?k" ex_clock]) (simp_all add: cc_verify_def capability_consume_def ex_dns_call_def ex_dns_action_def)
  have "file_status Missing (cc_permit_id ?k) = Some AVAILABLE"
    by (simp add: file_status_def permit_status_def load_state_def)
  from consume_accepts [OF this v] obtain r f where "consume_execution_permit ?k Missing = (Inr r, f)" "cr_accepted r" by blast
  then have "spend_permit (ex_dns_call g) ex_dns_world = (Inr (), ex_dns_world\<lparr>cw_permits := f\<rparr>)"
    by (simp add: spend_permit_def on_part_def ex_dns_world_def)
  moreover have "ca_operation (cq_action (ex_dns_call g)) = DNS_A" by (simp add: ex_dns_call_def ex_dns_action_def)
  ultimately have "admit_dns (ex_dns_call g) ex_dns_world = (Inr (), ex_dns_world\<lparr>cw_permits := f\<rparr>)"
    using g by (auto simp: admit_dns_def grant_accepts_def split: prod.splits)
  with g that show ?thesis by blast
qed

theorem capability_authorized_witness:
  "\<exists>g. capability_status (snd (capability_spends (ex_resolver (IoFailed ''gaierror'')) (\<lambda>_ _ _ n. (IoFailed [], n))
      (DnsRequest (ex_dns_call g)) ex_dns_world)) ''permit-1'' = Some CONSUMED"
proof (rule ex_dns_admitted)
  fix g and w1 :: "nat capability_world"
  assume a: "admit_dns (ex_dns_call g) ex_dns_world = (Inr (), w1)"
  from admit_dns_cases [OF a] obtain f where "w1 = ex_dns_world\<lparr>cw_permits := f\<rparr>" by auto
  with a have "cw_net (snd (capability_spends (ex_resolver (IoFailed ''gaierror'')) (\<lambda>_ _ _ n. (IoFailed [], n))
      (DnsRequest (ex_dns_call g)) ex_dns_world)) \<noteq> cw_net ex_dns_world"
    by (simp add: observe_dns_def ex_resolver_def ex_dns_world_def)
  note r = capability_authorized [OF this]
  have "cq_permit_id (ex_dns_call g) = ''permit-1''" by (simp add: cq_permit_id_def ex_dns_call_def ex_dns_permit_def ex_dns_payload_def ex_payload_def)
  with r have s: "capability_status (snd (capability_spends (ex_resolver (IoFailed ''gaierror'')) (\<lambda>_ _ _ n. (IoFailed [], n))
      (DnsRequest (ex_dns_call g)) ex_dns_world)) = (capability_status ex_dns_world)(''permit-1'' := Some CONSUMED)"
    unfolding capability_request_call.simps by metis
  show ?thesis by (intro exI [of _ g]) (simp only: s fun_upd_same)
qed

theorem dns_observation_recorded_witness:
  "\<exists>g e w'. observe_dns (ex_resolver (IoOk [Some ''2.2.2.2'', None, Some ''1.1.1.1'', Some ''2.2.2.2''])) (ex_dns_call g) ex_dns_world = (Inr e, w') \<and>
     distinct (de_addresses e)"
proof (rule ex_dns_admitted)
  fix g and w1 :: "nat capability_world"
  assume a: "admit_dns (ex_dns_call g) ex_dns_world = (Inr (), w1)"
  let ?r = "ex_resolver (IoOk [Some ''2.2.2.2'', None, Some ''1.1.1.1'', Some ''2.2.2.2''])"
  from admit_dns_cases [OF a] obtain f where w1: "w1 = ex_dns_world\<lparr>cw_permits := f\<rparr>" by auto
  let ?e = "dns_evidence_of (ex_dns_call g) (dns_addresses [Some ''2.2.2.2'', None, Some ''1.1.1.1'', Some ''2.2.2.2''])"
  have "aware (de_observed_at ?e)" by (simp add: dns_evidence_of_def ex_dns_call_def Let_def ex_clock_def time_simps)
  then have "\<exists>entry w'. register_capability (ex_dns_call g) ''dns.observation.v1'' (de_observed_at ?e)
      (capability_persist (dns_json ?e) ''dns.json'' (w1\<lparr>cw_net := 1\<rparr>)) = (Inr entry, w')"
    by (simp add: register_capability_def on_part_def capability_persist_def w1 ex_dns_world_def register_evidence_def
        mk_evidence_entry_def require_def preliminary_created read_manifest_def Let_def ex_dns_call_def)
  then obtain entry w' where "register_capability (ex_dns_call g) ''dns.observation.v1'' (de_observed_at ?e)
      (capability_persist (dns_json ?e) ''dns.json'' (w1\<lparr>cw_net := 1\<rparr>)) = (Inr entry, w')" by blast
  moreover have "cw_net w1 = 0" "cq_evidence_path (ex_dns_call g) = ''dns.json''" by (simp_all add: w1 ex_dns_world_def ex_dns_call_def)
  ultimately have o: "observe_dns ?r (ex_dns_call g) ex_dns_world = (Inr ?e, w')"
    using a by (simp add: observe_dns_def ex_resolver_def Let_def)
  have "distinct (de_addresses ?e)" using dns_observation_recorded [OF o] by (elim exE conjE)
  with o show ?thesis by (intro exI conjI)
qed

theorem dns_failure_unrecorded_witness:
  "\<exists>g w'. observe_dns (ex_resolver (IoFailed ''gaierror'')) (ex_dns_call g) ex_dns_world =
      (capability_error [Txt ''DNS observation failed: '', Txt ''gaierror''], w') \<and> cw_manifest w' = None"
proof (rule ex_dns_admitted)
  fix g and w1 :: "nat capability_world"
  assume a: "admit_dns (ex_dns_call g) ex_dns_world = (Inr (), w1)"
  have n: "ex_resolver (IoFailed ''gaierror'') (ca_target (cq_action (ex_dns_call g))) (dns_port (cq_action (ex_dns_call g)))
      (dns_family (ca_operation (cq_action (ex_dns_call g)))) (cw_net ex_dns_world) = (IoFailed ''gaierror'', 1)"
    by (simp add: ex_resolver_def ex_dns_world_def)
  have "cw_manifest ex_dns_world = None" by (simp add: ex_dns_world_def)
  with dns_failure_unrecorded [where resolve = "ex_resolver (IoFailed ''gaierror'')", OF a n] show ?thesis by auto
qed

end
