(* ===== verification/PyRegex.thy ===== *)
theory PyRegex
  imports PyText
begin

text \<open>
  What the source uses of Python's \<open>re\<close>: a backtracking matcher that lists the ways a pattern matches at a
  position in the order Python tries them, so the first is the match; \<open>finditer\<close>, \<open>search\<close>,
  \<open>split\<close> and \<open>sub\<close> on top of it. A position is the text before it (reversed), the text after it
  and what the one capturing group holds.
\<close>

section \<open>Patterns\<close>

type_synonym rx_state = "string \<times> string \<times> string option"

datatype rx =
    RxEmpty
  | RxSet "char \<Rightarrow> bool"
  | RxSeq rx rx
  | RxAlt rx rx
  | RxRep nat "nat option" rx
  | RxGroup rx
  | RxBehind "char \<Rightarrow> bool"
  | RxNotBehind "char \<Rightarrow> bool"
  | RxNotAhead "char \<Rightarrow> bool"
  | RxWordB

text \<open>The greedy repetition of a body that consumes something: at least \<open>m\<close> times, at most \<open>n\<close> times.\<close>

function rx_rep :: "(rx_state \<Rightarrow> rx_state list) \<Rightarrow> nat \<Rightarrow> nat option \<Rightarrow> rx_state \<Rightarrow> rx_state list" where
  "rx_rep f m n st =
     (if n = Some 0 then [st]
      else concat (map (rx_rep f (m - 1) (map_option (\<lambda>k. k - 1) n))
             (filter (\<lambda>st'. length (fst (snd st')) < length (fst (snd st))) (f st))) @
           (if m = 0 then [st] else []))"
  by pat_completeness auto
termination by (relation "measure (\<lambda>(_, _, _, st). length (fst (snd st)))") auto

declare rx_rep.simps [simp del]

definition word_char :: "char \<Rightarrow> bool" where
  "word_char c \<longleftrightarrow> is_alpha c \<or> is_digit c \<or> c = CHR ''_''"

fun head_is :: "(char \<Rightarrow> bool) \<Rightarrow> string \<Rightarrow> bool" where
  "head_is p [] = False"
| "head_is p (c # cs) = p c"

primrec rx_ends :: "rx \<Rightarrow> rx_state \<Rightarrow> rx_state list" where
  "rx_ends RxEmpty = (\<lambda>st. [st])"
| "rx_ends (RxSet p) = (\<lambda>(b, s, g). case s of [] \<Rightarrow> [] | c # cs \<Rightarrow> if p c then [(c # b, cs, g)] else [])"
| "rx_ends (RxSeq r q) = (\<lambda>st. concat (map (rx_ends q) (rx_ends r st)))"
| "rx_ends (RxAlt r q) = (\<lambda>st. rx_ends r st @ rx_ends q st)"
| "rx_ends (RxRep m n r) = rx_rep (rx_ends r) m n"
| "rx_ends (RxGroup r) = (\<lambda>(b, s, g). map (\<lambda>(b', s', _). (b', s', Some (take (length s - length s') s))) (rx_ends r (b, s, g)))"
| "rx_ends (RxBehind p) = (\<lambda>(b, s, g). if head_is p b then [(b, s, g)] else [])"
| "rx_ends (RxNotBehind p) = (\<lambda>(b, s, g). if head_is p b then [] else [(b, s, g)])"
| "rx_ends (RxNotAhead p) = (\<lambda>(b, s, g). if head_is p s then [] else [(b, s, g)])"
| "rx_ends RxWordB = (\<lambda>(b, s, g). if head_is word_char b \<noteq> head_is word_char s then [(b, s, g)] else [])"

text \<open>Abbreviations of the pattern syntax; \<open>rx_ci\<close> is a literal under \<open>IGNORECASE\<close>.\<close>

definition rx_star :: "rx \<Rightarrow> rx" where "rx_star = RxRep 0 None"

definition rx_plus :: "rx \<Rightarrow> rx" where "rx_plus = RxRep 1 None"

definition rx_opt :: "rx \<Rightarrow> rx" where "rx_opt = RxRep 0 (Some 1)"

fun rx_seq :: "rx list \<Rightarrow> rx" where
  "rx_seq [] = RxEmpty"
| "rx_seq [r] = r"
| "rx_seq (r # rs) = RxSeq r (rx_seq rs)"

fun rx_alts :: "rx list \<Rightarrow> rx" where
  "rx_alts [] = RxSet (\<lambda>_. False)"
| "rx_alts [r] = r"
| "rx_alts (r # rs) = RxAlt r (rx_alts rs)"

definition rx_char :: "char \<Rightarrow> rx" where "rx_char c = RxSet (\<lambda>d. d = c)"

definition rx_ci :: "string \<Rightarrow> rx" where
  "rx_ci s = rx_seq (map (\<lambda>c. RxSet (\<lambda>d. char_lower d = c)) s)"

definition rx_space :: rx where "rx_space = RxSet is_space"

definition rx_digit :: rx where "rx_digit = RxSet is_digit"

section \<open>Scanning\<close>

text \<open>A match: where it starts, its text and its group.\<close>

type_synonym rx_match = "nat \<times> string \<times> string option"

definition match_at :: "rx \<Rightarrow> string \<Rightarrow> string \<Rightarrow> (rx_match \<times> string \<times> string) option" where
  "match_at r b s =
     (case rx_ends r (b, s, None) of
        [] \<Rightarrow> None
      | (b', s', g) # _ \<Rightarrow>
          if length s' < length s then Some ((length b, take (length s - length s') s, g), b', s') else None)"

lemma match_at_shorter: "match_at r b s = Some (m, b', s') \<Longrightarrow> length s' < length s"
  by (auto simp: match_at_def split: list.splits if_splits)

text \<open>\<open>finditer\<close>, for patterns that match no empty text: the matches from left to right, none overlapping.\<close>

function find_matches :: "rx \<Rightarrow> string \<Rightarrow> string \<Rightarrow> rx_match list" where
  "find_matches r b [] = []"
| "find_matches r b (c # cs) =
     (case match_at r b (c # cs) of
        Some (m, b', s') \<Rightarrow> m # find_matches r b' s'
      | None \<Rightarrow> find_matches r (c # b) cs)"
  by pat_completeness auto
termination
  by (relation "measure (\<lambda>(_, _, s). length s)") (auto dest: match_at_shorter)

definition finditer :: "rx \<Rightarrow> string \<Rightarrow> rx_match list" where
  "finditer r s = find_matches r [] s"

definition match_text :: "rx_match \<Rightarrow> string" where
  "match_text m = fst (snd m)"

definition match_start :: "rx_match \<Rightarrow> nat" where
  "match_start m = fst m"

definition match_end :: "rx_match \<Rightarrow> nat" where
  "match_end m = fst m + length (fst (snd m))"

definition search :: "rx \<Rightarrow> string \<Rightarrow> rx_match option" where
  "search r s = (case finditer r s of [] \<Rightarrow> None | m # _ \<Rightarrow> Some m)"

text \<open>The text between the matches, from a position on.\<close>

fun pieces :: "nat \<Rightarrow> rx_match list \<Rightarrow> string \<Rightarrow> string list" where
  "pieces i [] s = [drop i s]"
| "pieces i (m # ms) s = take (match_start m - i) (drop i s) # pieces (match_end m) ms s"

definition rx_split :: "rx \<Rightarrow> string \<Rightarrow> string list" where
  "rx_split r s = pieces 0 (finditer r s) s"

definition rx_sub :: "rx \<Rightarrow> string \<Rightarrow> string \<Rightarrow> string" where
  "rx_sub r by s = join by (rx_split r s)"

text \<open>\<open>split(..., maxsplit=1)\<close>.\<close>

definition rx_split_once :: "rx \<Rightarrow> string \<Rightarrow> string list" where
  "rx_split_once r s = pieces 0 (take 1 (finditer r s)) s"

section \<open>Matches are text\<close>

text \<open>A step of the matcher moves forward over the text.\<close>

definition moves :: "rx_state \<Rightarrow> rx_state \<Rightarrow> bool" where
  "moves st st' \<longleftrightarrow> rev (fst st) @ fst (snd st) = rev (fst st') @ fst (snd st') \<and> length (fst (snd st')) \<le> length (fst (snd st))"

lemma moves_refl: "moves st st"
  by (simp add: moves_def)

lemma moves_trans: "moves s t \<Longrightarrow> moves t u \<Longrightarrow> moves s u"
  by (simp add: moves_def)

lemma rx_rep_moves:
  "(\<And>st st'. st' \<in> set (f st) \<Longrightarrow> moves st st') \<Longrightarrow> st' \<in> set (rx_rep f m n st) \<Longrightarrow> moves st st'"
proof (induction f m n st arbitrary: st' rule: rx_rep.induct)
  case (1 f m n st)
  from 1(3) consider "st' = st" | st1 where "n \<noteq> Some 0" "st1 \<in> set (f st)" "length (fst (snd st1)) < length (fst (snd st))"
      "st' \<in> set (rx_rep f (m - 1) (map_option (\<lambda>k. k - 1) n) st1)"
    by (auto simp: rx_rep.simps [of f m n st] split: if_splits)
  then show ?case
  proof cases
    case (2 st1)
    then have "moves st1 st'" by (intro "1.IH" [OF _ _ "1.prems"(1)]) simp_all
    with "1.prems"(1) [OF 2(2)] show ?thesis by (rule moves_trans)
  qed (simp add: moves_refl)
qed

lemma rx_ends_moves: "st' \<in> set (rx_ends r st) \<Longrightarrow> moves st st'"
proof (induction r arbitrary: st st')
  case (RxSeq r q)
  then obtain st1 where "st1 \<in> set (rx_ends r st)" "st' \<in> set (rx_ends q st1)" by auto
  with RxSeq.IH show ?case by (blast intro: moves_trans)
next
  case (RxRep m n r)
  then show ?case using rx_rep_moves [of "rx_ends r" st' m n st] by auto
next
  case (RxGroup r)
  from RxGroup.prems obtain b s g b' s' h where "st = (b, s, g)" "(b', s', h) \<in> set (rx_ends r (b, s, g))"
    "fst st' = b'" "fst (snd st') = s'" by (cases st) auto
  with RxGroup.IH show ?case by (fastforce simp: moves_def)
qed (auto simp: moves_def split: list.splits if_splits prod.splits)

lemma match_at_text:
  assumes "match_at r b s = Some (m, b', s')"
  shows "s = match_text m @ s' \<and> match_start m = length b \<and> match_text m \<noteq> [] \<and> b' = rev (match_text m) @ b"
proof -
  from assms obtain g xs where e: "rx_ends r (b, s, None) = (b', s', g) # xs" "length s' < length s"
    "m = (length b, take (length s - length s') s, g)" by (auto simp: match_at_def split: list.splits if_splits)
  have "moves (b, s, None) (b', s', g)" by (rule rx_ends_moves [of _ r]) (simp add: e(1))
  then have m: "rev b @ s = rev b' @ s'" by (simp add: moves_def)
  from arg_cong [OF m, of length] e(2) have l: "length b' = length b + (length s - length s')" by simp
  from arg_cong [OF m, of "take (length b')"] l have rb: "rev b' = rev b @ take (length s - length s') s" by simp
  from arg_cong [OF rb, of rev] have "b' = rev (take (length s - length s') s) @ b" by simp
  moreover from arg_cong [OF m, of "drop (length b')"] l e(2) have "s' = drop (length s - length s') s" by simp
  moreover from this have "s = take (length s - length s') s @ s'" by (metis append_take_drop_id)
  moreover have "s \<noteq> []" using e(2) by auto
  ultimately show ?thesis using e by (simp add: match_text_def match_start_def)
qed

lemma find_matches_text:
  "m \<in> set (find_matches r b s) \<Longrightarrow>
   \<exists>u v. rev b @ s = u @ match_text m @ v \<and> match_start m = length u \<and> match_text m \<noteq> []"
proof (induction r b s rule: find_matches.induct)
  case (2 r b c cs)
  show ?case
  proof (cases "match_at r b (c # cs)")
    case None
    with 2 show ?thesis by auto
  next
    case (Some x)
    obtain m1 b' s' where x: "x = (m1, b', s')" by (cases x)
    note t = match_at_text [OF Some [unfolded x]]
    from 2(3) Some x consider "m = m1" | "m \<in> set (find_matches r b' s')" by auto
    then show ?thesis
    proof cases
      case 1
      with t show ?thesis by (intro exI [of _ "rev b"] exI [of _ s']) simp
    next
      case 2
      from "2.IH"(2) [OF Some x [symmetric] refl 2] t show ?thesis by simp
    qed
  qed
qed simp

lemma finditer_text: "m \<in> set (finditer r s) \<Longrightarrow> match_text m \<noteq> [] \<and> contains s (match_text m)"
  unfolding finditer_def contains_iff by (drule find_matches_text) auto

end
