(* ===== verification/ScopeCompiler.thy ===== *)
theory ScopeCompiler
  imports PyRegex Models "HOL-Library.Product_Lexorder"
begin

text \<open>
  \<open>src/astp/scope_compiler.py\<close>: from the prose of a programme page to an engagement. Every sentence is
  searched for targets and cues; what it says is added to the scope, the constraints, the extracted rules or
  the issues a reviewer must resolve. The patterns are those of the source, in the notation of \<open>PyRegex\<close>.
\<close>

section \<open>Data\<close>

datatype compilation_status = CLEAN | NEEDS_REVIEW

datatype issue_severity = WARNING | ERROR

record compiler_issue =
  ci_code :: string
  ci_severity :: issue_severity
  ci_message :: string
  ci_source_text :: string

record extracted_rule =
  xe_rule_type :: string
  xe_value :: string
  xe_source_text :: string

record scope_compilation =
  sc_status :: compilation_status
  sc_engagement :: engagement
  sc_extracted :: "extracted_rule list"
  sc_issues :: "compiler_issue list"

section \<open>Patterns\<close>

definition dashed_char :: "char \<Rightarrow> bool" where
  "dashed_char c \<longleftrightarrow> word_char c \<or> c = CHR ''.'' \<or> c = CHR ''-''"

definition alnum_char :: "char \<Rightarrow> bool" where
  "alnum_char c \<longleftrightarrow> is_alpha c \<or> is_digit c"

text \<open>\<open>(?:[a-zA-Z0-9](?:[a-zA-Z0-9-]{0,61}[a-zA-Z0-9])?\.)\<close>.\<close>

definition LABEL_RX :: rx where
  "LABEL_RX = rx_seq
     [RxSet alnum_char,
      rx_opt (rx_seq [RxRep 0 (Some 61) (RxSet (\<lambda>c. alnum_char c \<or> c = CHR ''-'')), RxSet alnum_char]),
      rx_char (CHR ''.'')]"

definition DOMAIN_RX :: rx where
  "DOMAIN_RX = rx_seq
     [RxNotBehind dashed_char, rx_opt (rx_seq [rx_char (CHR ''*''), rx_char (CHR ''.'')]), rx_plus LABEL_RX,
      RxRep 2 (Some 63) (RxSet is_alpha), RxNotAhead dashed_char]"

definition URL_RX :: rx where
  "URL_RX = rx_seq
     [rx_ci ''http'', rx_opt (rx_ci ''s''), rx_ci ''://'',
      rx_plus (RxSet (\<lambda>c. \<not> is_space c \<and> c \<notin> set '',;()<>''))]"

definition CIDR_RX :: rx where
  "CIDR_RX = rx_seq
     [RxNotBehind is_digit, RxRep 3 (Some 3) (RxSeq (RxRep 1 (Some 3) rx_digit) (rx_char (CHR ''.''))),
      RxRep 1 (Some 3) rx_digit, rx_char (CHR ''/''), RxRep 1 (Some 2) rx_digit, RxNotAhead is_digit]"

definition RATE_RX :: rx where
  "RATE_RX = rx_seq
     [rx_opt (rx_alts
        [rx_seq [rx_ci ''not'', rx_plus rx_space, rx_ci ''exceed''],
         rx_seq [rx_ci ''no'', rx_plus rx_space, rx_ci ''more'', rx_plus rx_space, rx_ci ''than''],
         rx_seq [rx_ci ''maximum'', rx_opt (rx_seq [rx_plus rx_space, rx_ci ''of''])],
         rx_seq [rx_ci ''max'', rx_opt (rx_ci ''imum''), rx_plus (RxSet (\<lambda>c. c = CHR '':'' \<or> is_space c))]]),
      rx_star rx_space,
      RxGroup (rx_seq [rx_plus rx_digit, rx_opt (rx_seq [rx_char (CHR ''.''), rx_plus rx_digit])]),
      rx_star rx_space,
      rx_alts [rx_seq [rx_ci ''request'', rx_opt (rx_ci ''s'')],
               rx_seq [rx_ci ''req'', rx_opt (rx_seq [rx_ci ''uest'', rx_opt (rx_ci ''s'')])]],
      rx_star rx_space, rx_alts [rx_ci ''per'', rx_char (CHR ''/'')], rx_star rx_space,
      rx_alts [rx_ci ''second'', rx_ci ''sec'', rx_ci ''s''], RxWordB]"

definition NEWLINE_RX :: rx where
  "NEWLINE_RX = RxSeq (rx_char (CHR 0x0D)) (rx_opt (rx_char (CHR 0x0A)))"

definition SENTENCE_RX :: rx where
  "SENTENCE_RX = RxAlt (RxSeq (RxBehind (\<lambda>c. c \<in> set ''.!?'')) (rx_plus rx_space)) (rx_plus (rx_char (CHR 0x0A)))"

definition EXCEPT_RX :: rx where
  "EXCEPT_RX = rx_seq [RxWordB, rx_ci ''except'', RxWordB]"

definition ALLOW_CUES :: "string list" where
  "ALLOW_CUES = [''in scope'', ''included in scope'', ''may be tested'', ''testing is allowed'', ''testing allowed'']"

definition DENY_CUES :: "string list" where
  "DENY_CUES = [''out of scope'', ''excluded from scope'', ''must not be tested'', ''do not test'', ''testing is prohibited'',
     ''testing prohibited'']"

definition AMBIGUITY_CUES :: "string list" where
  "AMBIGUITY_CUES = [''maybe'', ''possibly'', ''generally'', ''normally'', ''unless'', ''case by case'', ''contact us'',
     ''contact before'', ''ask before'', ''prior approval'', ''prior authorization'', ''with permission'']"

definition APPROVAL_CUES :: "string list" where
  "APPROVAL_CUES = [''prior approval'', ''prior authorization'', ''with permission'']"

text \<open>\<open>any(cue in lowered for cue in cues)\<close>.\<close>

definition cued :: "string list \<Rightarrow> string \<Rightarrow> bool" where
  "cued cues lowered \<longleftrightarrow> (\<exists>cue \<in> set cues. contains lowered cue)"

section \<open>Sentences and targets\<close>

definition sentences :: "string \<Rightarrow> string list" where
  "sentences s = filter (\<lambda>p. p \<noteq> []) (map strip (rx_split SENTENCE_RX (rx_sub NEWLINE_RX [CHR 0x0A] s)))"

definition dotless :: "string \<Rightarrow> string" where
  "dotless s = rstrip_of (\<lambda>c. c = CHR ''.'') s"

definition extract_targets :: "string \<Rightarrow> (scope_kind \<times> string) list" where
  "extract_targets sentence =
     (let s = rstrip_of (\<lambda>c. c \<in> set ''.,;:!?'') (strip sentence);
          urls = finditer URL_RX s;
          cidrs = finditer CIDR_RX s;
          occupied = map (\<lambda>m. (match_start m, match_end m)) (urls @ cidrs);
          domains = filter (\<lambda>m. \<not> (\<exists>(lo, hi) \<in> set occupied. lo \<le> match_start m \<and> match_start m < hi)) (finditer DOMAIN_RX s)
      in map (\<lambda>m. (URL_PREFIX, dotless (match_text m))) urls @ map (\<lambda>m. (CIDR, match_text m)) cidrs @
         map (\<lambda>m. let value = dotless (match_text m)
                  in (if startswith value ''*.'' then WILDCARD_DOMAIN else DOMAIN, value)) domains)"

section \<open>One sentence\<close>

record compile_state =
  cs_allowed :: "scope_rule list"
  cs_denied :: "scope_rule list"
  cs_approval :: "scope_rule list"
  cs_extracted :: "extracted_rule list"
  cs_issues :: "compiler_issue list"
  cs_constraints :: constraints
  cs_methods :: method_policy

definition append_unique :: "scope_rule \<Rightarrow> scope_rule list \<Rightarrow> scope_rule list" where
  "append_unique r rules =
     (if \<exists>x \<in> set rules. rule_kind x = rule_kind r \<and> str_lower (rule_value x) = str_lower (rule_value r) then rules else rules @ [r])"

definition add_issue :: "string \<Rightarrow> string \<Rightarrow> string \<Rightarrow> issue_severity \<Rightarrow> compile_state \<Rightarrow> compile_state" where
  "add_issue code message source_text severity st =
     st\<lparr>cs_issues := cs_issues st @ [\<lparr>ci_code = code, ci_severity = severity, ci_message = message, ci_source_text = source_text\<rparr>]\<rparr>"

definition add_extracted :: "string \<Rightarrow> string \<Rightarrow> string \<Rightarrow> compile_state \<Rightarrow> compile_state" where
  "add_extracted rule_type value source_text st =
     st\<lparr>cs_extracted := cs_extracted st @ [\<lparr>xe_rule_type = rule_type, xe_value = value, xe_source_text = source_text\<rparr>]\<rparr>"

text \<open>The three loops that add the targets to a list of rules: \<open>ScopeRule\<close> rejects a blank value.\<close>

datatype rule_list = TO_ALLOWED | TO_DENIED | TO_APPROVAL

fun rule_list_name :: "rule_list \<Rightarrow> string" where
  "rule_list_name TO_ALLOWED = ''scope.allow''"
| "rule_list_name TO_DENIED = ''scope.deny''"
| "rule_list_name TO_APPROVAL = ''scope.approval_required''"

fun put_rule :: "rule_list \<Rightarrow> scope_rule \<Rightarrow> compile_state \<Rightarrow> compile_state" where
  "put_rule TO_ALLOWED r st = st\<lparr>cs_allowed := append_unique r (cs_allowed st)\<rparr>"
| "put_rule TO_DENIED r st = st\<lparr>cs_denied := append_unique r (cs_denied st)\<rparr>"
| "put_rule TO_APPROVAL r st = st\<lparr>cs_approval := append_unique r (cs_approval st)\<rparr>"

fun add_rules :: "rule_list \<Rightarrow> string \<Rightarrow> (scope_kind \<times> string) list \<Rightarrow> compile_state \<Rightarrow> compile_state result" where
  "add_rules l sentence [] st = Inr st"
| "add_rules l sentence ((k, v) # ts) st =
     rbind (mk_scope_rule k v) (\<lambda>r.
       add_rules l sentence ts (add_extracted (rule_list_name l) v sentence (put_rule l r st)))"

definition compile_scope_sentence :: "string \<Rightarrow> compile_state \<Rightarrow> compile_state result" where
  "compile_scope_sentence sentence st =
     (let lowered = str_lower sentence; targets = extract_targets sentence in
      if targets = [] then Inr st
      else if cued APPROVAL_CUES lowered \<and> cued ALLOW_CUES lowered then add_rules TO_APPROVAL sentence targets st
      else if cued AMBIGUITY_CUES lowered then
        Inr (add_issue ''ambiguous_scope_language''
          ''Potential scope rule contains conditional or ambiguous language; no permission was inferred.'' sentence WARNING st)
      else if contains lowered '' except '' \<and> cued ALLOW_CUES lowered then
        (case rx_split_once EXCEPT_RX sentence of
           [front, rest] \<Rightarrow>
             rbind (add_rules TO_ALLOWED sentence (extract_targets front) st) (add_rules TO_DENIED sentence (extract_targets rest))
         | _ \<Rightarrow> value_error ''not enough values to unpack (expected 2, got 1)'')
      else if cued DENY_CUES lowered then add_rules TO_DENIED sentence targets st
      else if cued ALLOW_CUES lowered then add_rules TO_ALLOWED sentence targets st
      else Inr (add_issue ''unclassified_target''
          ''A target-like value was found without an explicit allow/deny scope statement.'' sentence WARNING st))"

section \<open>Constraints of a sentence\<close>

text \<open>\<open>float\<close> of the group: digits, and a fraction after the point.\<close>

definition rate_value :: "string \<Rightarrow> rat" where
  "rate_value g =
     (case partition_at (CHR ''.'') g of (whole, _, fraction) \<Rightarrow>
        of_nat (digits_value whole) + of_nat (digits_value fraction) / 10 ^ length fraction)"

definition compile_rate :: "string \<Rightarrow> compile_state \<Rightarrow> compile_state" where
  "compile_rate sentence st =
     (case search RATE_RX sentence of
        None \<Rightarrow> st
      | Some (_, _, g) \<Rightarrow>
          let rate = rate_value (or_else g []) in
          if rate \<le> 0 \<or> 1000 < rate then
            add_issue ''invalid_rate_limit'' ''The extracted request rate is outside ASTP's accepted range.'' sentence ERROR st
          else
            add_extracted ''constraint.max_requests_per_second'' (float_repr rate) sentence
              (st\<lparr>cs_constraints := (cs_constraints st)\<lparr>con_max_rps := rate\<rparr>\<rparr>))"

definition PROHIBITION_WORDS :: "string list" where
  "PROHIBITION_WORDS = [''prohibited'', ''forbidden'', ''not allowed'', ''do not'']"

definition PRODUCTION_DATA_TERMS :: "string list" where
  "PRODUCTION_DATA_TERMS = [''production data'', ''customer data'', ''user data'', ''data destruction'', ''delete data'']"

definition compile_prohibitions :: "string \<Rightarrow> compile_state \<Rightarrow> compile_state" where
  "compile_prohibitions sentence st =
     (let lowered = str_lower sentence;
          st1 = (if (contains lowered ''dos'' \<or> contains lowered ''denial of service'') \<and> cued PROHIBITION_WORDS lowered
                 then add_extracted ''constraint.no_dos'' ''true'' sentence
                        (st\<lparr>cs_constraints := (cs_constraints st)\<lparr>con_no_dos := True\<rparr>,
                            cs_methods := (cs_methods st)\<lparr>mp_intrusive := DENY\<rparr>\<rparr>)
                 else st);
          st2 = (if contains lowered ''social engineering'' \<and> cued PROHIBITION_WORDS lowered
                 then add_extracted ''constraint.no_social_engineering'' ''true'' sentence
                        (st1\<lparr>cs_constraints := (cs_constraints st1)\<lparr>con_no_social_engineering := True\<rparr>\<rparr>)
                 else st1)
      in if cued PRODUCTION_DATA_TERMS lowered \<and> cued PROHIBITION_WORDS lowered
         then add_extracted ''constraint.no_data_destruction'' ''true'' sentence
                (st2\<lparr>cs_constraints := (cs_constraints st2)\<lparr>con_no_data_destruction := True\<rparr>\<rparr>)
         else st2)"

definition compile_sentence :: "string \<Rightarrow> compile_state \<Rightarrow> compile_state result" where
  "compile_sentence sentence st =
     rbind (compile_scope_sentence sentence st) (\<lambda>st. Inr (compile_prohibitions sentence (compile_rate sentence st)))"

fun compile_sentences :: "string list \<Rightarrow> compile_state \<Rightarrow> compile_state result" where
  "compile_sentences [] st = Inr st"
| "compile_sentences (s # ss) st = rbind (compile_sentence s st) (compile_sentences ss)"

section \<open>The whole text\<close>

definition start_compilation :: compile_state where
  "start_compilation =
     \<lparr>cs_allowed = [], cs_denied = [], cs_approval = [], cs_extracted = [], cs_issues = [],
      cs_constraints = default_constraints, cs_methods = default_methods\<rparr>"

definition rule_key :: "scope_rule \<Rightarrow> scope_kind \<times> string" where
  "rule_key r = (rule_kind r, str_lower (rule_value r))"

definition conflict_key :: "scope_kind \<times> string \<Rightarrow> string \<times> string" where
  "conflict_key = (\<lambda>(k, v). (scope_kind_value k, v))"

definition conflicts :: "compile_state \<Rightarrow> (scope_kind \<times> string) list" where
  "conflicts st =
     sort_key conflict_key (filter (\<lambda>k. k \<in> set (map rule_key (cs_denied st))) (remdups (map rule_key (cs_allowed st))))"

definition add_conflict :: "scope_kind \<times> string \<Rightarrow> compile_state \<Rightarrow> compile_state" where
  "add_conflict = (\<lambda>(k, v).
     add_issue ''conflicting_scope_rule''
       (''The same '' @ scope_kind_value k @ '' is both allowed and denied: '' @ v @ ''. Deny will take precedence.'') v ERROR)"

definition compile_scope_text :: "string \<Rightarrow> string \<Rightarrow> string \<Rightarrow> scope_compilation result" where
  "compile_scope_text prose engagement_id engagement_name =
     rbind (compile_sentences (sentences prose) start_compilation) (\<lambda>st.
       let st1 = (if cs_allowed st = [] \<and> cs_approval st = []
                  then add_issue ''no_explicit_allowed_scope''
                         ''No explicit in-scope asset was extracted. ASTP will not infer authorization.'' [] ERROR st
                  else st);
           st2 = fold add_conflict (conflicts st1) st1
       in Inr \<lparr>sc_status = (if cs_issues st2 \<noteq> [] then NEEDS_REVIEW else CLEAN),
               sc_engagement = \<lparr>eng_id = engagement_id, eng_name = engagement_name,
                 eng_scope = \<lparr>allowed = cs_allowed st2, denied = cs_denied st2, approval_required = cs_approval st2\<rparr>,
                 eng_methods = cs_methods st2, eng_constraints = cs_constraints st2, eng_program = None\<rparr>,
               sc_extracted = cs_extracted st2, sc_issues = cs_issues st2\<rparr>)"

section \<open>What a sentence adds\<close>

fun rules_in :: "rule_list \<Rightarrow> compile_state \<Rightarrow> scope_rule list" where
  "rules_in TO_ALLOWED st = cs_allowed st"
| "rules_in TO_DENIED st = cs_denied st"
| "rules_in TO_APPROVAL st = cs_approval st"

definition rules_of :: "(scope_kind \<times> string) list \<Rightarrow> scope_rule list" where
  "rules_of ts = map (\<lambda>(k, v). \<lparr>rule_kind = k, rule_value = strip v\<rparr>) ts"

lemma append_unique_keys: "rule_key ` set (append_unique r rs) = insert (rule_key r) (rule_key ` set rs)"
proof (cases "\<exists>x \<in> set rs. rule_kind x = rule_kind r \<and> str_lower (rule_value x) = str_lower (rule_value r)")
  case True
  then obtain x where "x \<in> set rs" "rule_key r = rule_key x" by (auto simp: rule_key_def)
  then have "rule_key r \<in> rule_key ` set rs" by simp
  with True show ?thesis by (simp add: append_unique_def insert_absorb)
next
  case False
  then have "append_unique r rs = rs @ [r]" by (auto simp: append_unique_def)
  then show ?thesis by simp
qed

lemma append_unique_set: "set (append_unique r rs) \<subseteq> insert r (set rs)"
  by (auto simp: append_unique_def)

lemma fold_append_unique:
  "rule_key ` set (fold append_unique rs acc) = rule_key ` set acc \<union> rule_key ` set rs \<and>
   set (fold append_unique rs acc) \<subseteq> set acc \<union> set rs"
proof (induction rs arbitrary: acc)
  case (Cons r rs)
  from Cons.IH [of "append_unique r acc"] append_unique_set [of r acc] append_unique_keys [of r acc] show ?case by auto
qed simp

lemma rules_in_put: "rules_in l' (put_rule l r st) = (if l' = l then append_unique r (rules_in l st) else rules_in l' st)"
  by (cases l; cases l') auto

lemma rules_in_extracted [simp]: "rules_in l (add_extracted t v s st) = rules_in l st"
  by (cases l) (simp_all add: add_extracted_def)

lemma rules_in_issue [simp]: "rules_in l (add_issue code m s sev st) = rules_in l st"
  by (cases l) (simp_all add: add_issue_def)

lemma add_extracted_parts [simp]:
  "cs_issues (add_extracted t v s st) = cs_issues st" "cs_constraints (add_extracted t v s st) = cs_constraints st"
  "cs_methods (add_extracted t v s st) = cs_methods st"
  by (simp_all add: add_extracted_def)

lemma add_issue_rules [simp]:
  "cs_allowed (add_issue c m s sev st) = cs_allowed st" "cs_denied (add_issue c m s sev st) = cs_denied st"
  "cs_approval (add_issue c m s sev st) = cs_approval st"
  by (simp_all add: add_issue_def)

lemma add_issue_parts [simp]:
  "cs_issues (add_issue c m s sev st) \<noteq> []" "cs_constraints (add_issue c m s sev st) = cs_constraints st"
  "cs_methods (add_issue c m s sev st) = cs_methods st"
  by (simp_all add: add_issue_def)

lemma put_rule_parts [simp]:
  "cs_issues (put_rule l r st) = cs_issues st" "cs_constraints (put_rule l r st) = cs_constraints st"
  "cs_methods (put_rule l r st) = cs_methods st"
  by (cases l; simp)+

lemma add_rules_Inr:
  "add_rules l s ts st = Inr st' \<Longrightarrow>
   rules_in l' st' = (if l' = l then fold append_unique (rules_of ts) (rules_in l st) else rules_in l' st) \<and>
   cs_issues st' = cs_issues st \<and> cs_constraints st' = cs_constraints st \<and> cs_methods st' = cs_methods st"
proof (induction l s ts st rule: add_rules.induct)
  case (2 l s k v ts st)
  then obtain r where r: "mk_scope_rule k v = Inr r"
    "add_rules l s ts (add_extracted (rule_list_name l) v s (put_rule l r st)) = Inr st'"
    by (auto simp: result_simps)
  have "r = \<lparr>rule_kind = k, rule_value = strip v\<rparr>" using r(1) by (auto simp: mk_scope_rule_def Let_def result_simps)
  with "2.IH" [OF r] show ?case by (auto simp: rules_of_def rules_in_put)
qed (simp add: rules_of_def)

text \<open>The targets a sentence sends to a list of rules, and whether it raises an issue.\<close>

definition scope_effect :: "string \<Rightarrow> rule_list \<Rightarrow> (scope_kind \<times> string) list" where
  "scope_effect s l =
     (let low = str_lower s; ts = extract_targets s in
      if ts = [] then []
      else if cued APPROVAL_CUES low \<and> cued ALLOW_CUES low then (if l = TO_APPROVAL then ts else [])
      else if cued AMBIGUITY_CUES low then []
      else if contains low '' except '' \<and> cued ALLOW_CUES low then
        (case rx_split_once EXCEPT_RX s of
           [front, rest] \<Rightarrow> (case l of TO_ALLOWED \<Rightarrow> extract_targets front | TO_DENIED \<Rightarrow> extract_targets rest | TO_APPROVAL \<Rightarrow> [])
         | _ \<Rightarrow> [])
      else if cued DENY_CUES low then (if l = TO_DENIED then ts else [])
      else if cued ALLOW_CUES low then (if l = TO_ALLOWED then ts else [])
      else [])"

definition scope_unclear :: "string \<Rightarrow> bool" where
  "scope_unclear s \<longleftrightarrow>
     (let low = str_lower s in
      extract_targets s \<noteq> [] \<and> \<not> (cued APPROVAL_CUES low \<and> cued ALLOW_CUES low) \<and>
      (cued AMBIGUITY_CUES low \<or> \<not> cued DENY_CUES low \<and> \<not> cued ALLOW_CUES low))"

lemma compile_scope_sentence_Inr:
  assumes "compile_scope_sentence s st = Inr st'"
  shows "rules_in l st' = fold append_unique (rules_of (scope_effect s l)) (rules_in l st) \<and>
    (cs_issues st' = [] \<longleftrightarrow> cs_issues st = [] \<and> \<not> scope_unclear s) \<and>
    cs_constraints st' = cs_constraints st \<and> cs_methods st' = cs_methods st"
proof -
  let ?low = "str_lower s" and ?ts = "extract_targets s"
  have none: "rules_of [] = []" by (simp add: rules_of_def)
  consider "?ts = []" | "?ts \<noteq> []" "cued APPROVAL_CUES ?low \<and> cued ALLOW_CUES ?low"
    | "?ts \<noteq> []" "\<not> (cued APPROVAL_CUES ?low \<and> cued ALLOW_CUES ?low)" "cued AMBIGUITY_CUES ?low"
    | "?ts \<noteq> []" "\<not> (cued APPROVAL_CUES ?low \<and> cued ALLOW_CUES ?low)" "\<not> cued AMBIGUITY_CUES ?low"
      "contains ?low '' except '' \<and> cued ALLOW_CUES ?low"
    | "?ts \<noteq> []" "\<not> (cued APPROVAL_CUES ?low \<and> cued ALLOW_CUES ?low)" "\<not> cued AMBIGUITY_CUES ?low"
      "\<not> (contains ?low '' except '' \<and> cued ALLOW_CUES ?low)" by blast
  then show ?thesis
  proof cases
    case 4
    then obtain front rest st1 where sp: "rx_split_once EXCEPT_RX s = [front, rest]"
      "add_rules TO_ALLOWED s (extract_targets front) st = Inr st1" "add_rules TO_DENIED s (extract_targets rest) st1 = Inr st'"
      using assms by (auto simp: compile_scope_sentence_def Let_def result_simps split: list.splits)
    from add_rules_Inr [OF sp(2), of l] add_rules_Inr [OF sp(3), of l] 4 sp(1) show ?thesis
      by (cases l) (auto simp: scope_effect_def scope_unclear_def Let_def none)
  next
    case 5
    then show ?thesis
      using assms add_rules_Inr [of TO_DENIED s ?ts st st' l] add_rules_Inr [of TO_ALLOWED s ?ts st st' l]
      by (auto simp: compile_scope_sentence_def scope_effect_def scope_unclear_def Let_def none split: if_splits)
  next
    case 2
    then show ?thesis
      using assms add_rules_Inr [of TO_APPROVAL s ?ts st st' l]
      by (auto simp: compile_scope_sentence_def scope_effect_def scope_unclear_def Let_def none split: if_splits)
  qed (use assms in \<open>auto simp: compile_scope_sentence_def scope_effect_def scope_unclear_def Let_def none\<close>)
qed

text \<open>What the rates and prohibitions of a sentence leave alone, and the limits they keep.\<close>

definition limits_kept :: "compile_state \<Rightarrow> bool" where
  "limits_kept st \<longleftrightarrow> cs_methods st = default_methods \<and>
     (\<exists>rate. 0 < rate \<and> rate \<le> 1000 \<and> cs_constraints st = default_constraints\<lparr>con_max_rps := rate\<rparr>)"

lemma compile_rate_parts:
  "rules_in l (compile_rate s st) = rules_in l st \<and> (cs_issues st \<noteq> [] \<longrightarrow> cs_issues (compile_rate s st) \<noteq> []) \<and>
   (limits_kept st \<longrightarrow> limits_kept (compile_rate s st))"
proof -
  have r: "rules_in l (st\<lparr>cs_constraints := c\<rparr>) = rules_in l st" for c by (cases l) simp_all
  show ?thesis
    by (auto simp: compile_rate_def Let_def r limits_kept_def not_le not_less split: option.splits prod.splits)
qed

lemma compile_prohibitions_parts:
  "rules_in l (compile_prohibitions s st) = rules_in l st \<and> cs_issues (compile_prohibitions s st) = cs_issues st \<and>
   (limits_kept st \<longrightarrow> limits_kept (compile_prohibitions s st))"
proof -
  have r: "rules_in l (st\<lparr>cs_constraints := c\<rparr>) = rules_in l st" "rules_in l (st\<lparr>cs_constraints := c, cs_methods := m\<rparr>) = rules_in l st"
    for c m st by (cases l; simp)+
  have d: "default_constraints\<lparr>con_max_rps := q, con_no_dos := True\<rparr> = default_constraints\<lparr>con_max_rps := q\<rparr>"
    "default_constraints\<lparr>con_max_rps := q, con_no_social_engineering := True\<rparr> = default_constraints\<lparr>con_max_rps := q\<rparr>"
    "default_constraints\<lparr>con_max_rps := q, con_no_data_destruction := True\<rparr> = default_constraints\<lparr>con_max_rps := q\<rparr>"
    "default_methods\<lparr>mp_intrusive := DENY\<rparr> = default_methods" for q
    by (simp_all add: default_constraints_def default_methods_def)
  show ?thesis
    unfolding compile_prohibitions_def Let_def by (auto simp: r limits_kept_def d)
qed

lemma compile_sentence_Inr:
  assumes "compile_sentence s st = Inr st'"
  shows "rules_in l st' = fold append_unique (rules_of (scope_effect s l)) (rules_in l st) \<and>
    (cs_issues st' = [] \<longrightarrow> cs_issues st = [] \<and> \<not> scope_unclear s) \<and> (limits_kept st \<longrightarrow> limits_kept st')"
proof -
  obtain st1 where st1: "compile_scope_sentence s st = Inr st1" "st' = compile_prohibitions s (compile_rate s st1)"
    using assms by (auto simp: compile_sentence_def result_simps)
  have "limits_kept st \<longrightarrow> limits_kept st1" using compile_scope_sentence_Inr [OF st1(1), of l] by (simp add: limits_kept_def)
  with compile_scope_sentence_Inr [OF st1(1), of l] compile_rate_parts [of l s st1]
    compile_prohibitions_parts [of l s "compile_rate s st1"] st1(2)
  show ?thesis by auto
qed

lemma compile_sentences_Inr:
  "compile_sentences ss st = Inr st' \<Longrightarrow>
   rules_in l st' = fold append_unique (rules_of (concat (map (\<lambda>s. scope_effect s l) ss))) (rules_in l st) \<and>
   (cs_issues st' = [] \<longrightarrow> cs_issues st = [] \<and> (\<forall>s \<in> set ss. \<not> scope_unclear s)) \<and> (limits_kept st \<longrightarrow> limits_kept st')"
proof (induction ss arbitrary: st)
  case (Cons s ss)
  then obtain st1 where st1: "compile_sentence s st = Inr st1" "compile_sentences ss st1 = Inr st'" by (auto simp: result_simps)
  have "rules_of (xs @ ys) = rules_of xs @ rules_of ys" for xs ys by (simp add: rules_of_def)
  with compile_sentence_Inr [OF st1(1), of l] Cons.IH [OF st1(2)] show ?case by auto
qed (simp add: rules_of_def)

section \<open>What a compilation says\<close>

lemma fold_conflicts:
  "rules_in l (fold add_conflict cs st) = rules_in l st \<and> cs_constraints (fold add_conflict cs st) = cs_constraints st \<and>
   cs_methods (fold add_conflict cs st) = cs_methods st \<and>
   (cs_issues (fold add_conflict cs st) = [] \<longrightarrow> cs_issues st = [] \<and> cs = [])"
proof (induction cs arbitrary: st)
  case (Cons c cs)
  obtain k v where "c = (k, v)" by (cases c)
  with Cons.IH [of "add_conflict c st"] show ?case by (auto simp: add_conflict_def)
qed simp

lemma compile_scope_text_Inr:
  assumes "compile_scope_text prose i n = Inr r"
  shows "allowed (eng_scope (sc_engagement r)) = fold append_unique (rules_of (concat (map (\<lambda>s. scope_effect s TO_ALLOWED) (sentences prose)))) []"
    "denied (eng_scope (sc_engagement r)) = fold append_unique (rules_of (concat (map (\<lambda>s. scope_effect s TO_DENIED) (sentences prose)))) []"
    "approval_required (eng_scope (sc_engagement r)) =
       fold append_unique (rules_of (concat (map (\<lambda>s. scope_effect s TO_APPROVAL) (sentences prose)))) []"
    "eng_methods (sc_engagement r) = default_methods"
    "\<exists>rate. 0 < rate \<and> rate \<le> 1000 \<and> eng_constraints (sc_engagement r) = default_constraints\<lparr>con_max_rps := rate\<rparr>"
    "sc_status r = CLEAN \<Longrightarrow> (\<forall>s \<in> set (sentences prose). \<not> scope_unclear s) \<and>
       (allowed (eng_scope (sc_engagement r)) \<noteq> [] \<or> approval_required (eng_scope (sc_engagement r)) \<noteq> []) \<and>
       rule_key ` set (allowed (eng_scope (sc_engagement r))) \<inter> rule_key ` set (denied (eng_scope (sc_engagement r))) = {}"
proof -
  obtain st where st: "compile_sentences (sentences prose) start_compilation = Inr st"
    using assms by (auto simp: compile_scope_text_def result_simps)
  let ?st1 = "if cs_allowed st = [] \<and> cs_approval st = [] then add_issue ''no_explicit_allowed_scope''
      ''No explicit in-scope asset was extracted. ASTP will not infer authorization.'' [] ERROR st else st"
  let ?st2 = "fold add_conflict (conflicts ?st1) ?st1"
  have r: "eng_scope (sc_engagement r) = \<lparr>allowed = cs_allowed ?st2, denied = cs_denied ?st2, approval_required = cs_approval ?st2\<rparr>"
    "eng_methods (sc_engagement r) = cs_methods ?st2" "eng_constraints (sc_engagement r) = cs_constraints ?st2"
    "sc_status r = (if cs_issues ?st2 \<noteq> [] then NEEDS_REVIEW else CLEAN)"
    using assms st unfolding compile_scope_text_def Let_def by (auto simp: result_simps)
  have st2: "rules_in l ?st2 = rules_in l st" "cs_constraints ?st2 = cs_constraints st" "cs_methods ?st2 = cs_methods st"
    "cs_issues ?st2 = [] \<Longrightarrow> cs_issues ?st1 = [] \<and> conflicts ?st1 = []" for l
    using fold_conflicts [of l "conflicts ?st1" ?st1] by auto
  note c = compile_sentences_Inr [OF st]
  have start: "rules_in l start_compilation = []" "limits_kept start_compilation" "cs_issues start_compilation = []" for l
  proof -
    show "rules_in l start_compilation = []" by (cases l) (simp_all add: start_compilation_def)
    have "default_constraints = default_constraints\<lparr>con_max_rps := 2\<rparr>" by (simp add: default_constraints_def)
    then show "limits_kept start_compilation" by (auto simp: limits_kept_def start_compilation_def intro!: exI [of _ 2])
  qed (simp add: start_compilation_def)
  show "allowed (eng_scope (sc_engagement r)) = fold append_unique (rules_of (concat (map (\<lambda>s. scope_effect s TO_ALLOWED) (sentences prose)))) []"
    using r(1) st2(1) [of TO_ALLOWED] c [of TO_ALLOWED] start(1) [of TO_ALLOWED] by simp
  show "denied (eng_scope (sc_engagement r)) = fold append_unique (rules_of (concat (map (\<lambda>s. scope_effect s TO_DENIED) (sentences prose)))) []"
    using r(1) st2(1) [of TO_DENIED] c [of TO_DENIED] start(1) [of TO_DENIED] by simp
  show "approval_required (eng_scope (sc_engagement r)) =
       fold append_unique (rules_of (concat (map (\<lambda>s. scope_effect s TO_APPROVAL) (sentences prose)))) []"
    using r(1) st2(1) [of TO_APPROVAL] c [of TO_APPROVAL] start(1) [of TO_APPROVAL] by simp
  show "eng_methods (sc_engagement r) = default_methods"
    "\<exists>rate. 0 < rate \<and> rate \<le> 1000 \<and> eng_constraints (sc_engagement r) = default_constraints\<lparr>con_max_rps := rate\<rparr>"
    using r(2,3) st2(2,3) c start(2) by (auto simp: limits_kept_def)
  show "(\<forall>s \<in> set (sentences prose). \<not> scope_unclear s) \<and>
       (allowed (eng_scope (sc_engagement r)) \<noteq> [] \<or> approval_required (eng_scope (sc_engagement r)) \<noteq> []) \<and>
       rule_key ` set (allowed (eng_scope (sc_engagement r))) \<inter> rule_key ` set (denied (eng_scope (sc_engagement r))) = {}"
    if "sc_status r = CLEAN"
  proof -
    from that r(4) st2(4) have i: "cs_issues ?st1 = []" "conflicts ?st1 = []" by (auto split: if_splits)
    then have st1: "\<not> (cs_allowed st = [] \<and> cs_approval st = [])" "cs_issues st = []" "conflicts st = []" by (auto split: if_splits)
    have "filter (\<lambda>k. k \<in> set (map rule_key (cs_denied st))) (remdups (map rule_key (cs_allowed st))) = []"
      using st1(3) by (metis conflicts_def length_0_conv length_sort)
    then have "\<forall>x \<in> set (cs_allowed st). rule_key x \<notin> rule_key ` set (cs_denied st)" by (auto simp: filter_empty_conv)
    then have "rule_key ` set (cs_allowed st) \<inter> rule_key ` set (cs_denied st) = {}" by blast
    moreover have "allowed (eng_scope (sc_engagement r)) = cs_allowed st" "denied (eng_scope (sc_engagement r)) = cs_denied st"
      "approval_required (eng_scope (sc_engagement r)) = cs_approval st"
      using r(1) st2(1) [of TO_ALLOWED] st2(1) [of TO_DENIED] st2(1) [of TO_APPROVAL] by simp_all
    moreover have "\<forall>s \<in> set (sentences prose). \<not> scope_unclear s" using c st1(2) by blast
    ultimately show ?thesis using st1(1) by simp
  qed
qed

end
