(* ===== verification/ScopeProperties.thy ===== *)
theory ScopeProperties
  imports ScopeCompiler Examples
begin

text \<open>
  Properties of the scope compiler: where its permissions come from, what a clean compilation guarantees, which
  limits no prose can lift, and the prose it misreads.
\<close>

section \<open>Targets are text\<close>

lemma contains_trans: "contains a b \<Longrightarrow> contains b c \<Longrightarrow> contains a c"
  unfolding contains_iff by (metis append.assoc)

lemma dropWhile_contained: "contains s (dropWhile p s)"
  unfolding contains_iff by (metis append.right_neutral takeWhile_dropWhile_id)

lemma rstrip_contained: "contains s (rstrip_of p s)"
proof -
  have "s = rev (dropWhile p (rev s)) @ rev (takeWhile p (rev s))"
    by (metis rev_append rev_rev_ident takeWhile_dropWhile_id)
  then show ?thesis unfolding contains_iff rstrip_of_def by (metis append.left_neutral)
qed

lemma strip_contained: "contains s (strip s)"
  unfolding strip_def using contains_trans [OF dropWhile_contained rstrip_contained] .

lemma extract_targets_contained:
  assumes "(k, v) \<in> set (extract_targets s)"
  shows "contains s v"
proof -
  let ?s = "rstrip_of (\<lambda>c. c \<in> set ''.,;:!?'') (strip s)"
  from assms obtain r m where m: "m \<in> set (finditer r ?s)" "v = match_text m \<or> v = dotless (match_text m)"
    unfolding extract_targets_def Let_def by auto
  have "contains ?s (match_text m)" using finditer_text [OF m(1)] by blast
  moreover have "contains (match_text m) v"
  proof (cases "v = match_text m")
    case True
    then show ?thesis unfolding contains_iff by (metis append.left_neutral append.right_neutral)
  next
    case False
    with m(2) show ?thesis unfolding dotless_def by (simp add: rstrip_contained)
  qed
  moreover have "contains s ?s" by (rule contains_trans [OF strip_contained rstrip_contained])
  ultimately show ?thesis by (blast intro: contains_trans)
qed

lemma pieces_contained: "p \<in> set (pieces i ms s) \<Longrightarrow> contains s p"
proof (induction i ms s rule: pieces.induct)
  case (1 i s)
  then show ?case unfolding contains_iff by simp (metis append.right_neutral append_take_drop_id)
next
  case (2 i m ms s)
  have "contains s (take n (drop i s))" for n
    unfolding contains_iff by (metis append.assoc append_take_drop_id)
  with 2 show ?case by auto
qed

lemma scope_effect_contained:
  assumes "(k, v) \<in> set (scope_effect s l)"
  shows "contains s v"
proof -
  have part: "contains s v" if "p \<in> set (rx_split_once EXCEPT_RX s)" "(k, v) \<in> set (extract_targets p)" for p
    using that extract_targets_contained pieces_contained contains_trans unfolding rx_split_once_def by blast
  show ?thesis
  proof (cases "(k, v) \<in> set (extract_targets s)")
    case True
    then show ?thesis by (rule extract_targets_contained)
  next
    case False
    with assms have "\<exists>front rest. rx_split_once EXCEPT_RX s = [front, rest] \<and>
        ((k, v) \<in> set (extract_targets front) \<or> (k, v) \<in> set (extract_targets rest))"
      by (cases l) (auto simp: scope_effect_def Let_def eq_commute [of "rx_split_once EXCEPT_RX s"] split: if_splits list.splits)
    with part show ?thesis by fastforce
  qed
qed

lemma rules_of_mem: "r \<in> set (rules_of ts) \<longleftrightarrow> (\<exists>(k, v) \<in> set ts. r = \<lparr>rule_kind = k, rule_value = strip v\<rparr>)"
  by (auto simp: rules_of_def)

section \<open>Permissions\<close>

text \<open>
  C37: No permission is inferred: every allowed rule of a compiled engagement is a text that occurs in a sentence of the
  prose which has a cue that allows and none that is ambiguous or asks for approval, and, unless it is of the form
  "in scope except", none that denies; every rule that requires approval occurs in a sentence that asks for it.
\<close>

theorem compiled_permissions_explicit:
  assumes "compile_scope_text prose i n = Inr r"
  shows "(\<forall>x \<in> set (allowed (eng_scope (sc_engagement r))). \<exists>s \<in> set (sentences prose).
      contains s (rule_value x) \<and> cued ALLOW_CUES (str_lower s) \<and> \<not> cued AMBIGUITY_CUES (str_lower s) \<and>
      (cued DENY_CUES (str_lower s) \<longrightarrow> contains (str_lower s) '' except '')) \<and>
    (\<forall>x \<in> set (approval_required (eng_scope (sc_engagement r))). \<exists>s \<in> set (sentences prose).
      contains s (rule_value x) \<and> cued ALLOW_CUES (str_lower s) \<and> cued APPROVAL_CUES (str_lower s))"
proof -
  have origin: "\<exists>s \<in> set (sentences prose). contains s (rule_value x) \<and> scope_effect s l \<noteq> []"
    if "x \<in> set (fold append_unique (rules_of (concat (map (\<lambda>s. scope_effect s l) (sentences prose)))) [])" for x l
  proof -
    from that fold_append_unique [of "rules_of (concat (map (\<lambda>s. scope_effect s l) (sentences prose)))" "[]"]
    have "x \<in> set (rules_of (concat (map (\<lambda>s. scope_effect s l) (sentences prose))))" by auto
    then obtain s k v where s: "s \<in> set (sentences prose)" "(k, v) \<in> set (scope_effect s l)" "rule_value x = strip v"
      by (auto simp: rules_of_mem)
    with scope_effect_contained [OF s(2)] strip_contained [of v] show ?thesis by (auto intro: contains_trans)
  qed
  have ambiguous: "cued APPROVAL_CUES low \<Longrightarrow> cued AMBIGUITY_CUES low" for low
    by (auto simp: cued_def APPROVAL_CUES_def AMBIGUITY_CUES_def)
  have allow: "cued ALLOW_CUES (str_lower s) \<and> \<not> cued AMBIGUITY_CUES (str_lower s) \<and>
      (cued DENY_CUES (str_lower s) \<longrightarrow> contains (str_lower s) '' except '')" if "scope_effect s TO_ALLOWED \<noteq> []" for s
    using that ambiguous [of "str_lower s"] by (auto simp: scope_effect_def Let_def split: if_splits)
  have approve: "cued ALLOW_CUES (str_lower s) \<and> cued APPROVAL_CUES (str_lower s)" if "scope_effect s TO_APPROVAL \<noteq> []" for s
    using that by (auto simp: scope_effect_def Let_def split: if_splits list.splits)
  show ?thesis
    unfolding compile_scope_text_Inr(1,3) [OF assms] using origin allow approve by blast
qed

lemma ex_prose:
  "sentences ''a.io is not in scope.'' = [''a.io is not in scope.'']"
  "extract_targets ''a.io is not in scope.'' = [(DOMAIN, ''a.io'')]"
  "str_lower ''a.io is not in scope.'' = ''a.io is not in scope.''"
  "search RATE_RX ''a.io is not in scope.'' = None" "strip ''a.io'' = ''a.io''"
proof -
  have "sentences ''a.io is not in scope.'' = [''a.io is not in scope.''] \<and>
    extract_targets ''a.io is not in scope.'' = [(DOMAIN, ''a.io'')] \<and>
    str_lower ''a.io is not in scope.'' = ''a.io is not in scope.'' \<and>
    search RATE_RX ''a.io is not in scope.'' = None \<and> strip ''a.io'' = ''a.io''" by code_simp
  then show "sentences ''a.io is not in scope.'' = [''a.io is not in scope.'']"
    "extract_targets ''a.io is not in scope.'' = [(DOMAIN, ''a.io'')]"
    "str_lower ''a.io is not in scope.'' = ''a.io is not in scope.''"
    "search RATE_RX ''a.io is not in scope.'' = None" "strip ''a.io'' = ''a.io''" by blast+
qed

lemma ex_cues:
  "cued ALLOW_CUES ''a.io is not in scope.'' \<and> \<not> cued DENY_CUES ''a.io is not in scope.'' \<and>
   \<not> cued AMBIGUITY_CUES ''a.io is not in scope.'' \<and> \<not> cued APPROVAL_CUES ''a.io is not in scope.'' \<and>
   \<not> contains ''a.io is not in scope.'' '' except '' \<and> contains ''a.io is not in scope.'' ''not in scope'' \<and>
   \<not> cued PROHIBITION_WORDS ''a.io is not in scope.''"
  by code_simp

lemma ex_compiled:
  obtains r where "compile_scope_text ''a.io is not in scope.'' [] [] = Inr r" "sc_status r = CLEAN"
    "eng_scope (sc_engagement r) = \<lparr>allowed = [\<lparr>rule_kind = DOMAIN, rule_value = ''a.io''\<rparr>], denied = [], approval_required = []\<rparr>"
proof -
  have "\<exists>st. compile_sentence ''a.io is not in scope.'' start_compilation = Inr st \<and>
      cs_allowed st = [\<lparr>rule_kind = DOMAIN, rule_value = ''a.io''\<rparr>] \<and> cs_denied st = [] \<and> cs_approval st = [] \<and> cs_issues st = []"
    using ex_cues
    by (simp add: compile_sentence_def compile_scope_sentence_def compile_rate_def compile_prohibitions_def Let_def ex_prose
        mk_scope_rule_def start_compilation_def append_unique_def add_extracted_def)
  then obtain st where st: "compile_sentence ''a.io is not in scope.'' start_compilation = Inr st"
    "cs_allowed st = [\<lparr>rule_kind = DOMAIN, rule_value = ''a.io''\<rparr>]" "cs_denied st = []" "cs_approval st = []" "cs_issues st = []"
    by blast
  have "\<exists>r. compile_scope_text ''a.io is not in scope.'' [] [] = Inr r \<and> sc_status r = CLEAN \<and> eng_scope (sc_engagement r) =
      \<lparr>allowed = [\<lparr>rule_kind = DOMAIN, rule_value = ''a.io''\<rparr>], denied = [], approval_required = []\<rparr>"
    by (simp add: compile_scope_text_def ex_prose(1) st conflicts_def Let_def)
  with that show ?thesis by blast
qed

theorem compiled_permissions_explicit_witness:
  "\<exists>r. compile_scope_text ''a.io is not in scope.'' [] [] = Inr r \<and>
     (\<exists>s \<in> set (sentences ''a.io is not in scope.''). contains s ''a.io'' \<and> cued ALLOW_CUES (str_lower s))"
proof (rule ex_compiled)
  fix r
  assume r: "compile_scope_text ''a.io is not in scope.'' [] [] = Inr r"
    "eng_scope (sc_engagement r) = \<lparr>allowed = [\<lparr>rule_kind = DOMAIN, rule_value = ''a.io''\<rparr>], denied = [], approval_required = []\<rparr>"
  from compiled_permissions_explicit [OF r(1)] r show ?thesis by auto
qed



text \<open>
  C39: No prose lifts a limit: the compiled methods are the defaults (intrusive tests denied), denial of service, social
  engineering and data destruction stay forbidden, there are no exceptions for assets, and the rate is positive and at
  most 1000 requests per second.
\<close>

theorem compiled_limits:
  assumes "compile_scope_text prose i n = Inr r"
  shows "eng_methods (sc_engagement r) = default_methods \<and> mp_intrusive (eng_methods (sc_engagement r)) = DENY \<and>
    con_no_dos (eng_constraints (sc_engagement r)) \<and> con_no_social_engineering (eng_constraints (sc_engagement r)) \<and>
    con_no_data_destruction (eng_constraints (sc_engagement r)) \<and> con_assets (eng_constraints (sc_engagement r)) = [] \<and>
    0 < con_max_rps (eng_constraints (sc_engagement r)) \<and> con_max_rps (eng_constraints (sc_engagement r)) \<le> 1000"
  using compile_scope_text_Inr(4,5) [OF assms] by (auto simp: default_constraints_def default_methods_def)

theorem compiled_limits_witness:
  "\<exists>r. compile_scope_text ''a.io is not in scope.'' [] [] = Inr r \<and> con_no_dos (eng_constraints (sc_engagement r))"
proof (rule ex_compiled)
  fix r
  assume r: "compile_scope_text ''a.io is not in scope.'' [] [] = Inr r"
  from compiled_limits [OF r] r show ?thesis by blast
qed

text \<open>
  C40: "Not in scope" is read as a permission: whenever a sentence says that its targets are not in scope, with no other
  cue, every one of them is an allowed rule of the engagement, and an ambiguity is not reported for the sentence.
\<close>

theorem not_in_scope_allowed:
  assumes "compile_scope_text prose i n = Inr r" "s \<in> set (sentences prose)" "(k, v) \<in> set (extract_targets s)"
    and "contains (str_lower s) ''not in scope''"
    and "\<not> cued DENY_CUES (str_lower s)" "\<not> cued AMBIGUITY_CUES (str_lower s)" "\<not> contains (str_lower s) '' except ''"
  shows "(\<exists>x \<in> set (allowed (eng_scope (sc_engagement r))). rule_key x = (k, str_lower (strip v))) \<and> \<not> scope_unclear s"
proof -
  obtain a b where "str_lower s = a @ ''not in scope'' @ b" using assms(4) unfolding contains_iff by blast
  then have "str_lower s = (a @ ''not '') @ ''in scope'' @ b" by simp
  then have "contains (str_lower s) ''in scope''" unfolding contains_iff by blast
  then have cue: "cued ALLOW_CUES (str_lower s)" by (auto simp: cued_def ALLOW_CUES_def)
  have ap: "\<not> cued APPROVAL_CUES (str_lower s)"
    using assms(6) by (auto simp: cued_def APPROVAL_CUES_def AMBIGUITY_CUES_def)
  have "(k, v) \<in> set (scope_effect s TO_ALLOWED)"
    using assms(3,5-7) cue ap by (auto simp: scope_effect_def Let_def)
  then have "\<lparr>rule_kind = k, rule_value = strip v\<rparr> \<in> set (rules_of (concat (map (\<lambda>s. scope_effect s TO_ALLOWED) (sentences prose))))"
    using assms(2) by (force simp: rules_of_mem)
  then have "rule_key \<lparr>rule_kind = k, rule_value = strip v\<rparr> \<in> rule_key ` set (allowed (eng_scope (sc_engagement r)))"
    unfolding compile_scope_text_Inr(1) [OF assms(1)]
    using fold_append_unique [of "rules_of (concat (map (\<lambda>s. scope_effect s TO_ALLOWED) (sentences prose)))" "[]"] by simp
  moreover have "\<not> scope_unclear s" using assms(6) cue by (auto simp: scope_unclear_def Let_def)
  ultimately show ?thesis by (auto simp: rule_key_def)
qed

theorem not_in_scope_allowed_witness:
  "\<exists>r. compile_scope_text ''a.io is not in scope.'' [] [] = Inr r \<and> sc_status r = CLEAN \<and>
     (\<exists>x \<in> set (allowed (eng_scope (sc_engagement r))). rule_kind x = DOMAIN \<and> str_lower (rule_value x) = str_lower (strip ''a.io''))"
proof (rule ex_compiled)
  fix r
  assume r: "compile_scope_text ''a.io is not in scope.'' [] [] = Inr r" "sc_status r = CLEAN"
  have p: "''a.io is not in scope.'' \<in> set (sentences ''a.io is not in scope.'')"
    "(DOMAIN, ''a.io'') \<in> set (extract_targets ''a.io is not in scope.'')" by (simp_all add: ex_prose(1,2))
  from not_in_scope_allowed [OF r(1) p] r ex_cues show ?thesis unfolding ex_prose(3) by (auto simp: rule_key_def)
qed

end
