(* ===== verification/AuthorityProperties.thy ===== *)
theory AuthorityProperties
  imports Examples
begin

text \<open>
  The properties of the authority components: what an \<open>ALLOW\<close> of the policy engine
  guarantees, what a signed permit binds, how long an operational lease lasts and how the
  two ledgers make a permit single-use. Each follows from the lemmas of its component;
  the witnesses apply it to the inputs of \<open>Examples\<close>.
\<close>

section \<open>The policy engine\<close>

text \<open>
  C1: a request the engine allows is matched by no deny rule, is matched by an allow rule or by an
  approval-required rule with a valid approval, has every required context key, has a risk
  class the policy does not deny (with a valid approval where the policy asks for one) and
  was cleared, and not matched, for every semantic exclusion.
\<close>

theorem authorize_allow_sound:
  assumes "authorize_test eng test req clock = Inr r" "ar_decision r = ALLOW"
  shows "\<exists>approvals. valid_approvals eng test req clock = Inr approvals \<and>
    (\<forall>d \<in> set (denied (eng_scope eng)). match_rule (rq_target req) d = Inr False) \<and>
    ((\<exists>a \<in> set (allowed (eng_scope eng)). match_rule (rq_target req) a = Inr True) \<or>
     (approvals \<noteq> [] \<and>
      (\<exists>a \<in> set (approval_required (eng_scope eng)). match_rule (rq_target req) a = Inr True))) \<and>
    set (test_required_context test) \<subseteq> rq_available_context req \<and>
    decision_for (eng_methods eng) (test_risk test) \<noteq> DENY \<and>
    (decision_for (eng_methods eng) (test_risk test) = APPROVAL_REQUIRED \<longrightarrow> approvals \<noteq> []) \<and>
    (\<forall>x \<in> set (con_exclusions (eng_constraints eng)).
       excl_id x \<in> rq_excl_clears req \<and> excl_id x \<notin> rq_excl_matches req)"
proof -
  obtain approvals al cond cs where
    v: "valid_approvals eng test req clock = Inr approvals" and
    d: "matching_rules (rq_target req) (denied (eng_scope eng)) = Inr []" and
    a: "matching_rules (rq_target req) (allowed (eng_scope eng)) = Inr al" and
    c: "matching_rules (rq_target req) (approval_required (eng_scope eng)) = Inr cond" and
    g: "scope_gate al cond approvals = (None, cs)" and
    m: "middle_gates eng test req clock approvals cs = Inr r"
    using authorize_test_allow [OF assms] by blast
  obtain aid until sc cs' where sem: "check_semantic_exclusions eng req = (None, sc)"
    and f: "final_gates eng test req approvals aid until cs' = Inr r"
    using middle_gates_allow [OF m assms(2)] by blast
  note fin = final_gates_allow [OF f assms(2)]
  have deny: "\<forall>x \<in> set (denied (eng_scope eng)). match_rule (rq_target req) x = Inr False"
    using d rfilter_Nil_iff rfilter_total by (fastforce simp: matching_rules_def)
  have mem: "\<exists>x \<in> set rs. match_rule (rq_target req) x = Inr True"
    if "matching_rules (rq_target req) rs = Inr ys" "ys \<noteq> []" for rs ys
    using that rfilter_mem [of "match_rule (rq_target req)" rs ys "hd ys"]
    by (auto simp: matching_rules_def)
  show ?thesis
    using v deny mem [OF a] mem [OF c] scope_gate_pass [OF g] fin risk_gate_pass
      semantic_gate_pass [OF sem] by fastforce
qed

theorem authorize_allow_sound_witness:
  "\<exists>approvals. valid_approvals ex_engagement ex_test ex_request ex_clock = Inr approvals \<and>
    decision_for (eng_methods ex_engagement) (test_risk ex_test) \<noteq> DENY"
proof -
  obtain r where "authorize_test ex_engagement ex_test ex_request ex_clock = Inr r" "ar_decision r = ALLOW"
    using ex_authorized by (auto split: sum.splits)
  from authorize_allow_sound [OF this] show ?thesis by blast
qed



text \<open>
  For a program that must be online, an allowed request carries an attestation bound to the
  program revision, not from the future, and either it is fresh and says ONLINE, or it is stale and the
  durable store holds the request's lease as active, with the same content, at that instant;
  the result names the attestation and ends with the attestation's freshness or with the lease.
\<close>

theorem authorize_allow_online:
  assumes "authorize_test eng test req clock = Inr r" "ar_decision r = ALLOW"
    and "eng_program eng = Some b" "pb_requires_online b"
  shows "\<exists>att. rq_attestation req = Some att \<and> att_program_id att = pb_program_id b \<and>
    att_source_sha256 att = pb_source_sha256 b \<and> ar_attestation_id r = Some (att_id att) \<and>
    dt_us (att_observed_at att) \<le> dt_us (or_else (rq_now req) clock) + 30000000 \<and>
    ((att_status att = ONLINE \<and>
      ar_valid_until r = Some (dt_plus (att_observed_at att) (seconds (pb_max_age b))) \<and>
      dt_us (or_else (rq_now req) clock) < dt_us (att_observed_at att) + pb_max_age b * 1000000) \<or>
     (\<exists>l s. rq_lease req = Some l \<and> rq_lease_store req = Some (StoreFile s) \<and>
        ar_valid_until r = Some (ls_valid_until l) \<and>
        require_valid_lease s l eng att (or_else (rq_now req) clock) = Inr ()))"
proof -
  obtain approvals al cond cs where
    m: "middle_gates eng test req clock approvals cs = Inr r"
    using authorize_test_allow [OF assms(1,2)] by blast
  obtain aid until oc cs' where op: "check_program_operational_gate eng req clock = ((None, aid, until), oc)"
    and f: "final_gates eng test req approvals aid until cs' = Inr r"
    using middle_gates_allow [OF m assms(2)] by blast
  have r: "ar_attestation_id r = aid" "ar_valid_until r = until"
    using final_gates_allow [OF f assms(2)] by blast+
  let ?now = "or_else (rq_now req) clock"
  obtain att where att: "rq_attestation req = Some att" "att_program_id att = pb_program_id b"
      "att_source_sha256 att = pb_source_sha256 b" "dt_us (att_observed_at att) \<le> dt_us ?now + 30000000"
    using op assms(3,4)
    by (auto simp: check_program_operational_gate_def Let_def time_simps split: option.splits if_splits)
  show ?thesis
  proof (cases "dt_le (dt_plus (att_observed_at att) (seconds (pb_max_age b))) ?now")
    case False
    with op assms(3,4) att r show ?thesis
      by (auto simp: check_program_operational_gate_def Let_def time_simps split: if_splits)
  next
    case True
    with op assms(3,4) att
    have "stale_gate req eng att ?now (dt_plus (att_observed_at att) (seconds (pb_max_age b))) = ((None, aid, until), oc)"
      by (auto simp: check_program_operational_gate_def Let_def time_simps split: if_splits)
    then obtain l where l: "rq_lease req = Some l" "lease_reason req l eng att ?now = None"
        "aid = Some (att_id att)" "until = Some (ls_valid_until l)"
      by (auto simp: stale_gate_def Let_def split: option.splits)
    then obtain s where "rq_lease_store req = Some (StoreFile s)" "require_valid_lease s l eng att ?now = Inr ()"
      using require_valid_leaseD [of "open_lease_store None" l eng att ?now]
      by (auto simp: lease_reason_def open_lease_store_def split: option.splits store_file.splits sum.splits)
    with att l r show ?thesis by blast
  qed
qed

theorem authorize_allow_online_witness:
  "\<exists>att. rq_attestation ex_online_request = Some att \<and> att_status att = ONLINE"
proof -
  obtain r where r: "authorize_test ex_online_engagement ex_test ex_online_request ex_clock = Inr r" "ar_decision r = ALLOW"
    using ex_online_authorized by (auto split: sum.splits)
  have b: "eng_program ex_online_engagement = Some ex_binding" "pb_requires_online ex_binding"
    by (simp_all add: ex_online_engagement_def ex_binding_def)
  have n: "rq_lease ex_online_request = None" by (simp add: ex_online_request_def ex_request_def)
  from authorize_allow_online [OF r b] n show ?thesis by auto
qed

text \<open>
  A matching deny rule decides: whatever approvals, attestations or leases the request
  carries, the decision is DENY (when the approvals can be evaluated at all).
\<close>

theorem authorize_deny_rule:
  assumes "d \<in> set (denied (eng_scope eng))" "match_rule (rq_target req) d = Inr True"
    and "valid_approvals eng test req clock = Inr approvals"
  shows "\<exists>cs. authorize_test eng test req clock = Inr (auth_stop DENY cs)"
proof -
  from assms(2) obtain h where h: "match_host (rq_target req) = Inr h"
    by (auto simp: match_rule_def result_simps)
  obtain p where p: "match_rule (rq_target req) = (\<lambda>r. Inr (p r))" using match_rule_pure [OF h] by blast
  obtain den where den: "matching_rules (rq_target req) (denied (eng_scope eng)) = Inr den"
    by (simp add: matching_rules_def p)
  with assms(1,2) rfilter_mem have "d \<in> set den" by (fastforce simp: matching_rules_def)
  then have "den \<noteq> []" by auto
  with den assms(3) show ?thesis by (auto simp: authorize_test_def)
qed

theorem authorize_deny_rule_witness:
  "\<exists>cs. authorize_test ex_engagement ex_test (ex_request\<lparr>rq_target := ''https://admin.example.com/''\<rparr>) ex_clock
     = Inr (auth_stop DENY cs)"
proof -
  let ?d = "\<lparr>rule_kind = DOMAIN, rule_value = ''admin.example.com''\<rparr>"
  let ?req = "ex_request\<lparr>rq_target := ''https://admin.example.com/''\<rparr>"
  have "?d \<in> set (denied (eng_scope ex_engagement))" by (simp add: ex_engagement_def)
  moreover have "match_rule (rq_target ?req) ?d = Inr True" by code_simp
  moreover have "valid_approvals ex_engagement ex_test ?req ex_clock = Inr []"
    by (simp add: valid_approvals_def ex_request_def)
  ultimately show ?thesis by (rule authorize_deny_rule)
qed

text \<open>
  C3: on an engagement without asset constraints, semantic exclusions, conditional scope and an
  operational gate, and a method policy that is one of allow, deny and approval-required,
  \<open>authorize_test\<close> on the converted request decides what the simple \<open>evaluate_test\<close> decides
  without approval, errors included.
\<close>

theorem authorize_refines_evaluation:
  assumes "con_assets (eng_constraints eng) = []" "con_exclusions (eng_constraints eng) = []"
    and "approval_required (eng_scope eng) = []" "eng_program eng = None"
    and "decision_for (eng_methods eng) (test_risk test) \<noteq> INSUFFICIENT_CONTEXT" "\<not> ev_approved r"
  shows "rbind (authorize_test eng test (from_evaluation_request r) clock) (\<lambda>a. Inr (ar_decision a)) =
         rbind (evaluate_test eng test r) (\<lambda>e. Inr (evr_decision e))"
proof (cases "match_host (ev_target r)")
  case (Inl e)
  note raises = match_rule_raises [OF Inl]
  show ?thesis
    using assms(3)
    by (cases "denied (eng_scope eng)"; cases "allowed (eng_scope eng)")
      (simp_all add: authorize_test_def evaluate_test_def target_in_scope_def valid_approvals_def
        from_evaluation_request_def matching_rules_def raises scope_gate_def auth_stop_def)
next
  case (Inr h)
  obtain p where p: "match_rule (ev_target r) = (\<lambda>x. Inr (p x))" using match_rule_pure [OF Inr] by blast
  let ?denied = "\<exists>x \<in> set (denied (eng_scope eng)). p x" and ?allowed = "\<exists>x \<in> set (allowed (eng_scope eng)). p x"
  note eval = evaluate_test_def target_in_scope_def p
  note auth = authorize_test_def valid_approvals_def from_evaluation_request_def matching_rules_def p
    filter_empty_conv scope_gate_def auth_stop_def assms(3)
  consider "?denied" | "\<not> ?denied" "\<not> ?allowed" | "\<not> ?denied" "?allowed" by blast
  then show ?thesis
  proof cases
    case 3
    note middle = middle_gates_def check_program_operational_gate_def check_semantic_exclusions_def
      check_asset_constraints_def matching_asset_constraints_def assms(1,2,4)
    note final = final_gates_def risk_gate_def effective_rate_limit_def rate_gate_def assms(1,5,6)
    from 3 show ?thesis
      using assms(5,6)
      by (cases "decision_for (eng_methods eng) (test_risk test)")
        (auto simp: eval auth middle final)
  qed (auto simp: eval auth)
qed

theorem authorize_refines_evaluation_witness:
  "rbind (authorize_test (ex_engagement\<lparr>eng_constraints := default_constraints\<rparr>) ex_test
        (from_evaluation_request ex_evaluation) ex_clock) (\<lambda>a. Inr (ar_decision a)) =
   rbind (evaluate_test (ex_engagement\<lparr>eng_constraints := default_constraints\<rparr>) ex_test ex_evaluation)
     (\<lambda>e. Inr (evr_decision e))"
  by (rule authorize_refines_evaluation)
    (simp_all add: ex_engagement_def default_constraints_def default_methods_def ex_test_def ex_evaluation_def)

text \<open>
  \<open>authorize_test\<close> has no branch for a risk class whose policy is \<open>insufficient_context\<close>: such a
  test is allowed without any approval, where \<open>evaluate_test\<close> answers INSUFFICIENT_CONTEXT.
\<close>

theorem insufficient_context_policy_allows:
  "decision_for (eng_methods ex_lenient_engagement) (test_risk ex_test) = INSUFFICIENT_CONTEXT \<and>
   (case authorize_test ex_lenient_engagement ex_test (from_evaluation_request ex_evaluation) ex_clock of
      Inr r \<Rightarrow> ar_decision r = ALLOW | Inl _ \<Rightarrow> False) \<and>
   (case evaluate_test ex_lenient_engagement ex_test ex_evaluation of
      Inr e \<Rightarrow> evr_decision e = INSUFFICIENT_CONTEXT | Inl _ \<Rightarrow> False)"
  by (intro conjI; code_simp)

text \<open>
  A URL-prefix rule is a prefix test on the raw target: \<open>https://example.com\<close> admits a target on
  another registrable host, and a target whose host differs from a denied prefix only in letter case is
  not denied.
\<close>

theorem url_prefix_rule_matches_foreign_host:
  "target_in_scope ''https://example.com.evil.org/''
     \<lparr>allowed = [\<lparr>rule_kind = URL_PREFIX, rule_value = ''https://example.com''\<rparr>],
      denied = [\<lparr>rule_kind = URL_PREFIX, rule_value = ''https://example.com.EVIL.org/''\<rparr>],
      approval_required = []\<rparr> = Inr True \<and>
   match_host ''https://example.com.evil.org/'' = match_host ''https://example.com.EVIL.org/''"
  by code_simp

section \<open>Operational leases\<close>

text \<open>
  An issued lease lasts between 30 seconds and half an hour, and from issuance to its end the
  durable store accepts it for the engagement and attestation it was issued for.
\<close>

theorem issued_lease_valid:
  assumes "issue_lease s eng att aid pf vf ttl = Inr (l, s')"
    and "aware now" "dt_us vf \<le> dt_us now" "dt_us now < dt_us vf + ttl * 1000000"
  shows "require_valid_lease s' l eng att now = Inr () \<and> 30 \<le> ttl \<and> ttl \<le> 1800"
proof -
  note i = issue_leaseD [OF assms(1)]
  then have b: "build_operational_lease eng att aid pf vf ttl = Inr l" by blast
  from i have "require_valid_lease s' l eng att now = Inr ()"
    by (intro require_valid_leaseI build_then_valid [OF b assms(2-4)]) (auto simp: active_entry_def)
  with build_operational_leaseD [OF b] show ?thesis by blast
qed

theorem issued_lease_valid_witness:
  "require_valid_lease (snd ex_issued_lease) (fst ex_issued_lease) ex_online_engagement ex_attestation
     (dt_plus ex_clock (seconds 599)) = Inr ()"
  using issued_lease_valid [OF ex_lease_issued, of "dt_plus ex_clock (seconds 599)"]
  by (simp add: ex_clock_def time_simps)

text \<open>
  Whatever the store holds, a lease it accepts was issued while an ONLINE attestation of the same program
  revision was fresh, so no execution under a lease happens later than the attestation's freshness
  plus half an hour.
\<close>

theorem lease_bounds_attestation_age:
  assumes "require_valid_lease s l eng att now = Inr u"
  shows "\<exists>b. eng_program eng = Some b \<and> att_status att = ONLINE \<and>
    att_program_id att = pb_program_id b \<and> att_source_sha256 att = pb_source_sha256 b \<and>
    dt_us (att_observed_at att) - 30000000 \<le> dt_us now \<and> dt_us now < dt_us (ls_valid_until l) \<and>
    dt_us now < dt_us (att_observed_at att) + (pb_max_age b + 1800) * 1000000"
proof -
  obtain e where "fst (lease_is_valid l eng att now)" using require_valid_leaseD [OF assms] by blast
  from lease_is_validD [OF this] show ?thesis by (elim exE conjE, intro exI conjI) auto
qed

theorem lease_bounds_attestation_age_witness:
  "dt_us (dt_plus ex_clock (seconds 599)) < dt_us (att_observed_at ex_attestation) + (300 + 1800) * 1000000"
proof -
  have "require_valid_lease (snd ex_issued_lease) (fst ex_issued_lease) ex_online_engagement ex_attestation
     (dt_plus ex_clock (seconds 599)) = Inr ()"
    by (rule ex_lease_accepted) (simp_all add: ex_clock_def time_simps)
  from lease_bounds_attestation_age [OF this] show ?thesis
    by (auto simp: ex_online_engagement_def ex_binding_def)
qed

text \<open>
  Revoking a lease stops every use of it: the store refuses it at every instant, for every
  engagement and attestation, and the revoked entry is the only one changed.
\<close>

theorem revoked_lease_refused:
  assumes "revoke_lease s (ls_id l) = Inr s'"
  shows "require_valid_lease s' l eng att now = value_error ''operational lease is not active in durable state'' \<and>
    map_of (st_leases s') = (map_of (st_leases s))(ls_id l :=
      map_option (\<lambda>e. e\<lparr>le_status := LRevoked\<rparr>) (map_of (st_leases s) (ls_id l)))"
  using revoke_leaseD [OF assms]
  by (auto simp: require_valid_lease_def read_leases_def dict_get_map_of [symmetric] fun_eq_iff)

theorem revoked_lease_refused_witness:
  "\<exists>s' :: lease_store. require_valid_lease s' (fst ex_issued_lease) ex_online_engagement ex_attestation ex_clock =
     value_error ''operational lease is not active in durable state''"
proof -
  obtain s' where s: "revoke_lease (snd ex_issued_lease) (ls_id (fst ex_issued_lease)) = Inr s'"
    using issue_leaseD [OF ex_lease_issued] by (auto simp: revoke_lease_def read_leases_def)
  from revoked_lease_refused [OF s] show ?thesis by blast
qed

text \<open>
  A renewal needs the old lease to be active and valid at the new start; it makes the new lease
  active, with its origin recorded, whatever the store held under the new id (a revoked entry included),
  supersedes the old lease unless the two ids coincide, and changes nothing else.
\<close>

theorem renewal_supersedes:
  assumes "renew_lease s i eng att vf ttl = Inr (l, s')"
  shows "(\<exists>e. dict_get (st_leases s) i = Some e \<and> require_valid_lease s (le_lease e) eng att vf = Inr ()) \<and>
    (\<exists>e. dict_get (st_leases s') (ls_id l) = Some e \<and> le_status e = LActive \<and> le_lease e = l \<and>
       le_renewed_from e = Some i) \<and>
    (ls_id l = i \<or> (\<exists>e. dict_get (st_leases s') i = Some e \<and> le_status e = LSuperseded \<and>
       le_superseded_by e = Some (ls_id l))) \<and>
    (\<forall>k. k = i \<or> k = ls_id l \<or> dict_get (st_leases s') k = dict_get (st_leases s) k)"
  using assms
  by (auto simp: renew_lease_def recover_lease_def read_leases_def mk_lease_def result_simps Let_def
      active_entry_def split: option.splits if_splits)

theorem renewal_supersedes_witness:
  "\<exists>(s' :: lease_store) (l :: lease) e. dict_get (st_leases s') (ls_id l) = Some e \<and> le_status e = LActive \<and>
     le_renewed_from e = Some (ls_id (fst ex_issued_lease))"
proof -
  obtain l s' where "renew_lease (snd ex_issued_lease) (ls_id (fst ex_issued_lease)) ex_online_engagement
      ex_attestation (dt_plus ex_clock (seconds 200)) 600 = Inr (l, s')"
    using ex_lease_renewed by blast
  note conjunct1 [OF conjunct2 [OF renewal_supersedes [OF this]]]
  then show ?thesis by blast
qed

end
