(* ===== verification/PermitProperties.thy ===== *)
theory PermitProperties
  imports RateLimit Examples
begin

text \<open>
  The properties of signed permits: what issuance binds, what verification accepts, what the
  signature and the policy digest protect, and how the two ledgers (the JSON state file and the
  SQLite runtime database) make a permit single-use, with interleaved workers and under
  the rate limit.
\<close>

section \<open>Issuance and verification\<close>

text \<open>
  C4: a permit is issued only for an allowed request, and binds what was evaluated: target, upper-case
  method, identity, the effective rate (positive, at most 1000), the digest of the policy; its life is positive,
  at most the TTL (at most 900 seconds) and ends no later than the operational window.
\<close>

theorem issue_permit_sound:
  assumes "issue_execution_permit eng test req key ttl issuer key_id now uuid clock = Inr sp"
  shows "\<exists>auth rate. authorize_test eng test req clock = Inr auth \<and> ar_decision auth = ALLOW \<and>
    ar_effective_rps auth = Some rate \<and> pp_max_rps (sp_payload sp) = rate \<and> 0 < rate \<and> rate \<le> 1000 \<and>
    pp_target (sp_payload sp) = rq_target req \<and> pp_identity (sp_payload sp) = rq_identity req \<and>
    pp_http_method (sp_payload sp) = upper_method (rq_http_method req) \<and>
    pp_policy_digest (sp_payload sp) = policy_digest eng test \<and> 32 \<le> length key \<and>
    pp_issued_at (sp_payload sp) = or_else now clock \<and>
    dt_us (pp_issued_at (sp_payload sp)) < dt_us (pp_expires_at (sp_payload sp)) \<and>
    dt_us (pp_expires_at (sp_payload sp)) \<le> dt_us (or_else now clock) + ttl * 1000000 \<and> ttl \<le> 900 \<and>
    (\<forall>u. ar_valid_until auth = Some u \<longrightarrow> dt_us (pp_expires_at (sp_payload sp)) \<le> dt_us u)"
proof -
  obtain auth rate where i: "authorize_test eng test req clock = Inr auth" "ar_decision auth = ALLOW"
     "ar_effective_rps auth = Some rate" "valid_rate rate" "1 \<le> ttl" "ttl \<le> 900"
     "permit_signature (sp_payload sp) key = Inr (sp_signature sp)"
     "dt_us (pp_issued_at (sp_payload sp)) < dt_us (pp_expires_at (sp_payload sp))"
    and p: "sp_payload sp =
       \<lparr>pp_schema_version = ''3'', pp_permit_id = uuid, pp_key_id = Some key_id, pp_issuer = issuer,
        pp_engagement_id = eng_id eng, pp_test_id = test_id test, pp_risk_class = test_risk test,
        pp_target = rq_target req, pp_http_method = upper_method (rq_http_method req),
        pp_identity = rq_identity req, pp_max_rps = rate, pp_approval_ids = sort (ar_approval_ids auth),
        pp_attestation_id = ar_attestation_id auth, pp_policy_digest = policy_digest eng test,
        pp_issued_at = or_else now clock,
        pp_expires_at = permit_expiry (or_else now clock) ttl (ar_valid_until auth)\<rparr>"
    using issue_execution_permitD [OF assms] by blast
  have "32 \<le> length key" using i(7) by (simp add: permit_signature_Inr MIN_SIGNING_KEY_BYTES_def)
  with i permit_expiry_le_ttl permit_expiry_le_until show ?thesis
    by (auto simp: p valid_rate_def)
qed

theorem issue_permit_sound_witness:
  "0 < pp_max_rps (sp_payload ex_permit) \<and> pp_target (sp_payload ex_permit) = ''https://example.com/''"
  using issue_permit_sound [OF ex_issued] by (auto simp: ex_request_def)

text \<open>
  An issued permit verifies, with any key ring that maps its key id to the signing key, at every
  instant of its life and under the policy it was issued for, when the use names the same target, method and
  identity and asks for no more than the permitted rate.
\<close>

theorem issue_then_verify:
  assumes "issue_execution_permit eng test req key ttl issuer key_id now uuid clock = Inr sp"
    and "dict_get ring key_id = Some key"
    and "dt_us (pp_issued_at (sp_payload sp)) \<le> dt_us (or_else (vq_now use) moment)"
    and "dt_us (or_else (vq_now use) moment) < dt_us (pp_expires_at (sp_payload sp))"
    and "vq_target use = rq_target req" "upper_method (vq_http_method use) = upper_method (rq_http_method req)"
    and "vq_identity use = rq_identity req" "vq_rps use = Some rate" "rate \<le> pp_max_rps (sp_payload sp)"
  shows "\<exists>v. verify_execution_permit sp eng test use (KeyRing ring) moment = Inr v \<and> vr_valid v"
proof -
  note p = issue_execution_permit_fields [OF assms(1)]
  have key: "select_key (sp_payload sp) (KeyRing ring) = Inr key"
    using assms(2) by (simp add: select_key_def p(2))
  have "vr_valid (verify_bindings sp eng test use moment c)" for c
    unfolding verify_bindings_valid using assms(3-9) by (simp add: p Let_def)
  with p(1) key show ?thesis by (simp add: verify_execution_permit_def)
qed

theorem issue_then_verify_witness:
  "\<exists>v. verify_execution_permit ex_permit ex_engagement ex_test ex_use (KeyRing [(''k1'', ex_key)]) ex_clock = Inr v \<and>
     vr_valid v"
  by (rule issue_then_verify [OF ex_issued])
    (simp_all add: ex_permit_def ex_payload_def ex_use_def ex_request_def ex_clock_def time_simps, code_simp)

text \<open>
  C5: verification accepts exactly the permits whose signature is the HMAC of their signed data under the
  selected key of at least 32 bytes, used within \<open>issued_at \<le> now < expires_at\<close>, for the engagement,
  test, risk class and policy digest they name, and for the same target, method and identity at
  no more than the permitted rate.
\<close>

theorem verify_accepts_iff:
  "(\<exists>v. verify_execution_permit permit eng test req ks clock = Inr v \<and> vr_valid v) \<longleftrightarrow>
   (\<exists>key. select_key (sp_payload permit) ks = Inr key \<and> 32 \<le> length key \<and>
      sp_signature permit = hmac_sha256_hex key (canonical_json (signed_data (sp_payload permit))) \<and>
      dt_us (pp_issued_at (sp_payload permit)) \<le> dt_us (or_else (vq_now req) clock) \<and>
      dt_us (or_else (vq_now req) clock) < dt_us (pp_expires_at (sp_payload permit)) \<and>
      pp_engagement_id (sp_payload permit) = eng_id eng \<and> pp_test_id (sp_payload permit) = test_id test \<and>
      pp_risk_class (sp_payload permit) = test_risk test \<and>
      pp_policy_digest (sp_payload permit) = policy_digest eng test \<and>
      pp_target (sp_payload permit) = vq_target req \<and>
      pp_http_method (sp_payload permit) = upper_method (vq_http_method req) \<and>
      pp_identity (sp_payload permit) = vq_identity req \<and>
      (case vq_rps req of None \<Rightarrow> True | Some r \<Rightarrow> r \<le> pp_max_rps (sp_payload permit)))"
proof -
  let ?c = "[pcheck ''signature'' PPass [Txt ''Permit signature is valid.'']]"
  have "(\<exists>v. verify_execution_permit permit eng test req ks clock = Inr v \<and> vr_valid v) \<longleftrightarrow>
    (\<exists>key. select_key (sp_payload permit) ks = Inr key \<and>
       permit_signature (sp_payload permit) key = Inr (sp_signature permit) \<and>
       vr_valid (verify_bindings permit eng test req clock ?c))"
    by (auto simp: verify_execution_permit_def result_simps split: sum.splits)
  then show ?thesis
    by (auto simp: permit_signature_Inr MIN_SIGNING_KEY_BYTES_def verify_bindings_valid Let_def
        split: option.splits)
qed

text \<open>
  C6: one signature under one key protects the permit's content: two payloads that share it have the
  same schema version, id, engagement, test, risk class, target, method, identity, policy digest and
  rendered life time, or exhibit two different signed texts with the same HMAC.
\<close>

theorem signature_binds_payload:
  assumes "permit_signature p key = Inr s" "permit_signature q key = Inr s"
  shows "(pp_schema_version p = pp_schema_version q \<and> pp_permit_id p = pp_permit_id q \<and>
      pp_engagement_id p = pp_engagement_id q \<and> pp_test_id p = pp_test_id q \<and>
      pp_risk_class p = pp_risk_class q \<and> pp_target p = pp_target q \<and>
      pp_http_method p = pp_http_method q \<and> pp_identity p = pp_identity q \<and>
      pp_policy_digest p = pp_policy_digest q \<and>
      json_datetime (pp_issued_at p) = json_datetime (pp_issued_at q) \<and>
      json_datetime (pp_expires_at p) = json_datetime (pp_expires_at q)) \<or>
    (\<exists>m m'. m = canonical_json (signed_data p) \<and> m' = canonical_json (signed_data q) \<and> m \<noteq> m' \<and>
       hmac_sha256_hex key m = hmac_sha256_hex key m')"
proof (cases "canonical_json (signed_data p) = canonical_json (signed_data q)")
  case False
  with assms show ?thesis by (auto simp: permit_signature_Inr)
next
  case True
  note members = canonical_json_member [OF True signed_data_wf signed_data_wf signed_data_keys signed_data_keys]
  from members [of "''schema_version''"] members [of "''permit_id''"] members [of "''engagement_id''"]
    members [of "''test_id''"] members [of "''risk_class''"] members [of "''target''"]
    members [of "''http_method''"] members [of "''identity''"] members [of "''policy_digest''"]
    members [of "''issued_at''"] members [of "''expires_at''"]
  show ?thesis by (simp add: signed_data_get)
qed

theorem signature_binds_payload_witness:
  "pp_target ex_payload = pp_target (ex_payload\<lparr>pp_target := ''https://example.com/''\<rparr>) \<or>
   (\<exists>m m'. m \<noteq> m' \<and> hmac_sha256_hex ex_key m = hmac_sha256_hex ex_key m')"
proof -
  have e: "ex_payload\<lparr>pp_target := ''https://example.com/''\<rparr> = ex_payload" by (simp add: ex_payload_def)
  have s: "permit_signature ex_payload ex_key = Inr (hmac_sha256_hex ex_key (canonical_json (signed_data ex_payload)))"
    by (simp add: permit_signature_Inr MIN_SIGNING_KEY_BYTES_def ex_key_def)
  from signature_binds_payload [OF s s] e show ?thesis by metis
qed

text \<open>
  A policy edited after issuance is noticed: if a permit issued under one engagement and test verifies
  under another, the two have the same scope rules, the same method policy, the same risk class
  and required context, or their canonical texts are a collision of SHA-256.
\<close>

theorem policy_change_detected:
  assumes "issue_execution_permit eng test req key ttl issuer key_id now uuid clock = Inr sp"
    and "verify_execution_permit sp eng' test' use ks moment = Inr v" "vr_valid v"
  shows "(eng_scope eng' = eng_scope eng \<and> eng_methods eng' = eng_methods eng \<and>
      test_risk test' = test_risk test \<and> test_required_context test' = test_required_context test) \<or>
    (canonical_json (policy_payload eng test) \<noteq> canonical_json (policy_payload eng' test') \<and>
     sha256_hex (canonical_json (policy_payload eng test)) = sha256_hex (canonical_json (policy_payload eng' test')))"
proof -
  have "pp_policy_digest (sp_payload sp) = policy_digest eng test"
    by (rule issue_execution_permit_fields [OF assms(1)])
  moreover have "pp_policy_digest (sp_payload sp) = policy_digest eng' test'"
    using assms(3) verify_valid_iff [OF assms(2)] by (auto simp: verify_bindings_valid Let_def)
  ultimately have d: "sha256_hex (canonical_json (policy_payload eng test)) =
      sha256_hex (canonical_json (policy_payload eng' test'))" by (simp add: policy_digest_def)
  show ?thesis
  proof (cases "canonical_json (policy_payload eng test) = canonical_json (policy_payload eng' test')")
    case False
    with d show ?thesis by simp
  next
    case True
    from policy_payload_determines [OF True] show ?thesis by simp
  qed
qed

theorem policy_change_detected_witness:
  "eng_scope ex_engagement = eng_scope ex_engagement \<and>
   (\<exists>v. verify_execution_permit ex_permit ex_engagement ex_test ex_use (SingleKey ex_key) ex_clock = Inr v \<and> vr_valid v)"
proof -
  obtain v where "verify_execution_permit ex_permit ex_engagement ex_test ex_use (SingleKey ex_key) ex_clock = Inr v"
    "vr_valid v" using ex_verified by blast
  from policy_change_detected [OF ex_issued this] ex_verified show ?thesis by blast
qed

section \<open>Single use\<close>

text \<open>
  A consumption is accepted only for a permit that verifies and was unused in a readable state file; it
  leaves the permit consumed and the status of every other permit as it was.
\<close>

theorem consume_accepted_sound:
  assumes "consume_execution_permit c f = (Inr r, f')" "cr_accepted r"
  shows "cc_verify c = Inr (cr_verification r) \<and> vr_valid (cr_verification r) \<and> cr_status r = CONSUMED \<and>
    file_status f (cc_permit_id c) = Some AVAILABLE \<and>
    file_status f' = (file_status f)(cc_permit_id c := Some CONSUMED)"
  using consume_execution_permitD [OF assms] by (auto simp: fun_eq_iff dest!: consume_state_Inr)

theorem consume_accepted_sound_witness:
  "file_status Missing ''permit-1'' = Some AVAILABLE"
proof -
  obtain r e where "consume_execution_permit (ex_call ''permit-1'' 5) Missing =
      (Inr r, Parsed \<lparr>ps_schema_version = 1, ps_permits = [(''permit-1'', e)]\<rparr>)" "cr_accepted r"
    using ex_consumed [of "''permit-1''"] by blast
  from consume_accepted_sound [OF this] show ?thesis by simp
qed

text \<open>
  Replay protection of the state file: in every sequence of consumptions (of any permits, verifying or
  not) and revocations, from every file, each permit is accepted at most once.
\<close>

theorem file_permit_single_use:
  "count_rows (consumes cc_permit_id p) (fst (ledger_run file_consume file_revoke ops f)) \<le> 1"
  by (metis file_ledger.run_at_most_once prod.collapse)

text \<open>
  Replay protection of the worker's runtime database, where admission is also rate limited: each
  permit is admitted at most once in every sequence of admissions and revocations.
\<close>

theorem runtime_permit_single_use:
  "count_rows (consumes ad_permit_id p) (fst (ledger_run runtime_consume runtime_revoke ops db)) \<le> 1"
  by (metis runtime_ledger.run_at_most_once prod.collapse)

text \<open>
  Revocation is final: after an accepted revocation no admission of the permit is accepted in the
  runtime database, whatever is tried later.
\<close>

theorem runtime_revocation_final:
  assumes "runtime_revoke b db = (True, db1)"
  shows "count_rows (consumes ad_permit_id (rv_permit_id b))
           (fst (ledger_run runtime_consume runtime_revoke ops db1)) = 0"
  using runtime_ledger.run_after_revoke [OF assms]
  by (metis (no_types, lifting) count_rows_def filter_False length_0_conv prod.collapse)

theorem runtime_revocation_final_witness:
  "count_rows (consumes ad_permit_id ''permit-1'')
     (fst (ledger_run runtime_consume runtime_revoke [Consume (ex_admission ''permit-1'' 5 1)]
        \<lparr>rd_permits = [(''permit-1'', \<lparr>pr_status = ''revoked'', pr_updated_at = isoformat ex_clock,
            pr_reason = Some ''lost''\<rparr>)], rd_rates = []\<rparr>)) = 0"
  by (rule runtime_revocation_final [of
        "\<lparr>rv_permit_id = ''permit-1'', rv_reason = ''lost'', rv_now = None, rv_clock = ex_clock\<rparr>"
        "\<lparr>rd_permits = [], rd_rates = []\<rparr>", simplified])
    (simp add: runtime_revoke_def revoke_runtime_permit_def)

text \<open>
  C7: with any number of workers and operators interleaving at the steps of \<open>consume_execution_permit\<close>, two
  workers told that the same permit was consumed for them are the same worker, and the permit is consumed
  in the file.
\<close>

theorem interleaved_single_use:
  assumes "system_reachable calls f0 s" "admitted (ls_pc s w)" "admitted (ls_pc s w')"
    and "cc_permit_id (calls w) = cc_permit_id (calls w')"
  shows "w = w' \<and> file_status (ls_file s) (cc_permit_id (calls w)) = Some CONSUMED"
  using system_reachable_inv [OF assms(1)] assms(2-4) unfolding ledger_inv_def by blast

theorem interleaved_single_use_witness:
  "\<exists>s :: ledger_system. admitted (ls_pc s 0) \<and> file_status (ls_file s) ''permit-1'' = Some CONSUMED"
proof -
  let ?calls = "\<lambda>w :: nat. ex_call ''permit-1'' 5"
  obtain v where v: "cc_verify (ex_call ''permit-1'' 5) = Inr v" "vr_valid v"
    using ex_call_verify [of 5 "''permit-1''"] by auto
  define s0 where "s0 = \<lparr>ls_file = Missing, ls_pc = \<lambda>_ :: nat. Entered\<rparr>"
  define s1 where "s1 = \<lparr>ls_file = Missing, ls_pc = (ls_pc s0)(0 := Unused)\<rparr>"
  define s2 where "s2 = \<lparr>ls_file = Missing, ls_pc = (ls_pc s1)(0 := Verified v)\<rparr>"
  obtain pc f where st: "call_step (?calls 0) (Verified v) Missing = (pc, f)" by fastforce
  then have ad: "admitted pc" by (auto simp: ledger_defs)
  have "system_reachable ?calls Missing s0" unfolding s0_def by (rule system_reachable.start)
  moreover have "system_step ?calls s0 s1" unfolding s1_def
    by (rule system_step.worker [where calls = ?calls and s = s0 and w = 0]) (simp add: s0_def ledger_defs)
  moreover have "system_step ?calls s1 s2" unfolding s2_def
    by (rule system_step.worker [where calls = ?calls and s = s1 and w = 0]) (simp add: s1_def v)
  moreover have "system_step ?calls s2 \<lparr>ls_file = f, ls_pc = (ls_pc s2)(0 := pc)\<rparr>"
    by (rule system_step.worker [where calls = ?calls and s = s2 and w = 0]) (use st in \<open>simp add: s2_def\<close>)
  ultimately have r: "system_reachable ?calls Missing \<lparr>ls_file = f, ls_pc = (ls_pc s2)(0 := pc)\<rparr>"
    by (meson system_reachable.more)
  show ?thesis
    by (intro exI [of _ "\<lparr>ls_file = f, ls_pc = (ls_pc s2)(0 := pc)\<rparr>"])
      (use interleaved_single_use [OF r, of 0 0] ad in simp)
qed

text \<open>
  The interleaved steps are those of the code: a call that runs alone has returned after four steps, with
  the result and the file of \<open>consume_execution_permit\<close>.
\<close>

theorem call_steps_refine:
  "call_steps 4 c Entered f = (Returned (fst (consume_execution_permit c f)), snd (consume_execution_permit c f))"
  by (simp add: steps_refine case_prod_beta)

text \<open>
  The durable rate limit: among the admissions accepted by any sequence of operations, from any
  database, a later one for the same target key keeps a distance of at least
  \<open>min 1 (1 / max_rps)\<close> seconds to every earlier one.
\<close>

theorem runtime_rate_gaps:
  "sorted_wrt gap_kept (fst (ledger_run runtime_consume runtime_revoke ops db))"
  by (metis run_gaps prod.collapse)

text \<open>
  A limit slower than one request per second is not enforced: events are deleted after one second, so
  two admissions one second apart are both accepted under a limit of one request in ten seconds.
\<close>

theorem slow_rate_not_enforced:
  "fst (ledger_run runtime_consume runtime_revoke
      [Consume (ex_admission ''permit-1'' 5 (1 / 10)), Consume (ex_admission ''permit-2'' 6 (1 / 10))]
      \<lparr>rd_permits = [], rd_rates = []\<rparr>) =
     [Consume (ex_admission ''permit-1'' 5 (1 / 10)), Consume (ex_admission ''permit-2'' 6 (1 / 10))] \<and>
   ad_instant (ex_admission ''permit-2'' 6 (1 / 10)) - ad_instant (ex_admission ''permit-1'' 5 (1 / 10)) = 1"
proof -
  obtain v where v: "cc_verify (ex_call ''permit-1'' 5) = Inr v" "vr_valid v"
    using ex_call_verify [of 5 "''permit-1''"] by auto
  obtain w where w: "cc_verify (ex_call ''permit-2'' 6) = Inr w" "vr_valid w"
    using ex_call_verify [of 6 "''permit-2''"] by auto
  have i: "ad_instant (ex_admission pid n r) = of_int (dt_us ex_clock + n * 1000000) / 1000000" for pid n r
    by (simp add: ad_instant_def ad_now_def ex_admission_def ex_call_def timestamp_def seconds_def)
  have g: "ad_instant (ex_admission ''permit-2'' 6 (1 / 10)) - ad_instant (ex_admission ''permit-1'' 5 (1 / 10)) = 1"
    by (simp add: i diff_divide_distrib add_divide_distrib)
  have id: "ad_permit_id (ex_admission pid n r) = pid" "ad_consume (ex_admission pid n r) = ex_call pid n"
    "ad_action_key (ex_admission pid n r) = ''example.com''" "ad_max_rps (ex_admission pid n r) = r" for pid n r
    by (simp_all add: ad_permit_id_def ex_admission_def)
  show ?thesis
    using g v w
    by (simp add: runtime_consume_def admit_worker_action_def id runtime_permit_status_def
        rate_and_consume_def prune_rates_def latest_rate_def insert_permit_def Let_def)
qed

text \<open>
  C21: the file limiter and the database limiter decide alike: for stores that hold the same stamps inside the window, at
  every instant from then on, the file grants a slot exactly when the database admits a permit it has not seen, refuses
  it with the same delay otherwise, and the stores still hold the same stamps.
\<close>

theorem rate_limiters_agree:
  assumes "rates_match T st (rd_rates db)" "T \<le> timestamp (ad_now a)" "0 < ad_max_rps a"
    and "dict_get (rd_permits db) (ad_permit_id a) = None"
  shows "\<exists>granted wait st'.
    acquire_rate_slot (Parsed st) (ad_action_key a) (ad_max_rps a) (Some (ad_now a)) clock = (Inr (granted, wait), Parsed st') \<and>
    (if granted
     then \<exists>db'. rate_and_consume a v db = Inr (Inr db') \<and> rates_match (timestamp (ad_now a)) st' (rd_rates db')
     else rate_and_consume a v db = Inr (Inl wait) \<and> rates_match (timestamp (ad_now a)) st' (rd_rates db))"
proof -
  let ?t = "timestamp (ad_now a)" and ?k = "ad_action_key a"
  let ?recent = "filter (\<lambda>x. ?t - 1 < x) (file_stamps st ?k)"
  have i: "ad_instant a = ?t" by (simp add: ad_instant_def)
  have same: "db_stamps (prune_rates ?k (?t - 1) (rd_rates db)) ?k = ?recent"
    using assms(1,2) by (simp add: db_stamps_prune rates_match_def)
  have ins: "insert_permit (db\<lparr>rd_rates := r\<rparr>) (ad_permit_id a) row = Inr (db\<lparr>rd_rates := r,
      rd_permits := dict_set (rd_permits db) (ad_permit_id a) row\<rparr>)" for r row
    using assms(4) by (simp add: insert_permit_def)
  note added = rates_match_added [OF assms(1,2), of ?k ?t] and pruned = rates_match_pruned [OF assms(1,2), of ?k]
  show ?thesis
  proof (cases ?recent)
    case Nil
    with assms(3) added ins same i show ?thesis
      by (auto simp: acquire_rate_slot_def read_rates_def file_stamps_def rate_and_consume_def latest_rate_stamps Let_def)
  next
    case (Cons x xs)
    have l: "latest_rate ?k (prune_rates ?k (?t - 1) (rd_rates db)) = Some (foldl max x xs)"
      by (simp add: latest_rate_stamps same Cons)
    show ?thesis
    proof (cases "?t - foldl max x xs < 1 / ad_max_rps a")
      case True
      with Cons assms(3) pruned l i show ?thesis
        by (auto simp: acquire_rate_slot_def read_rates_def file_stamps_def rate_and_consume_def Let_def)
    next
      case False
      with Cons assms(3) added l ins i show ?thesis
        by (auto simp: acquire_rate_slot_def read_rates_def file_stamps_def rate_and_consume_def Let_def)
    qed
  qed
qed

theorem rate_limiters_agree_witness:
  "\<exists>granted wait st' :: rate_state. acquire_rate_slot (Parsed \<lparr>rl_timestamps = []\<rparr>) ''example.com'' 1 (Some (ad_now (ex_admission ''p'' 5 1))) ex_clock =
     (Inr (granted, wait), Parsed st')"
proof -
  have a: "ad_action_key (ex_admission ''p'' 5 1) = ''example.com''" "ad_max_rps (ex_admission ''p'' 5 1) = 1"
    by (simp_all add: ex_admission_def)
  have r: "rates_match (timestamp (ad_now (ex_admission ''p'' 5 1))) \<lparr>rl_timestamps = []\<rparr> (rd_rates \<lparr>rd_permits = [], rd_rates = []\<rparr>)"
    by (simp add: rates_match_empty)
  have p: "(0::rat) < 1" "dict_get (rd_permits \<lparr>rd_permits = [], rd_rates = []\<rparr>) (ad_permit_id (ex_admission ''p'' 5 1)) = None"
    by simp_all
  from rate_limiters_agree [OF r order_refl, unfolded a, OF p, of ex_clock] show ?thesis by blast
qed

end
