(* ===== verification/ExecutionTrace.thy ===== *)
theory ExecutionTrace
  imports HashChain Files
begin

text \<open>
  \<open>src/astp/execution_trace.py\<close>: the trace of what a session executed, a JSON-lines file
  linked by digest. Unlike the audit log it reads only the last line when it appends, takes
  no lock, and starts with no previous digest (\<open>None\<close>) instead of a genesis constant.
\<close>

record trace_event =
  te_sequence :: int
  te_occurred_at :: datetime
  te_event :: string
  te_queue_id :: "string option"
  te_permit_id :: "string option"
  te_evidence_id :: "string option"
  te_message :: "string option"
  te_previous_hash :: "string option"
  te_event_hash :: string

definition trace_body :: "trace_event \<Rightarrow> json" where
  "trace_body r = JObj
     [(''sequence'', json_int (te_sequence r)), (''occurred_at'', JStr (json_datetime (te_occurred_at r))),
      (''event'', JStr (te_event r)), (''queue_id'', json_opt JStr (te_queue_id r)),
      (''permit_id'', json_opt JStr (te_permit_id r)), (''evidence_id'', json_opt JStr (te_evidence_id r)),
      (''message'', json_opt JStr (te_message r)),
      (''previous_hash'', json_opt JStr (te_previous_hash r))]"

definition trace_hash :: "json \<Rightarrow> string" where
  "trace_hash payload = sha256_hex (canonical_json payload)"

record trace_args =
  ta_event :: string
  ta_queue_id :: "string option"
  ta_permit_id :: "string option"
  ta_evidence_id :: "string option"
  ta_message :: "string option"
  ta_now :: "datetime option"

text \<open>The record of an event with its number and link, and the digest of its body.\<close>

definition preliminary_event :: "trace_args \<Rightarrow> datetime \<Rightarrow> int \<Rightarrow> string option \<Rightarrow> trace_event" where
  "preliminary_event a clock n p =
     \<lparr>te_sequence = n, te_occurred_at = or_else (ta_now a) clock, te_event = ta_event a,
      te_queue_id = ta_queue_id a, te_permit_id = ta_permit_id a, te_evidence_id = ta_evidence_id a,
      te_message = ta_message a, te_previous_hash = p, te_event_hash = ''pending''\<rparr>"

definition seal_event :: "trace_args \<times> datetime \<Rightarrow> int \<Rightarrow> string option \<Rightarrow> trace_event" where
  "seal_event d n p =
     (let row = preliminary_event (fst d) (snd d) n p
      in row\<lparr>te_event_hash := trace_hash (trace_body row)\<rparr>)"

definition append_trace_event ::
  "trace_event log_file \<Rightarrow> trace_args \<Rightarrow> datetime \<Rightarrow> (trace_event log_file, trace_event) outcome" where
  "append_trace_event f a clock =
     (let lines = log_lines f
      in if lines = [] then
           let row = seal_event (a, clock) 1 None in (Inr row, append_line f row)
         else
           (case last lines of
              Line previous \<Rightarrow>
                let row = seal_event (a, clock) (te_sequence previous + 1) (Some (te_event_hash previous))
                in (Inr row, append_line f row)
            | Malformed m \<Rightarrow> (Inl (ValueError m), f)
            | Blank \<Rightarrow> (Inl (ValueError []), f)))"

fun verify_trace_lines :: "string option \<Rightarrow> int \<Rightarrow> trace_event log_line list \<Rightarrow> bool result" where
  "verify_trace_lines previous_hash expected_sequence [] = Inr True"
| "verify_trace_lines previous_hash expected_sequence (Blank # ls) =
     verify_trace_lines previous_hash expected_sequence ls"
| "verify_trace_lines previous_hash expected_sequence (Malformed m # ls) = Inl (ValueError m)"
| "verify_trace_lines previous_hash expected_sequence (Line row # ls) =
     (if te_sequence row \<noteq> expected_sequence \<or> te_previous_hash row \<noteq> previous_hash then Inr False
      else if trace_hash (trace_body row) \<noteq> te_event_hash row then Inr False
      else verify_trace_lines (Some (te_event_hash row)) (expected_sequence + 1) ls)"

definition verify_execution_trace :: "trace_event log_file \<Rightarrow> bool result" where
  "verify_execution_trace f =
     (case f of
        None \<Rightarrow> Inl (OSError [Txt ''No such file or directory''])
      | Some ls \<Rightarrow> verify_trace_lines None 1 ls)"

section \<open>The trace is a hash chain\<close>

lemma trace_body_hash [simp]: "trace_body (r\<lparr>te_event_hash := h\<rparr>) = trace_body r"
  by (simp add: trace_body_def)

lemma trace_hash_digest: "trace_hash j = json_digest j"
  by (simp add: trace_hash_def json_digest_def)

lemma trace_body_wf: "json_wf (trace_body r)"
  by (simp add: trace_body_def)

interpretation trace_chain:
  hash_chain te_sequence te_previous_hash te_event_hash trace_body Some None seal_event "\<lambda>_. True"
proof (unfold_locales, goal_cases)
  case (5 r r')
  have "map_option sort_keys (json_get ''previous_hash'' (trace_body r)) =
        map_option sort_keys (json_get ''previous_hash'' (trace_body r'))"
    by (intro canonical_json_member 5 trace_body_wf) (simp_all add: trace_body_def)
  then show ?case by (simp add: trace_body_def)
qed (simp_all add: seal_event_def preliminary_event_def Let_def trace_hash_digest trace_body_def)

abbreviation trace_valid :: "trace_event list \<Rightarrow> bool" where
  "trace_valid \<equiv> chain_valid te_sequence te_previous_hash te_event_hash trace_body Some None 1"

text \<open>The records of a trace without malformed lines.\<close>

definition trace_rows :: "trace_event log_file \<Rightarrow> trace_event list" where
  "trace_rows f = concat (map (\<lambda>l. case l of Line r \<Rightarrow> [r] | _ \<Rightarrow> []) (log_lines f))"

lemma trace_rows_append [simp]: "trace_rows (append_line f r) = trace_rows f @ [r]"
  by (simp add: trace_rows_def)

lemma verify_trace_lines_chain:
  "verify_trace_lines p n ls = Inr True \<longleftrightarrow>
     (\<forall>m. Malformed m \<notin> set ls) \<and>
     chain_valid te_sequence te_previous_hash te_event_hash trace_body Some p n
       (concat (map (\<lambda>l. case l of Line r \<Rightarrow> [r] | _ \<Rightarrow> []) ls))"
  by (induction p n ls rule: verify_trace_lines.induct) (auto simp: trace_hash_digest)

lemma concat_lines_filter:
  "concat (map (\<lambda>l. case l of Line r \<Rightarrow> [r] | _ \<Rightarrow> []) (filter (\<lambda>l. l \<noteq> Blank) ls)) =
   concat (map (\<lambda>l. case l of Line r \<Rightarrow> [r] | _ \<Rightarrow> []) ls)"
  by (induction ls) auto

lemma verify_execution_trace_iff:
  "verify_execution_trace f = Inr True \<longleftrightarrow>
     (\<exists>ls. f = Some ls \<and> (\<forall>m. Malformed m \<notin> set ls)) \<and> trace_valid (trace_rows f)"
  by (cases f)
    (auto simp: verify_execution_trace_def verify_trace_lines_chain trace_rows_def concat_lines_filter)

lemma last_line_rows:
  assumes "log_lines f \<noteq> []" "last (log_lines f) = Line r"
  shows "trace_rows f \<noteq> [] \<and> last (trace_rows f) = r"
  using assms by (cases "log_lines f" rule: rev_cases) (auto simp: trace_rows_def)

lemma append_trace_event_seal:
  assumes "append_trace_event f a clock = (Inr r, f')" "\<forall>ls m. f = Some ls \<longrightarrow> Malformed m \<notin> set ls"
  shows "f' = append_line f r \<and>
    r = seal_event (a, clock) (next_seq te_sequence (trace_rows f)) (next_link te_event_hash Some None (trace_rows f))"
proof (cases "log_lines f = []")
  case True
  with assms(1) show ?thesis
    by (auto simp: append_trace_event_def Let_def next_seq_def next_link_def trace_rows_def)
next
  case False
  then obtain q where q: "last (log_lines f) = Line q"
    using assms(1) by (cases "last (log_lines f)") (auto simp: append_trace_event_def)
  from last_line_rows [OF False q] False q assms(1) show ?thesis
    by (auto simp add: append_trace_event_def Let_def next_seq_def next_link_def)
qed

text \<open>Appending to a verified trace succeeds and yields a verified trace one event longer.\<close>

lemma append_trace_event_valid:
  assumes "verify_execution_trace f = Inr True"
  shows "\<exists>r f'. append_trace_event f a clock = (Inr r, f') \<and>
     verify_execution_trace f' = Inr True \<and> trace_rows f' = trace_rows f @ [r]"
proof -
  from assms obtain ls where ls: "f = Some ls" "\<forall>m. Malformed m \<notin> set ls"
    and v: "trace_valid (trace_rows f)" by (auto simp: verify_execution_trace_iff)
  have "\<exists>r f'. append_trace_event f a clock = (Inr r, f')"
  proof (cases "log_lines f = []")
    case True
    then show ?thesis by (simp add: append_trace_event_def Let_def)
  next
    case False
    then have "last (log_lines f) \<in> set (log_lines f)" by simp
    with ls obtain q where "last (log_lines f) = Line q"
      by (cases "last (log_lines f)") auto
    with False show ?thesis by (simp add: append_trace_event_def Let_def)
  qed
  then obtain r f' where a: "append_trace_event f a clock = (Inr r, f')" by blast
  from append_trace_event_seal [OF a] ls have r: "f' = append_line f r"
    "r = seal_event (a, clock) (next_seq te_sequence (trace_rows f)) (next_link te_event_hash Some None (trace_rows f))"
    by auto
  have "trace_valid (trace_rows f')"
    unfolding r(1) using trace_chain.append_valid [OF v] r(2) by simp
  moreover have "\<exists>ls'. f' = Some ls' \<and> (\<forall>m. Malformed m \<notin> set ls')"
    using ls r(1) by simp
  ultimately show ?thesis
    using a r(1) by (auto simp: verify_execution_trace_iff)
qed

end
