(* ===== verification/SessionJournal.thy ===== *)
theory SessionJournal
  imports HashChain Files
begin

text \<open>
  \<open>src/astp/session_journal.py\<close>: the journal of session events, hash-linked like the audit
  log but numbered by the length of the file and digested over Python values, so the
  timestamp enters as \<open>str(datetime)\<close>.
\<close>

definition JOURNAL_GENESIS :: string where
  "JOURNAL_GENESIS = replicate 64 (CHR ''0'')"

record journal_entry =
  je_sequence :: int
  je_session_id :: string
  je_event :: string
  je_created_at :: datetime
  je_previous_hash :: string
  je_entry_hash :: string

text \<open>\<open>str(datetime)\<close>: the ISO form with a space between date and time.\<close>

definition datetime_str :: "datetime \<Rightarrow> string" where
  "datetime_str d = map (\<lambda>c. if c = CHR ''T'' then CHR '' '' else c) (isoformat d)"

definition journal_body :: "journal_entry \<Rightarrow> json" where
  "journal_body e = JObj
     [(''sequence'', json_int (je_sequence e)), (''session_id'', JStr (je_session_id e)),
      (''event'', JStr (je_event e)), (''created_at'', JStr (datetime_str (je_created_at e))),
      (''previous_hash'', JStr (je_previous_hash e))]"

definition journal_digest :: "json \<Rightarrow> string" where
  "journal_digest payload = sha256_hex (canonical_json payload)"

fun read_journal_lines :: "journal_entry log_line list \<Rightarrow> journal_entry list result" where
  "read_journal_lines [] = Inr []"
| "read_journal_lines (Blank # ls) = read_journal_lines ls"
| "read_journal_lines (Malformed m # ls) = Inl (ValueError m)"
| "read_journal_lines (Line e # ls) = rbind (read_journal_lines ls) (\<lambda>es. Inr (e # es))"

definition read_session_journal :: "journal_entry log_file \<Rightarrow> journal_entry list result" where
  "read_session_journal f = (case f of None \<Rightarrow> Inr [] | Some ls \<Rightarrow> read_journal_lines ls)"

definition seal_journal :: "string \<times> string \<times> datetime \<Rightarrow> int \<Rightarrow> string \<Rightarrow> journal_entry" where
  "seal_journal d n p =
     (let (session_id, event, now) = d;
          partial = \<lparr>je_sequence = n, je_session_id = session_id, je_event = event,
                     je_created_at = now, je_previous_hash = p, je_entry_hash = []\<rparr>
      in partial\<lparr>je_entry_hash := journal_digest (journal_body partial)\<rparr>)"

definition append_session_event ::
  "journal_entry log_file \<Rightarrow> string \<Rightarrow> string \<Rightarrow> datetime \<Rightarrow> (journal_entry log_file, journal_entry) outcome" where
  "append_session_event f session_id event clock =
     obind (olift (read_session_journal f) f) (\<lambda>entries f.
       let previous = (if entries = [] then JOURNAL_GENESIS else je_entry_hash (last entries));
           entry = seal_journal (session_id, event, clock) (int (length entries) + 1) previous
       in (Inr entry, append_line f entry))"

fun verify_journal_entries :: "string \<Rightarrow> int \<Rightarrow> journal_entry list \<Rightarrow> bool" where
  "verify_journal_entries previous n [] = True"
| "verify_journal_entries previous n (e # es) =
     (if je_sequence e \<noteq> n \<or> je_previous_hash e \<noteq> previous then False
      else if journal_digest (journal_body e) \<noteq> je_entry_hash e then False
      else verify_journal_entries (je_entry_hash e) (n + 1) es)"

definition verify_session_journal :: "journal_entry log_file \<Rightarrow> bool result" where
  "verify_session_journal f =
     rbind (read_session_journal f) (\<lambda>es. Inr (verify_journal_entries JOURNAL_GENESIS 1 es))"

section \<open>The journal is a hash chain\<close>

lemma journal_body_hash [simp]: "journal_body (e\<lparr>je_entry_hash := h\<rparr>) = journal_body e"
  by (simp add: journal_body_def)

lemma journal_digest_json: "journal_digest j = json_digest j"
  by (simp add: journal_digest_def json_digest_def)

lemma journal_body_wf: "json_wf (journal_body e)"
  by (simp add: journal_body_def)

interpretation journal_chain:
  hash_chain je_sequence je_previous_hash je_entry_hash journal_body "\<lambda>h. h" JOURNAL_GENESIS
    seal_journal "\<lambda>_. True"
proof (unfold_locales, goal_cases)
  case (5 r r')
  have "map_option sort_keys (json_get ''previous_hash'' (journal_body r)) =
        map_option sort_keys (json_get ''previous_hash'' (journal_body r'))"
    by (intro canonical_json_member 5 journal_body_wf) (simp_all add: journal_body_def)
  then show ?case by (simp add: journal_body_def)
qed (auto simp: seal_journal_def Let_def journal_digest_json journal_body_def split: prod.splits)

abbreviation journal_valid :: "journal_entry list \<Rightarrow> bool" where
  "journal_valid \<equiv>
     chain_valid je_sequence je_previous_hash je_entry_hash journal_body (\<lambda>h. h) JOURNAL_GENESIS 1"

lemma verify_journal_chain:
  "verify_journal_entries p n es \<longleftrightarrow>
   chain_valid je_sequence je_previous_hash je_entry_hash journal_body (\<lambda>h. h) p n es"
  by (induction es arbitrary: p n) (auto simp: journal_digest_json)

lemma read_journal_append:
  "read_journal_lines ls = Inr es \<Longrightarrow> read_journal_lines (ls @ [Line e]) = Inr (es @ [e])"
  by (induction ls arbitrary: es rule: read_journal_lines.induct) (auto simp: result_simps)

lemma append_session_event_valid:
  assumes "verify_session_journal f = Inr True"
  shows "\<exists>e f' es. append_session_event f sid event clock = (Inr e, f') \<and>
    read_session_journal f = Inr es \<and> read_session_journal f' = Inr (es @ [e]) \<and>
    je_session_id e = sid \<and> je_event e = event \<and> verify_session_journal f' = Inr True"
proof -
  from assms obtain es where es: "read_session_journal f = Inr es" "journal_valid es"
    by (auto simp: verify_session_journal_def result_simps verify_journal_chain)
  let ?e = "seal_journal (sid, event, clock) (next_seq je_sequence es)
      (next_link je_entry_hash (\<lambda>h. h) JOURNAL_GENESIS es)"
  have n: "next_seq je_sequence es = int (length es) + 1"
    using journal_chain.valid_next_seq [OF es(2)] by simp
  have a: "append_session_event f sid event clock = (Inr ?e, append_line f ?e)"
    using es(1) n by (simp add: append_session_event_def next_link_def Let_def)
  have r: "read_session_journal (append_line f ?e) = Inr (es @ [?e])"
    using es(1) by (cases f) (auto simp: read_session_journal_def read_journal_append)
  have "verify_session_journal (append_line f ?e) = Inr True"
    using r journal_chain.append_valid [OF es(2)]
    by (simp add: verify_session_journal_def verify_journal_chain)
  moreover have "je_session_id ?e = sid" "je_event ?e = event"
    by (simp_all add: seal_journal_def Let_def)
  ultimately show ?thesis using a r es(1) by blast
qed

end
