(* ===== verification/EvidenceProperties.thy ===== *)
theory EvidenceProperties
  imports AuditLog ExecutionTrace EvidenceStore SessionJournal
begin

text \<open>
  The properties of the hash-linked journals: the audit log, the execution trace, the
  evidence manifest and the session journal. Each rests on the facts the interpretation of
  \<open>hash_chain\<close> provides for the journal, so nothing is assumed of SHA-256: where two texts
  with one digest would be a forgery, the statement exhibits them.
\<close>

text \<open>
  Appending an audit event to a log that verifies yields a log that verifies, with the old records as
  its prefix and the new one numbered and linked behind them.
\<close>

theorem audit_append_verifies:
  assumes "verify_audit_chain f = Inr (True, m)"
  shows "\<exists>rs r f' m'. append_audit_event f event permit_id details now clock = (Inr r, f') \<and>
    read_audit_records f = Inr rs \<and> read_audit_records f' = Inr (rs @ [r]) \<and>
    verify_audit_chain f' = Inr (True, m') \<and>
    au_sequence r = int (length rs) + 1 \<and> au_event r = event \<and> au_permit_id r = permit_id"
proof -
  from assms obtain rs where rs: "read_audit_records f = Inr rs" "audit_valid rs"
    by (auto simp: verify_audit_chain_iff)
  then obtain r f' where a: "append_audit_event f event permit_id details now clock = (Inr r, f')"
    using append_audit_event_total by blast
  from append_audit_event_seal [OF a] rs(1) have r: "read_audit_records f' = Inr (rs @ [r])"
    "r = seal_audit \<lparr>ae_event = event, ae_permit_id = permit_id, ae_details = or_else details [],
                     ae_timestamp = or_else now clock\<rparr>
           (next_seq au_sequence rs) (next_link au_record_hash (\<lambda>h. h) GENESIS_HASH rs)" by auto
  have "audit_valid (rs @ [r])" unfolding r(2) by (rule audit_chain.append_valid [OF rs(2)])
  moreover have "au_sequence r = int (length rs) + 1" "au_event r = event" "au_permit_id r = permit_id"
    using audit_chain.valid_next_seq [OF rs(2)] by (simp_all add: r(2) seal_audit_def Let_def)
  ultimately show ?thesis using a rs(1) r(1) by (auto simp: verify_audit_chain_iff)
qed

theorem audit_append_verifies_witness:
  "\<exists>r f'. append_audit_event None ''permit.issued'' (Some ''permit-1'') None None (utc 0) = (Inr r, f') \<and>
     au_sequence r = 1"
proof -
  have "verify_audit_chain None = Inr (True, [Txt ''Audit chain valid ('', Num 0, Txt '' records).''])"
    by (simp add: verify_audit_chain_def read_audit_records_def)
  from audit_append_verifies [OF this, of "''permit.issued''" "Some ''permit-1''" None None "utc 0"]
  show ?thesis by (auto simp: read_audit_records_def)
qed

text \<open>The first record of an empty log.\<close>

lemma first_audit_record:
  obtains r f' where "read_audit_records f' = Inr [r]" "audit_valid [r]" "audit_ok r"
proof -
  obtain r f' where a: "append_audit_event None ''permit.issued'' None None None (utc 0) = (Inr r, f')"
    using append_audit_event_total [of None "[]" "''permit.issued''" None None None "utc 0"]
    by (auto simp: read_audit_records_def)
  have "verify_audit_chain None = Inr (True, [Txt ''Audit chain valid ('', Num 0, Txt '' records).''])"
    by (simp add: verify_audit_chain_def read_audit_records_def)
  from append_audit_event_valid [OF a this] append_audit_event_seal [OF a] that show ?thesis
    by (auto simp: read_audit_records_def audit_ok_def seal_audit_def Let_def)
qed

text \<open>
  C8: tamper evidence: two verifying audit logs of the same length that end in the same record hash (the
  hash an operator noted) have the same canonical records, or contain, at one position, two different
  record texts with the same SHA-256 digest.
\<close>

theorem audit_tamper_evident:
  assumes "verify_audit_chain f = Inr (True, m)" "verify_audit_chain f' = Inr (True, m')"
    and "read_audit_records f = Inr rs" "read_audit_records f' = Inr rs'"
    and "length rs = length rs'" "rs \<noteq> []" "au_record_hash (last rs) = au_record_hash (last rs')"
    and "list_all audit_ok rs" "list_all audit_ok rs'"
  shows "map (\<lambda>r. canonical_json (audit_body r)) rs = map (\<lambda>r. canonical_json (audit_body r)) rs' \<or>
    chains_collide audit_body rs rs'"
proof -
  have "audit_valid rs" "audit_valid rs'" using assms(1-4) by (auto simp: verify_audit_chain_iff)
  from audit_chain.same_head_same_bodies [OF this assms(5-7)] assms(8,9) show ?thesis
    by (auto simp: list_all_iff)
qed

theorem audit_tamper_evident_witness:
  "\<exists>r :: audit_record. chains_collide audit_body [r] [r] \<or>
     map (\<lambda>r. canonical_json (audit_body r)) [r] = map (\<lambda>r. canonical_json (audit_body r)) [r]"
proof -
  obtain r f' where v: "read_audit_records f' = Inr [r]" "audit_valid [r]" "audit_ok r"
    by (rule first_audit_record)
  then obtain m where m: "verify_audit_chain f' = Inr (True, m)" by (auto simp: verify_audit_chain_iff)
  show ?thesis
    using audit_tamper_evident [OF m m v(1) v(1) refl _ refl] v(3) by auto
qed

text \<open>
  The chain does not detect truncation: removing the last records of a verifying log leaves a log
  that verifies.
\<close>

theorem audit_truncation_undetected:
  assumes "verify_audit_chain (Some (map Line rs)) = Inr (True, m)"
  shows "verify_audit_chain (Some (map Line (take k rs))) =
    Inr (True, [Txt ''Audit chain valid ('', Num (int (length (take k rs))), Txt '' records).''])"
proof -
  have read: "read_audit_records (Some (map Line xs)) = Inr xs" for xs
  proof -
    have "read_log e n (map Line xs) = Inr xs" for e n by (induction xs arbitrary: n) simp_all
    then show ?thesis by (simp add: read_audit_records_def)
  qed
  from assms have "audit_valid rs" by (auto simp: verify_audit_chain_iff read)
  from audit_chain.prefix_valid [OF this] show ?thesis by (simp add: verify_audit_chain_iff read)
qed

theorem audit_truncation_undetected_witness:
  "\<exists>r m. verify_audit_chain (Some (map Line (take 0 [r]))) = Inr (True, m)"
proof -
  obtain r :: audit_record and f' where v: "audit_valid [r]" by (rule first_audit_record)
  have "verify_audit_chain (Some (map Line [r])) =
      Inr (True, [Txt ''Audit chain valid ('', Num 1, Txt '' records).''])"
    using v by (auto simp: verify_audit_chain_iff read_audit_records_def)
  from audit_truncation_undetected [OF this, of 0] show ?thesis by blast
qed

text \<open>
  Registering an artifact in a verifying evidence manifest yields a verifying manifest whose
  new entry carries the digest of the artifact's contents; the manifest stops verifying as soon as
  the contents on disk have another digest.
\<close>

theorem evidence_register_verifies:
  assumes "register_evidence fs path a uuid clock f = (Inr e, f')"
    and "verify_evidence_manifest fs True f = Inr (True, m)"
  shows "(\<exists>m'. verify_evidence_manifest fs True f' = Inr (True, m')) \<and>
    ee_artifact_path e = path \<and> Some (ee_artifact_sha256 e) = map_option sha256_file (fs path) \<and>
    (sha256_file tampered = ee_artifact_sha256 e \<or>
     \<not> (\<exists>m'. verify_evidence_manifest (fs(path \<mapsto> tampered)) True f' = Inr (True, m')))"
proof -
  from register_evidence_seal [OF assms(1)] obtain es contents where es:
    "read_manifest f' = Inr (es @ [e])" "fs path = Some contents"
    and e: "e = seal_entry
        \<lparr>es_path = path, es_contents = contents, es_args = a, es_uuid = uuid, es_clock = clock\<rparr>
        (next_seq ee_sequence es) (next_link ee_entry_hash (\<lambda>h. h) EVIDENCE_GENESIS es)"
    by blast
  have p: "ee_artifact_path e = path" "ee_artifact_sha256 e = sha256_file contents" by (simp_all add: e)
  have "sha256_file tampered = ee_artifact_sha256 e"
    if "verify_evidence_manifest (fs(path \<mapsto> tampered)) True f' = Inr (True, m')" for m'
    using that es(1) p(1) by (auto simp: verify_evidence_manifest_iff artifacts_match_def)
  with register_evidence_valid [OF assms] p es(2) show ?thesis by auto
qed

theorem evidence_register_verifies_witness:
  "\<exists>e f' m'. register_evidence (\<lambda>p. if p = ''a.txt'' then Some ''body'' else None) ''a.txt''
      \<lparr>ea_type = ''http'', ea_id = None, ea_permit_id = None, ea_action_id = None,
       ea_sensitivity = INTERNAL, ea_now = None\<rparr> ''u1'' (utc 0) None = (Inr e, f') \<and>
     verify_evidence_manifest (\<lambda>p. if p = ''a.txt'' then Some ''body'' else None) True f' = Inr (True, m')"
proof -
  let ?fs = "\<lambda>p. if p = ''a.txt'' then Some ''body'' else None"
  let ?a = "\<lparr>ea_type = ''http'', ea_id = None, ea_permit_id = None, ea_action_id = None,
       ea_sensitivity = INTERNAL, ea_now = None\<rparr>"
  have v: "verify_evidence_manifest ?fs True None =
      Inr (True, [Txt ''Evidence manifest valid ('', Num 0, Txt '' records).''])"
    by (simp add: verify_evidence_manifest_def read_manifest_def)
  obtain e f' where r: "register_evidence ?fs ''a.txt'' ?a ''u1'' (utc 0) None = (Inr e, f')"
    by (simp add: register_evidence_def read_manifest_def mk_evidence_entry_def preliminary_created
        time_simps Let_def)
  from evidence_register_verifies [OF r v] r show ?thesis by blast
qed

end
