(* ===== verification/SessionProperties.thy ===== *)
theory SessionProperties
  imports Examples Planner SessionJournal
begin

text \<open>
  The properties of the session: the circuit breaker, the loop that executes a work queue,
  the plan it is built from and the fair interleaving of several plans.
\<close>

text \<open>
  A fresh circuit breaker counts the failures since the last success, and is open exactly when they
  have reached its limit.
\<close>

theorem breaker_counts_trailing_failures:
  assumes "mk_breaker m = Inr b"
  shows "br_failures (foldl record_circuit_result b rs) = int (trailing_failures rs) \<and>
    (br_state (foldl record_circuit_result b rs) = OPEN \<longleftrightarrow> m \<le> int (trailing_failures rs))"
proof -
  from assms have "br_failures b = 0" "br_state b = CLOSED" "1 \<le> br_max b" "br_max b = m"
    by (auto simp: mk_breaker_def result_simps)
  with circuit_counts [of b rs] show ?thesis by simp
qed

theorem breaker_counts_trailing_failures_witness:
  "br_state (foldl record_circuit_result \<lparr>br_max = 2, br_failures = 0, br_state = CLOSED\<rparr>
     [True, False, True, True]) = OPEN"
  using breaker_counts_trailing_failures [of 2 "\<lparr>br_max = 2, br_failures = 0, br_state = CLOSED\<rparr>"
      "[True, False, True, True]"]
  by (simp add: mk_breaker_def trailing_failures_def)

text \<open>
  The controlled loop always returns, whatever the executor raises. It has executed a prefix of the queue, in
  order and one outcome per item; the ledger counted one action and one request per executed item
  (within the budgets), one error per failed one and one completion each, and only for this
  session; the reported number of requests is the number of outcomes; and before the last item
  the breaker was never open.
\<close>

theorem controlled_loop_accounts:
  assumes "tally ledger (le_session_id env) = (a, r, e, c)" "1 \<le> max_errors" "max_errors \<le> 100"
  shows "\<exists>result ledger' w' os. run_controlled_queue env items None max_errors ledger w = (Inr result, ledger', w') \<and>
    lr_outcomes result = os \<and> lr_requests_attempted result = int (length os) \<and>
    map so_queue_id os = map wi_queue_id (take (length os) items) \<and> length os \<le> length items \<and>
    tally ledger' (le_session_id env) =
      (a + int (length os), r + int (length os), e + int (count_rows (\<lambda>out. \<not> so_completed out) os),
       c + int (length os)) \<and>
    (os = [] \<or> (a + int (length os) \<le> le_max_actions env \<and> r + int (length os) \<le> le_max_requests env \<and>
       assert_policy_unchanged (le_snapshot env) (le_engagement env) (le_test env) = Inr ())) \<and>
    (\<forall>s. s = le_session_id env \<or> dict_get ledger' s = dict_get ledger s) \<and>
    (\<forall>k. 0 < k \<and> k < length os \<longrightarrow>
       int (trailing_failures (map (\<lambda>out. \<not> so_completed out) (take k os))) < max_errors)"
proof -
  let ?b = "\<lparr>br_max = max_errors, br_failures = 0, br_state = CLOSED\<rparr>"
  let ?st = "initial_state ?b ledger w"
  have b: "mk_breaker (max 1 max_errors) = Inr ?b" using assms by (simp add: mk_breaker_def max_def)
  obtain os st' where q: "queue_loop env 1 items ?st = (Inr (), st')" "executed_all env items ?st os st'"
    using queue_loop_spec by blast
  have count: "count_rows id (failures os) = count_rows (\<lambda>out. \<not> so_completed out) os"
    by (simp add: failures_def count_rows_def filter_map comp_def)
  have ex: "lp_outcomes st' = os" "length os \<le> length items"
      "map so_queue_id os = map wi_queue_id (take (length os) items)"
      "os = [] \<or> (a + int (length os) \<le> le_max_actions env \<and> r + int (length os) \<le> le_max_requests env \<and>
         assert_policy_unchanged (le_snapshot env) (le_engagement env) (le_test env) = Inr ())"
      "tally (lp_ledger st') (le_session_id env) =
        (a + int (length os), r + int (length os), e + int (count_rows id (failures os)), c + int (length os))"
      "\<forall>s. s = le_session_id env \<or> dict_get (lp_ledger st') s = dict_get ledger s"
      "\<forall>k. 0 < k \<and> k < length os \<longrightarrow> br_state (foldl record_circuit_result ?b (failures (take k os))) = CLOSED"
    using q(2) assms(1,2) unfolding executed_all_def by (auto simp: initial_state_def)
  have closed: "int (trailing_failures (map (\<lambda>out. \<not> so_completed out) (take k os))) < max_errors"
    if "0 < k" "k < length os" for k
    using ex(7) that circuit_counts [of ?b "failures (take k os)"] assms(2)
    by (simp add: failures_def)
  show ?thesis
    using q(1) ex closed by (simp add: run_controlled_queue_def b count)
qed

theorem controlled_loop_accounts_witness:
  "\<exists>result ledger' w' os. run_controlled_queue ex_loop [ex_item] None 3 [] () = (Inr result, ledger', w') \<and>
     lr_outcomes result = os \<and> length os \<le> 1"
  using controlled_loop_accounts [of "[]" ex_loop 0 0 0 0 3 "[ex_item]" "()"]
  by (auto simp: tally_def)

text \<open>A plan item never carries a permit.\<close>

lemma plan_entry_unpermitted:
  "plan_entry eng test args current clock k e = Inr i \<Longrightarrow> pi_requires_new_permit i \<and> pi_permit_id i = None"
  by (auto simp: plan_entry_def Let_def result_simps split: if_splits)

text \<open>
  An item of an observation plan is authorizable exactly when discovery left its target ready for policy
  and the policy engine allows the exact request of the item at the plan's instant; items are
  in registry order and every one needs a fresh permit.
\<close>

theorem plan_items_authorizable:
  assumes "build_observation_plan reg eng test args clock = Inr p" "j < length (tr_entries reg)"
  shows "length (pl_items p) = length (tr_entries reg) \<and>
    pi_target (pl_items p ! j) = en_canonical_target (tr_entries reg ! j) \<and>
    pi_requires_new_permit (pl_items p ! j) \<and> pi_permit_id (pl_items p ! j) = None \<and>
    (pi_status (pl_items p ! j) = AUTHORIZABLE \<longleftrightarrow>
       tc_safety (en_latest (tr_entries reg ! j)) = READY_FOR_POLICY \<and>
       (\<exists>r. authorize_test eng test
              (plan_request args (en_canonical_target (tr_entries reg ! j)) (or_else (pa_now args) clock)) clock = Inr r \<and>
            ar_decision r = ALLOW))"
proof -
  from assms(1) have p: "plan_entries eng test args (or_else (pa_now args) clock) clock 1 (tr_entries reg) = Inr (pl_items p)"
    by (auto simp: build_observation_plan_def Let_def result_simps split: if_splits)
  have e: "plan_entry eng test args (or_else (pa_now args) clock) clock (1 + j) (tr_entries reg ! j) = Inr (pl_items p ! j)"
    using plan_entries_nth [OF p] assms(2) by blast
  with plan_entries_nth [OF p] plan_entry_authorizable [OF e] plan_entry_target [OF e]
    plan_entry_unpermitted [OF e]
  show ?thesis by simp
qed

theorem plan_items_authorizable_witness:
  "\<exists>p. build_observation_plan ex_registry ex_engagement ex_plan_test ex_plan_args ex_clock = Inr p \<and>
     pi_requires_new_permit (pl_items p ! 0)"
proof -
  obtain p where p: "build_observation_plan ex_registry ex_engagement ex_plan_test ex_plan_args ex_clock = Inr p"
    using ex_plan by blast
  from plan_items_authorizable [OF p, of 0] p show ?thesis by (simp add: ex_registry_entries)
qed

text \<open>
  The work queue is the fair interleaving: its items are, up to \<open>max_items\<close>, the first items of the first
  \<open>max_active_programs\<close> plans that have any authorizable one, in plan order, then their second items, and
  so on until the plans are exhausted at offset \<open>n\<close>; nothing else is queued.
\<close>

theorem work_queue_interleaves:
  assumes "build_fair_work_queue plans max_active max_items now clock = Inr q"
    and "es = take (nat max_active) (filter (\<lambda>(p, rows). rows \<noteq> [])
        (map (\<lambda>p. (p, filter (\<lambda>i. pi_status i = AUTHORIZABLE) (pl_items p))) plans))"
    and "column n es = []"
  shows "map wi_key (wq_items q) = take (nat max_items) (concat (map (\<lambda>j. column j es) [0..<n]))"
proof -
  from assms(1) have m: "0 < max_active" "1 \<le> max_items"
    and q: "wq_items q = fair_queue max_items 0 (eligible_plans max_active plans []) []"
    by (auto simp: build_fair_work_queue_def split: if_splits)
  have "eligible_plans max_active plans [] = es"
    using eligible_plans_take [of "[]" max_active plans] m by (simp add: assms(2))
  with fair_queue_spec [of "[]" max_items n es 0] assms(3) m q show ?thesis by simp
qed

theorem work_queue_interleaves_witness:
  "\<exists>p q. build_fair_work_queue [p] 1 10 None ex_clock = Inr q \<and>
     map wi_key (wq_items q) = [(''eng-1'', ''headers'', pi_id (hd (pl_items p)), ''https://example.com/'')]"
proof -
  obtain p :: plan and i :: plan_item where p: "pl_items p = [i]" "pi_status i = AUTHORIZABLE" "pi_target i = ''https://example.com/''"
      "pl_engagement_id p = ''eng-1''" "pl_test_id p = ''headers''"
    using ex_plan by auto
  obtain q where q: "build_fair_work_queue [p] 1 10 None ex_clock = Inr q"
    by (simp add: build_fair_work_queue_def)
  have "map wi_key (wq_items q) = [(''eng-1'', ''headers'', pi_id i, ''https://example.com/'')]"
    using work_queue_interleaves [OF q refl, of 1] p
    by (simp add: column_def wi_key_def queue_item_def)
  with q p show ?thesis by (intro exI [of _ p] exI [of _ q]) simp
qed

end
