(* ===== verification/Orchestrator.thy ===== *)
theory Orchestrator
  imports DetectorExecution
begin

text \<open>
  \<open>src/astp/orchestrator.py\<close> and \<open>orchestrator_manifest.py\<close>: the durable journal the detector
  service reports to, and the campaign operations (start, stop, resume, execute a batch,
  finalise). The journal interprets \<open>run_journal\<close>. \<open>live-status.json\<close> is the snapshot it
  holds; the text of the campaign report is not modelled.
\<close>

section \<open>The journal\<close>

definition request_parts :: "execution_request \<Rightarrow> (string \<times> string option) list" where
  "request_parts req =
     [(''campaign_id'', Some (xr_campaign_id req)), (''program_id'', Some (xr_program_id req)),
      (''program_revision'', Some (xr_program_revision req)),
      (''detector_id'', Some (cap_detector_id (xr_detector req))), (''target'', Some (xr_target req)),
      (''attempt'', Some (int_str (xr_attempt req)))]"

definition journal_create_action ::
  "datetime \<Rightarrow> execution_request \<Rightarrow> string \<Rightarrow> orch_db \<Rightarrow> (orch_db, unit) outcome" where
  "journal_create_action now req aid db =
     (case create_action db aid (xr_campaign_id req) (xr_program_id req)
             (canonical_idempotency_key (request_parts req)) of
        (False, db) \<Rightarrow> (value_error ''detector action already exists'', db)
      | (True, db) \<Rightarrow>
          obind (transition_action db aid A_UNPLANNED None None now) (\<lambda>_ db.
          obind (transition_action db aid A_PLANNED None None now) (\<lambda>_ db.
          transition_action db aid A_AUTHORIZED None None now)))"

definition journal_authorization ::
  "datetime \<Rightarrow> execution_request \<Rightarrow> string \<Rightarrow> string \<Rightarrow> orch_db \<Rightarrow> (orch_db, unit) outcome" where
  "journal_authorization now req aid permit_id db =
     obind (transition_action db aid A_PERMIT_ISSUED (Some permit_id) None now) (\<lambda>_ db.
       increment db (xr_campaign_id req) ''permits_issued'' 1)"

definition journal_starting ::
  "datetime \<Rightarrow> execution_request \<Rightarrow> string \<Rightarrow> orch_db \<Rightarrow> (orch_db, unit) outcome" where
  "journal_starting now req aid db =
     obind (transition_action db aid A_STARTING None None now) (\<lambda>_ db.
     obind (transition_action db aid A_EXECUTING None None now) (\<lambda>_ db.
     obind (increment db (xr_campaign_id req) ''permits_consumed'' 1) (\<lambda>_ db.
     obind (increment db (xr_campaign_id req) ''network_actions'' 1) (\<lambda>_ db.
     increment db (xr_campaign_id req) ''detector_runs_started'' 1))))"

definition first_evidence :: "run_result \<Rightarrow> string option" where
  "first_evidence r = (case da_evidence_ids (rr_artifacts r) of [] \<Rightarrow> None | e # _ \<Rightarrow> Some e)"

text \<open>\<open>if evidence_id: increment(...)\<close>: the empty string counts as missing.\<close>

definition increment_if ::
  "string option \<Rightarrow> string \<Rightarrow> string \<Rightarrow> orch_db \<Rightarrow> (orch_db, unit) outcome" where
  "increment_if x cid field db =
     (if x = None \<or> x = Some [] then (Inr (), db) else increment db cid field 1)"

definition reconcile_result ::
  "datetime \<Rightarrow> execution_request \<Rightarrow> run_result \<Rightarrow> orch_db \<Rightarrow> (orch_db, unit) outcome" where
  "reconcile_result now req r db =
     reconcile_detector_run db (xr_campaign_id req) (accounting.truncate (rr_accounting r))
       (case rr_authorization r of Some p \<Rightarrow> rp_max_requests (sr_payload p) | None \<Rightarrow> 0) now"

definition journal_result ::
  "datetime \<Rightarrow> execution_request \<Rightarrow> run_result \<Rightarrow> orch_db \<Rightarrow> (orch_db, unit) outcome" where
  "journal_result now req r db =
     (let aid = rr_action_id r; cid = xr_campaign_id req
      in case rr_status r of
           RUN_UNKNOWN_OUTCOME \<Rightarrow>
             obind (transition_action db aid A_UNKNOWN_OUTCOME None None now) (\<lambda>_ db.
               reconcile_result now req r db)
         | RUN_BLOCKED_BEFORE_IO \<Rightarrow>
             obind (olift (action_state_of db aid) db) (\<lambda>current db.
             obind (transition_action db aid
                      (if current \<in> {A_STARTING, A_EXECUTING} then A_FAILED else A_BLOCKED)
                      None None now) (\<lambda>_ db.
             obind (increment db cid ''failed_before_io'' 1) (\<lambda>_ db.
             increment db cid ''permits_revoked'' 1)))
         | RUN_FAILED \<Rightarrow>
             obind (transition_action db aid A_FAILED None None now) (\<lambda>_ db.
               reconcile_result now req r db)
         | RUN_COMPLETED \<Rightarrow>
             obind (transition_action db aid A_EVIDENCE_RECORDED None (first_evidence r) now) (\<lambda>_ db.
             obind (transition_action db aid A_VERIFIED None None now) (\<lambda>_ db.
             obind (transition_action db aid A_COMPLETED None None now) (\<lambda>_ db.
             obind (increment_if (first_evidence r) cid ''evidence'' db) (\<lambda>_ db.
             obind (increment_if (rr_finding_id r) cid ''findings'' db) (\<lambda>_ db.
             reconcile_result now req r db))))))"

definition orchestrator_journal :: "datetime \<Rightarrow> orch_db journal_ops" where
  "orchestrator_journal now =
     \<lparr>jo_create_action = journal_create_action now, jo_authorization = journal_authorization now,
      jo_starting = journal_starting now, jo_result = journal_result now\<rparr>"

definition action_phase :: "orch_db \<Rightarrow> string \<Rightarrow> action_state option" where
  "action_phase db aid = map_option aw_state (dict_get (od_actions db) aid)"

lemma transition_action_phase:
  assumes "transition_action db aid s p e now = (Inr u, db')"
  shows "\<exists>prev. action_phase db aid = Some prev \<and> s \<in> set (action_transitions prev) \<and>
    action_phase db' aid = Some s"
  using assms
  by (auto simp: transition_action_def action_phase_def result_simps validate_transition_def
      set_action_state_def dest!: store_event_frame split: option.splits)

lemma increment_actions: "increment db cid f n = (r, db') \<Longrightarrow> od_actions db' = od_actions db"
  by (auto simp: increment_def split: if_splits)

lemma increment_phase [simp]: "increment db cid f n = (r, db') \<Longrightarrow> action_phase db' aid = action_phase db aid"
  by (simp add: action_phase_def increment_actions)

lemma increment_if_phase: "increment_if x cid f db = (r, db') \<Longrightarrow> action_phase db' aid = action_phase db aid"
  by (auto simp: increment_if_def split: if_splits)

lemma reconcile_result_phase:
  "reconcile_result now req r db = (q, db') \<Longrightarrow> action_phase db' aid = action_phase db aid"
  by (auto simp: reconcile_result_def reconcile_detector_run_def action_phase_def
      dest!: store_event_frame split: if_splits)

lemma create_action_phase:
  assumes "create_action db aid cid pid key = (True, db')"
  shows "action_phase db aid = None \<and> action_phase db' aid = Some A_DISCOVERED"
  using assms by (auto simp: create_action_def action_phase_def split: if_splits)

lemma journal_create_phase:
  assumes "journal_create_action now req aid db = (Inr u, db')"
  shows "action_phase db aid = None \<and> action_phase db' aid = Some A_AUTHORIZED"
proof -
  from assms obtain db1 where c: "create_action db aid (xr_campaign_id req) (xr_program_id req)
      (canonical_idempotency_key (request_parts req)) = (True, db1)"
    by (auto simp: journal_create_action_def split: prod.splits bool.splits)
  with assms obtain u3 db3 where t: "transition_action db3 aid A_AUTHORIZED None None now = (Inr u3, db')"
    by (auto simp: journal_create_action_def result_simps)
  from create_action_phase [OF c] transition_action_phase [OF t] show ?thesis by auto
qed

lemma journal_result_phase:
  assumes "journal_result now req r db = (Inr u, db')"
  shows "\<exists>s. action_phase db' (rr_action_id r) = Some s \<and> action_final s"
proof (cases "rr_status r")
  case RUN_COMPLETED
  with assms show ?thesis
    by (auto simp: journal_result_def Let_def result_simps action_final_def
        dest!: transition_action_phase reconcile_result_phase [where aid = "rr_action_id r"]
          increment_if_phase [where aid = "rr_action_id r"])
next
  case RUN_BLOCKED_BEFORE_IO
  with assms show ?thesis
    by (auto simp: journal_result_def Let_def result_simps action_final_def
        dest!: transition_action_phase increment_phase [where aid = "rr_action_id r"] split: if_splits)
next
  case RUN_FAILED
  with assms show ?thesis
    by (auto simp: journal_result_def Let_def result_simps action_final_def
        dest!: transition_action_phase reconcile_result_phase [where aid = "rr_action_id r"])
next
  case RUN_UNKNOWN_OUTCOME
  with assms show ?thesis
    by (auto simp: journal_result_def Let_def result_simps action_final_def
        dest!: transition_action_phase reconcile_result_phase [where aid = "rr_action_id r"])
qed

interpretation orch_journal: run_journal "orchestrator_journal now" action_phase for now
proof (unfold_locales, goal_cases)
  case (1 req aid j u j')
  then show ?case using journal_create_phase by (simp add: orchestrator_journal_def)
next
  case (2 req aid pid j u j')
  then show ?case
    by (auto simp: orchestrator_journal_def journal_authorization_def result_simps
        dest!: transition_action_phase increment_phase [where aid = aid] dest: permit_only_from_authorized)
next
  case (3 req aid j u j')
  then show ?case
    by (auto simp: orchestrator_journal_def journal_starting_def result_simps
        dest!: transition_action_phase increment_phase [where aid = aid]
        dest: starting_only_from_permit executing_only_from_starting)
next
  case (4 req r j u j')
  then show ?case using journal_result_phase by (simp add: orchestrator_journal_def)
qed

section \<open>Every journal call keeps the accounting balanced\<close>

lemma balanced_obind:
  assumes "db_balanced (snd r)" "\<And>x s. db_balanced s \<Longrightarrow> db_balanced (snd (f x s))"
  shows "db_balanced (snd (obind r f))"
  using assms by (cases r; cases "fst r") auto

lemma balanced_transition: "db_balanced db \<Longrightarrow> db_balanced (snd (transition_action db aid s p e now))"
  by (simp add: db_balanced_def)

lemma balanced_increment:
  "db_balanced db \<Longrightarrow> f \<notin> set request_fields \<Longrightarrow> db_balanced (snd (increment db cid f n))"
  using balanced_step [of db "Increment cid f n"] by simp

lemma balanced_reconcile: "db_balanced db \<Longrightarrow> db_balanced (snd (reconcile_result now req r db))"
  using balanced_step [of db "Reconcile (xr_campaign_id req) (accounting.truncate (rr_accounting r)) _" now]
  by (auto simp: reconcile_result_def)

lemma balanced_increment_if:
  "db_balanced db \<Longrightarrow> f \<notin> set request_fields \<Longrightarrow> db_balanced (snd (increment_if x cid f db))"
  by (simp add: increment_if_def balanced_increment)

lemma balanced_create: "db_balanced db \<Longrightarrow> db_balanced (snd (create_action db aid cid pid key))"
  using balanced_step [of db "CreateAction aid cid pid key"] by simp

lemmas balanced_intros = balanced_obind balanced_transition balanced_increment balanced_reconcile
  balanced_increment_if balanced_create

lemma journal_create_balanced: "db_balanced db \<Longrightarrow> db_balanced (snd (journal_create_action now req aid db))"
  using balanced_create [of db aid "xr_campaign_id req" "xr_program_id req"
      "canonical_idempotency_key (request_parts req)"]
  by (auto simp: journal_create_action_def intro!: balanced_intros split: prod.splits bool.splits)

lemma journal_authorization_balanced:
  "db_balanced db \<Longrightarrow> db_balanced (snd (journal_authorization now req aid pid db))"
  unfolding journal_authorization_def by (intro balanced_intros) (simp_all add: request_fields_def)

lemma journal_starting_balanced: "db_balanced db \<Longrightarrow> db_balanced (snd (journal_starting now req aid db))"
  unfolding journal_starting_def by (intro balanced_intros) (simp_all add: request_fields_def)

lemma journal_result_balanced: "db_balanced db \<Longrightarrow> db_balanced (snd (journal_result now req r db))"
  by (cases "rr_status r")
    (auto simp: journal_result_def Let_def request_fields_def olift_def intro!: balanced_intros)

interpretation balanced_journal: journal_invariant "orchestrator_journal now" db_balanced for now
proof (unfold_locales, goal_cases)
  case 1
  then show ?case by (simp add: orchestrator_journal_def journal_create_balanced)
next
  case 2
  then show ?case by (simp add: orchestrator_journal_def journal_authorization_balanced)
next
  case 3
  then show ?case by (simp add: orchestrator_journal_def journal_starting_balanced)
next
  case 4
  then show ?case by (simp add: orchestrator_journal_def journal_result_balanced)
qed

text \<open>No journal call changes a campaign row.\<close>

lemma campaigns_obind:
  assumes "od_campaigns (snd r) = c" "\<And>x s. od_campaigns s = c \<Longrightarrow> od_campaigns (snd (f x s)) = c"
  shows "od_campaigns (snd (obind r f)) = c"
  using assms by (cases r; cases "fst r") auto

lemma campaigns_increment: "od_campaigns (snd (increment db cid f n)) = od_campaigns db"
  by (simp add: increment_def)

lemma campaigns_increment_if: "od_campaigns (snd (increment_if x cid f db)) = od_campaigns db"
  by (simp add: increment_if_def campaigns_increment)

lemma campaigns_reconcile: "od_campaigns (snd (reconcile_result now req r db)) = od_campaigns db"
  by (simp add: reconcile_result_def reconcile_detector_run_def)

lemmas campaigns_simps = transition_action_frame campaigns_increment campaigns_increment_if campaigns_reconcile

interpretation fixed_campaigns: journal_invariant "orchestrator_journal now" "\<lambda>db. od_campaigns db = c" for now c
proof (unfold_locales, goal_cases)
  case (1 j req aid)
  have "od_campaigns (snd (create_action j aid cid pid key)) = c" for cid pid key
    using 1 by (simp add: create_action_def)
  then show ?case
    by (auto simp: orchestrator_journal_def journal_create_action_def campaigns_simps
        intro!: campaigns_obind split: prod.splits bool.splits) (metis snd_conv)+
next
  case 2
  then show ?case
    by (auto simp: orchestrator_journal_def journal_authorization_def campaigns_simps intro!: campaigns_obind)
next
  case 3
  then show ?case
    by (auto simp: orchestrator_journal_def journal_starting_def campaigns_simps intro!: campaigns_obind)
next
  case (4 j req r)
  then show ?case
    by (cases "rr_status r")
      (auto simp: orchestrator_journal_def journal_result_def Let_def campaigns_simps olift_def
        intro!: campaigns_obind)
qed

section \<open>Campaign operations\<close>

record orch_env =
  oc_db :: orch_db
  oc_live :: "snapshot option"

definition on_db :: "(orch_db \<Rightarrow> (orch_db, 'a) outcome) \<Rightarrow> orch_env \<Rightarrow> (orch_env, 'a) outcome" where
  "on_db f env = (case f (oc_db env) of (r, db) \<Rightarrow> (r, env\<lparr>oc_db := db\<rparr>))"

definition transit :: "string \<Rightarrow> campaign_state \<Rightarrow> string \<Rightarrow> datetime \<Rightarrow> orch_env \<Rightarrow> (orch_env, unit) outcome" where
  "transit cid s reason now env =
     obind (on_db (\<lambda>db. transition_campaign db cid s reason ''orchestrator'' now) env)
       (\<lambda>_ env. (Inr (), env))"

definition write_live_status :: "string \<Rightarrow> orch_env \<Rightarrow> (orch_env, unit) outcome" where
  "write_live_status cid env =
     obind (on_db (\<lambda>db. (store_snapshot db cid, db)) env) (\<lambda>s env. (Inr (), env\<lparr>oc_live := Some s\<rparr>))"

definition start_orchestrator :: "campaign_config \<Rightarrow> datetime \<Rightarrow> orch_env \<Rightarrow> (orch_env, snapshot) outcome" where
  "start_orchestrator config now env =
     (let cid = cf_campaign_id config
      in obind (on_db (\<lambda>db. create_campaign db config now) env) (\<lambda>_ env.
         obind (transit cid C_PREFLIGHT ''configuration accepted'' now env) (\<lambda>_ env.
         obind (transit cid C_READY ''durable storage initialized'' now env) (\<lambda>_ env.
         obind (transit cid C_RUNNING ''autonomous loop started'' now env) (\<lambda>_ env.
         obind (on_db (\<lambda>db. store_event db cid ''campaign.started''
                  (JObj [(''platforms'', json_strs (cf_platforms config))]) now) env) (\<lambda>_ env.
         obind (if cf_dry_run config
                then transit cid C_COMPLETED ''dry-run logical pipeline completed'' now env
                else (Inr (), env)) (\<lambda>_ env.
         obind (on_db (\<lambda>db. store_checkpoint db cid ''start completed'' now) env) (\<lambda>_ env.
         obind (write_live_status cid env) (\<lambda>_ env.
         on_db (\<lambda>db. (store_snapshot db cid, db)) env)))))))))"

definition request_stop :: "string \<Rightarrow> datetime \<Rightarrow> orch_env \<Rightarrow> (orch_env, unit) outcome" where
  "request_stop cid now env =
     obind (on_db (\<lambda>db. (campaign_state_of db cid, db)) env) (\<lambda>state env.
     obind (if state = C_RUNNING then
              obind (transit cid C_PAUSING ''operator requested graceful stop'' now env) (\<lambda>_ env.
              obind (on_db (\<lambda>db. store_checkpoint db cid
                       ''new work stopped; no in-flight action registered'' now) env) (\<lambda>_ env.
              transit cid C_PAUSED ''safe drain completed'' now env))
            else (Inr (), env)) (\<lambda>_ env.
     write_live_status cid env))"

definition resume_orchestrator :: "string \<Rightarrow> datetime \<Rightarrow> orch_env \<Rightarrow> (orch_env, unit) outcome" where
  "resume_orchestrator cid now env =
     obind (on_db (\<lambda>db. (store_snapshot db cid, db)) env) (\<lambda>s env.
     let uncertain = filter (\<lambda>a. aw_state (snd a) = A_UNKNOWN_OUTCOME) (ss_actions s)
     in if uncertain \<noteq> [] then
          obind (on_db (\<lambda>db. store_event db cid ''campaign.resume_blocked''
                   (JObj [(''unknown_outcomes'', json_int (int (length uncertain)))]) now) env) (\<lambda>_ env.
            (value_error ''unknown outcomes require recovery review and are never replayed blindly'', env))
        else
          obind (transit cid C_PREFLIGHT ''safe resume requested'' now env) (\<lambda>_ env.
          obind (transit cid C_READY ''revalidation completed'' now env) (\<lambda>_ env.
          obind (transit cid C_RUNNING ''fresh planning required; old permits not reused'' now env) (\<lambda>_ env.
          obind (on_db (\<lambda>db. store_checkpoint db cid ''resume completed'' now) env) (\<lambda>_ env.
          write_live_status cid env)))))"

text \<open>The database part of \<open>finalize_orchestrator\<close>: the state of the campaign and its live status.\<close>

definition finalize_orchestrator :: "string \<Rightarrow> bool \<Rightarrow> datetime \<Rightarrow> orch_env \<Rightarrow> (orch_env, unit) outcome" where
  "finalize_orchestrator cid partial now env =
     obind (on_db (\<lambda>db. (campaign_state_of db cid, db)) env) (\<lambda>state env.
     obind (if state = C_RUNNING then transit cid C_DRAINING ''deadline/no-progress reached'' now env
            else (Inr (), env)) (\<lambda>_ env.
     obind (on_db (\<lambda>db. (campaign_state_of db cid, db)) env) (\<lambda>state env.
     obind (if state = C_DRAINING
            then transit cid (if partial then C_PARTIALLY_COMPLETED else C_COMPLETED)
                   ''final reports consolidated'' now env
            else (Inr (), env)) (\<lambda>_ env.
     write_live_status cid env))))"

section \<open>A batch of detector runs\<close>

text \<open>Every run reads the clock when it starts and when it ends: \<open>clock k\<close> is the \<open>k\<close>-th reading.\<close>

fun execute_batch ::
  "('j, 'w) service \<Rightarrow> (nat \<Rightarrow> datetime) \<Rightarrow> nat \<Rightarrow> execution_request list \<Rightarrow> ('j, 'w) exec_state \<Rightarrow>
   (('j, 'w) exec_state, run_result list) outcome" where
  "execute_batch svc clock k [] st = (Inr [], st)"
| "execute_batch svc clock k (req # reqs) st =
     obind (execute svc req None (clock k) (clock (k + 1)) st) (\<lambda>r st.
     obind (execute_batch svc clock (k + 2) reqs st) (\<lambda>rs st. (Inr (r # rs), st)))"

text \<open>The service of a campaign: the given adapters and key, the journal over its store.\<close>

definition campaign_service ::
  "string \<Rightarrow> (string \<times> 'w adapter) list \<Rightarrow> (nat \<Rightarrow> string \<Rightarrow> store_file) \<Rightarrow> datetime \<Rightarrow> (orch_db, 'w) service" where
  "campaign_service key adapters read now =
     \<lparr>sv_key = key, sv_adapters = adapters, sv_journal = Some (orchestrator_journal now),
      sv_lease_validator = None, sv_read_store = read\<rparr>"

text \<open>The campaign directory: its database and live status, the detector state, the outside world.\<close>

record 'w campaign_root =
  cr_env :: orch_env
  cr_exec :: "(unit, 'w) exec_state"

definition with_journal :: "(unit, 'w) exec_state \<Rightarrow> orch_db \<Rightarrow> (orch_db, 'w) exec_state" where
  "with_journal x db =
     \<lparr>xs_budgets = xs_budgets x, xs_authorizations = xs_authorizations x, xs_results = xs_results x,
      xs_journal = db, xs_world = xs_world x\<rparr>"

definition without_journal :: "(orch_db, 'w) exec_state \<Rightarrow> (unit, 'w) exec_state" where
  "without_journal x =
     \<lparr>xs_budgets = xs_budgets x, xs_authorizations = xs_authorizations x, xs_results = xs_results x,
      xs_journal = (), xs_world = xs_world x\<rparr>"

definition on_env :: "(orch_env \<Rightarrow> (orch_env, 'a) outcome) \<Rightarrow> 'w campaign_root \<Rightarrow> ('w campaign_root, 'a) outcome" where
  "on_env f dir = (case f (cr_env dir) of (r, env) \<Rightarrow> (r, dir\<lparr>cr_env := env\<rparr>))"

definition run_batch ::
  "(orch_db, 'w) service \<Rightarrow> (nat \<Rightarrow> datetime) \<Rightarrow> execution_request list \<Rightarrow> 'w campaign_root \<Rightarrow>
   ('w campaign_root, run_result list) outcome" where
  "run_batch svc clock reqs dir =
     (case execute_batch svc clock 0 reqs (with_journal (cr_exec dir) (oc_db (cr_env dir))) of
        (r, x) \<Rightarrow>
          (r, dir\<lparr>cr_env := (cr_env dir)\<lparr>oc_db := xs_journal x\<rparr>, cr_exec := without_journal x\<rparr>))"

definition run_orchestrator_execution ::
  "campaign_config \<Rightarrow> execution_request list \<Rightarrow> (string \<times> 'w adapter) list \<Rightarrow> string \<Rightarrow>
   (nat \<Rightarrow> string \<Rightarrow> store_file) \<Rightarrow> datetime \<Rightarrow> (nat \<Rightarrow> datetime) \<Rightarrow> 'w campaign_root \<Rightarrow>
   ('w campaign_root, snapshot \<times> run_result list) outcome" where
  "run_orchestrator_execution config reqs adapters key read now clock dir =
     (let cid = cf_campaign_id config; selected = cf_selected_program_ids config
      in if \<not> cf_execute config \<or> cf_dry_run config then
           (value_error ''physical orchestrator execution requires execute mode'', dir)
         else if reqs = [] then
           (value_error ''physical orchestrator execution requires typed detector requests'', dir)
         else if \<exists>r \<in> set reqs. xr_campaign_id r \<noteq> cid then
           (value_error ''detector request campaign binding mismatch'', dir)
         else if selected \<noteq> [] \<and> (\<exists>r \<in> set reqs. xr_program_id r \<notin> set selected) then
           (value_error ''detector request program is outside the selected campaign portfolio'', dir)
         else
           obind (on_env (start_orchestrator config now) dir) (\<lambda>_ dir.
           obind (run_batch (campaign_service key adapters read now) clock reqs dir) (\<lambda>results dir.
           let partial = (\<exists>r \<in> set results. rr_status r \<in> {RUN_FAILED, RUN_UNKNOWN_OUTCOME})
           in obind (on_env (finalize_orchestrator cid partial now) dir) (\<lambda>_ dir.
              obind (on_env (on_db (\<lambda>db. (store_snapshot db cid, db))) dir) (\<lambda>s dir.
              (Inr (s, results), dir))))))"

section \<open>Lemmas of the campaign operations\<close>

lemma store_event_state:
  "store_event db cid n p now = (r, db') \<Longrightarrow>
   campaign_state_of db' = campaign_state_of db \<and> od_counters db' = od_counters db"
  by (auto simp: campaign_state_of_def fun_eq_iff dest!: store_event_frame)

lemma transition_campaign_Inr:
  assumes "transition_campaign db cid s reason actor now = (Inr t, db')"
  shows "\<exists>prev. campaign_state_of db cid = Inr prev \<and> s \<in> set (campaign_transitions prev) \<and>
    campaign_state_of db' cid = Inr s \<and> od_actions db' = od_actions db \<and> od_counters db' = od_counters db"
  using assms
  by (auto simp: transition_campaign_def campaign_state_of_def result_simps Let_def
      validate_transition_def set_campaign_state_def dest!: store_event_frame split: option.splits)

lemma on_db_Inr:
  "on_db f env = (Inr x, env') \<Longrightarrow> f (oc_db env) = (Inr x, oc_db env')"
  by (auto simp: on_db_def split: prod.splits)

lemma transit_Inr:
  assumes "transit cid s reason now env = (Inr u, env')"
  shows "\<exists>prev. campaign_state_of (oc_db env) cid = Inr prev \<and> s \<in> set (campaign_transitions prev) \<and>
    campaign_state_of (oc_db env') cid = Inr s \<and> od_actions (oc_db env') = od_actions (oc_db env) \<and>
    od_counters (oc_db env') = od_counters (oc_db env)"
  using assms by (auto simp: transit_def result_simps dest!: on_db_Inr transition_campaign_Inr)

lemma write_live_status_Inr:
  assumes "write_live_status cid env = (Inr u, env')"
  shows "oc_db env' = oc_db env \<and> (\<exists>s. store_snapshot (oc_db env) cid = Inr s \<and> oc_live env' = Some s)"
  using assms by (auto simp: write_live_status_def result_simps on_db_def)

lemma store_checkpoint_state:
  "store_checkpoint db cid r now = (q, db') \<Longrightarrow>
   campaign_state_of db' = campaign_state_of db \<and> od_actions db' = od_actions db \<and>
   od_counters db' = od_counters db"
  by (auto simp: store_checkpoint_def campaign_state_of_def fun_eq_iff dest!: store_event_frame)

lemma request_stop_state:
  assumes "request_stop cid now env = (Inr u, env')" "campaign_state_of (oc_db env) cid = Inr prev"
  shows "campaign_state_of (oc_db env') cid = Inr (if prev = C_RUNNING then C_PAUSED else prev)"
proof (cases "prev = C_RUNNING")
  case True
  with assms show ?thesis
    by (auto simp: request_stop_def result_simps dest!: on_db_Inr transit_Inr write_live_status_Inr
        store_checkpoint_state)
next
  case False
  with assms show ?thesis
    by (auto simp: request_stop_def result_simps dest!: on_db_Inr write_live_status_Inr)
qed

lemma snapshot_actions:
  "store_snapshot db cid = Inr s \<Longrightarrow> ss_actions s = filter (\<lambda>a. aw_campaign_id (snd a) = cid) (od_actions db)"
  by (auto simp: store_snapshot_def split: option.splits)

lemma preflight_from: "C_PREFLIGHT \<in> set (campaign_transitions s) \<Longrightarrow> s \<in> {C_CREATED, C_PAUSED}"
  by (cases s) auto

lemma resume_orchestrator_Inr:
  assumes "resume_orchestrator cid now env = (Inr u, env')"
  shows "campaign_state_of (oc_db env) cid \<in> {Inr C_CREATED, Inr C_PAUSED} \<and>
    campaign_state_of (oc_db env') cid = Inr C_RUNNING \<and>
    od_actions (oc_db env') = od_actions (oc_db env) \<and>
    (\<forall>(aid, row) \<in> set (od_actions (oc_db env)). aw_campaign_id row = cid \<longrightarrow> aw_state row \<noteq> A_UNKNOWN_OUTCOME)"
proof -
  from assms obtain s where s: "store_snapshot (oc_db env) cid = Inr s"
    by (auto simp: resume_orchestrator_def result_simps dest!: on_db_Inr)
  then have e: "on_db (\<lambda>db. (store_snapshot db cid, db)) env = (Inr s, env)" by (simp add: on_db_def)
  let ?bad = "filter (\<lambda>a. aw_state (snd a) = A_UNKNOWN_OUTCOME) (ss_actions s)"
  have bad: "?bad = []"
    using assms e by (auto simp: resume_orchestrator_def result_simps Let_def split: if_splits)
  with assms e have "obind (transit cid C_PREFLIGHT ''safe resume requested'' now env) (\<lambda>_ env.
          obind (transit cid C_READY ''revalidation completed'' now env) (\<lambda>_ env.
          obind (transit cid C_RUNNING ''fresh planning required; old permits not reused'' now env) (\<lambda>_ env.
          obind (on_db (\<lambda>db. store_checkpoint db cid ''resume completed'' now) env) (\<lambda>_ env.
          write_live_status cid env)))) = (Inr u, env')"
    by (simp add: resume_orchestrator_def)
  then have "campaign_state_of (oc_db env) cid \<in> {Inr C_CREATED, Inr C_PAUSED} \<and>
    campaign_state_of (oc_db env') cid = Inr C_RUNNING \<and> od_actions (oc_db env') = od_actions (oc_db env)"
    by (auto simp: result_simps dest!: on_db_Inr transit_Inr write_live_status_Inr store_checkpoint_state
        preflight_from)
  moreover have "\<forall>(aid, row) \<in> set (od_actions (oc_db env)).
      aw_campaign_id row = cid \<longrightarrow> aw_state row \<noteq> A_UNKNOWN_OUTCOME"
    using bad snapshot_actions [OF s] by (auto simp: filter_empty_conv)
  ultimately show ?thesis by blast
qed

lemma finalize_state:
  assumes "finalize_orchestrator cid partial now env = (Inr u, env')"
    and "campaign_state_of (oc_db env) cid = Inr C_RUNNING"
  shows "campaign_state_of (oc_db env') cid = Inr (if partial then C_PARTIALLY_COMPLETED else C_COMPLETED) \<and>
    od_counters (oc_db env') = od_counters (oc_db env)"
  using assms
  by (auto simp: finalize_orchestrator_def result_simps dest!: on_db_Inr transit_Inr write_live_status_Inr
      split: if_splits)

lemma start_state:
  assumes "start_orchestrator config now env = (Inr s, env')" "\<not> cf_dry_run config"
  shows "campaign_state_of (oc_db env') (cf_campaign_id config) = Inr C_RUNNING"
  using assms
  by (auto simp: start_orchestrator_def result_simps Let_def dest!: on_db_Inr transit_Inr
      write_live_status_Inr store_event_state store_checkpoint_state)

lemma start_balanced:
  assumes "start_orchestrator config now env = (Inr s, env')" "db_balanced (oc_db env)"
  shows "db_balanced (oc_db env')"
proof -
  have c: "db_balanced (snd (create_campaign (oc_db env) config now))"
    using balanced_step [OF assms(2), of "CreateCampaign config" now] by simp
  have f: "db_balanced db'" if "od_counters db' = od_counters db" "db_balanced db" for db db' :: orch_db
    using that by (simp add: db_balanced_def)
  from assms(1) obtain env1 where e1: "on_db (\<lambda>db. create_campaign db config now) env = (Inr (), env1)"
    and e2: "od_counters (oc_db env') = od_counters (oc_db env1)"
    by (auto simp: start_orchestrator_def result_simps Let_def dest!: transit_Inr on_db_Inr
      write_live_status_Inr store_event_state store_checkpoint_state split: if_splits)
  from on_db_Inr [OF e1] c have "db_balanced (oc_db env1)" by (metis snd_conv)
  with f [OF e2] show ?thesis by simp
qed

context journal_invariant begin

lemma keeps_batch:
  "inv (xs_journal st) \<Longrightarrow> sv_journal svc = Some ops \<Longrightarrow>
   inv (xs_journal (snd (execute_batch svc clock k reqs st)))"
proof (induction reqs arbitrary: k st)
  case (Cons req reqs)
  show ?case
    unfolding execute_batch.simps
    by (intro keeps_obind keeps_execute Cons.IH) (use Cons.prems in auto)
qed simp

end

lemma run_batch_Inr:
  assumes "run_batch svc clock reqs dir = (Inr rs, dir')" "sv_journal svc = Some (orchestrator_journal now)"
  shows "od_campaigns (oc_db (cr_env dir')) = od_campaigns (oc_db (cr_env dir)) \<and>
    (db_balanced (oc_db (cr_env dir)) \<longrightarrow> db_balanced (oc_db (cr_env dir'))) \<and>
    (\<exists>x. execute_batch svc clock 0 reqs (with_journal (cr_exec dir) (oc_db (cr_env dir))) = (Inr rs, x))"
proof -
  let ?st = "with_journal (cr_exec dir) (oc_db (cr_env dir))"
  from assms(1) obtain x where x: "execute_batch svc clock 0 reqs ?st = (Inr rs, x)"
    and dir': "oc_db (cr_env dir') = xs_journal x"
    by (auto simp: run_batch_def split: prod.splits)
  have j: "xs_journal ?st = oc_db (cr_env dir)" by (simp add: with_journal_def)
  from fixed_campaigns.keeps_batch [of ?st "od_campaigns (oc_db (cr_env dir))" svc now clock 0 reqs] assms(2) x j dir'
  have "od_campaigns (oc_db (cr_env dir')) = od_campaigns (oc_db (cr_env dir))" by simp
  moreover from balanced_journal.keeps_batch [of ?st svc now clock 0 reqs] assms(2) x j dir'
  have "db_balanced (oc_db (cr_env dir)) \<longrightarrow> db_balanced (oc_db (cr_env dir'))" by simp
  ultimately show ?thesis using x by blast
qed

lemma on_env_Inr: "on_env f dir = (Inr x, dir') \<Longrightarrow> f (cr_env dir) = (Inr x, cr_env dir')"
  by (auto simp: on_env_def split: prod.splits)

lemma campaign_state_cong:
  "od_campaigns db' = od_campaigns db \<Longrightarrow> campaign_state_of db' = campaign_state_of db"
  by (simp add: campaign_state_of_def fun_eq_iff)

text \<open>The shape of a batch that returns.\<close>

lemma run_orchestrator_steps:
  assumes "run_orchestrator_execution config reqs adapters key read now clock dir = (Inr (s, rs), dir')"
  shows "cf_execute config \<and> \<not> cf_dry_run config \<and>
    (\<forall>r \<in> set reqs. xr_campaign_id r = cf_campaign_id config) \<and>
    (cf_selected_program_ids config \<noteq> [] \<longrightarrow>
       (\<forall>r \<in> set reqs. xr_program_id r \<in> set (cf_selected_program_ids config))) \<and>
    (\<exists>s0 d1 d2 d3. on_env (start_orchestrator config now) dir = (Inr s0, d1) \<and>
      run_batch (campaign_service key adapters read now) clock reqs d1 = (Inr rs, d2) \<and>
      on_env (finalize_orchestrator (cf_campaign_id config)
        (\<exists>r \<in> set rs. rr_status r \<in> {RUN_FAILED, RUN_UNKNOWN_OUTCOME}) now) d2 = (Inr (), d3) \<and>
      store_snapshot (oc_db (cr_env d3)) (cf_campaign_id config) = Inr s \<and>
      oc_db (cr_env dir') = oc_db (cr_env d3))"
proof -
  from assms have ok: "cf_execute config" "\<not> cf_dry_run config"
    "\<forall>r \<in> set reqs. xr_campaign_id r = cf_campaign_id config"
    "cf_selected_program_ids config \<noteq> [] \<longrightarrow>
       (\<forall>r \<in> set reqs. xr_program_id r \<in> set (cf_selected_program_ids config))"
    by (auto simp: run_orchestrator_execution_def Let_def split: if_splits)
  let ?fin = "finalize_orchestrator (cf_campaign_id config)
        (\<exists>r \<in> set rs. rr_status r \<in> {RUN_FAILED, RUN_UNKNOWN_OUTCOME}) now"
  have "\<exists>s0 d1 d2 d3. on_env (start_orchestrator config now) dir = (Inr s0, d1) \<and>
      run_batch (campaign_service key adapters read now) clock reqs d1 = (Inr rs, d2) \<and>
      on_env ?fin d2 = (Inr (), d3) \<and>
      on_env (on_db (\<lambda>db. (store_snapshot db (cf_campaign_id config), db))) d3 = (Inr s, dir')"
    using assms
    by (simp only: run_orchestrator_execution_def Let_def result_simps prod.inject sum.inject
        split: if_splits) (fastforce)+
  then obtain s0 d1 d2 d3 where d:
    "on_env (start_orchestrator config now) dir = (Inr s0, d1)"
    "run_batch (campaign_service key adapters read now) clock reqs d1 = (Inr rs, d2)"
    "on_env (finalize_orchestrator (cf_campaign_id config)
        (\<exists>r \<in> set rs. rr_status r \<in> {RUN_FAILED, RUN_UNKNOWN_OUTCOME}) now) d2 = (Inr (), d3)"
    "on_env (on_db (\<lambda>db. (store_snapshot db (cf_campaign_id config), db))) d3 = (Inr s, dir')"
    by blast
  from on_env_Inr [OF d(4)] have "store_snapshot (oc_db (cr_env d3)) (cf_campaign_id config) = Inr s"
      "oc_db (cr_env dir') = oc_db (cr_env d3)"
    by (auto dest!: on_db_Inr)
  with ok d(1-3) show ?thesis by blast
qed

lemma run_orchestrator_final:
  assumes "run_orchestrator_execution config reqs adapters key read now clock dir = (Inr (s, rs), dir')"
    and "db_balanced (oc_db (cr_env dir))"
  shows "campaign_state_of (oc_db (cr_env dir')) (cf_campaign_id config) =
      Inr (if \<exists>r \<in> set rs. rr_status r \<in> {RUN_FAILED, RUN_UNKNOWN_OUTCOME}
           then C_PARTIALLY_COMPLETED else C_COMPLETED) \<and>
    counters_balanced (ss_counters s)"
proof -
  let ?cid = "cf_campaign_id config"
  let ?partial = "\<exists>r \<in> set rs. rr_status r \<in> {RUN_FAILED, RUN_UNKNOWN_OUTCOME}"
  note steps = run_orchestrator_steps [OF assms(1)]
  then have dry: "\<not> cf_dry_run config" by blast
  from steps obtain s0 d1 d2 d3 where
    st: "on_env (start_orchestrator config now) dir = (Inr s0, d1)"
    and rb: "run_batch (campaign_service key adapters read now) clock reqs d1 = (Inr rs, d2)"
    and fi: "on_env (finalize_orchestrator ?cid ?partial now) d2 = (Inr (), d3)"
    and sn: "store_snapshot (oc_db (cr_env d3)) ?cid = Inr s" "oc_db (cr_env dir') = oc_db (cr_env d3)"
    by blast
  note so = on_env_Inr [OF st] and fo = on_env_Inr [OF fi]
  from start_state [OF so dry] start_balanced [OF so assms(2)]
  have d1: "campaign_state_of (oc_db (cr_env d1)) ?cid = Inr C_RUNNING" "db_balanced (oc_db (cr_env d1))" .
  have "sv_journal (campaign_service key adapters read now) = Some (orchestrator_journal now)"
    by (simp add: campaign_service_def)
  note b = run_batch_Inr [OF rb this]
  have d2: "campaign_state_of (oc_db (cr_env d2)) ?cid = Inr C_RUNNING" "db_balanced (oc_db (cr_env d2))"
    using b d1 campaign_state_cong [OF conjunct1 [OF b]] by simp_all
  from finalize_state [OF fo d2(1)] have f:
    "campaign_state_of (oc_db (cr_env d3)) ?cid = Inr (if ?partial then C_PARTIALLY_COMPLETED else C_COMPLETED)"
    "od_counters (oc_db (cr_env d3)) = od_counters (oc_db (cr_env d2))" by blast+
  from f(2) d2(2) have "db_balanced (oc_db (cr_env d3))" by (simp add: db_balanced_def)
  with sn(1) have "counters_balanced (ss_counters s)"
    by (auto simp: store_snapshot_def db_balanced_def split: option.splits)
  with f sn(2) show ?thesis by simp
qed

section \<open>The campaign manifest\<close>

record campaign_manifest =
  cm_campaign_id :: string
  cm_report_state :: string
  cm_artifacts :: "(string \<times> string) list"

text \<open>\<open>artifacts\<close> maps a name to the contents of its file, \<open>None\<close> where there is no file.\<close>

definition build_campaign_manifest ::
  "string \<Rightarrow> (string \<times> string option) list \<Rightarrow> string \<Rightarrow> campaign_manifest result" where
  "build_campaign_manifest cid artifacts report_state =
     rbind (require (report_state \<in> {''interim'', ''final'', ''partial''}) [Txt ''invalid report state'']) (\<lambda>_.
       Inr \<lparr>cm_campaign_id = cid, cm_report_state = report_state,
            cm_artifacts = concat (map (\<lambda>(name, c). case c of None \<Rightarrow> [] | Some x \<Rightarrow> [(name, sha256_hex x)])
              (sort_key fst artifacts))\<rparr>)"

text \<open>\<open>located name\<close>: the contents at \<open>(root / name).resolve()\<close> when that is a file inside the root.\<close>

definition verify_campaign_manifest :: "(string \<Rightarrow> string option) \<Rightarrow> campaign_manifest \<Rightarrow> bool" where
  "verify_campaign_manifest located m =
     list_all (\<lambda>(name, digest). map_option sha256_hex (located name) = Some digest) (cm_artifacts m)"

lemma manifest_verifies_iff:
  assumes "build_campaign_manifest cid artifacts report_state = Inr m"
  shows "verify_campaign_manifest located m \<longleftrightarrow>
    (\<forall>(name, c) \<in> set artifacts. \<forall>x. c = Some x \<longrightarrow> map_option sha256_hex (located name) = Some (sha256_hex x))"
  using assms
  by (fastforce simp: build_campaign_manifest_def verify_campaign_manifest_def result_simps list_all_iff
      split: option.splits)

end
