(* ===== verification/OrchestratorProperties.thy ===== *)
theory OrchestratorProperties
  imports Examples Orchestrator
begin

text \<open>
  The properties of the autonomous orchestrator: the detector gate, one detector run from
  its gates to its settled reservation, the journal of actions, and a whole campaign. The
  first section is a concrete run: a passive detector against an engagement without a
  program, with an adapter that reports one request and one response.
\<close>

section \<open>A concrete run\<close>

definition ex_detector :: capability where
  "ex_detector = cap ''astp.http-posture.v1'' F_SECURITY_MISCONFIGURATION ''astp'' ''http_posture''
     PROOF_OBSERVATION False 1 None R_QUALIFIED True True"

definition ex_context :: policy_context where
  "ex_context =
     \<lparr>dx_disposition = M_NOT_MENTIONED, dx_denials = [], dx_target_in_scope = True,
      dx_semantic_review = True, dx_operational = True, dx_identities = 0, dx_oast = False,
      dx_browser = False, dx_remaining_requests = 10, dx_provenance = []\<rparr>"

definition ex_run :: execution_request where
  "ex_run =
     \<lparr>xr_campaign_id = ''camp-1'', xr_campaign_active = True, xr_program_id = ''prog'',
      xr_program_revision = ''r1'', xr_current_revision = ''r1'', xr_target = ''https://example.com/'',
      xr_opportunity = rank_opportunity ex_detector ''prog'' ''https://example.com/'' []
        (decide_detector ex_detector ex_context) 10 0 1,
      xr_detector = ex_detector, xr_runtime_id = ''builtin'', xr_runtime_digest = ''sha256:00'',
      xr_qualification_digest = ''sha256:00'', xr_engagement = ex_engagement, xr_test = None,
      xr_permit = None, xr_attestation = None, xr_lease = None, xr_store_path = None,
      xr_target_in_scope = True, xr_semantic_complete = True, xr_policy_context = ex_context,
      xr_identity_refs = [], xr_global_remaining = 10, xr_program_remaining = 10,
      xr_detector_remaining = 10, xr_max_rps = 1, xr_proof = PROOF_OBSERVATION, xr_attempt = 0,
      xr_parent_candidate = None, xr_http_method = ''GET'', xr_path_prefix = None\<rparr>"

definition ex_output :: adapter_result where
  "ex_output =
     \<lparr>ao_accounting = zero_accounting\<lparr>acc_attempted := 1, acc_forwarded := 1, acc_responses := 1\<rparr>,
      ao_artifacts = no_artifacts, ao_proof_state = PS_OBSERVED, ao_satisfied = True,
      ao_candidate_id = None, ao_finding_id = None, ao_network_started = True,
      ao_response_uncertain = False\<rparr>"

definition ex_service :: "'j journal_ops option \<Rightarrow> ('j, unit) service" where
  "ex_service ops =
     \<lparr>sv_key = ex_key, sv_adapters = [(''astp.http-posture.v1'', \<lambda>req permit w. (Inr ex_output, w))],
      sv_journal = ops, sv_lease_validator = None, sv_read_store = \<lambda>_ _. NoFile\<rparr>"

definition ex_start :: "'j \<Rightarrow> ('j, unit) exec_state" where
  "ex_start j = \<lparr>xs_budgets = [], xs_authorizations = [], xs_results = [], xs_journal = j, xs_world = ()\<rparr>"

lemma ex_service_key [simp]: "sv_key (ex_service ops) = ex_key"
  by (simp add: ex_service_def)

lemma ex_run_authority: "authority_check (ex_service ops) 0 ex_run ex_clock = Inr ()"
proof -
  have n: "eng_program ex_engagement = None" by (simp add: ex_engagement_def)
  show ?thesis
    by (simp add: authority_check_def require_current_lease_def require_upstream_permit_def ex_run_def n)
qed

lemma ex_run_gates: "gate_blockers (ex_service ops) ex_run ex_clock = Inr []"
proof -
  have d: "dd_allowed (decide_detector ex_detector ex_context)" by code_simp
  have s: "startswith ''sha256:00'' ''sha256:''" by code_simp
  have x: "xr_campaign_active ex_run" "xr_program_revision ex_run = xr_current_revision ex_run"
    "xr_detector ex_run = ex_detector" "xr_policy_context ex_run = ex_context" "xr_target_in_scope ex_run"
    "xr_semantic_complete ex_run" "startswith (xr_runtime_digest ex_run) ''sha256:''"
    "xr_qualification_digest ex_run = xr_runtime_digest ex_run"
    by (simp_all add: ex_run_def s)
  have o: "op_detector_id (xr_opportunity ex_run) = cap_detector_id ex_detector"
    "op_program_id (xr_opportunity ex_run) = xr_program_id ex_run" "op_target (xr_opportunity ex_run) = xr_target ex_run"
    by (simp_all add: ex_run_def rank_opportunity_def Let_def)
  have c: "cap_runtime_state ex_detector = R_QUALIFIED" "cap_field_ready ex_detector"
    "dict_get (sv_adapters (ex_service ops)) (cap_detector_id ex_detector) \<noteq> None"
    by (simp_all add: ex_detector_def cap_def ex_service_def)
  show ?thesis
    by (simp add: gate_blockers_def ex_run_authority Let_def x o c d)
qed

lemma ex_run_ceiling: "execution_ceiling ex_run = 1"
  by (simp add: execution_ceiling_def ex_run_def ex_detector_def cap_def)

lemma ex_run_permit: "\<exists>sp. run_permit_for ex_run 1 ex_clock ex_key = Inr sp"
proof -
  have u: "case urlsplit ''https://example.com/'' of Inr u \<Rightarrow> True | Inl _ \<Rightarrow> False" by code_simp
  then obtain u where u: "urlsplit (xr_target ex_run) = Inr u" by (auto simp: ex_run_def split: sum.splits)
  have "cap_max_concurrency ex_detector = 1" by (simp add: ex_detector_def cap_def)
  with u show ?thesis
    by (simp add: run_permit_for_def mk_run_permit_payload_def)
      (simp add: ex_run_def)
qed

text \<open>Without a journal the run completes.\<close>

lemma ex_run_completes:
  obtains r st where "execute (ex_service None) ex_run None ex_clock ex_clock (ex_start j) = (Inr r, st)"
    "rr_status r = RUN_COMPLETED"
proof -
  obtain sp where sp: "run_permit_for ex_run 1 ex_clock ex_key = Inr sp"
    using ex_run_permit by blast
  have ad: "dict_get (sv_adapters (ex_service None)) (cap_detector_id (xr_detector ex_run)) =
      Some (\<lambda>req permit w. (Inr ex_output, w))"
    by (simp add: ex_service_def ex_run_def ex_detector_def cap_def)
  have g: "gate_blockers (ex_service None) ex_run ex_clock = Inr []" by (rule ex_run_gates)
  let ?id = "run_id_of ex_run"
  let ?row = "\<lparr>rv_campaign = xr_campaign_id ex_run, rv_program = xr_program_id ex_run,
      rv_detector = cap_detector_id (xr_detector ex_run), rv_reserved = 1, rv_consumed = 0, rv_state = ''reserved''\<rparr>"
  let ?st = "(ex_start j)\<lparr>xs_budgets := [(?id, ?row)], xs_authorizations := [(?id, sp)]\<rparr>"
  have rem: "xr_global_remaining ex_run = 10" "xr_program_remaining ex_run = 10" "xr_detector_remaining ex_run = 10"
    by (simp_all add: ex_run_def)
  have nj: "sv_journal (ex_service None) = None" "sv_lease_validator (ex_service None) = None"
    by (simp_all add: ex_service_def)
  have p: "prepare_run (ex_service None) ex_run 1 ex_clock (ex_start j) = (Inr sp, ?st)"
    by (simp add: prepare_run_def budget_do_def budget_reserve_def rem journal_do_def nj sp)
      (simp add: ex_start_def)
  have au: "authority_check (ex_service None) 0 ex_run ex_clock = Inr ()" by (rule ex_run_authority)
  have sv: "sv_read_store (ex_service None) 1 = sv_read_store (ex_service None) 0" by (simp add: ex_service_def)
  have l: "lease_still_current (ex_service None) ex_run ex_clock = Inr True"
    by (rule recheck_same_instant [OF au sv nj(2)])
  have v: "validate_invariants (ao_accounting ex_output) 1 = Inr ()"
    "acc_forwarded (ao_accounting ex_output) = 1" "\<not> ao_response_uncertain ex_output"
    by (simp_all add: ex_output_def validate_invariants_def zero_accounting_def)
  obtain st where "run_guarded (ex_service None) ex_run (\<lambda>req permit w. (Inr ex_output, w)) sp 1 ex_clock ex_clock ?st =
      (Inr (success_result ex_run sp ex_clock ex_clock ex_output), st)"
    by (simp add: run_guarded_def launch_def l journal_do_def nj settle_output_def v budget_do_def
        budget_reconcile_def budget_settle_def persist_and_report_def)
  then have "execute (ex_service None) ex_run None ex_clock ex_clock (ex_start j) =
      (Inr (success_result ex_run sp ex_clock ex_clock ex_output), st)"
    by (simp add: execute_def g ad ex_run_ceiling p)
  moreover have "rr_status (success_result ex_run sp ex_clock ex_clock ex_output) = RUN_COMPLETED"
    using v(3) by (simp add: success_result_def base_result_def)
  ultimately show ?thesis by (rule that)
qed

text \<open>The same request for a campaign that is not active does nothing.\<close>

definition ex_idle_run :: execution_request where
  "ex_idle_run = ex_run\<lparr>xr_campaign_active := False\<rparr>"

lemma idle_run_stops:
  assumes "sv_key svc = ex_key"
  shows "\<exists>r. execute svc ex_idle_run None c d st = (Inr r, st) \<and> rr_status r = RUN_BLOCKED_BEFORE_IO"
proof -
  have n: "eng_program (xr_engagement ex_idle_run) = None"
    by (simp add: ex_idle_run_def ex_run_def ex_engagement_def)
  have a: "authority_check svc 0 ex_idle_run c = Inr ()"
    by (simp add: authority_check_def require_current_lease_def require_upstream_permit_def n)
  have "\<not> xr_campaign_active ex_idle_run" by (simp add: ex_idle_run_def)
  then obtain bs where "gate_blockers svc ex_idle_run c = Inr ([Txt ''campaign is not active''] # bs)"
    by (simp add: gate_blockers_def a Let_def)
  then show ?thesis by (simp add: execute_def Let_def with_failure_def base_result_def)
qed

definition ex_db :: orch_db where
  "ex_db = \<lparr>od_campaigns = [], od_programs = [], od_actions = [], od_events = [], od_counters = [],
            od_checkpoints = []\<rparr>"

definition ex_config :: campaign_config where
  "ex_config =
     \<lparr>cf_campaign_id = ''camp-1'', cf_platforms = [''h1''], cf_selected_program_ids = [''prog''],
      cf_include_all = False, cf_max_duration = 1, cf_global_action_budget = 1,
      cf_global_request_budget = 1, cf_per_program_action_budget = 1,
      cf_per_program_request_budget = 1, cf_per_detector_budget = 1, cf_max_concurrent_programs = 1,
      cf_max_concurrent_actions = 1, cf_max_errors_global = 1, cf_max_errors_per_program = 1,
      cf_max_consecutive_failures = 1, cf_max_rounds_per_program = 1,
      cf_max_new_targets_per_round = 1, cf_max_discovery_depth = 1, cf_max_detector_iterations = 1,
      cf_default_rate_ceiling = 1, cf_report_interval = 1, cf_checkpoint_interval = 1,
      cf_operational_refresh_interval = 1, cf_program_refresh_interval = 1,
      cf_runtime_health_interval = 1, cf_stop_when_no_progress = 1, cf_minimum_remaining = 1,
      cf_dry_run = False, cf_execute = True, cf_resume_if_safe = False\<rparr>"

definition ex_env :: orch_env where
  "ex_env = \<lparr>oc_db = ex_db, oc_live = None\<rparr>"

definition ex_root :: "unit campaign_root" where
  "ex_root = \<lparr>cr_env = ex_env, cr_exec = ex_start ()\<rparr>"

text \<open>A campaign that starts and finishes: every event it records is free of secret terms.\<close>

abbreviation quiet :: "json \<Rightarrow> bool" where
  "quiet p \<equiv> list_all (\<lambda>t. \<not> contains t (str_lower (spaced_json p))) secret_terms"

abbreviation moved :: "campaign_state \<Rightarrow> campaign_state \<Rightarrow> string \<Rightarrow> json" where
  "moved p s reason \<equiv> transition_json
     \<lparr>tn_entity_type = ''campaign'', tn_entity_id = ''camp-1'', tn_previous = p, tn_state = s,
      tn_timestamp = ex_clock, tn_reason = reason, tn_actor = ''orchestrator''\<rparr>"

lemma quiet_preflight: "quiet (moved C_CREATED C_PREFLIGHT ''configuration accepted'')"
  by code_simp

lemma quiet_ready: "quiet (moved C_PREFLIGHT C_READY ''durable storage initialized'')"
  by code_simp

lemma quiet_running: "quiet (moved C_READY C_RUNNING ''autonomous loop started'')"
  by code_simp

lemma quiet_draining: "quiet (moved C_RUNNING C_DRAINING ''deadline/no-progress reached'')"
  by code_simp

lemma quiet_completed: "quiet (moved C_DRAINING C_COMPLETED ''final reports consolidated'')"
  by code_simp

lemma quiet_events:
  "quiet (JObj [(''dry_run'', JBool False)])" "quiet (JObj [(''platforms'', json_strs [''h1''])])"
  "quiet (JObj [(''reason'', JStr ''start completed'')])"
  by code_simp+

lemma quiet_event:
  assumes "quiet p"
  shows "\<exists>db'. store_event db cid n p now = (Inr (), db')"
  using assms by (auto simp: store_event_def Let_def list_all_iff)

lemma quiet_transit:
  assumes "campaign_state_of (oc_db env) ''camp-1'' = Inr p" "s \<in> set (campaign_transitions p)"
    and "quiet (moved p s reason)"
  obtains env' where "transit ''camp-1'' s reason ex_clock env = (Inr (), env')"
    "campaign_state_of (oc_db env') ''camp-1'' = Inr s" "od_counters (oc_db env') = od_counters (oc_db env)"
proof -
  obtain db' where "store_event (set_campaign_state (oc_db env) ''camp-1'' s ex_clock) ''camp-1'' ''campaign.state''
      (moved p s reason) ex_clock = (Inr (), db')"
    using quiet_event [OF assms(3)] by blast
  then have "\<exists>t. transition_campaign (oc_db env) ''camp-1'' s reason ''orchestrator'' ex_clock = (Inr t, db')"
    using assms(1,2) by (simp add: transition_campaign_def olift_def validate_transition_def Let_def)
  then have t: "transit ''camp-1'' s reason ex_clock env = (Inr (), env\<lparr>oc_db := db'\<rparr>)"
    by (auto simp: transit_def on_db_def)
  from transit_Inr [OF t] that [OF t] show ?thesis by auto
qed

lemma known_campaign_snapshot:
  assumes "campaign_state_of db cid = Inr s" "dict_get (od_counters db) cid = Some c"
  shows "\<exists>x. store_snapshot db cid = Inr x"
  using assms by (auto simp: store_snapshot_def campaign_state_of_def split: option.splits)

lemma known_campaign_live:
  assumes "campaign_state_of (oc_db env) cid = Inr s" "dict_get (od_counters (oc_db env)) cid = Some c"
  shows "\<exists>x. write_live_status cid env = (Inr (), env\<lparr>oc_live := Some x\<rparr>)"
  using known_campaign_snapshot [OF assms] by (auto simp: write_live_status_def on_db_def)

lemma quiet_on_db:
  assumes "quiet p"
  obtains env' where "on_db (\<lambda>db. store_event db cid n p now) env = (Inr (), env')"
    "campaign_state_of (oc_db env') = campaign_state_of (oc_db env)"
    "od_counters (oc_db env') = od_counters (oc_db env)"
proof -
  obtain db' where db: "store_event (oc_db env) cid n p now = (Inr (), db')"
    using quiet_event [OF assms] by blast
  show ?thesis
    using store_event_state [OF db] by (intro that [of "env\<lparr>oc_db := db'\<rparr>"]) (simp_all add: on_db_def db)
qed

lemma ex_campaign_starts:
  obtains s env where "start_orchestrator ex_config ex_clock ex_env = (Inr s, env)"
    "campaign_state_of (oc_db env) ''camp-1'' = Inr C_RUNNING" "dict_get (od_counters (oc_db env)) ''camp-1'' = Some (\<lambda>_. 0)"
proof -
  have cfg: "cf_campaign_id ex_config = ''camp-1''" "\<not> cf_dry_run ex_config" "cf_platforms ex_config = [''h1'']"
    by (simp_all add: ex_config_def)
  obtain db0 where ev: "store_event
      (ex_db\<lparr>od_campaigns := dict_set [] ''camp-1'' \<lparr>cw_state = C_CREATED, cw_config = ex_config,
           cw_created_at = isoformat ex_clock, cw_updated_at = isoformat ex_clock\<rparr>,
         od_counters := dict_set [] ''camp-1'' (\<lambda>_. 0)\<rparr>) ''camp-1'' ''campaign.created''
      (JObj [(''dry_run'', JBool False)]) ex_clock = (Inr (), db0)"
    using quiet_event [OF quiet_events(1)] by blast
  let ?e0 = "ex_env\<lparr>oc_db := db0\<rparr>"
  have c: "on_db (\<lambda>db. create_campaign db ex_config ex_clock) ex_env = (Inr (), ?e0)"
    using ev by (simp add: create_campaign_def cfg on_db_def ex_env_def Let_def ex_db_def)
  have s0: "campaign_state_of (oc_db ?e0) ''camp-1'' = Inr C_CREATED"
    "dict_get (od_counters (oc_db ?e0)) ''camp-1'' = Some (\<lambda>_. 0)"
    using store_event_state [OF ev] by (simp_all add: campaign_state_of_def)
  obtain e1 where e1: "transit ''camp-1'' C_PREFLIGHT ''configuration accepted'' ex_clock ?e0 = (Inr (), e1)"
    "campaign_state_of (oc_db e1) ''camp-1'' = Inr C_PREFLIGHT" "od_counters (oc_db e1) = od_counters (oc_db ?e0)"
    by (rule quiet_transit [OF s0(1) _ quiet_preflight]) simp
  obtain e2 where e2: "transit ''camp-1'' C_READY ''durable storage initialized'' ex_clock e1 = (Inr (), e2)"
    "campaign_state_of (oc_db e2) ''camp-1'' = Inr C_READY" "od_counters (oc_db e2) = od_counters (oc_db e1)"
    by (rule quiet_transit [OF e1(2) _ quiet_ready]) simp
  obtain e3 where e3: "transit ''camp-1'' C_RUNNING ''autonomous loop started'' ex_clock e2 = (Inr (), e3)"
    "campaign_state_of (oc_db e3) ''camp-1'' = Inr C_RUNNING" "od_counters (oc_db e3) = od_counters (oc_db e2)"
    by (rule quiet_transit [OF e2(2) _ quiet_running]) simp
  obtain e4 where e4: "on_db (\<lambda>db. store_event db ''camp-1'' ''campaign.started''
        (JObj [(''platforms'', json_strs [''h1''])]) ex_clock) e3 = (Inr (), e4)"
    "campaign_state_of (oc_db e4) = campaign_state_of (oc_db e3)" "od_counters (oc_db e4) = od_counters (oc_db e3)"
    by (rule quiet_on_db [OF quiet_events(2)])
  obtain db5 where ev5: "store_checkpoint (oc_db e4) ''camp-1'' ''start completed'' ex_clock = (Inr (), db5)"
    unfolding store_checkpoint_def using quiet_event [OF quiet_events(3)] by blast
  define e5 where "e5 = e4\<lparr>oc_db := db5\<rparr>"
  have e5: "on_db (\<lambda>db. store_checkpoint db ''camp-1'' ''start completed'' ex_clock) e4 = (Inr (), e5)"
    "campaign_state_of (oc_db e5) = campaign_state_of (oc_db e4)" "od_counters (oc_db e5) = od_counters (oc_db e4)"
    using store_event_state [OF ev5 [unfolded store_checkpoint_def]]
    by (simp_all add: e5_def on_db_def ev5 campaign_state_of_def fun_eq_iff)
  have s5: "campaign_state_of (oc_db e5) ''camp-1'' = Inr C_RUNNING"
    "dict_get (od_counters (oc_db e5)) ''camp-1'' = Some (\<lambda>_. 0)"
    using s0 e1 e2 e3 e4 e5 by simp_all
  obtain x where x: "write_live_status ''camp-1'' e5 = (Inr (), e5\<lparr>oc_live := Some x\<rparr>)"
    using known_campaign_live [OF s5] by blast
  obtain y where y: "store_snapshot (oc_db e5) ''camp-1'' = Inr y" using known_campaign_snapshot [OF s5] by blast
  have "start_orchestrator ex_config ex_clock ex_env = (Inr y, e5\<lparr>oc_live := Some x\<rparr>)"
    by (simp add: start_orchestrator_def Let_def cfg c e1(1) e2(1) e3(1) e4(1) e5(1) x)
      (simp add: on_db_def y)
  from that [OF this] s5 show ?thesis by simp
qed

lemma ex_campaign_finishes:
  assumes "campaign_state_of (oc_db env) ''camp-1'' = Inr C_RUNNING" "dict_get (od_counters (oc_db env)) ''camp-1'' = Some c"
  obtains env' s where "finalize_orchestrator ''camp-1'' False ex_clock env = (Inr (), env')"
    "store_snapshot (oc_db env') ''camp-1'' = Inr s"
proof -
  obtain e1 where e1: "transit ''camp-1'' C_DRAINING ''deadline/no-progress reached'' ex_clock env = (Inr (), e1)"
    "campaign_state_of (oc_db e1) ''camp-1'' = Inr C_DRAINING" "od_counters (oc_db e1) = od_counters (oc_db env)"
    by (rule quiet_transit [OF assms(1) _ quiet_draining]) simp
  obtain e2 where e2: "transit ''camp-1'' C_COMPLETED ''final reports consolidated'' ex_clock e1 = (Inr (), e2)"
    "campaign_state_of (oc_db e2) ''camp-1'' = Inr C_COMPLETED" "od_counters (oc_db e2) = od_counters (oc_db e1)"
    by (rule quiet_transit [OF e1(2) _ quiet_completed]) simp
  have c: "dict_get (od_counters (oc_db e2)) ''camp-1'' = Some c" using assms(2) e1(3) e2(3) by simp
  obtain x where x: "write_live_status ''camp-1'' e2 = (Inr (), e2\<lparr>oc_live := Some x\<rparr>)"
    using known_campaign_live [OF e2(2) c] by blast
  obtain y where y: "store_snapshot (oc_db e2) ''camp-1'' = Inr y" using known_campaign_snapshot [OF e2(2) c] by blast
  have st: "on_db (\<lambda>db. (campaign_state_of db ''camp-1'', db)) e = (campaign_state_of (oc_db e) ''camp-1'', e)" for e
    by (simp add: on_db_def)
  have "finalize_orchestrator ''camp-1'' False ex_clock env = (Inr (), e2\<lparr>oc_live := Some x\<rparr>)"
    by (simp add: finalize_orchestrator_def st assms(1) e1(1,2) e2(1) x)
  from that [OF this] y show ?thesis by simp
qed

lemma ex_campaign_runs:
  obtains s r dir' where "run_orchestrator_execution ex_config [ex_idle_run] [] ex_key (\<lambda>_ _. NoFile) ex_clock
      (\<lambda>_. ex_clock) ex_root = (Inr (s, [r]), dir')" "rr_status r = RUN_BLOCKED_BEFORE_IO"
proof -
  obtain s env1 where e1: "start_orchestrator ex_config ex_clock ex_env = (Inr s, env1)"
    "campaign_state_of (oc_db env1) ''camp-1'' = Inr C_RUNNING"
    "dict_get (od_counters (oc_db env1)) ''camp-1'' = Some (\<lambda>_. 0)" by (rule ex_campaign_starts)
  obtain env2 s2 where e2: "finalize_orchestrator ''camp-1'' False ex_clock env1 = (Inr (), env2)"
    "store_snapshot (oc_db env2) ''camp-1'' = Inr s2" by (rule ex_campaign_finishes [OF e1(2,3)])
  note e = e1(1) e2
  let ?svc = "campaign_service ex_key [] (\<lambda>_ _. NoFile) ex_clock :: (orch_db, unit) service"
  have k: "sv_key ?svc = ex_key" by (simp add: campaign_service_def)
  let ?st = "with_journal (ex_start ()) (oc_db env1)"
  obtain r where r: "execute ?svc ex_idle_run None ex_clock ex_clock ?st = (Inr r, ?st)"
    "rr_status r = RUN_BLOCKED_BEFORE_IO" using idle_run_stops [OF k] by blast
  have same: "xs_journal ?st = oc_db env1" "env1\<lparr>oc_db := oc_db env1\<rparr> = env1"
    by (simp_all add: with_journal_def)
  have ids: "xr_campaign_id ex_idle_run = ''camp-1''" "xr_program_id ex_idle_run = ''prog''"
    by (simp_all add: ex_idle_run_def ex_run_def)
  have cfg: "cf_execute ex_config" "\<not> cf_dry_run ex_config" "cf_campaign_id ex_config = ''camp-1''"
    "cf_selected_program_ids ex_config = [''prog'']" by (simp_all add: ex_config_def)
  have "\<exists>dir'. run_orchestrator_execution ex_config [ex_idle_run] [] ex_key (\<lambda>_ _. NoFile) ex_clock
      (\<lambda>_. ex_clock) ex_root = (Inr (s2, [r]), dir')"
    by (simp add: run_orchestrator_execution_def cfg ids on_env_def ex_root_def e r run_batch_def same on_db_def Let_def)
  with that r(2) show ?thesis by blast
qed

section \<open>The gate and the run\<close>

text \<open>
  The detector gate allows a run exactly when nothing denies it and no context is missing, the target is
  in scope, reviewed and operational, the runtime is qualified and field-ready, the identities, OAST and
  browser the detector needs are there, and requests remain.
\<close>

theorem detector_gate_iff:
  "dd_allowed (decide_detector c x) \<longleftrightarrow>
     dx_disposition x \<notin> {M_EXPLICITLY_DENIED, M_REQUIRES_CONTEXT} \<and> dx_denials x = [] \<and>
     dx_target_in_scope x \<and> dx_semantic_review x \<and> dx_operational x \<and>
     cap_runtime_state c = R_QUALIFIED \<and> cap_field_ready c \<and> cap_identities_required c \<le> dx_identities x \<and>
     (if cap_oast_required c then dx_oast x else True) \<and>
     (if cap_browser_required c then dx_browser x else True) \<and> 0 < dx_remaining_requests x"
  by (simp add: decide_detector_allowed)

text \<open>
  C9: a run that carries a permit passed every gate at its start: lease and upstream permit, active campaign,
  current revision, matching opportunity, detector policy, scope, semantic review, qualified runtime. Its
  permit carries the HMAC of its payload and bounds the run: at most the detector's and every remaining
  request budget, the requested method and a rate of at most 100 per second, for at most two minutes
  and not past the lease.
\<close>

theorem run_permit_sound:
  assumes "execute svc req now clock finished st = (Inr r, st')" "rr_authorization r = Some sp"
  shows "authority_check svc 0 req (or_else now clock) = Inr () \<and> xr_campaign_active req \<and>
    xr_program_revision req = xr_current_revision req \<and>
    op_target (xr_opportunity req) = xr_target req \<and> op_program_id (xr_opportunity req) = xr_program_id req \<and>
    dd_allowed (decide_detector (xr_detector req) (xr_policy_context req)) \<and>
    xr_target_in_scope req \<and> xr_semantic_complete req \<and>
    cap_runtime_state (xr_detector req) = R_QUALIFIED \<and> cap_field_ready (xr_detector req) \<and>
    sr_signature sp = run_permit_mac (sv_key svc) (sr_payload sp) \<and>
    1 \<le> rp_max_requests (sr_payload sp) \<and>
    rp_max_requests (sr_payload sp) \<le> cap_max_requests (xr_detector req) \<and>
    rp_max_requests (sr_payload sp) \<le> xr_global_remaining req \<and>
    rp_max_requests (sr_payload sp) \<le> xr_program_remaining req \<and>
    rp_max_requests (sr_payload sp) \<le> xr_detector_remaining req \<and>
    rp_allowed_methods (sr_payload sp) = [xr_http_method req] \<and> rp_max_rps (sr_payload sp) \<le> 100 \<and>
    dt_us (rp_expires_at (sr_payload sp)) \<le> dt_us (or_else now clock) + 120000000 \<and>
    (\<forall>l. xr_lease req = Some l \<longrightarrow> dt_us (rp_expires_at (sr_payload sp)) \<le> dt_us (ls_valid_until l))"
  using assms(1)
proof (cases rule: execute_returns)
  case stopped
  with assms(2) show ?thesis by simp
next
  case (ran adapter permit st1)
  have "permit = sp" using guarded_result_fields [OF ran(5)] assms(2) by simp
  with prepare_runD [OF ran(4)]
  have p: "run_permit_for req (execution_ceiling req) (or_else now clock) (sv_key svc) = Inr sp" by blast
  from gate_blockers_Nil [OF ran(1)] run_permit_forD [OF p] execution_ceiling_le [of req]
    lease_expiry_le(1) [of req "or_else now clock"] lease_expiry_le(2) [of req]
  show ?thesis by auto
qed

theorem run_permit_sound_witness:
  "\<exists>r st sp. execute (ex_service None) ex_run None ex_clock ex_clock (ex_start ()) = (Inr r, st) \<and>
     rr_authorization r = Some sp \<and> rp_max_requests (sr_payload sp) \<le> 10"
proof -
  obtain r st where ex: "execute (ex_service None) ex_run None ex_clock ex_clock (ex_start ()) = (Inr r, st)"
    "rr_status r = RUN_COMPLETED" by (rule ex_run_completes)
  then obtain sp where sp: "rr_authorization r = Some sp"
    by (cases rule: execute_returns [OF ex(1)]) (auto dest: guarded_result_fields)
  from run_permit_sound [OF ex(1) sp] ex sp show ?thesis by (auto simp: ex_run_def)
qed

text \<open>
  C10: when \<open>execute\<close> returns, either a gate stopped the run before anything was reserved or issued and no
  state changed, or its reservation is settled (committed, failed or unknown), for no more than it reserved,
  under a run identifier no reservation had, and no other reservation was touched.
\<close>

theorem execute_settles_reservation:
  assumes "execute svc req now clock finished st = (Inr r, st')"
  shows "(st' = st \<and> rr_status r = RUN_BLOCKED_BEFORE_IO \<and> rr_authorization r = None) \<or>
    (dict_get (xs_budgets st) (run_id_of req) = None \<and>
     settled_row (xs_budgets st') (run_id_of req) (execution_ceiling req) \<and>
     same_others (run_id_of req) (xs_budgets st) (xs_budgets st'))"
  using assms
proof (cases rule: execute_returns)
  case stopped
  then show ?thesis by simp
next
  case (ran adapter permit st1)
  note p = prepare_runD [OF ran(4)]
  from run_guarded_settles [OF ran(5)] p same_others_trans show ?thesis by blast
qed

theorem execute_settles_reservation_witness:
  "\<exists>r st. execute (ex_service None) ex_run None ex_clock ex_clock (ex_start ()) = (Inr r, st) \<and>
     settled_row (xs_budgets st) (run_id_of ex_run) 1"
proof -
  obtain r st where ex: "execute (ex_service None) ex_run None ex_clock ex_clock (ex_start ()) = (Inr r, st)"
    "rr_status r = RUN_COMPLETED" by (rule ex_run_completes)
  from execute_settles_reservation [OF ex(1)] ex show ?thesis by (auto simp: ex_run_ceiling)
qed

text \<open>
  A run is never repeated: when its run identifier (the digest of campaign, program, revision, detector,
  target and attempt) has a reservation, settled or not, a second \<open>execute\<close> changes nothing, the
  outside world included, and returns no permit.
\<close>

theorem execute_never_replays:
  assumes "dict_get (xs_budgets st) (run_id_of req) = Some row"
  shows "snd (execute svc req now clock finished st) = st \<and>
    (case fst (execute svc req now clock finished st) of Inr r \<Rightarrow> rr_authorization r = None | Inl _ \<Rightarrow> True)"
proof -
  obtain q st' where e: "execute svc req now clock finished st = (q, st')" by fastforce
  from execute_replay [OF _ e] assms e show ?thesis by (auto split: sum.splits)
qed

theorem execute_never_replays_witness:
  "\<exists>st :: (unit, unit) exec_state. dict_get (xs_budgets st) (run_id_of ex_run) \<noteq> None \<and>
     snd (execute (ex_service None) ex_run None ex_clock ex_clock st) = st"
proof -
  let ?row = "\<lparr>rv_campaign = ''camp-1'', rv_program = ''prog'', rv_detector = ''astp.http-posture.v1'',
     rv_reserved = 1, rv_consumed = 1, rv_state = ''committed''\<rparr>"
  let ?st = "(ex_start ())\<lparr>xs_budgets := [(run_id_of ex_run, ?row)]\<rparr>"
  have "dict_get (xs_budgets ?st) (run_id_of ex_run) = Some ?row" by simp
  note row = this and same = execute_never_replays [OF this, of "ex_service None" None ex_clock ex_clock]
  have "dict_get (xs_budgets ?st) (run_id_of ex_run) \<noteq> None" using row by simp
  with conjunct1 [OF same] show ?thesis by blast
qed

text \<open>
  A completed run was launched while the authority still held (as rechecked before the launch), and
  reports an accounting that balances and stays within the reserved number of requests.
\<close>

theorem completed_run_accounts:
  assumes "execute svc req now clock finished st = (Inr r, st')" "rr_status r = RUN_COMPLETED"
  shows "lease_still_current svc req (or_else now clock) = Inr True \<and>
    acc_forwarded (rr_accounting r) \<le> execution_ceiling req \<and>
    acc_attempted (rr_accounting r) = acc_forwarded (rr_accounting r) + acc_blocked (rr_accounting r) \<and>
    acc_forwarded (rr_accounting r) =
      acc_responses (rr_accounting r) + acc_failed (rr_accounting r) + acc_unknown (rr_accounting r)"
  using assms(1)
proof (cases rule: execute_returns)
  case stopped
  with assms(2) show ?thesis by simp
next
  case (ran adapter permit st1)
  from run_guarded_completed [OF ran(5) assms(2)] show ?thesis by (simp add: validate_invariants_ok)
qed

theorem completed_run_accounts_witness:
  "\<exists>r st. execute (ex_service None) ex_run None ex_clock ex_clock (ex_start ()) = (Inr r, st) \<and>
     acc_forwarded (rr_accounting r) \<le> 1"
proof -
  obtain r st where ex: "execute (ex_service None) ex_run None ex_clock ex_clock (ex_start ()) = (Inr r, st)"
    "rr_status r = RUN_COMPLETED" by (rule ex_run_completes)
  from completed_run_accounts [OF ex] ex show ?thesis by (auto simp: ex_run_ceiling)
qed

section \<open>The journal and the campaign\<close>

text \<open>
  A run the service returns from, with the orchestrator's journal, was a new action there and has left it in
  a final state (completed, blocked, failed or unknown outcome); otherwise it was stopped by a gate and
  nothing changed.
\<close>

theorem run_finalizes_action:
  assumes "execute svc req started clock finished st = (Inr r, st')"
    and "sv_journal svc = Some (orchestrator_journal now)"
  shows "st' = st \<or>
    (action_phase (xs_journal st) (action_id_of req) = None \<and>
     (\<exists>s. action_phase (xs_journal st') (action_id_of req) = Some s \<and> action_final s))"
  by (rule orch_journal.execute_phase [OF assms])

theorem run_finalizes_action_witness:
  "\<exists>r st. execute (ex_service (Some (orchestrator_journal ex_clock))) ex_idle_run None ex_clock ex_clock
      (ex_start ex_db) = (Inr r, st) \<and> st = ex_start ex_db"
proof -
  obtain r where r: "execute (ex_service (Some (orchestrator_journal ex_clock))) ex_idle_run None ex_clock ex_clock
      (ex_start ex_db) = (Inr r, ex_start ex_db)"
    using idle_run_stops [OF ex_service_key] by blast
  have "sv_journal (ex_service (Some (orchestrator_journal ex_clock))) = Some (orchestrator_journal ex_clock)"
    by (simp add: ex_service_def)
  from run_finalizes_action [OF r this] r show ?thesis by blast
qed

text \<open>
  C11: whatever sequence of store operations runs, failing ones included, an action keeps its idempotency key, its
  state only moves along the transition table to a later rank, and a final state is never left.
\<close>

theorem action_history:
  assumes "dict_get (od_actions db) aid = Some row"
  shows "\<exists>row'. dict_get (od_actions (store_run ops db)) aid = Some row' \<and>
    table_reach action_transitions (aw_state row) (aw_state row') \<and>
    aw_idempotency_key row' = aw_idempotency_key row \<and>
    action_rank (aw_state row) \<le> action_rank (aw_state row') \<and>
    (action_final (aw_state row) \<longrightarrow> aw_state row' = aw_state row)"
proof -
  obtain row' where r: "dict_get (od_actions (store_run ops db)) aid = Some row'"
    "table_reach action_transitions (aw_state row) (aw_state row')"
    "aw_idempotency_key row' = aw_idempotency_key row"
    using store_run_action [OF assms] by blast
  from r(2) have "action_rank (aw_state row) \<le> action_rank (aw_state row')"
    unfolding table_reach_def using action_table.path_bound by (metis le_add1 le_trans)
  with r action_table.final_reach show ?thesis by blast
qed

theorem action_history_witness:
  "\<exists>row'. dict_get (od_actions (store_run [(TransitionAction ''a'' A_EXECUTING None None, ex_clock)]
      (snd (create_action ex_db ''a'' ''camp-1'' ''prog'' ''k'')))) ''a'' = Some row' \<and>
     aw_idempotency_key row' = ''k''"
proof -
  have "dict_get (od_actions (snd (create_action ex_db ''a'' ''camp-1'' ''prog'' ''k''))) ''a'' =
     Some \<lparr>aw_campaign_id = ''camp-1'', aw_program_id = ''prog'', aw_state = A_DISCOVERED,
           aw_idempotency_key = ''k'', aw_permit_id = None, aw_evidence_id = None,
           aw_retry_count = 0, aw_next_retry_at = None\<rparr>"
    by (simp add: create_action_def ex_db_def)
  from action_history [OF this, of "[(TransitionAction ''a'' A_EXECUTING None None, ex_clock)]"] show ?thesis by auto
qed

text \<open>
  C12: a campaign execution that returns ran requests of this campaign and of the selected programs only, ends
  PARTIALLY_COMPLETED exactly when some run failed or has an unknown outcome and COMPLETED otherwise, and its
  snapshot's request counters balance: attempted = forwarded + blocked, forwarded = responses +
  failed + unknown.
\<close>

theorem campaign_outcome:
  assumes "run_orchestrator_execution config reqs adapters key read now clock dir = (Inr (s, rs), dir')"
    and "db_balanced (oc_db (cr_env dir))"
  shows "cf_execute config \<and> (\<forall>r \<in> set reqs. xr_campaign_id r = cf_campaign_id config) \<and>
    (cf_selected_program_ids config = [] \<or>
       (\<forall>r \<in> set reqs. xr_program_id r \<in> set (cf_selected_program_ids config))) \<and>
    campaign_state_of (oc_db (cr_env dir')) (cf_campaign_id config) =
      Inr (if \<exists>r \<in> set rs. rr_status r \<in> {RUN_FAILED, RUN_UNKNOWN_OUTCOME}
           then C_PARTIALLY_COMPLETED else C_COMPLETED) \<and>
    counters_balanced (ss_counters s)"
  using run_orchestrator_steps [OF assms(1)] run_orchestrator_final [OF assms] by blast

theorem campaign_outcome_witness:
  "\<exists>s rs dir'. run_orchestrator_execution ex_config [ex_idle_run] [] ex_key (\<lambda>_ _. NoFile) ex_clock (\<lambda>_. ex_clock)
      ex_root = (Inr (s, rs), dir') \<and>
     campaign_state_of (oc_db (cr_env dir')) ''camp-1'' = Inr C_COMPLETED"
proof -
  obtain s r dir' where run: "run_orchestrator_execution ex_config [ex_idle_run] [] ex_key (\<lambda>_ _. NoFile) ex_clock
      (\<lambda>_. ex_clock) ex_root = (Inr (s, [r]), dir')" "rr_status r = RUN_BLOCKED_BEFORE_IO"
    by (rule ex_campaign_runs)
  have "db_balanced (oc_db (cr_env ex_root))" by (simp add: ex_root_def ex_env_def ex_db_def db_balanced_def)
  from campaign_outcome [OF run(1) this] run show ?thesis by (auto simp: ex_config_def)
qed

end
