(* ===== verification/Spec2Isabelle.thy ===== *)
theory Spec2Isabelle
  imports ProxyProperties NightProperties ChainProperties TargetProperties ObservationProperties FrontierProperties
    CapabilityProperties ScopeProperties AuthorityProperties PermitProperties EvidenceProperties SessionProperties OrchestratorProperties
begin

text \<open>
  A model of the authority and execution core of \<open>astp\<close>, the automated security testing
  platform whose implementation is \<open>src/astp/*.py\<close>, with the theorems that make it correct.

  The program. An engagement (\<open>models.py\<close>) states what may be tested. \<open>authorize_test\<close>
  (\<open>authorization.py\<close>) decides each request; an ALLOW is turned into a signed, short-lived, single-use
  permit (\<open>permits.py\<close>), which a ledger consumes exactly once (\<open>lifecycle.py\<close> as a JSON file,
  \<open>runtime_state.py\<close> as a SQLite database with a rate limit). For programs that must be online,
  a stale attestation may be replaced by a durable lease (\<open>operational_lease.py\<close>). A plan
  (\<open>planner.py\<close>) of discovered targets (\<open>target_registry.py\<close>) becomes a fair work queue, which
  the controlled loop executes inside the budgets of its session. The autonomous orchestrator ranks
  detector opportunities, runs them through the detector execution service and records campaigns and
  actions in a durable store. Audit log, execution trace, evidence manifest and session journal are
  hash-linked JSON-lines files.

  Theories, in the order of their imports, and the code they model.

  Foundations. Prelude: errors as values (\<open>'a result = py_error + 'a\<close>), sequencing
  (\<open>rbind\<close>, \<open>obind\<close>), short-circuiting loops and the collection \<open>result_simps\<close>.
  PyText, PyTime, PyUrl, PyJson, PyHash: what the source uses of Python's \<open>str\<close>, \<open>datetime\<close>
  (microseconds and an optional offset), \<open>urlsplit\<close> and \<open>ipaddress\<close>, \<open>json.dumps\<close>
  (with the theorem that the canonical text determines the value) and SHA-256 with HMAC on 32-bit words.
  Files: JSON documents and JSON-lines journals as values.

  Authority. Models (\<open>models.py\<close>: records, validators, scope rules, \<open>evaluate_test\<close>),
  OperationalLease (\<open>operational_lease.py\<close>), Authorization (\<open>authorization.py\<close>, gate by gate
  with every early return), Permits (\<open>permits.py\<close>: \<open>issue_execution_permit\<close>,
  \<open>verify_execution_permit\<close>). PermitLedger is the locale of a single-use ledger; Lifecycle
  (\<open>lifecycle.py\<close>) and RuntimeState (\<open>runtime_state.py\<close>) interpret it. Lifecycle also splits a
  call into the steps other processes can interleave with (enter, lock, read, write and unlock,
  return), as an inductive relation over any number of workers and an operator who revokes.

  Chain. PermitBroker: \<open>permit_broker.py\<close> re-authorizes a queued plan item and issues its permit;
  \<open>worker_protocol.py\<close> and \<open>worker_command.py\<close> are the worker's request, its allow-listed
  arguments and the command line compiled from it; \<open>permit_consumption_proof.py\<close> consumes the permit
  for such a request and hands out a proof (again the single-use locale). CapabilityGrants
  (\<open>capability_action.py\<close>, \<open>capability_grant.py\<close>): a second signature, for one exact
  action of a permit. RateLimit (\<open>rate_limit.py\<close>): the rate limiter over a file, related to
  the one in the runtime database. HttpTargets (\<open>action.py\<close>): the canonical HTTP target.

  Journals. HashChain is the locale of a hash-linked journal; AuditLog, ExecutionTrace, EvidenceStore and
  SessionJournal (the files of the same names, the audit log from \<open>lifecycle.py\<close>) interpret it.

  Sessions. SessionControl (\<open>session_budget.py\<close>, \<open>execution_budget.py\<close>,
  \<open>circuit_breaker.py\<close>, \<open>policy_snapshot.py\<close>, \<open>origin_budget.py\<close>, \<open>operational_guard.py\<close>),
  SessionLedger (\<open>session_ledger.py\<close>), SessionLoop (\<open>controlled_loop.py\<close>), Planner
  (\<open>planner.py\<close>, \<open>target_registry.py\<close>, \<open>work_queue.py\<close>).

  Observation. Redaction and ObservationModels (\<open>observation.py\<close>): what is hidden of URLs, headers and
  bodies, the evidence records with their hash and their file; Observation (\<open>observe_http\<close>, with the
  capability check of \<open>contracts.py\<close>): admission by either ledger, one GET or HEAD through a transport,
  the evidence, the manifest and the audit events, and every way it fails; ObservationSystem: what the steps
  of an observation keep, and the single-use locale for whole observations. TargetDiscovery
  (\<open>target_discovery.py\<close>): from a page to classified candidates. CapabilityObservation
  (\<open>capability_observation.py\<close>): a DNS lookup or a TLS handshake under a capability grant, and again the
  single-use locale.

  Scope. PyRegex is a backtracking matcher for the regular expressions of the source, with \<open>finditer\<close>,
  \<open>search\<close>, \<open>split\<close> and \<open>sub\<close>; ScopeCompiler (\<open>scope_compiler.py\<close>) reads the prose of a
  programme into an engagement: sentences, targets, cues, constraints, issues and conflicts.

  Crawl. Frontier (\<open>feedback.py\<close>, \<open>frontier.py\<close>, \<open>depth_frontier.py\<close>, \<open>prioritization.py\<close>):
  what becomes of discovered candidates, with the invariant of a frontier. Coordination: the table of planned items
  (\<open>planner_state.py\<close>), whose transitions are steps that other processes can interleave with, and the gates
  between the stages of an assessment (\<open>coordinator.py\<close>, \<open>coordinator_gates.py\<close>); both interpret the
  locale of TransitionSystem.

  Orchestration. TransitionSystem is the locale of a transition table with a rank;
  OrchestratorModels (\<open>orchestrator_models.py\<close>) interprets it for campaigns and actions.
  OrchestratorStore (\<open>orchestrator_store.py\<close>: each method is one transaction), DetectorRegistry,
  DetectorPolicy (\<open>detector_policy.py\<close>, \<open>detector_run_permit.py\<close>), Scheduler
  (\<open>orchestrator_scheduler.py\<close>), DetectorExecution (\<open>detector_execution.py\<close>, with the locales
  \<open>run_journal\<close> and \<open>journal_invariant\<close> for the callbacks it relies on) and Orchestrator
  (\<open>orchestrator.py\<close>, \<open>orchestrator_manifest.py\<close>), which interprets both locales on the
  store's operations.

  Proxy. The worker of a detector reaches its target only through \<open>counting_proxy.py\<close>. PyPath is what
  that file uses of \<open>unquote\<close>, \<open>posixpath.normpath\<close> and \<open>urljoin\<close>; CountingProxy has the
  ledger with its transactions, the checks of a request, forwarding and settling, and the steps of any
  number of requests in the proxy's threads with crashes and restarts (an inductive relation);
  ProxySystem has the invariant of its reachable states.

  Night. NightScheduler (\<open>m53_night_scheduler.py\<close>): the persistent state of a night of work shared by
  several programs, its validator, and each method as a transaction on the state file; NightSystem: the
  well-formed states, what every operation keeps, the histories of operations; NightRounds: whole rounds
  of selection, execution (a parameter, which may itself call the scheduler) and completion.

  Properties. Examples holds concrete inputs, evaluated in the kernel. AuthorityProperties: what ALLOW
  and a lease guarantee. PermitProperties: issuance, verification, binding by signature, single use under
  interleaving, the rate limit. EvidenceProperties: appending keeps the journals valid, tampering is a
  digest collision. SessionProperties: breaker, loop, plan and queue. OrchestratorProperties: gates,
  run permit, settlement, replay, accounting, the history of actions, the outcome of a campaign.
  ChainProperties: from a plan item through the broker's permit to the worker's proof, and grants.
  NightProperties: conservation of work, selection, service of every ready program, termination of the
  rounds, and the way of a target's 429 through the proxy's ledger into a program's backoff.
  TargetProperties: the canonical target, redaction, discovery. ObservationProperties: one request per
  permit, what it presupposes, what a completed observation leaves and a lost one does not. FrontierProperties: the
  crawl, the ranking, planned items, stages. CapabilityProperties: what a granted observation presupposes and
  records. ScopeProperties: what a compiled scope permits, and where it misreads. ProxyProperties:
  what reaches the network, how much of it, at what rate, and that the ledger tells.

  Conventions. A raised exception is \<open>Inl\<close> of a \<open>py_error\<close> with its message; state is passed
  explicitly and returned with the value or the error, so what an exception leaves behind is
  visible. Clocks, random identifiers, file contents and the outside world (executors, adapters)
  are arguments. \<open>now\<close> arguments that default to the clock are options. Within one
  store operation of a campaign the timestamps recorded are the one argument \<open>now\<close>. Floats are
  rationals: rounding of rates and scores is exact, except \<open>round(x, 3)\<close>, which is defined.
  Python integers are \<open>int\<close>; the words of SHA-256 are 32 bits wide and wrap. Dictionaries are association
  lists, so their order is the program's. No definition needs fuel: the weighted round robin of the
  scheduler terminates by a measure on its lanes, the controlled loop by the queue it consumes, a
  night's rounds by the pending work.
  Nothing is assumed of SHA-256 beyond its definition: where two texts could share a digest, the
  theorems exhibit the two texts.

  Not modelled. Parsing of YAML and HTML pages, the sockets of the observation's
  transport and of the proxy, browsers, containers and
  worker processes, the command line and report rendering: their effects are outside the process. The
  JSON schema coercions of pydantic are left out, the records hold validated values; parsing of a
  JSON document is the three cases missing, rejected and parsed. Strings are sequences of
  bytes, so case folding covers ASCII.
\<close>

end
